(* ===== verification/Prelude.thy ===== *)
theory Prelude
  imports Main
begin

text \<open>
  Prelude of the development: the named collections of simplification rules the component
  theories share, the error sum with its bind, a stable sort driven by a comparison function
  (\<open>Array.prototype.sort\<close>), the lemmas on lists several components need, and the two
  locales every stateful component is proved correct through: \<open>event_system\<close> (a step
  function that keeps an invariant) and its extension \<open>quiescent_system\<close> (when nothing is
  pending, the busy marks are gone).
\<close>

named_theorems step_defs \<open>definitions of the operations of a component\<close>
named_theorems view_defs \<open>definitions of what a component shows\<close>

subsection \<open>Errors as values\<close>

definition bind_sum :: "'e + 'a \<Rightarrow> ('a \<Rightarrow> 'e + 'b) \<Rightarrow> 'e + 'b" where
  "bind_sum r f = (case r of Inl e \<Rightarrow> Inl e | Inr a \<Rightarrow> f a)"

lemma bind_sum_simps [simp]:
  "bind_sum (Inl e) f = Inl e"
  "bind_sum (Inr a) f = f a"
  by (simp_all add: bind_sum_def)

lemma bind_sum_Inr_iff [simp]:
  "bind_sum r f = Inr b \<longleftrightarrow> (\<exists>a. r = Inr a \<and> f a = Inr b)"
  by (cases r) auto

lemma bind_sum_assoc: "bind_sum (bind_sum r f) g = bind_sum r (\<lambda>a. bind_sum (f a) g)"
  by (cases r) auto

subsection \<open>Nullish values\<close>

text \<open>
  \<open>x ?? d\<close>: the left operand unless it is \<open>null\<close> or \<open>undefined\<close>, which the model
  writes \<open>None\<close>.
\<close>

definition nullish :: "'a option \<Rightarrow> 'a \<Rightarrow> 'a" where
  "nullish x d = (case x of None \<Rightarrow> d | Some a \<Rightarrow> a)"

lemma nullish_simps [simp]:
  "nullish None d = d"
  "nullish (Some a) d = a"
  by (simp_all add: nullish_def)

text \<open>\<open>a || b\<close> on strings: the right operand when the left one is empty.\<close>

definition or_str :: "string \<Rightarrow> string \<Rightarrow> string" where
  "or_str a b = (if a = [] then b else a)"

lemma or_str_simps [simp]:
  "or_str [] b = b"
  "or_str (c # cs) b = c # cs"
  by (simp_all add: or_str_def)

subsection \<open>Lists\<close>

text \<open>\<open>Array.prototype.slice(-n)\<close> with \<open>n > 0\<close>: the last \<open>n\<close> elements.\<close>

definition slice_last :: "nat \<Rightarrow> 'a list \<Rightarrow> 'a list" where
  "slice_last n xs = drop (length xs - n) xs"

lemma length_slice_last [simp]: "length (slice_last n xs) = min n (length xs)"
  by (simp add: slice_last_def)

lemma set_slice_last: "set (slice_last n xs) \<subseteq> set xs"
  by (simp add: slice_last_def set_drop_subset)

lemma distinct_slice_last [simp]: "distinct xs \<Longrightarrow> distinct (slice_last n xs)"
  by (simp add: slice_last_def)

lemma slice_last_snoc: "0 < n \<Longrightarrow> slice_last n (xs @ [x]) = slice_last (n - 1) xs @ [x]"
  by (simp add: slice_last_def)

lemma length_filter_bound [simp]: "length xs \<le> n \<Longrightarrow> length (filter P xs) \<le> n"
  using length_filter_le [of P xs] by linarith

text \<open>\<open>arr.filter((_, i) => i !== n)\<close>.\<close>

definition remove_at :: "nat \<Rightarrow> 'a list \<Rightarrow> 'a list" where
  "remove_at n xs = take n xs @ drop (Suc n) xs"

lemma length_remove_at: "length (remove_at n xs) = (if n < length xs then length xs - 1 else length xs)"
  by (simp add: remove_at_def)

lemma remove_at_0 [simp]: "remove_at 0 (x # xs) = xs"
  by (simp add: remove_at_def)

lemma remove_at_beyond [simp]: "length xs \<le> n \<Longrightarrow> remove_at n xs = xs"
  by (simp add: remove_at_def)

lemma remove_at_last [simp]: "remove_at (length xs) (xs @ [x]) = xs"
  by (simp add: remove_at_def)

lemma set_remove_at: "set (remove_at n xs) \<subseteq> set xs"
  by (auto simp: remove_at_def dest: in_set_takeD in_set_dropD)

lemma in_set_remove_at: "x \<in> set xs \<Longrightarrow> x \<noteq> xs ! n \<Longrightarrow> x \<in> set (remove_at n xs)"
proof -
  assume x: "x \<in> set xs" and ne: "x \<noteq> xs ! n"
  show "x \<in> set (remove_at n xs)"
  proof (cases "n < length xs")
    case True
    then have "set xs = set (take n xs @ xs ! n # drop (Suc n) xs)"
      by (metis id_take_nth_drop)
    with x ne show ?thesis by (auto simp: remove_at_def)
  next
    case False
    with x show ?thesis by simp
  qed
qed

lemma sum_list_remove_at:
  fixes f :: "'a \<Rightarrow> nat"
  assumes "n < length xs"
  shows "sum_list (map f xs) = f (xs ! n) + sum_list (map f (remove_at n xs))"
proof -
  have "xs = take n xs @ xs ! n # drop (Suc n) xs" using assms by (rule id_take_nth_drop)
  then have "sum_list (map f xs) = sum_list (map f (take n xs @ xs ! n # drop (Suc n) xs))" by simp
  then show ?thesis by (simp add: remove_at_def)
qed

text \<open>\<open>arr.find(p)\<close>; \<open>None\<close> is \<open>undefined\<close>.\<close>

lemma find_Some_iff_first:
  "List.find P xs = Some x \<Longrightarrow> x \<in> set xs \<and> P x"
  by (auto simp: find_Some_iff)

subsection \<open>Stable sorting by a comparison function\<close>

text \<open>
  \<open>xs.sort(cmp)\<close> is stable: an element goes in front of the first one it compares strictly
  smaller than... or equal to, when it stood before it. Inserting from the right, an element is
  put before the first element it is not greater than.
\<close>

fun insert_by :: "('a \<Rightarrow> 'a \<Rightarrow> int) \<Rightarrow> 'a \<Rightarrow> 'a list \<Rightarrow> 'a list" where
  "insert_by cmp x [] = [x]"
| "insert_by cmp x (y # ys) = (if cmp x y \<le> 0 then x # y # ys else y # insert_by cmp x ys)"

definition sort_by :: "('a \<Rightarrow> 'a \<Rightarrow> int) \<Rightarrow> 'a list \<Rightarrow> 'a list" where
  "sort_by cmp xs = foldr (insert_by cmp) xs []"

lemma set_insert_by [simp]: "set (insert_by cmp x xs) = insert x (set xs)"
  by (induction xs) auto

lemma length_insert_by [simp]: "length (insert_by cmp x xs) = Suc (length xs)"
  by (induction xs) auto

lemma distinct_insert_by: "distinct (insert_by cmp x xs) \<longleftrightarrow> x \<notin> set xs \<and> distinct xs"
  by (induction xs) auto

lemma sort_by_Cons: "sort_by cmp (x # xs) = insert_by cmp x (sort_by cmp xs)"
  by (simp add: sort_by_def)

lemma set_sort_by [simp]: "set (sort_by cmp xs) = set xs"
  by (induction xs) (auto simp: sort_by_def)

lemma length_sort_by [simp]: "length (sort_by cmp xs) = length xs"
  by (induction xs) (auto simp: sort_by_def)

lemma distinct_sort_by [simp]: "distinct (sort_by cmp xs) \<longleftrightarrow> distinct xs"
  by (induction xs) (auto simp: sort_by_Cons distinct_insert_by sort_by_def [of _ "[]"])

text \<open>
  The contract of a comparison function: it is total and its \<open>\<le>\<close> is transitive. Under it,
  sorting sorts.
\<close>

locale comparison =
  fixes cmp :: "'a \<Rightarrow> 'a \<Rightarrow> int"
  assumes cmp_total: "cmp x y \<le> 0 \<or> cmp y x \<le> 0"
    and cmp_trans: "cmp x y \<le> 0 \<Longrightarrow> cmp y z \<le> 0 \<Longrightarrow> cmp x z \<le> 0"
begin

lemma sorted_insert_by:
  "sorted_wrt (\<lambda>a b. cmp a b \<le> 0) xs \<Longrightarrow> sorted_wrt (\<lambda>a b. cmp a b \<le> 0) (insert_by cmp x xs)"
proof (induction xs)
  case Nil
  then show ?case by simp
next
  case (Cons y ys)
  then show ?case
    using cmp_total [of x y] by (auto intro: cmp_trans)
qed

lemma sorted_sort_by: "sorted_wrt (\<lambda>a b. cmp a b \<le> 0) (sort_by cmp xs)"
  by (induction xs) (auto simp: sort_by_Cons sorted_insert_by sort_by_def [of _ "[]"])

lemma sort_by_sorted_id:
  "sorted_wrt (\<lambda>a b. cmp a b \<le> 0) xs \<Longrightarrow> sort_by cmp xs = xs"
proof (induction xs)
  case Nil
  then show ?case by (simp add: sort_by_def)
next
  case (Cons x xs)
  then have "sort_by cmp xs = xs" by simp
  with Cons.prems show ?case by (cases xs) (auto simp: sort_by_Cons)
qed

end

subsection \<open>Event systems\<close>

text \<open>
  A stateful component is a step function over its events (user actions, replies of the
  server, timers). The locale lifts a one-step invariant to every run.
\<close>

definition run :: "('s \<Rightarrow> 'e \<Rightarrow> 's) \<Rightarrow> 's \<Rightarrow> 'e list \<Rightarrow> 's" where
  "run step s es = foldl step s es"

lemma run_simps [simp]:
  "run step s [] = s"
  "run step s (e # es) = run step (step s e) es"
  by (simp_all add: run_def)

lemma run_append [simp]: "run step s (es @ fs) = run step (run step s es) fs"
  by (simp add: run_def)

locale event_system =
  fixes step :: "'s \<Rightarrow> 'e \<Rightarrow> 's"
    and inv :: "'s \<Rightarrow> bool"
  assumes inv_step: "inv s \<Longrightarrow> inv (step s e)"
begin

lemma inv_run: "inv s \<Longrightarrow> inv (run step s es)"
  by (induction es arbitrary: s) (auto intro: inv_step)

end

text \<open>The same for runs whose events all keep a condition.\<close>

locale guarded_system =
  fixes step :: "'s \<Rightarrow> 'e \<Rightarrow> 's"
    and inv :: "'s \<Rightarrow> bool"
    and ok :: "'e \<Rightarrow> bool"
  assumes inv_guarded: "inv s \<Longrightarrow> ok e \<Longrightarrow> inv (step s e)"
begin

lemma inv_guarded_run: "inv s \<Longrightarrow> list_all ok es \<Longrightarrow> inv (run step s es)"
  by (induction es arbitrary: s) (auto intro: inv_guarded)

end

sublocale event_system \<subseteq> guarded: guarded_system step inv "\<lambda>_. True"
  by unfold_locales (rule inv_step)

text \<open>
  Every mark is waited for: some request of the list carries it. The lemmas say how a list of
  requests may change under a set of marks.
\<close>

definition waits :: "'m set \<Rightarrow> ('q \<Rightarrow> 'm option) \<Rightarrow> 'q list \<Rightarrow> bool" where
  "waits ms key qs \<longleftrightarrow> (\<forall>m \<in> ms. \<exists>q \<in> set qs. key q = Some m)"

lemma waits_empty [simp]: "waits {} key qs"
  by (simp add: waits_def)

lemma waits_append: "waits ms key qs \<Longrightarrow> waits ms key (qs @ ps)"
  by (auto simp: waits_def)

lemma waits_insert: "waits ms key qs \<Longrightarrow> key q = Some m \<Longrightarrow> waits (insert m ms) key (qs @ [q])"
  by (auto simp: waits_def)

lemma waits_mono: "waits ms key qs \<Longrightarrow> ns \<subseteq> ms \<Longrightarrow> waits ns key qs"
  by (auto simp: waits_def)

lemma waits_remove:
  "waits ms key qs \<Longrightarrow> waits (ms - set_option (key (qs ! k))) key (remove_at k qs)"
  unfolding waits_def
proof
  fix m
  assume w: "\<forall>m \<in> ms. \<exists>q \<in> set qs. key q = Some m" and m: "m \<in> ms - set_option (key (qs ! k))"
  then obtain q where "q \<in> set qs" "key q = Some m" by blast
  moreover with m have "q \<noteq> qs ! k" by auto
  ultimately show "\<exists>q \<in> set (remove_at k qs). key q = Some m" by (blast intro: in_set_remove_at)
qed

text \<open>
  A component that marks the work it waits for (a spinner, a busy set): every mark has a
  pending request behind it, so no mark is left once nothing is pending.
\<close>

locale quiescent_system = event_system step inv
  for step :: "'s \<Rightarrow> 'e \<Rightarrow> 's" and inv :: "'s \<Rightarrow> bool" +
  fixes pending :: "'s \<Rightarrow> 'p list"
    and marks :: "'s \<Rightarrow> 'm set"
    and mark_of :: "'p \<Rightarrow> 'm option"
  assumes marks_pending: "inv s \<Longrightarrow> m \<in> marks s \<Longrightarrow> \<exists>p \<in> set (pending s). mark_of p = Some m"
begin

lemma quiescent_no_marks:
  "inv s \<Longrightarrow> pending (run step s es) = [] \<Longrightarrow> marks (run step s es) = {}"
  using marks_pending [of "run step s es"] inv_run [of s es] by fastforce

lemma marks_justified:
  "inv s \<Longrightarrow> m \<in> marks (run step s es) \<Longrightarrow>
     \<exists>p \<in> set (pending (run step s es)). mark_of p = Some m"
  using marks_pending inv_run by blast

end

end
