(* ===== verification/JsNumber.thy ===== *)
theory JsNumber
  imports JsString
begin

text \<open>
  The numbers of the language. A finite number is the decimal \<open>m * 10 ^ e\<close> that the language
  prints for it, with no trailing zero in \<open>m\<close>, so that equal numbers are equal terms. Decimal
  literals of up to fifteen significant digits, and integers up to \<open>2 ^ 53\<close>, are represented
  exactly by binary64; the rounding of longer literals is not modelled. Negative zero is zero.
\<close>

datatype number = NaN | Infinity bool | Dec int int

subsection \<open>Normal form\<close>

function strip10 :: "int \<Rightarrow> int \<Rightarrow> int \<times> int" where
  "strip10 m e = (if m = 0 then (0, 0) else if m mod 10 = 0 then strip10 (m div 10) (e + 1) else (m, e))"
  by pat_completeness auto
termination
  by (relation "measure (\<lambda>(m, e). nat \<bar>m\<bar>)") auto

declare strip10.simps [simp del]

definition dec :: "int \<Rightarrow> int \<Rightarrow> number" where
  "dec m e = (case strip10 m e of (m', e') \<Rightarrow> Dec m' e')"

fun finite_num :: "number \<Rightarrow> bool" where
  "finite_num (Dec m e) \<longleftrightarrow> (if m = 0 then e = 0 else m mod 10 \<noteq> 0)"
| "finite_num _ \<longleftrightarrow> False"

definition num :: "int \<Rightarrow> number" where
  "num n = dec n 0"

lemma strip10_normal: "m mod 10 \<noteq> 0 \<Longrightarrow> strip10 m e = (m, e)"
  by (subst strip10.simps) auto

lemma strip10_shift: "m \<noteq> 0 \<Longrightarrow> strip10 (m * 10 ^ k) e = strip10 m (e + int k)"
proof (induction k arbitrary: e)
  case (Suc k)
  then show ?case
    by (subst strip10.simps) (simp add: algebra_simps)
qed simp

lemma finite_dec: "finite_num (dec m e)"
proof (induction m e rule: strip10.induct)
  case (1 m e)
  then show ?case
    by (cases "m = 0 \<or> m mod 10 \<noteq> 0") (auto simp: dec_def strip10.simps [of m e])
qed

lemma dec_finite: "finite_num (Dec m e) \<Longrightarrow> dec m e = Dec m e"
  by (auto simp: dec_def strip10.simps [of m e] split: if_splits)

lemma dec_0 [simp]: "dec 0 e = Dec 0 0"
  by (simp add: dec_def strip10.simps [of 0])

lemma dec_shift: "finite_num (Dec m e) \<Longrightarrow> m \<noteq> 0 \<Longrightarrow> dec (m * 10 ^ k) (e - int k) = Dec m e"
  by (simp add: dec_def strip10_shift strip10_normal split: if_splits)

lemma finite_num_num [simp]: "finite_num (num n)"
  by (simp add: num_def finite_dec)

lemma strip10_value:
  "strip10 m e = (m', e') \<Longrightarrow> m \<noteq> 0 \<Longrightarrow> e \<le> e' \<and> m = m' * 10 ^ nat (e' - e)"
proof (induction m e rule: strip10.induct)
  case (1 m e)
  show ?case
  proof (cases "m mod 10 = 0")
    case True
    with 1 have "e + 1 \<le> e' \<and> m div 10 = m' * 10 ^ nat (e' - (e + 1))"
      by (auto simp: strip10.simps [of m e])
    moreover have "m = m div 10 * 10" using True by auto
    moreover from calculation have "nat (e' - e) = Suc (nat (e' - (e + 1)))" by auto
    ultimately show ?thesis by (simp add: algebra_simps)
  next
    case False
    with 1 show ?thesis by (auto simp: strip10.simps [of m e])
  qed
qed

text \<open>The integer a number is, if it is one.\<close>

fun int_of :: "number \<Rightarrow> int option" where
  "int_of (Dec m e) = (if 0 \<le> e then Some (m * 10 ^ nat e) else None)"
| "int_of _ = None"

lemma int_of_num [simp]: "int_of (num n) = Some n"
proof (cases "n = 0")
  case False
  obtain m e where me: "strip10 n 0 = (m, e)" by force
  with strip10_value [OF me False] show ?thesis by (simp add: num_def dec_def)
qed (simp add: num_def)

lemma num_inj [simp]: "num m = num n \<longleftrightarrow> m = n"
  by (metis int_of_num option.inject)

lemma num_eq_zero_iff [simp]: "num n = Dec 0 0 \<longleftrightarrow> n = 0"
  by (metis dec_0 num_def num_inj)

subsection \<open>Order and rounding\<close>

definition scaled :: "int \<Rightarrow> int \<Rightarrow> int \<Rightarrow> int" where
  "scaled m e b = m * 10 ^ nat (e - b)"

fun num_le :: "number \<Rightarrow> number \<Rightarrow> bool" where
  "num_le (Dec m e) (Dec m' e') \<longleftrightarrow> scaled m e (min e e') \<le> scaled m' e' (min e e')"
| "num_le (Infinity neg) (Dec _ _) \<longleftrightarrow> neg"
| "num_le (Dec _ _) (Infinity neg) \<longleftrightarrow> \<not> neg"
| "num_le (Infinity a) (Infinity b) \<longleftrightarrow> a \<or> \<not> b"
| "num_le NaN _ \<longleftrightarrow> False"
| "num_le _ NaN \<longleftrightarrow> False"

definition num_lt :: "number \<Rightarrow> number \<Rightarrow> bool" where
  "num_lt a b \<longleftrightarrow> num_le a b \<and> a \<noteq> b"

lemma num_le_num [simp]: "num_le (num m) (num n) \<longleftrightarrow> m \<le> n"
proof -
  obtain a e b f where me: "strip10 m 0 = (a, e)" "strip10 n 0 = (b, f)" by force
  have v: "0 \<le> g \<and> c * 10 ^ nat g = k" if "strip10 k 0 = (c, g)" for k c g
    using strip10_value [OF that] that by (cases "k = 0") (auto simp: strip10.simps [of 0])
  define l where "l = min e f"
  have l: "0 \<le> l" "l \<le> e" "l \<le> f" using v [OF me(1)] v [OF me(2)] by (auto simp: l_def)
  have s: "scaled c g l * 10 ^ nat l = k" if "strip10 k 0 = (c, g)" "l \<le> g" for k c g
    using v [OF that(1)] that(2) l(1)
    by (simp add: scaled_def mult.assoc flip: power_add nat_add_distrib)
  have "scaled a e l \<le> scaled b f l \<longleftrightarrow> scaled a e l * 10 ^ nat l \<le> scaled b f l * 10 ^ nat l"
    by simp
  also have "\<dots> \<longleftrightarrow> m \<le> n" by (simp only: s [OF me(1) l(2)] s [OF me(2) l(3)])
  finally show ?thesis using me by (simp add: num_def dec_def l_def)
qed

text \<open>\<open>Math.round\<close>: the nearest integer, halves upwards.\<close>

fun math_round :: "number \<Rightarrow> number" where
  "math_round (Dec m e) =
     (if 0 \<le> e then Dec m e
      else (let d = 10 ^ nat (- e) in num ((2 * m + d) div (2 * d))))"
| "math_round x = x"

lemma math_round_num [simp]: "math_round (num n) = num n"
proof -
  obtain m e where me: "strip10 n 0 = (m, e)" by force
  have "0 \<le> e"
    using strip10_value [OF me] me by (cases "n = 0") (auto simp: strip10.simps [of 0])
  with me show ?thesis by (simp add: num_def dec_def)
qed

subsection \<open>Printing\<close>

definition show_digits :: "string \<Rightarrow> int \<Rightarrow> string" where
  "show_digits ds n =
     (let k = int (length ds) in
      if k \<le> n \<and> n \<le> 21 then ds @ replicate (nat (n - k)) (CHR ''0'')
      else if 0 < n \<and> n \<le> 21 then take (nat n) ds @ CHR ''.'' # drop (nat n) ds
      else if - 6 < n \<and> n \<le> 0 then ''0.'' @ replicate (nat (- n)) (CHR ''0'') @ ds
      else (let ex = (if n - 1 < 0 then ''e-'' else ''e+'') @ show_nat (nat \<bar>n - 1\<bar>) in
            case ds of
              [] \<Rightarrow> ex
            | [d] \<Rightarrow> d # ex
            | d # rest \<Rightarrow> d # CHR ''.'' # rest @ ex))"

fun number_toString :: "number \<Rightarrow> string" where
  "number_toString NaN = ''NaN''"
| "number_toString (Infinity neg) = (if neg then ''-Infinity'' else ''Infinity'')"
| "number_toString (Dec m e) =
     (if m = 0 then ''0''
      else (let ds = show_nat (nat \<bar>m\<bar>);
                body = show_digits ds (int (length ds) + e)
            in if m < 0 then CHR ''-'' # body else body))"

subsection \<open>Reading decimal literals\<close>

text \<open>The longest prefix of digits, and what follows.\<close>

definition span_digits :: "string \<Rightarrow> string \<times> string" where
  "span_digits s = (takeWhile is_digit s, dropWhile is_digit s)"

text \<open>A fraction and an exponent are optional; each needs a digit when its mark is there.\<close>

definition read_frac :: "string \<Rightarrow> (string \<times> string) option" where
  "read_frac s =
     (case s of
        c # cs \<Rightarrow>
          if c = CHR ''.''
          then (case span_digits cs of (ds, r) \<Rightarrow> if ds = [] then None else Some (ds, r))
          else Some ([], s)
      | [] \<Rightarrow> Some ([], []))"

definition read_exp :: "string \<Rightarrow> (int \<times> string) option" where
  "read_exp s =
     (case s of
        c # cs \<Rightarrow>
          if c = CHR ''e'' \<or> c = CHR ''E''
          then (let neg = (cs \<noteq> [] \<and> hd cs = CHR ''-'');
                    signed = (cs \<noteq> [] \<and> (hd cs = CHR ''-'' \<or> hd cs = CHR ''+''));
                    body = (if signed then tl cs else cs)
                in case span_digits body of
                     (ds, r) \<Rightarrow>
                       if ds = [] then None
                       else Some ((if neg then - int (read_nat ds) else int (read_nat ds)), r))
          else Some (0, s)
      | [] \<Rightarrow> Some (0, []))"

text \<open>A JSON number: an optional minus, an integer part without leading zeros, and the rest.\<close>

definition read_unsigned :: "string \<Rightarrow> (number \<times> string) option" where
  "read_unsigned s =
     (case span_digits s of
        (ds, r) \<Rightarrow>
          if ds = [] \<or> (hd ds = CHR ''0'' \<and> tl ds \<noteq> []) then None
          else (case read_frac r of
                  None \<Rightarrow> None
                | Some (fs, r') \<Rightarrow>
                    (case read_exp r' of
                       None \<Rightarrow> None
                     | Some (ex, r'') \<Rightarrow>
                         Some (dec (int (read_nat (ds @ fs))) (ex - int (length fs)), r''))))"

fun negate :: "number \<Rightarrow> number" where
  "negate (Dec m e) = Dec (- m) e"
| "negate (Infinity neg) = Infinity (\<not> neg)"
| "negate NaN = NaN"

definition read_number :: "string \<Rightarrow> (number \<times> string) option" where
  "read_number s =
     (case s of
        c # cs \<Rightarrow> if c = CHR ''-'' then map_option (map_prod negate id) (read_unsigned cs) else read_unsigned s
      | [] \<Rightarrow> None)"

subsection \<open>Printed numbers read back\<close>

definition num_stop :: "string \<Rightarrow> bool" where
  "num_stop r \<longleftrightarrow> r = [] \<or> (\<not> is_digit (hd r) \<and> hd r \<notin> {CHR ''.'', CHR ''e'', CHR ''E''})"

lemma read_nat_append: "read_nat (a @ b) = read_nat a * 10 ^ length b + read_nat b"
proof (induction b rule: rev_induct)
  case (snoc c b)
  have "read_nat (a @ b @ [c]) = 10 * read_nat (a @ b) + digit_val c"
    by (simp add: read_nat_def flip: append_assoc)
  with snoc show ?case by (simp add: read_nat_def algebra_simps)
qed (simp add: read_nat_def)

lemma read_nat_zeros [simp]: "read_nat (replicate j (CHR ''0'')) = 0"
  by (induction j) (simp_all add: read_nat_def digit_val_def)

lemma span_digits_append:
  "\<forall>c \<in> set ds. is_digit c \<Longrightarrow> r = [] \<or> \<not> is_digit (hd r) \<Longrightarrow> span_digits (ds @ r) = (ds, r)"
  by (induction ds) (cases r; simp add: span_digits_def)+

lemma is_digit_zero [simp]: "is_digit (CHR ''0'')" "\<not> is_digit (CHR ''.'')" "\<not> is_digit (CHR ''e'')"
  "\<not> is_digit (CHR ''-'')" "\<not> is_digit (CHR ''+'')"
  by (simp_all add: is_digit_def)

lemma read_frac_none: "num_stop r \<Longrightarrow> read_frac r = Some ([], r)"
  by (cases r) (auto simp: read_frac_def num_stop_def)

lemma read_frac_exp: "read_frac (CHR ''e'' # r) = Some ([], CHR ''e'' # r)"
  by (simp add: read_frac_def)

lemma read_frac_some:
  "\<forall>c \<in> set ds. is_digit c \<Longrightarrow> ds \<noteq> [] \<Longrightarrow> r = [] \<or> \<not> is_digit (hd r) \<Longrightarrow>
     read_frac (CHR ''.'' # ds @ r) = Some (ds, r)"
  by (simp add: read_frac_def span_digits_append)

lemma read_exp_none: "num_stop r \<Longrightarrow> read_exp r = Some (0, r)"
  by (cases r) (auto simp: read_exp_def num_stop_def)

lemma num_stopD: "num_stop r \<Longrightarrow> r = [] \<or> \<not> is_digit (hd r)"
  by (auto simp: num_stop_def)

lemma read_exp_some:
  assumes "num_stop r"
  shows "read_exp (CHR ''e'' # (if n < 0 then CHR ''-'' else CHR ''+'') # show_nat (nat \<bar>n\<bar>) @ r) = Some (n, r)"
  using assms by (auto simp: read_exp_def span_digits_append show_nat_digits num_stopD)

lemma read_unsigned_parts:
  assumes "\<forall>c \<in> set ip. is_digit c" "ip \<noteq> []" "hd ip \<noteq> CHR ''0'' \<or> tl ip = []"
    and "r = [] \<or> \<not> is_digit (hd r)"
    and "read_frac r = Some (fs, r')" "read_exp r' = Some (ex, r'')"
  shows "read_unsigned (ip @ r) = Some (dec (int (read_nat (ip @ fs))) (ex - int (length fs)), r'')"
  using assms by (auto simp: read_unsigned_def span_digits_append)

text \<open>
  The four shapes a positive number prints in: an integer, a fraction, a small fraction, and an
  exponent with one or more digits.
\<close>

lemma read_show_digits:
  assumes fin: "finite_num (Dec (int n) e)" and n: "0 < n" and stop: "num_stop r"
  shows "read_unsigned (show_digits (show_nat n) (int (length (show_nat n)) + e) @ r) =
    Some (Dec (int n) e, r)"
proof -
  let ?ds = "show_nat n"
  let ?k = "int (length ?ds)"
  let ?n = "?k + e"
  have dig: "\<forall>c \<in> set ?ds. is_digit c" by (rule show_nat_digits)
  have hd0: "hd ?ds \<noteq> CHR ''0''" using n by (simp add: show_nat_no_leading_zero)
  note rd = num_stopD [OF stop]
  consider "?k \<le> ?n" "?n \<le> 21" | "0 < ?n" "?n < ?k" "?n \<le> 21" | "-6 < ?n" "?n \<le> 0"
    | "\<not> (?k \<le> ?n \<and> ?n \<le> 21)" "\<not> (0 < ?n \<and> ?n \<le> 21)" "\<not> (-6 < ?n \<and> ?n \<le> 0)"
    by linarith
  then show ?thesis
  proof cases
    case 1
    let ?z = "replicate (nat e) (CHR ''0'')"
    have "read_unsigned ((?ds @ ?z) @ r) =
        Some (dec (int (read_nat ((?ds @ ?z) @ []))) (0 - int (length ([] :: string))), r)"
      by (rule read_unsigned_parts [OF _ _ _ rd read_frac_none [OF stop] read_exp_none [OF stop]])
         (use dig hd0 in auto)
    moreover have "dec (int n * 10 ^ nat e) (e - int (nat e)) = Dec (int n) e"
      using n by (intro dec_shift [OF fin]) auto
    ultimately show ?thesis using 1 by (simp add: show_digits_def Let_def read_nat_append)
  next
    case 2
    let ?a = "take (nat ?n) ?ds" and ?b = "drop (nat ?n) ?ds"
    have ab: "\<forall>c \<in> set ?a. is_digit c" "\<forall>c \<in> set ?b. is_digit c" "?b \<noteq> []" "?a \<noteq> []"
      using dig 2 by (auto dest: in_set_takeD in_set_dropD)
    have "hd ?a \<noteq> CHR ''0''" using 2 hd0 by (simp add: hd_take)
    then have "read_unsigned (?a @ CHR ''.'' # ?b @ r) =
        Some (dec (int (read_nat (?a @ ?b))) (0 - int (length ?b)), r)"
      by (intro read_unsigned_parts [OF ab(1,4) _ _ read_frac_some [OF ab(2,3) rd] read_exp_none [OF stop]])
         auto
    moreover have "0 - int (length ?b) = e" using 2 by simp
    ultimately show ?thesis
      using 2 dec_finite [OF fin] by (simp add: show_digits_def Let_def)
  next
    case 3
    let ?z = "replicate (nat (- ?n)) (CHR ''0'')"
    have "read_unsigned (''0'' @ CHR ''.'' # (?z @ ?ds) @ r) =
        Some (dec (int (read_nat (''0'' @ ?z @ ?ds))) (0 - int (length (?z @ ?ds))), r)"
      by (rule read_unsigned_parts [OF _ _ _ _ read_frac_some [OF _ _ rd] read_exp_none [OF stop]])
         (use dig in auto)
    moreover have "e < 0" using 3 show_nat_ne [of n] by (cases ?ds) auto
    moreover have "0 - int (length (?z @ ?ds)) = e" using 3 by simp
    moreover have "read_nat (''0'' @ ?z @ ?ds) = n"
      by (simp only: read_nat_append read_nat_zeros read_show_nat) (simp add: read_nat_def digit_val_def)
    ultimately show ?thesis
      using 3 dec_finite [OF fin] by (simp add: show_digits_def Let_def)
  next
    case 4
    let ?ex = "CHR ''e'' # (if ?n - 1 < 0 then CHR ''-'' else CHR ''+'') # show_nat (nat \<bar>?n - 1\<bar>)"
    obtain d rest where ds: "?ds = d # rest" by (cases ?ds) auto
    have d: "\<forall>c \<in> set [d]. is_digit c" "\<forall>c \<in> set rest. is_digit c" "hd [d] \<noteq> CHR ''0'' \<or> tl [d] = []"
      using dig ds by auto
    note ex = read_exp_some [OF stop, of "?n - 1"]
    have "(if ?n - 1 < 0 then ''e-'' else ''e+'') @ show_nat (nat \<bar>?n - 1\<bar>) = ?ex" by simp
    then have sd: "show_digits ?ds ?n =
        (case ?ds of [] \<Rightarrow> ?ex | [d] \<Rightarrow> d # ?ex | d # rest \<Rightarrow> d # CHR ''.'' # rest @ ?ex)"
      by (simp only: show_digits_def Let_def 4 if_False)
    show ?thesis
    proof (cases "rest = []")
      case True
      have "read_unsigned ([d] @ (?ex @ r)) =
          Some (dec (int (read_nat ([d] @ []))) ((?n - 1) - int (length ([] :: string))), r)"
        by (rule read_unsigned_parts [OF d(1) _ d(3)]) (use ex in \<open>auto simp: read_frac_exp\<close>)
      moreover have "?n - 1 = e" using True ds by simp
      moreover have "read_nat [d] = n" using True ds read_show_nat [of n] by simp
      ultimately show ?thesis
        unfolding sd using ds True dec_finite [OF fin] by simp
    next
      case False
      have "read_unsigned ([d] @ (CHR ''.'' # rest @ (?ex @ r))) =
          Some (dec (int (read_nat ([d] @ rest))) ((?n - 1) - int (length rest)), r)"
        by (rule read_unsigned_parts [OF d(1) _ d(3) _ read_frac_some [OF d(2) False]])
           (use ex in auto)
      moreover have "?n - 1 - int (length rest) = e" using ds by simp
      moreover have "read_nat ([d] @ rest) = n" using ds read_show_nat [of n] by simp
      ultimately show ?thesis
        unfolding sd using ds False dec_finite [OF fin] by (cases rest) simp_all
    qed
  qed
qed

lemma show_digits_hd: "ds \<noteq> [] \<Longrightarrow> \<forall>c \<in> set ds. is_digit c \<Longrightarrow>
  show_digits ds n \<noteq> [] \<and> is_digit (hd (show_digits ds n))"
  by (cases ds) (auto simp: show_digits_def Let_def hd_append hd_take split: list.splits)

lemma read_number_toString:
  assumes "finite_num x" "num_stop r"
  shows "read_number (number_toString x @ r) = Some (x, r)"
proof (cases x)
  case (Dec m e)
  consider "m = 0" | "0 < m" | "m < 0" by linarith
  then show ?thesis
  proof cases
    case 1
    have "read_unsigned (''0'' @ r) = Some (dec (int (read_nat (''0'' @ []))) (0 - int (length ([] :: string))), r)"
      by (rule read_unsigned_parts [OF _ _ _ num_stopD [OF assms(2)] read_frac_none [OF assms(2)]
            read_exp_none [OF assms(2)]]) auto
    with 1 Dec assms show ?thesis by (simp add: read_number_def read_nat_def digit_val_def)
  next
    case 2
    let ?b = "show_digits (show_nat (nat m)) (int (length (show_nat (nat m))) + e)"
    have "read_unsigned (?b @ r) = Some (Dec m e, r)"
      using read_show_digits [of "nat m" e r] 2 Dec assms by auto
    moreover have "?b \<noteq> []" "hd ?b \<noteq> CHR ''-''"
      using show_digits_hd [OF show_nat_ne show_nat_digits, of "nat m"] is_digit_zero(4) by metis+
    ultimately show ?thesis using 2 Dec by (cases ?b) (auto simp: read_number_def)
  next
    case 3
    then have "finite_num (Dec (int (nat (- m))) e)"
      using assms Dec by (auto simp: zmod_zminus1_eq_if split: if_splits)
    with 3 Dec assms read_show_digits [of "nat (- m)" e r] show ?thesis
      by (simp add: read_number_def Let_def)
  qed
qed (use assms in auto)

subsection \<open>\<open>Number(s)\<close>\<close>

text \<open>
  Conversion of a text: surrounding white space is dropped, the empty text is zero, and the rest
  must be one decimal literal (sign, digits with an optional fraction, exponent), \<open>Infinity\<close>, or
  an unsigned literal in base 16, 8 or 2.
\<close>

definition base_digit :: "char \<Rightarrow> nat option" where
  "base_digit c =
     (if is_digit c then Some (digit_val c)
      else if 97 \<le> (of_char c :: nat) \<and> (of_char c :: nat) \<le> 102 then Some (of_char c - 87)
      else if 65 \<le> (of_char c :: nat) \<and> (of_char c :: nat) \<le> 70 then Some (of_char c - 55)
      else None)"

definition read_base :: "nat \<Rightarrow> string \<Rightarrow> number" where
  "read_base b s =
     (if s \<noteq> [] \<and> list_all (\<lambda>c. \<exists>d \<in> set_option (base_digit c). d < b) s
      then num (foldl (\<lambda>n c. int b * n + int (the (base_digit c))) 0 s)
      else NaN)"

definition decimal_fraction :: "string \<Rightarrow> string \<times> string" where
  "decimal_fraction r =
     (case r of
        [] \<Rightarrow> ([], [])
      | c # r' \<Rightarrow> if c = CHR ''.'' then span_digits r' else ([], r))"

definition read_decimal :: "string \<Rightarrow> number" where
  "read_decimal s =
     (if s = ''Infinity'' then Infinity False
      else (let (ip, r) = span_digits s; (fr, r') = decimal_fraction r
            in if ip = [] \<and> fr = [] then NaN
               else (case read_exp r' of
                       Some (ex, []) \<Rightarrow> dec (int (read_nat (ip @ fr))) (ex - int (length fr))
                     | _ \<Rightarrow> NaN)))"

definition toNumber :: "string \<Rightarrow> number" where
  "toNumber s =
     (case trim s of
        [] \<Rightarrow> num 0
      | c # cs \<Rightarrow>
          if c = CHR ''-'' then negate (read_decimal cs)
          else if c = CHR ''+'' then read_decimal cs
          else if c = CHR ''0'' \<and> cs \<noteq> [] \<and> hd cs \<in> {CHR ''x'', CHR ''X''} then read_base 16 (tl cs)
          else if c = CHR ''0'' \<and> cs \<noteq> [] \<and> hd cs \<in> {CHR ''o'', CHR ''O''} then read_base 8 (tl cs)
          else if c = CHR ''0'' \<and> cs \<noteq> [] \<and> hd cs \<in> {CHR ''b'', CHR ''B''} then read_base 2 (tl cs)
          else read_decimal (c # cs))"

lemma read_decimal_digits:
  assumes "\<forall>c \<in> set ds. is_digit c" "ds \<noteq> []"
  shows "read_decimal ds = num (int (read_nat ds))"
proof -
  have "span_digits (ds @ []) = (ds, [])" using assms(1) by (rule span_digits_append) simp
  moreover have "ds \<noteq> ''Infinity''" using assms by (cases ds) (auto simp: is_digit_def)
  ultimately show ?thesis
    using assms(2) by (simp add: read_decimal_def decimal_fraction_def read_exp_def num_def)
qed

lemma digit_not_ws: "is_digit c \<Longrightarrow> \<not> is_ws c"
  by (auto simp: is_digit_def is_ws_def)

lemma toNumber_show_nat [simp]: "toNumber (show_nat n) = num (int n)"
proof -
  obtain c cs where s: "show_nat n = c # cs" by (cases "show_nat n") auto
  have d: "\<forall>x \<in> set (show_nat n). is_digit x" by (rule show_nat_digits)
  then have "trim (show_nat n) = show_nat n"
    by (intro trim_id) (auto simp: digit_not_ws)
  moreover have "c \<noteq> CHR ''-''" "c \<noteq> CHR ''+''" using d s by (auto simp: is_digit_def)
  moreover have "cs = [] \<or> is_digit (hd cs)" using d s by (cases cs) auto
  then have "\<not> (cs \<noteq> [] \<and> hd cs \<in> {CHR ''x'', CHR ''X''})" "\<not> (cs \<noteq> [] \<and> hd cs \<in> {CHR ''o'', CHR ''O''})"
    "\<not> (cs \<noteq> [] \<and> hd cs \<in> {CHR ''b'', CHR ''B''})"
    by (auto simp: is_digit_def)
  moreover have "read_decimal (c # cs) = num (int n)"
    using read_decimal_digits [OF d] read_show_nat [of n] s by simp
  ultimately show ?thesis unfolding toNumber_def s by (cases cs) auto
qed

subsection \<open>\<open>(n / 1000).toFixed(1)\<close>\<close>

text \<open>
  The quotient is a binary64 number: for \<open>1 \<le> n / 1000 < 2 ^ 53\<close> it is \<open>m / 2 ^ k\<close>, the
  multiple of \<open>2 ^ - k\<close> nearest to it with ties to even, where \<open>m\<close> has 53 bits.
  \<open>toFixed(1)\<close> prints the tenth nearest to that number, the larger one of two.
\<close>

fun floor_log2 :: "nat \<Rightarrow> nat" where
  "floor_log2 n = (if n < 2 then 0 else Suc (floor_log2 (n div 2)))"

declare floor_log2.simps [simp del]

definition round_half_even :: "nat \<Rightarrow> nat \<Rightarrow> nat" where
  "round_half_even p q =
     (let d = p div q; r = p mod q
      in if 2 * r < q then d else if q < 2 * r then d + 1 else if even d then d else d + 1)"

definition thousandths_tenths :: "nat \<Rightarrow> nat" where
  "thousandths_tenths n =
     (let k = 52 - floor_log2 (n div 1000);
          m = round_half_even (n * 2 ^ k) 1000
      in (20 * m + 2 ^ k) div 2 ^ (k + 1))"

definition thousandths_toFixed1 :: "nat \<Rightarrow> string" where
  "thousandths_toFixed1 n =
     (let t = thousandths_tenths n in show_nat (t div 10) @ CHR ''.'' # show_nat (t mod 10))"

text \<open>Away from a tie, the two roundings give the tenth nearest to the exact quotient.\<close>

lemma floor_log2_bound: "n < 2 ^ Suc j \<Longrightarrow> floor_log2 n \<le> j"
proof (induction n arbitrary: j rule: floor_log2.induct)
  case (1 n)
  show ?case
  proof (cases "n < 2")
    case True
    then show ?thesis by (subst floor_log2.simps) simp
  next
    case False
    with 1(2) obtain i where j: "j = Suc i" by (cases j) auto
    with 1 False have "floor_log2 (n div 2) \<le> i" by auto
    with False j show ?thesis by (subst floor_log2.simps) simp
  qed
qed

lemma round_half_even_near:
  assumes "0 < q"
  shows "2 * (q * round_half_even p q) \<le> 2 * p + q" "2 * p \<le> 2 * (q * round_half_even p q) + q"
proof -
  define d r where "d = p div q" and "r = p mod q"
  have p: "p = q * d + r" and r: "r < q" using assms by (simp_all add: d_def r_def)
  have "round_half_even p q = d \<and> 2 * r \<le> q \<or> round_half_even p q = d + 1 \<and> q \<le> 2 * r"
    by (auto simp: round_half_even_def Let_def d_def r_def)
  then show "2 * (q * round_half_even p q) \<le> 2 * p + q" "2 * p \<le> 2 * (q * round_half_even p q) + q"
    using p r by (auto simp: algebra_simps)
qed

lemma thousandths_tenths_nearest:
  assumes "n < 2 ^ 53" "n mod 100 \<noteq> 50"
  shows "thousandths_tenths n = (n + 50) div 100"
proof -
  define k where "k = 52 - floor_log2 (n div 1000)"
  define m where "m = round_half_even (n * 2 ^ k) 1000"
  define u where "u = (n + 50) div 100"
  define P :: nat where "P = 2 ^ k"
  have "n div 1000 < 2 ^ Suc 43" using assms(1) by (simp add: div_less_iff_less_mult)
  then have "9 \<le> k" using floor_log2_bound [of "n div 1000" 43] by (simp add: k_def)
  then have P: "512 \<le> P" using power_increasing [of 9 k "2::nat"] by (simp add: P_def)
  have m: "1000 * m \<le> n * P + 500" "n * P \<le> 1000 * m + 500"
    using round_half_even_near [of 1000 "n * 2 ^ k"] by (simp_all add: m_def P_def)
  have u: "100 * u + 1 \<le> n + 50" "n + 50 \<le> 100 * u + 99"
  proof -
    define v where "v = (n + 50) mod 100"
    have v: "n + 50 = 100 * u + v" "v < 100" by (simp_all add: u_def v_def)
    have "v \<noteq> 0"
    proof
      assume "v = 0"
      with v(1) have "n + 50 = 100 * u" by simp
      then obtain w where "u = Suc w" by (cases u) auto
      with \<open>n + 50 = 100 * u\<close> have "n = 50 + 100 * w" by simp
      with assms(2) show False by simp
    qed
    with v show "100 * u + 1 \<le> n + 50" "n + 50 \<le> 100 * u + 99" by simp_all
  qed
  have "(100 * u + 1) * P \<le> (n + 50) * P" "(n + 50) * P \<le> (100 * u + 99) * P"
    by (rule mult_le_mono1 [OF u(1)], rule mult_le_mono1 [OF u(2)])
  then have "u * (2 * P) \<le> 20 * m + P" "20 * m + P < (u + 1) * (2 * P)"
    using m P by (simp_all add: algebra_simps)
  then have "(20 * m + P) div (2 * P) = u"
    using P by (intro div_nat_eqI) (simp_all add: algebra_simps)
  then show ?thesis
    by (simp add: thousandths_tenths_def Let_def k_def m_def u_def P_def)
qed
text \<open>Negative numbers are printed and read with their sign.\<close>

lemma strip10_uminus: "strip10 (- m) e = (case strip10 m e of (a, b) \<Rightarrow> (- a, b))"
proof (induction m e rule: strip10.induct)
  case (1 m e)
  show ?case
  proof (cases "m = 0 \<or> m mod 10 \<noteq> 0")
    case True
    then have "m = 0 \<or> - m mod 10 \<noteq> 0" by presburger
    with True have "strip10 (- m) e = (if m = 0 then (0, 0) else (- m, e))" "strip10 m e = (if m = 0 then (0, 0) else (m, e))"
      by (auto simp: strip10_normal strip10.simps [of 0])
    then show ?thesis by simp
  next
    case False
    then obtain k where "m = 10 * k" by auto
    then have "- m mod 10 = 0" "- m div 10 = - (m div 10)" by (simp_all add: zmod_zminus1_eq_if zdiv_zminus1_eq_if)
    then have "strip10 (- m) e = strip10 (- (m div 10)) (e + 1)" using False strip10.simps [of "- m" e] by simp
    also have "\<dots> = (case strip10 (m div 10) (e + 1) of (a, b) \<Rightarrow> (- a, b))" using "1.IH" False by simp
    also have "strip10 (m div 10) (e + 1) = strip10 m e" using False strip10.simps [of m e] by simp
    finally show ?thesis .
  qed
qed

lemma negate_num [simp]: "negate (num n) = num (- n)"
  by (simp add: num_def dec_def strip10_uminus split: prod.split)

lemma toNumber_show_int [simp]: "toNumber (show_int n) = num n"
proof (cases "n < 0")
  case True
  let ?ds = "show_nat (nat (- n))"
  have d: "\<forall>c \<in> set ?ds. is_digit c" by (rule show_nat_digits)
  then have "trim (CHR ''-'' # ?ds) = CHR ''-'' # ?ds"
    by (intro trim_id) (auto simp: digit_not_ws, simp add: is_ws_def)
  with True show ?thesis
    using read_decimal_digits [OF d] by (simp add: show_int_def toNumber_def del: show_nat.simps)
qed (simp add: show_int_def)

end
