(* ===== verification/JsValue.thy ===== *)
theory JsValue
  imports JsNumber
begin

text \<open>
  The values of the language the program reads and builds (\<open>any\<close>), property access and
  assignment on objects, the conversions \<open>String\<close>, \<open>Number\<close> and \<open>Boolean\<close>, and
  \<open>JSON.stringify\<close> and \<open>JSON.parse\<close>. An object is the list of its properties in the order in
  which the language enumerates them: array indices first, ascending, then the other keys in
  the order of their insertion.
\<close>

datatype jsval =
    JUndef
  | JNull
  | JBool bool
  | JNum number
  | JStr string
  | JArr "jsval list"
  | JObj "(string \<times> jsval) list"

subsection \<open>Objects\<close>

definition array_index :: "string \<Rightarrow> nat option" where
  "array_index s =
     (if s \<noteq> [] \<and> (\<forall>c \<in> set s. is_digit c) \<and> (hd s \<noteq> CHR ''0'' \<or> tl s = []) \<and> read_nat s < 4294967295
      then Some (read_nat s) else None)"

definition key_before :: "string \<Rightarrow> string \<Rightarrow> bool" where
  "key_before k k' \<longleftrightarrow>
     (case array_index k of
        None \<Rightarrow> False
      | Some i \<Rightarrow> (case array_index k' of None \<Rightarrow> True | Some j \<Rightarrow> i < j))"

fun put :: "string \<Rightarrow> 'v \<Rightarrow> (string \<times> 'v) list \<Rightarrow> (string \<times> 'v) list" where
  "put k v [] = [(k, v)]"
| "put k v ((k', v') # xs) =
     (if k = k' then (k, v) # xs
      else if key_before k k' then (k, v) # (k', v') # xs
      else (k', v') # put k v xs)"

text \<open>\<open>obj[k] = v\<close> with a primitive \<open>v\<close>: assigning to \<open>__proto__\<close> does nothing.\<close>

definition assign :: "string \<Rightarrow> 'v \<Rightarrow> (string \<times> 'v) list \<Rightarrow> (string \<times> 'v) list" where
  "assign k v xs = (if k = ''__proto__'' then xs else put k v xs)"

definition build_obj :: "(string \<times> 'v) list \<Rightarrow> (string \<times> 'v) list" where
  "build_obj kvs = foldl (\<lambda>m (k, v). put k v m) [] kvs"

definition canonical :: "(string \<times> 'v) list \<Rightarrow> bool" where
  "canonical kvs \<longleftrightarrow> sorted_wrt (\<lambda>a b. a \<noteq> b \<and> \<not> key_before b a) (map fst kvs)"

text \<open>\<open>obj.k\<close>: \<open>undefined\<close> when there is no such property, or on a primitive.\<close>

fun get :: "jsval \<Rightarrow> string \<Rightarrow> jsval" where
  "get (JObj kvs) k = nullish (map_of kvs k) JUndef"
| "get _ _ = JUndef"

lemma map_of_put [simp]: "map_of (put k v xs) = (map_of xs)(k \<mapsto> v)"
  by (induction xs) (auto simp: fun_eq_iff)

lemma keys_put: "fst ` set (put k v xs) = insert k (fst ` set xs)"
  by (metis map_of_put dom_map_of_conv_image_fst dom_fun_upd option.distinct(1))

lemma put_end:
  "\<forall>k' \<in> fst ` set xs. k' \<noteq> k \<and> \<not> key_before k k' \<Longrightarrow> put k v xs = xs @ [(k, v)]"
  by (induction xs) auto

lemma build_obj_append: "canonical (xs @ ys) \<Longrightarrow> foldl (\<lambda>m (k, v). put k v m) xs ys = xs @ ys"
proof (induction ys arbitrary: xs)
  case (Cons y ys)
  obtain k v where y: "y = (k, v)" by force
  with Cons.prems have "put k v xs = xs @ [y]"
    by (intro put_end [of xs k v, unfolded y [symmetric]])
       (auto simp: canonical_def sorted_wrt_append)
  with Cons y show ?case by simp
qed simp

lemma build_obj_canonical: "canonical kvs \<Longrightarrow> build_obj kvs = kvs"
  using build_obj_append [of "[]" kvs] by (simp add: build_obj_def)

lemma map_of_build: "map_of (foldl (\<lambda>m (k, v). put k v m) xs ys) = map_of xs ++ map_of (rev ys)"
  by (induction ys arbitrary: xs) (auto simp: fun_eq_iff map_add_def split: option.splits)

subsection \<open>JSON text\<close>

definition hex_digit :: "nat \<Rightarrow> char" where
  "hex_digit d = (if d < 10 then char_of (48 + d) else char_of (87 + d))"

definition hex_val :: "char \<Rightarrow> nat option" where
  "hex_val c =
     (let n = of_char c :: nat in
      if 48 \<le> n \<and> n \<le> 57 then Some (n - 48)
      else if 97 \<le> n \<and> n \<le> 102 then Some (n - 87)
      else if 65 \<le> n \<and> n \<le> 70 then Some (n - 55)
      else None)"

definition escape_char :: "char \<Rightarrow> string" where
  "escape_char c =
     (if c = CHR 0x22 then [CHR 0x5C, CHR 0x22]
      else if c = CHR 0x5C then [CHR 0x5C, CHR 0x5C]
      else if c = CHR 0x08 then CHR 0x5C # ''b''
      else if c = CHR 0x0C then CHR 0x5C # ''f''
      else if c = CHR 0x0A then CHR 0x5C # ''n''
      else if c = CHR 0x0D then CHR 0x5C # ''r''
      else if c = CHR 0x09 then CHR 0x5C # ''t''
      else if (of_char c :: nat) < 32
        then CHR 0x5C # ''u00'' @ [hex_digit (of_char c div 16), hex_digit (of_char c mod 16)]
      else [c])"

definition quote_str :: "string \<Rightarrow> string" where
  "quote_str s = CHR 0x22 # concat (map escape_char s) @ [CHR 0x22]"

function stringify :: "jsval \<Rightarrow> string option" where
  "stringify JUndef = None"
| "stringify JNull = Some ''null''"
| "stringify (JBool b) = Some (if b then ''true'' else ''false'')"
| "stringify (JNum n) = Some (case n of Dec m e \<Rightarrow> number_toString n | _ \<Rightarrow> ''null'')"
| "stringify (JStr s) = Some (quote_str s)"
| "stringify (JArr vs) =
     Some (''['' @ join '','' (map (\<lambda>v. nullish (stringify v) ''null'') vs) @ '']'')"
| "stringify (JObj kvs) =
     Some (''{'' @ join '','' (concat (map (\<lambda>p. case stringify (snd p) of
         None \<Rightarrow> [] | Some t \<Rightarrow> [quote_str (fst p) @ '':'' @ t]) kvs)) @ ''}'')"
  by pat_completeness auto
termination
proof (relation "measure size")
  show "wf (measure size)" by simp
  show "(v, JArr vs) \<in> measure size" if "v \<in> set vs" for v vs
    using that by (induction vs) auto
  show "(snd p, JObj kvs) \<in> measure size" if "p \<in> set kvs" for p kvs
    using that by (induction kvs) (auto simp: snds.simps)
qed

text \<open>\<open>\uXXXX\<close> escapes, as UTF-8.\<close>

definition utf8 :: "nat \<Rightarrow> string" where
  "utf8 u =
     (if u < 128 then [char_of u]
      else if u < 2048 then [char_of (192 + u div 64), char_of (128 + u mod 64)]
      else if u < 65536 then
        [char_of (224 + u div 4096), char_of (128 + u div 64 mod 64), char_of (128 + u mod 64)]
      else [char_of (240 + u div 262144), char_of (128 + u div 4096 mod 64),
            char_of (128 + u div 64 mod 64), char_of (128 + u mod 64)])"

definition hex4 :: "string \<Rightarrow> (nat \<times> string) option" where
  "hex4 s =
     (case s of
        a # b # c # d # r \<Rightarrow>
          (case (hex_val a, hex_val b, hex_val c, hex_val d) of
             (Some i, Some j, Some k, Some l) \<Rightarrow> Some (4096 * i + 256 * j + 16 * k + l, r)
           | _ \<Rightarrow> None)
      | _ \<Rightarrow> None)"

definition low_surrogate :: "string \<Rightarrow> (nat \<times> string) option" where
  "low_surrogate s =
     (case s of
        a # b # r \<Rightarrow>
          if a = CHR 0x5C \<and> b = CHR ''u''
          then (case hex4 r of
                  Some (l, r') \<Rightarrow> if 56320 \<le> l \<and> l < 57344 then Some (l - 56320, r') else None
                | None \<Rightarrow> None)
          else None
      | _ \<Rightarrow> None)"

text \<open>What an escape after the backslash stands for, and the text behind it.\<close>

definition read_escape :: "string \<Rightarrow> (string \<times> string) option" where
  "read_escape s =
     (case s of
        [] \<Rightarrow> None
      | c # r \<Rightarrow>
          if c = CHR 0x22 then Some ([CHR 0x22], r)
          else if c = CHR 0x5C then Some ([CHR 0x5C], r)
          else if c = CHR ''/'' then Some (''/'', r)
          else if c = CHR ''b'' then Some ([CHR 0x08], r)
          else if c = CHR ''f'' then Some ([CHR 0x0C], r)
          else if c = CHR ''n'' then Some ([CHR 0x0A], r)
          else if c = CHR ''r'' then Some ([CHR 0x0D], r)
          else if c = CHR ''t'' then Some ([CHR 0x09], r)
          else if c = CHR ''u''
            then (case hex4 r of
                    None \<Rightarrow> None
                  | Some (u, r') \<Rightarrow>
                      if 55296 \<le> u \<and> u < 56320
                      then (case low_surrogate r' of
                              Some (l, r'') \<Rightarrow> Some (utf8 (65536 + 1024 * (u - 55296) + l), r'')
                            | None \<Rightarrow> Some (utf8 u, r'))
                      else Some (utf8 u, r'))
          else None)"

lemma hex4_shorter: "hex4 s = Some (u, r) \<Longrightarrow> length r < length s"
  by (auto simp: hex4_def split: list.splits option.splits)

lemma low_surrogate_shorter: "low_surrogate s = Some (u, r) \<Longrightarrow> length r < length s"
  by (auto simp: low_surrogate_def split: list.splits option.splits if_splits dest: hex4_shorter)

lemma read_escape_shorter: "read_escape s = Some (t, r) \<Longrightarrow> length r < length s"
  by (auto simp: read_escape_def split: list.splits option.splits if_splits
      dest!: hex4_shorter low_surrogate_shorter)

function read_string :: "string \<Rightarrow> (string \<times> string) option" where
  "read_string s =
     (case s of
        [] \<Rightarrow> None
      | c # cs \<Rightarrow>
          if c = CHR 0x22 then Some ([], cs)
          else if c = CHR 0x5C
            then (case read_escape cs of
                    None \<Rightarrow> None
                  | Some (t, r) \<Rightarrow> map_option (map_prod (append t) id) (read_string r))
          else if (of_char c :: nat) < 32 then None
          else map_option (map_prod (Cons c) id) (read_string cs))"
  by pat_completeness auto
termination
  by (relation "measure length") (auto dest: read_escape_shorter)

declare read_string.simps [simp del]

lemma read_string_Nil [simp]: "read_string [] = None"
  by (subst read_string.simps) simp

lemma read_string_Cons:
  "read_string (c # cs) =
     (if c = CHR 0x22 then Some ([], cs)
      else if c = CHR 0x5C
        then (case read_escape cs of
                None \<Rightarrow> None
              | Some (t, r) \<Rightarrow> map_option (map_prod (append t) id) (read_string r))
      else if (of_char c :: nat) < 32 then None
      else map_option (map_prod (Cons c) id) (read_string cs))"
  by (subst read_string.simps) simp

definition json_ws :: "char \<Rightarrow> bool" where
  "json_ws c \<longleftrightarrow> c \<in> {CHR 0x09, CHR 0x0A, CHR 0x0D, CHR '' ''}"

definition skip_ws :: "string \<Rightarrow> string" where
  "skip_ws s = dropWhile json_ws s"

definition read_literal :: "string \<Rightarrow> jsval \<Rightarrow> string \<Rightarrow> (jsval \<times> string) option" where
  "read_literal w v s = (if take (length w) s = w then Some (v, drop (length w) s) else None)"

text \<open>The grammar, with fuel; \<open>parse_fuel_enough\<close> shows how much is enough.\<close>

fun read_value :: "nat \<Rightarrow> string \<Rightarrow> (jsval \<times> string) option"
  and read_elems :: "nat \<Rightarrow> string \<Rightarrow> (jsval list \<times> string) option"
  and read_members :: "nat \<Rightarrow> string \<Rightarrow> ((string \<times> jsval) list \<times> string) option" where
  "read_value 0 s = None"
| "read_value (Suc n) s =
     (case skip_ws s of
        [] \<Rightarrow> None
      | c # cs \<Rightarrow>
          if c = CHR 0x22 then map_option (map_prod JStr id) (read_string cs)
          else if c = CHR ''['' then
            (if skip_ws cs \<noteq> [] \<and> hd (skip_ws cs) = CHR '']'' then Some (JArr [], tl (skip_ws cs))
             else map_option (map_prod JArr id) (read_elems n cs))
          else if c = CHR ''{'' then
            (if skip_ws cs \<noteq> [] \<and> hd (skip_ws cs) = CHR ''}'' then Some (JObj [], tl (skip_ws cs))
             else map_option (map_prod (JObj \<circ> build_obj) id) (read_members n cs))
          else if c = CHR ''t'' then read_literal ''true'' (JBool True) (c # cs)
          else if c = CHR ''f'' then read_literal ''false'' (JBool False) (c # cs)
          else if c = CHR ''n'' then read_literal ''null'' JNull (c # cs)
          else map_option (map_prod JNum id) (read_number (c # cs)))"
| "read_elems 0 s = None"
| "read_elems (Suc n) s =
     (case read_value n s of
        None \<Rightarrow> None
      | Some (v, r) \<Rightarrow>
          (case skip_ws r of
             [] \<Rightarrow> None
           | c # cs \<Rightarrow>
               if c = CHR '']'' then Some ([v], cs)
               else if c = CHR '','' then map_option (map_prod (Cons v) id) (read_elems n cs)
               else None))"
| "read_members 0 s = None"
| "read_members (Suc n) s =
     (if skip_ws s = [] \<or> hd (skip_ws s) \<noteq> CHR 0x22 then None
      else (case read_string (tl (skip_ws s)) of
              None \<Rightarrow> None
            | Some (k, r) \<Rightarrow>
                if skip_ws r = [] \<or> hd (skip_ws r) \<noteq> CHR '':'' then None
                else (case read_value n (tl (skip_ws r)) of
                        None \<Rightarrow> None
                      | Some (v, r') \<Rightarrow>
                          (case skip_ws r' of
                             [] \<Rightarrow> None
                           | c # cs \<Rightarrow>
                               if c = CHR ''}'' then Some ([(k, v)], cs)
                               else if c = CHR '','' then map_option (map_prod (Cons (k, v)) id) (read_members n cs)
                               else None))))"

text \<open>\<open>JSON.parse\<close>; \<open>None\<close> is the \<open>SyntaxError\<close> it throws.\<close>

definition json_parse :: "string \<Rightarrow> jsval option" where
  "json_parse s =
     (case read_value (2 * length s + 1) s of
        None \<Rightarrow> None
      | Some (v, r) \<Rightarrow> if skip_ws r = [] then Some v else None)"

subsection \<open>Enough fuel\<close>

lemma skip_ws_length: "length (skip_ws s) \<le> length s"
  by (simp add: skip_ws_def length_dropWhile_le)

lemma read_string_shorter: "read_string s = Some (t, r) \<Longrightarrow> length r < length s"
proof (induction s arbitrary: t r rule: read_string.induct)
  case (1 s)
  show ?case
  proof (cases s)
    case Nil
    with 1(3) show ?thesis by (simp add: read_string.simps [of "[]"])
  next
    case (Cons c cs)
    show ?thesis
    proof (cases "c = CHR 0x5C")
      case True
      with 1(3) Cons True obtain u r' t' where e: "read_escape cs = Some (u, r')" "read_string r' = Some (t', r)"
        by (auto simp: read_string_Cons split: option.splits)
      with 1(1) [OF Cons _ True, of "(u, r')" u r'] True have "length r < length r'" by simp
      with read_escape_shorter [OF e(1)] Cons show ?thesis by simp
    next
      case False
      with 1(3) 1(2) [OF Cons _ False] Cons show ?thesis
        by (fastforce simp: read_string_Cons split: if_splits dest: less_SucI)
    qed
  qed
qed

lemma span_digits_length: "span_digits s = (a, b) \<Longrightarrow> length b + length a = length s"
  by (auto simp: span_digits_def) (metis add.commute length_append takeWhile_dropWhile_id)

lemma read_frac_length: "read_frac s = Some (a, b) \<Longrightarrow> length b \<le> length s"
  by (auto simp: read_frac_def split: list.splits if_splits prod.splits dest!: span_digits_length)

lemma read_exp_length: "read_exp s = Some (a, b) \<Longrightarrow> length b \<le> length s"
  by (auto simp: read_exp_def Let_def split: list.splits if_splits prod.splits dest!: span_digits_length)

lemma read_unsigned_length: "read_unsigned s = Some (n, r) \<Longrightarrow> length r < length s"
  by (auto simp: read_unsigned_def split: prod.splits if_splits option.splits
      dest!: span_digits_length read_frac_length read_exp_length)
     (metis add_gr_0 length_greater_0_conv less_add_same_cancel1 order_le_less_trans order_trans add.commute)+

lemma read_number_length: "read_number s = Some (n, r) \<Longrightarrow> length r < length s"
  by (auto simp: read_number_def split: list.splits if_splits dest!: read_unsigned_length)

lemma read_literal_length: "w \<noteq> [] \<Longrightarrow> s \<noteq> [] \<Longrightarrow> read_literal w v s = Some (u, r) \<Longrightarrow> length r < length s"
  by (auto simp: read_literal_def split: if_splits)

lemma skip_ws_shorter: "skip_ws s = c # cs \<Longrightarrow> length cs < length s"
  using skip_ws_length [of s] by simp

lemma tl_skip_ws_shorter: "skip_ws s \<noteq> [] \<Longrightarrow> length (tl (skip_ws s)) < length s"
  using skip_ws_length [of s] by (cases "skip_ws s") auto

lemma read_shorter:
  "read_value n s = Some (v, r) \<Longrightarrow> length r < length s"
  "read_elems n s = Some (vs, r) \<Longrightarrow> length r < length s"
  "read_members n s = Some (ms, r) \<Longrightarrow> length r < length s"
proof (induction n s and n s and n s arbitrary: v r and vs r and ms r
    rule: read_value_read_elems_read_members.induct)
  case (2 n s)
  then obtain c cs where c: "skip_ws s = c # cs" by (cases "skip_ws s") auto
  note len = skip_ws_shorter [OF c]
  have "length r \<le> length cs \<or> length r < length (c # cs)"
    using 2(3) c tl_skip_ws_shorter [of cs] 2(1) [OF c] 2(2) [OF c]
    by (auto split: if_splits dest: read_string_shorter read_number_length
        read_literal_length [rotated 2] less_imp_le)
  with len show ?case by auto
next
  case (4 n s)
  then obtain v r' where v: "read_value n s = Some (v, r')" by (auto split: option.splits)
  then obtain c cs where c: "skip_ws r' = c # cs" using 4(3) by (auto split: list.splits)
  have "length cs < length s" using 4(1) [OF v] skip_ws_shorter [OF c] by simp
  with 4(2) [OF v _ c] 4(3) v c show ?case by (fastforce split: if_splits)
next
  case (6 n s)
  then obtain k r1 where k: "skip_ws s \<noteq> []" "read_string (tl (skip_ws s)) = Some (k, r1)"
      "hd (skip_ws s) = CHR 0x22"
    by (auto split: if_splits option.splits)
  then obtain v r2 where v: "skip_ws r1 \<noteq> []" "read_value n (tl (skip_ws r1)) = Some (v, r2)"
      "hd (skip_ws r1) = CHR '':''"
    using 6(3) by (auto split: if_splits option.splits)
  then obtain c cs where c: "skip_ws r2 = c # cs"
    using 6(3) k by (auto split: if_splits option.splits list.splits)
  have "length r2 < length (tl (skip_ws r1))"
    by (rule 6(1) [OF _ k(2) refl _ v(2)]) (use k v in auto)
  then have "length r2 < length r1"
    using tl_skip_ws_shorter [OF v(1)] by simp
  then have "length cs < length s"
    using skip_ws_shorter [OF c] read_string_shorter [OF k(2)] tl_skip_ws_shorter [OF k(1)] by simp
  moreover have "length r < length cs \<or> r = cs"
    using 6 k v c by (auto split: if_splits)
  ultimately show ?case by auto
qed auto

lemma fuel_enough:
  "2 * length s + 1 \<le> n \<Longrightarrow> read_value (Suc n) s = read_value n s"
  "2 * length s + 2 \<le> n \<Longrightarrow> read_elems (Suc n) s = read_elems n s"
  "2 * length s + 2 \<le> n \<Longrightarrow> read_members (Suc n) s = read_members n s"
proof (induction n s and n s and n s rule: read_value_read_elems_read_members.induct)
  case (2 n s)
  show ?case
  proof (cases "skip_ws s")
    case (Cons c cs)
    have "2 * length cs + 2 \<le> n" using 2(3) skip_ws_shorter [OF Cons] by simp
    with 2(1) [OF Cons] 2(2) [OF Cons] show ?thesis
      by (simp only: read_value.simps(2) Cons list.case cong: if_cong)
         (simp del: read_elems.simps read_members.simps)
  qed simp
next
  case (4 n s)
  then have v: "read_value (Suc n) s = read_value n s" by simp
  show ?case
  proof (cases "read_value n s")
    case (Some a)
    obtain x r where a: "a = (x, r)" by force
    show ?thesis
    proof (cases "skip_ws r")
      case Nil
      with v Some a show ?thesis by (simp only: read_elems.simps(2)) simp
    next
      case (Cons c cs)
      have "length cs < length r" using Cons by (rule skip_ws_shorter)
      then have "2 * length cs + 2 \<le> n" using 4(3) read_shorter(1) Some a by fastforce
      with 4(2) [OF Some a [symmetric] Cons] Cons v Some a show ?thesis
        by (simp only: read_elems.simps(2) option.case prod.case list.case cong: if_cong) simp
    qed
  qed (simp only: read_elems.simps(2) v, simp)
next
  case (6 n s)
  show ?case
  proof (cases "skip_ws s = [] \<or> hd (skip_ws s) \<noteq> CHR 0x22")
    case False
    note ne = this
    show ?thesis
    proof (cases "read_string (tl (skip_ws s))")
      case (Some a)
      obtain k r where a: "a = (k, r)" by force
      have r: "length r < length (tl (skip_ws s))" "length (tl (skip_ws s)) < length s"
        using Some a read_string_shorter [of "tl (skip_ws s)" k r] tl_skip_ws_shorter [of s] ne by simp_all
      show ?thesis
      proof (cases "skip_ws r = [] \<or> hd (skip_ws r) \<noteq> CHR '':''")
        case False
        then have r1: "length (tl (skip_ws r)) < length r"
          using tl_skip_ws_shorter [of r] by simp
        have v: "read_value (Suc n) (tl (skip_ws r)) = read_value n (tl (skip_ws r))"
          using 6(1) [OF ne Some a [symmetric] False] 6(3) r r1 by simp
        show ?thesis
        proof (cases "read_value n (tl (skip_ws r))")
          case None
          with v ne Some a False show ?thesis by (simp only: read_members.simps(2)) simp
        next
          case (Some b)
          obtain x r' where b: "b = (x, r')" by force
          show ?thesis
          proof (cases "skip_ws r'")
            case Nil
            with v ne Some a b False \<open>read_string _ = _\<close> show ?thesis
              by (simp only: read_members.simps(2)) simp
          next
            case (Cons c cs)
            have "length cs < length r'" using Cons by (rule skip_ws_shorter)
            then have "2 * length cs + 2 \<le> n"
              using 6(3) r r1 read_shorter(1) [of n "tl (skip_ws r)" x r'] Some b by simp
            with 6(2) [OF ne \<open>read_string _ = _\<close> a [symmetric] False Some b [symmetric] Cons] Cons v ne Some a b False
              \<open>read_string _ = _\<close>
            show ?thesis by (simp only: read_members.simps(2)) simp
          qed
        qed
      qed (use ne Some a in \<open>simp only: read_members.simps(2), simp\<close>)
    qed (use ne in \<open>simp only: read_members.simps(2), simp\<close>)
  qed (simp only: read_members.simps(2), simp)
qed auto

subsection \<open>What is written can be read\<close>

text \<open>The values JSON can carry unchanged.\<close>

function json_ok :: "jsval \<Rightarrow> bool" where
  "json_ok JUndef \<longleftrightarrow> False"
| "json_ok JNull \<longleftrightarrow> True"
| "json_ok (JBool b) \<longleftrightarrow> True"
| "json_ok (JNum n) \<longleftrightarrow> finite_num n"
| "json_ok (JStr s) \<longleftrightarrow> True"
| "json_ok (JArr vs) \<longleftrightarrow> list_all json_ok vs"
| "json_ok (JObj kvs) \<longleftrightarrow> canonical kvs \<and> list_all (\<lambda>p. json_ok (snd p)) kvs"
  by pat_completeness auto
termination
proof (relation "measure size")
  show "wf (measure size)" by simp
  show "(v, JArr vs) \<in> measure size" if "v \<in> set vs" for v vs
    using that by (induction vs) auto
  show "(snd p, JObj kvs) \<in> measure size" if "p \<in> set kvs" for p kvs
    using that by (induction kvs) (auto simp: snds.simps)
qed

lemma hex_val_digit: "d < 16 \<Longrightarrow> hex_val (hex_digit d) = Some d"
  by (auto simp: hex_val_def hex_digit_def Let_def)

lemma append_single [simp]: "(@) [c] = (#) c"
  by (simp add: fun_eq_iff)

lemma read_escaped_char:
  "read_string (escape_char c @ s) = map_option (map_prod (Cons c) id) (read_string s)"
proof -
  have z: "hex_val (CHR ''0'') = Some 0" by (simp add: hex_val_def Let_def)
  have small: "read_escape (''u00'' @ [hex_digit (of_char c div 16), hex_digit (of_char c mod 16)] @ s) =
      Some ([c], s)" if "(of_char c :: nat) < 32"
  proof -
    have "hex4 (''00'' @ [hex_digit (of_char c div 16), hex_digit (of_char c mod 16)] @ s) = Some (of_char c, s)"
      using that by (simp add: hex4_def z hex_val_digit)
    with that show ?thesis by (simp add: read_escape_def utf8_def)
  qed
  let ?special = "{CHR 0x22, CHR 0x5C, CHR 0x08, CHR 0x0C, CHR 0x0A, CHR 0x0D, CHR 0x09}"
  show ?thesis
  proof (cases "c \<in> ?special")
    case True
    then show ?thesis
      by (elim insertE emptyE) (simp_all add: escape_char_def read_string_Cons read_escape_def)
  next
    case False
    show ?thesis
    proof (cases "(of_char c :: nat) < 32")
      case True
      with False have "escape_char c =
          CHR 0x5C # ''u00'' @ [hex_digit (of_char c div 16), hex_digit (of_char c mod 16)]"
        by (simp add: escape_char_def)
      then show ?thesis using small [OF True] by (simp add: read_string_Cons)
    next
      case nosmall: False
      with False have "escape_char c = [c]" by (simp add: escape_char_def)
      with False nosmall show ?thesis by (simp add: read_string_Cons)
    qed
  qed
qed

lemma read_quoted: "read_string (concat (map escape_char s) @ CHR 0x22 # r) = Some (s, r)"
  by (induction s) (simp_all add: read_string_Cons read_escaped_char)

lemma num_hd:
  assumes "finite_num n"
  shows "number_toString n \<noteq> [] \<and> (is_digit (hd (number_toString n)) \<or> hd (number_toString n) = CHR ''-'')"
proof (cases n)
  case (Dec m e)
  then show ?thesis
    using show_digits_hd [OF show_nat_ne show_nat_digits] by (auto simp: Let_def)
qed (use assms in auto)

lemma digit_not_special:
  "is_digit c \<Longrightarrow> \<not> json_ws c \<and> c \<notin> {CHR 0x22, CHR ''['', CHR '']'', CHR ''{'', CHR ''}'', CHR ''t'', CHR ''f'', CHR ''n''}"
  by (auto simp: is_digit_def json_ws_def)

lemma stringify_hd:
  assumes "stringify v = Some t" "json_ok v"
  shows "t \<noteq> []" "\<not> json_ws (hd t)" "hd t \<noteq> CHR '']''" "hd t \<noteq> CHR ''}''"
proof -
  have "t \<noteq> [] \<and> \<not> json_ws (hd t) \<and> hd t \<noteq> CHR '']'' \<and> hd t \<noteq> CHR ''}''"
  proof (cases v)
    case (JNum n)
    then obtain m e where "n = Dec m e" using assms(2) by (cases n) auto
    then show ?thesis
      using JNum assms num_hd [of n] digit_not_special [of "hd t"] by (auto simp: json_ws_def)
  qed (use assms in \<open>auto simp: quote_str_def json_ws_def split: if_splits\<close>)
  then show "t \<noteq> []" "\<not> json_ws (hd t)" "hd t \<noteq> CHR '']''" "hd t \<noteq> CHR ''}''" by auto
qed

lemma skip_ws_stop [simp]: "s \<noteq> [] \<Longrightarrow> \<not> json_ws (hd s) \<Longrightarrow> skip_ws s = s"
  by (cases s) (auto simp: skip_ws_def)

lemma json_ws_marks [simp]:
  "\<not> json_ws (CHR '','')" "\<not> json_ws (CHR '']'')" "\<not> json_ws (CHR ''}'')" "\<not> json_ws (CHR '':'')"
  "\<not> json_ws (CHR ''['')" "\<not> json_ws (CHR ''{'')" "\<not> json_ws (CHR 0x22)"
  "\<not> json_ws (CHR ''t'')" "\<not> json_ws (CHR ''f'')" "\<not> json_ws (CHR ''n'')"
  by (simp_all add: json_ws_def)

lemma num_stop_marks [simp]:
  "num_stop (CHR '','' # r)" "num_stop (CHR '']'' # r)" "num_stop (CHR ''}'' # r)" "num_stop []"
  by (simp_all add: num_stop_def is_digit_def)

lemma stringify_ok: "json_ok v \<Longrightarrow> \<exists>t. stringify v = Some t"
  by (cases v) auto

text \<open>One value reads back when it has the fuel for its text.\<close>

definition reads_back :: "jsval \<Rightarrow> string \<Rightarrow> bool" where
  "reads_back v t \<longleftrightarrow>
     (\<forall>n r. 2 * length t + 1 \<le> n \<longrightarrow> num_stop r \<longrightarrow> read_value n (t @ r) = Some (v, r))"

lemma read_elems_join:
  assumes "vs \<noteq> []" "list_all2 reads_back vs ts" "2 * length (join '','' ts) + 2 \<le> n"
  shows "read_elems n (join '','' ts @ CHR '']'' # r) = Some (vs, r)"
  using assms
proof (induction vs arbitrary: ts n)
  case (Cons v vs)
  then obtain t ts' where ts: "ts = t # ts'" "reads_back v t" "list_all2 reads_back vs ts'"
    by (auto simp: list_all2_Cons1)
  obtain k where n: "n = Suc k" using Cons.prems(3) by (cases n) auto
  show ?case
  proof (cases vs)
    case Nil
    with ts Cons.prems n show ?thesis by (simp add: reads_back_def)
  next
    case (Cons v' vs')
    then obtain t' ts'' where ts': "ts' = t' # ts''" using ts(3) by (auto simp: list_all2_Cons1)
    have "read_elems k (join '','' ts' @ CHR '']'' # r) = Some (vs, r)"
      using Cons.IH [of ts' k] Cons.prems ts ts' n \<open>vs = _\<close> by simp
    with ts ts' n Cons.prems(3) show ?thesis by (simp add: reads_back_def)
  qed
qed simp

lemma read_members_join:
  assumes "kvs \<noteq> []" "list_all2 (\<lambda>p t. \<exists>u. t = quote_str (fst p) @ '':'' @ u \<and> reads_back (snd p) u \<and>
        u \<noteq> [] \<and> \<not> json_ws (hd u)) kvs ts"
    "2 * length (join '','' ts) + 2 \<le> n"
  shows "read_members n (join '','' ts @ CHR ''}'' # r) = Some (kvs, r)"
  using assms
proof (induction kvs arbitrary: ts n)
  case (Cons p kvs)
  then obtain t ts' u where ts: "ts = t # ts'" "t = quote_str (fst p) @ '':'' @ u" "reads_back (snd p) u"
      "u \<noteq> []" "\<not> json_ws (hd u)"
      and rest: "list_all2 (\<lambda>p t. \<exists>u. t = quote_str (fst p) @ '':'' @ u \<and> reads_back (snd p) u \<and>
        u \<noteq> [] \<and> \<not> json_ws (hd u)) kvs ts'"
    by (auto simp: list_all2_Cons1)
  obtain k where n: "n = Suc k" using Cons.prems(3) by (cases n) auto
  have q: "read_string (concat (map escape_char (fst p)) @ CHR 0x22 # s) = Some (fst p, s)" for s
    by (rule read_quoted)
  show ?case
  proof (cases kvs)
    case Nil
    with ts rest Cons.prems n q show ?thesis by (simp add: reads_back_def quote_str_def)
  next
    case (Cons p' kvs')
    then obtain t' ts'' where ts': "ts' = t' # ts''" using rest by (auto simp: list_all2_Cons1)
    have "read_members k (join '','' ts' @ CHR ''}'' # r) = Some (kvs, r)"
      using Cons.IH [OF _ rest, of k] Cons.prems ts ts' n \<open>kvs = _\<close> by (simp add: quote_str_def)
    with ts ts' n q Cons.prems(3) show ?thesis by (simp add: reads_back_def quote_str_def)
  qed
qed simp

lemma reads_back_list:
  assumes "list_all json_ok vs" "\<And>v. v \<in> set vs \<Longrightarrow> json_ok v \<Longrightarrow> reads_back v (nullish (stringify v) ''null'')"
  shows "list_all2 reads_back vs (map (\<lambda>v. nullish (stringify v) ''null'') vs)"
  using assms by (induction vs) auto

lemma reads_back_obj:
  assumes "list_all (\<lambda>p. json_ok (snd p)) kvs"
    "\<And>p. p \<in> set kvs \<Longrightarrow> json_ok (snd p) \<Longrightarrow> reads_back (snd p) (nullish (stringify (snd p)) ''null'')"
  shows "list_all2 (\<lambda>p t. \<exists>u. t = quote_str (fst p) @ '':'' @ u \<and> reads_back (snd p) u \<and>
        u \<noteq> [] \<and> \<not> json_ws (hd u)) kvs
      (concat (map (\<lambda>p. case stringify (snd p) of None \<Rightarrow> [] | Some t \<Rightarrow> [quote_str (fst p) @ '':'' @ t]) kvs))"
  using assms
proof (induction kvs)
  case (Cons p kvs)
  then obtain t where t: "stringify (snd p) = Some t" using stringify_ok [of "snd p"] by auto
  then have "reads_back (snd p) t" using Cons.prems by fastforce
  moreover have "t \<noteq> []" "\<not> json_ws (hd t)" using stringify_hd [OF t] Cons.prems by auto
  ultimately show ?case using Cons t by simp
qed simp

lemma join_hd: "ts \<noteq> [] \<Longrightarrow> hd ts \<noteq> [] \<Longrightarrow> join sep ts \<noteq> [] \<and> hd (join sep ts) = hd (hd ts)"
  by (cases ts; cases "tl ts") auto

lemma read_back_number:
  assumes "finite_num n"
  shows "reads_back (JNum n) (number_toString n)"
proof -
  have h: "number_toString n \<noteq> []" "is_digit (hd (number_toString n)) \<or> hd (number_toString n) = CHR ''-''"
    using num_hd [OF assms] by auto
  then have special: "\<not> json_ws (hd (number_toString n))"
      "hd (number_toString n) \<notin> {CHR 0x22, CHR ''['', CHR ''{'', CHR ''t'', CHR ''f'', CHR ''n''}"
    using digit_not_special by (auto simp: json_ws_def)
  show ?thesis
    unfolding reads_back_def
  proof (intro allI impI)
    fix k r
    assume k: "2 * length (number_toString n) + 1 \<le> k" and stop: "num_stop r"
    obtain j where j: "k = Suc j" using k by (cases k) auto
    obtain c cs where c: "number_toString n = c # cs" using h by (cases "number_toString n") auto
    have "read_number (c # cs @ r) = Some (n, r)"
      using read_number_toString [OF assms stop] c by simp
    with special c j show "read_value k (number_toString n @ r) = Some (JNum n, r)" by simp
  qed
qed

lemma stringify_reads_back: "json_ok v \<Longrightarrow> reads_back v (nullish (stringify v) ''null'')"
proof (induction v rule: stringify.induct)
  case (4 n)
  then show ?case
    using read_back_number [of n] by (cases n) (simp_all del: number_toString.simps)
next
  case (6 vs)
  let ?ts = "map (\<lambda>v. nullish (stringify v) ''null'') vs"
  from 6 have all: "list_all2 reads_back vs ?ts" by (intro reads_back_list) auto
  show ?case
    unfolding reads_back_def
  proof (intro allI impI)
    fix n r
    assume n: "2 * length (nullish (stringify (JArr vs)) ''null'') + 1 \<le> n"
    then obtain j where j: "n = Suc j" by (cases n) auto
    show "read_value n (nullish (stringify (JArr vs)) ''null'' @ r) = Some (JArr vs, r)"
    proof (cases vs)
      case Nil
      with j show ?thesis by simp
    next
      case (Cons v us)
      obtain t where t: "stringify v = Some t" using 6 Cons stringify_ok [of v] by auto
      have ok: "json_ok v" using 6 Cons by auto
      have h: "join '','' ?ts \<noteq> []" "hd (join '','' ?ts) = hd t"
        using join_hd [of ?ts "'',''"] Cons t stringify_hd [OF t ok] by auto
      have "read_elems j (join '','' ?ts @ CHR '']'' # r) = Some (vs, r)"
        using n j by (intro read_elems_join [OF _ all]) (auto simp: Cons)
      moreover have "skip_ws (join '','' ?ts @ CHR '']'' # r) = join '','' ?ts @ CHR '']'' # r"
        using h stringify_hd [OF t ok] by simp
      ultimately show ?thesis using j h stringify_hd [OF t ok] by simp
    qed
  qed
next
  case (7 kvs)
  let ?ts = "concat (map (\<lambda>p. case stringify (snd p) of None \<Rightarrow> [] | Some t \<Rightarrow> [quote_str (fst p) @ '':'' @ t]) kvs)"
  from 7 have all: "list_all2 (\<lambda>p t. \<exists>u. t = quote_str (fst p) @ '':'' @ u \<and> reads_back (snd p) u \<and>
        u \<noteq> [] \<and> \<not> json_ws (hd u)) kvs ?ts"
    by (intro reads_back_obj) auto
  show ?case
    unfolding reads_back_def
  proof (intro allI impI)
    fix n r
    assume n: "2 * length (nullish (stringify (JObj kvs)) ''null'') + 1 \<le> n"
    then obtain j where j: "n = Suc j" by (cases n) auto
    show "read_value n (nullish (stringify (JObj kvs)) ''null'' @ r) = Some (JObj kvs, r)"
    proof (cases kvs)
      case Nil
      with j show ?thesis by simp
    next
      case (Cons p us)
      then obtain u ts' where u: "?ts = (quote_str (fst p) @ '':'' @ u) # ts'"
        using all by (auto simp: list_all2_Cons1)
      have h: "join '','' ?ts \<noteq> []" "hd (join '','' ?ts) = CHR 0x22"
        using join_hd [of ?ts "'',''"] u by (auto simp: quote_str_def)
      have "read_members j (join '','' ?ts @ CHR ''}'' # r) = Some (kvs, r)"
        using n j by (intro read_members_join [OF _ all]) (auto simp: Cons)
      moreover have "skip_ws (join '','' ?ts @ CHR ''}'' # r) = join '','' ?ts @ CHR ''}'' # r"
        using h by simp
      moreover have "build_obj kvs = kvs" using 7 by (simp add: build_obj_canonical)
      ultimately show ?thesis using j h by simp
    qed
  qed
next
  case (5 s)
  show ?case
    unfolding reads_back_def
  proof (intro allI impI)
    fix n r
    assume "2 * length (nullish (stringify (JStr s)) ''null'') + 1 \<le> n"
    then obtain j where "n = Suc j" by (cases n) auto
    then show "read_value n (nullish (stringify (JStr s)) ''null'' @ r) = Some (JStr s, r)"
      by (simp add: quote_str_def read_quoted)
  qed
next
  case (3 b)
  show ?case
    unfolding reads_back_def
  proof (intro allI impI)
    fix n r
    assume "2 * length (nullish (stringify (JBool b)) ''null'') + 1 \<le> n"
    then obtain j where "n = Suc j" by (cases n) auto
    then show "read_value n (nullish (stringify (JBool b)) ''null'' @ r) = Some (JBool b, r)"
      by (simp add: read_literal_def)
  qed
next
  case 2
  show ?case
    unfolding reads_back_def
  proof (intro allI impI)
    fix n r
    assume "2 * length (nullish (stringify JNull) ''null'') + 1 \<le> n"
    then obtain j where "n = Suc j" by (cases n) auto
    then show "read_value n (nullish (stringify JNull) ''null'' @ r) = Some (JNull, r)"
      by (simp add: read_literal_def)
  qed
qed simp

theorem json_roundtrip:
  assumes "json_ok v" "stringify v = Some t"
  shows "json_parse t = Some v"
proof -
  have "reads_back v t" using stringify_reads_back [OF assms(1)] assms(2) by simp
  then have "read_value (2 * length t + 1) (t @ []) = Some (v, [])"
    unfolding reads_back_def by (meson num_stop_marks(4) order_refl)
  then show ?thesis by (simp only: json_parse_def append_Nil2 option.case prod.case) (simp add: skip_ws_def)
qed

end
