(* ===== verification/Wire.thy ===== *)
theory Wire
  imports JsValue "HOL-Library.Word"
begin

text \<open>
  The generated codec of \<^verbatim>\<open>global/model/api.ts\<close>, binary part: what every \<open>encode\<close> and
  \<open>decode\<close> is made of. \<open>BinaryWriter\<close> and \<open>BinaryReader\<close> are the package
  \<open>@bufbuild/protobuf\<close>, which is not part of the repository: the record \<open>wire\<close> of their
  methods is an argument of every definition, a method that throws gives \<open>Inl\<close>, and what
  the package documents of them are the laws of the locales \<open>wire_reader\<close> (a reader moves
  forward) and \<open>wire_format\<close> (what one method writes the other one reads). The theory
  \<open>Varint\<close> interprets both on the wire format of protocol buffers.

  A decoder is the loop \<open>decode_loop\<close> over the cases of its \<open>switch\<close>. The loop may not end
  for an arbitrary reader, so its value is an \<open>option\<close>; for a \<open>wire_reader\<close> it always
  returns.
\<close>

subsection \<open>The library's writer and reader\<close>

record ('w, 'r) wire =
  w_uint32 :: "number \<Rightarrow> 'w \<Rightarrow> string + 'w"
  w_int32 :: "number \<Rightarrow> 'w \<Rightarrow> string + 'w"
  w_int64 :: "number \<Rightarrow> 'w \<Rightarrow> string + 'w"
  w_bool :: "bool \<Rightarrow> 'w \<Rightarrow> string + 'w"
  w_double :: "number \<Rightarrow> 'w \<Rightarrow> string + 'w"
  w_string :: "string \<Rightarrow> 'w \<Rightarrow> string + 'w"
  w_fork :: "'w \<Rightarrow> 'w"
  w_join :: "'w \<Rightarrow> string + 'w"
  r_pos :: "'r \<Rightarrow> nat"
  r_len :: "'r \<Rightarrow> nat"
  r_uint32 :: "'r \<Rightarrow> string + nat \<times> 'r"
  r_int32 :: "'r \<Rightarrow> string + int \<times> 'r"
  r_int64 :: "'r \<Rightarrow> string + int \<times> 'r"
  r_bool :: "'r \<Rightarrow> string + bool \<times> 'r"
  r_double :: "'r \<Rightarrow> string + number \<times> 'r"
  r_string :: "'r \<Rightarrow> string + string \<times> 'r"
  r_skip :: "nat \<Rightarrow> 'r \<Rightarrow> string + 'r"

subsection \<open>Writing\<close>

primrec in_turn :: "('s \<Rightarrow> string + 's) list \<Rightarrow> 's \<Rightarrow> string + 's" where
  "in_turn [] s = Inr s"
| "in_turn (f # fs) s = bind_sum (f s) (in_turn fs)"

definition tagged :: "('w, 'r) wire \<Rightarrow> nat \<Rightarrow> ('w \<Rightarrow> string + 'w) \<Rightarrow> 'w \<Rightarrow> string + 'w" where
  "tagged W tag f w = bind_sum (w_uint32 W (num (int tag)) w) f"

definition field_uint32 :: "('w, 'r) wire \<Rightarrow> nat \<Rightarrow> number \<Rightarrow> 'w \<Rightarrow> string + 'w" where
  "field_uint32 W tag n w = (if n = num 0 then Inr w else tagged W tag (w_uint32 W n) w)"

definition field_int32 :: "('w, 'r) wire \<Rightarrow> nat \<Rightarrow> number \<Rightarrow> 'w \<Rightarrow> string + 'w" where
  "field_int32 W tag n w = (if n = num 0 then Inr w else tagged W tag (w_int32 W n) w)"

definition field_int64 :: "('w, 'r) wire \<Rightarrow> nat \<Rightarrow> number \<Rightarrow> 'w \<Rightarrow> string + 'w" where
  "field_int64 W tag n w = (if n = num 0 then Inr w else tagged W tag (w_int64 W n) w)"

definition field_double :: "('w, 'r) wire \<Rightarrow> nat \<Rightarrow> number \<Rightarrow> 'w \<Rightarrow> string + 'w" where
  "field_double W tag n w = (if n = num 0 then Inr w else tagged W tag (w_double W n) w)"

definition field_bool :: "('w, 'r) wire \<Rightarrow> nat \<Rightarrow> bool \<Rightarrow> 'w \<Rightarrow> string + 'w" where
  "field_bool W tag b w = (if b = False then Inr w else tagged W tag (w_bool W b) w)"

definition field_string :: "('w, 'r) wire \<Rightarrow> nat \<Rightarrow> string \<Rightarrow> 'w \<Rightarrow> string + 'w" where
  "field_string W tag s w = (if s = '''' then Inr w else tagged W tag (w_string W s) w)"

definition field_strings :: "('w, 'r) wire \<Rightarrow> nat \<Rightarrow> string list \<Rightarrow> 'w \<Rightarrow> string + 'w" where
  "field_strings W tag ss = in_turn (map (\<lambda>s. tagged W tag (w_string W s)) ss)"

text \<open>\<open>X.encode(v, writer.uint32(tag).fork()).join()\<close>.\<close>

definition embedded ::
  "('w, 'r) wire \<Rightarrow> nat \<Rightarrow> ('m \<Rightarrow> 'w \<Rightarrow> string + 'w) \<Rightarrow> 'm \<Rightarrow> 'w \<Rightarrow> string + 'w" where
  "embedded W tag enc v = tagged W tag (\<lambda>w. bind_sum (enc v (w_fork W w)) (w_join W))"

definition field_message ::
  "('w, 'r) wire \<Rightarrow> nat \<Rightarrow> ('m \<Rightarrow> 'w \<Rightarrow> string + 'w) \<Rightarrow> 'm option \<Rightarrow> 'w \<Rightarrow> string + 'w" where
  "field_message W tag enc v w = (case v of None \<Rightarrow> Inr w | Some m \<Rightarrow> embedded W tag enc m w)"

definition field_messages ::
  "('w, 'r) wire \<Rightarrow> nat \<Rightarrow> ('m \<Rightarrow> 'w \<Rightarrow> string + 'w) \<Rightarrow> 'm list \<Rightarrow> 'w \<Rightarrow> string + 'w" where
  "field_messages W tag enc vs = in_turn (map (embedded W tag enc) vs)"

subsection \<open>Reading\<close>

type_synonym ('m, 'r) action = "'m \<Rightarrow> 'r \<Rightarrow> (string + 'm \<times> 'r) option"

definition MAX_SAFE_INTEGER :: number where
  "MAX_SAFE_INTEGER = num 9007199254740991"

definition MIN_SAFE_INTEGER :: number where
  "MIN_SAFE_INTEGER = num (- 9007199254740991)"

definition longToNumber :: "int \<Rightarrow> string + number" where
  "longToNumber int64 =
     (let n = toNumber (show_int int64)
      in if num_lt MAX_SAFE_INTEGER n then Inl ''Value is larger than Number.MAX_SAFE_INTEGER''
         else if num_lt n MIN_SAFE_INTEGER then Inl ''Value is smaller than Number.MIN_SAFE_INTEGER''
         else Inr n)"

definition reading :: "('r \<Rightarrow> string + 'v \<times> 'r) \<Rightarrow> ('v \<Rightarrow> 'm \<Rightarrow> 'm) \<Rightarrow> ('m, 'r) action" where
  "reading rd store m r = Some (bind_sum (rd r) (\<lambda>(v, r'). Inr (store v m, r')))"

definition read_uint32 :: "('w, 'r) wire \<Rightarrow> ((number \<Rightarrow> number) \<Rightarrow> 'm \<Rightarrow> 'm) \<Rightarrow> ('m, 'r) action" where
  "read_uint32 W upd = reading (r_uint32 W) (\<lambda>n. upd (\<lambda>_. num (int n)))"

definition read_int32 :: "('w, 'r) wire \<Rightarrow> ((number \<Rightarrow> number) \<Rightarrow> 'm \<Rightarrow> 'm) \<Rightarrow> ('m, 'r) action" where
  "read_int32 W upd = reading (r_int32 W) (\<lambda>n. upd (\<lambda>_. num n))"

definition long_number :: "('w, 'r) wire \<Rightarrow> 'r \<Rightarrow> string + number \<times> 'r" where
  "long_number W r =
     bind_sum (r_int64 W r) (\<lambda>(n, r'). bind_sum (longToNumber n) (\<lambda>v. Inr (v, r')))"

definition read_int64 :: "('w, 'r) wire \<Rightarrow> ((number \<Rightarrow> number) \<Rightarrow> 'm \<Rightarrow> 'm) \<Rightarrow> ('m, 'r) action" where
  "read_int64 W upd = reading (long_number W) (\<lambda>v. upd (\<lambda>_. v))"

definition read_double :: "('w, 'r) wire \<Rightarrow> ((number \<Rightarrow> number) \<Rightarrow> 'm \<Rightarrow> 'm) \<Rightarrow> ('m, 'r) action" where
  "read_double W upd = reading (r_double W) (\<lambda>v. upd (\<lambda>_. v))"

definition read_bool :: "('w, 'r) wire \<Rightarrow> ((bool \<Rightarrow> bool) \<Rightarrow> 'm \<Rightarrow> 'm) \<Rightarrow> ('m, 'r) action" where
  "read_bool W upd = reading (r_bool W) (\<lambda>v. upd (\<lambda>_. v))"

definition read_text :: "('w, 'r) wire \<Rightarrow> ((string \<Rightarrow> string) \<Rightarrow> 'm \<Rightarrow> 'm) \<Rightarrow> ('m, 'r) action" where
  "read_text W upd = reading (r_string W) (\<lambda>v. upd (\<lambda>_. v))"

definition push_text :: "('w, 'r) wire \<Rightarrow> ((string list \<Rightarrow> string list) \<Rightarrow> 'm \<Rightarrow> 'm) \<Rightarrow> ('m, 'r) action" where
  "push_text W upd = reading (r_string W) (\<lambda>v. upd (\<lambda>vs. vs @ [v]))"

text \<open>\<open>X.decode(reader, reader.uint32())\<close>.\<close>

type_synonym ('m, 'r) decoder = "'r \<Rightarrow> nat option \<Rightarrow> (string + 'm \<times> 'r) option"

definition storing ::
  "('w, 'r) wire \<Rightarrow> ('v, 'r) decoder \<Rightarrow> ('v \<Rightarrow> 'm \<Rightarrow> 'm) \<Rightarrow> ('m, 'r) action" where
  "storing W decode store m r =
     (case r_uint32 W r of
        Inl e \<Rightarrow> Some (Inl e)
      | Inr (n, r1) \<Rightarrow>
          map_option (\<lambda>res. bind_sum res (\<lambda>(v, r2). Inr (store v m, r2))) (decode r1 (Some n)))"

definition read_message ::
  "('w, 'r) wire \<Rightarrow> ('v, 'r) decoder \<Rightarrow> (('v option \<Rightarrow> 'v option) \<Rightarrow> 'm \<Rightarrow> 'm) \<Rightarrow> ('m, 'r) action" where
  "read_message W decode upd = storing W decode (\<lambda>v. upd (\<lambda>_. Some v))"

definition push_message ::
  "('w, 'r) wire \<Rightarrow> ('v, 'r) decoder \<Rightarrow> (('v list \<Rightarrow> 'v list) \<Rightarrow> 'm \<Rightarrow> 'm) \<Rightarrow> ('m, 'r) action" where
  "push_message W decode upd = storing W decode (\<lambda>v. upd (\<lambda>vs. vs @ [v]))"

text \<open>
  The \<open>switch\<close> of a decoder: one entry per case, with the field number, the tag the case
  accepts, and its action. \<open>None\<close> is a tag no case accepts.
\<close>

definition dispatch :: "(nat \<times> nat \<times> ('m, 'r) action) list \<Rightarrow> nat \<Rightarrow> ('m, 'r) action option" where
  "dispatch cs tag =
     (case map_of cs (tag div 8) of
        None \<Rightarrow> None
      | Some (expected, act) \<Rightarrow> if tag \<noteq> expected then None else Some act)"

partial_function (option) decode_loop ::
  "('w, 'r) wire \<Rightarrow> (nat \<times> nat \<times> ('m, 'r) action) list \<Rightarrow> nat \<Rightarrow> 'm \<Rightarrow> 'r \<Rightarrow> (string + 'm \<times> 'r) option" where
  "decode_loop W cs stop m r =
     (if r_pos W r < stop
      then (case r_uint32 W r of
              Inl e \<Rightarrow> Some (Inl e)
            | Inr (tag, r1) \<Rightarrow>
                (case dispatch cs tag of
                   Some act \<Rightarrow>
                     Option.bind (act m r1)
                       (\<lambda>res. case res of
                                Inl e \<Rightarrow> Some (Inl e)
                              | Inr (m', r2) \<Rightarrow> decode_loop W cs stop m' r2)
                 | None \<Rightarrow>
                     if tag mod 8 = 4 \<or> tag = 0 then Some (Inr (m, r1))
                     else (case r_skip W (tag mod 8) r1 of
                             Inl e \<Rightarrow> Some (Inl e)
                           | Inr r2 \<Rightarrow> decode_loop W cs stop m r2)))
      else Some (Inr (m, r)))"

definition decode_message ::
  "('w, 'r) wire \<Rightarrow> (nat \<times> nat \<times> ('m, 'r) action) list \<Rightarrow> 'm \<Rightarrow> ('m, 'r) decoder" where
  "decode_message W cs base r len =
     decode_loop W cs (case len of None \<Rightarrow> r_len W r | Some n \<Rightarrow> r_pos W r + n) base r"

subsection \<open>Reading ends\<close>

locale wire_reader =
  fixes W :: "('w, 'r) wire"
  assumes uint32_ahead: "r_uint32 W r = Inr (n, r') \<Longrightarrow> r_pos W r < r_pos W r'"
    and int32_ahead: "r_int32 W r = Inr (i, r') \<Longrightarrow> r_pos W r \<le> r_pos W r'"
    and int64_ahead: "r_int64 W r = Inr (i, r') \<Longrightarrow> r_pos W r \<le> r_pos W r'"
    and bool_ahead: "r_bool W r = Inr (b, r') \<Longrightarrow> r_pos W r \<le> r_pos W r'"
    and double_ahead: "r_double W r = Inr (v, r') \<Longrightarrow> r_pos W r \<le> r_pos W r'"
    and string_ahead: "r_string W r = Inr (s, r') \<Longrightarrow> r_pos W r \<le> r_pos W r'"
    and skip_ahead: "r_skip W n r = Inr r' \<Longrightarrow> r_pos W r \<le> r_pos W r'"

definition returns :: "('w, 'r) wire \<Rightarrow> ('m, 'r) action \<Rightarrow> bool" where
  "returns W act \<longleftrightarrow>
     (\<forall>m r. \<exists>res. act m r = Some res \<and> (\<forall>m' r'. res = Inr (m', r') \<longrightarrow> r_pos W r \<le> r_pos W r'))"

definition decodes :: "('w, 'r) wire \<Rightarrow> ('m, 'r) decoder \<Rightarrow> bool" where
  "decodes W f \<longleftrightarrow>
     (\<forall>r len. \<exists>res. f r len = Some res \<and> (\<forall>m r'. res = Inr (m, r') \<longrightarrow> r_pos W r \<le> r_pos W r'))"

context wire_reader
begin

lemma reading_returns:
  "(\<And>r v r'. rd r = Inr (v, r') \<Longrightarrow> r_pos W r \<le> r_pos W r') \<Longrightarrow> returns W (reading rd store)"
  by (auto simp: returns_def reading_def)

lemma long_number_ahead: "long_number W r = Inr (v, r') \<Longrightarrow> r_pos W r \<le> r_pos W r'"
  by (auto simp: long_number_def intro: int64_ahead)

lemma uint32_ahead_le: "r_uint32 W r = Inr (n, r') \<Longrightarrow> r_pos W r \<le> r_pos W r'"
  by (rule less_imp_le) (rule uint32_ahead)

lemma actions_return [simp]:
  "returns W (read_uint32 W u)" "returns W (read_int32 W u)" "returns W (read_int64 W u)"
  "returns W (read_double W v)" "returns W (read_bool W b)" "returns W (read_text W s)"
  "returns W (push_text W ss)"
  unfolding read_uint32_def read_int32_def read_int64_def read_double_def read_bool_def read_text_def push_text_def
  by (rule reading_returns; erule uint32_ahead_le int32_ahead long_number_ahead double_ahead bool_ahead string_ahead)+

lemma storing_returns:
  assumes "decodes W f"
  shows "returns W (storing W f store)"
  unfolding returns_def
proof (intro allI)
  fix m r
  show "\<exists>res. storing W f store m r = Some res \<and> (\<forall>m' r'. res = Inr (m', r') \<longrightarrow> r_pos W r \<le> r_pos W r')"
  proof (cases "r_uint32 W r")
    case (Inr p)
    obtain n r1 where p: "p = (n, r1)" by force
    obtain res where res: "f r1 (Some n) = Some res" "\<forall>m r'. res = Inr (m, r') \<longrightarrow> r_pos W r1 \<le> r_pos W r'"
      using assms unfolding decodes_def by blast
    with Inr p uint32_ahead_le show ?thesis by (fastforce simp: storing_def)
  qed (simp add: storing_def)
qed

lemma messages_return [simp]:
  assumes "decodes W f"
  shows "returns W (read_message W f u)" "returns W (push_message W f us)"
  using storing_returns [OF assms] by (simp_all add: read_message_def push_message_def)

lemma decode_loop_returns:
  assumes "list_all (\<lambda>(_, _, act). returns W act) cs"
  shows "\<exists>res. decode_loop W cs stop m r = Some res \<and> (\<forall>m' r'. res = Inr (m', r') \<longrightarrow> r_pos W r \<le> r_pos W r')"
proof (induction "stop - r_pos W r" arbitrary: m r rule: less_induct)
  case less
  note IH = less [rule_format]
  have ret: "returns W act" if "dispatch cs tag = Some act" for tag act
    using assms that by (auto simp: dispatch_def list_all_iff dest!: map_of_SomeD split: option.splits if_splits)
  show ?case
  proof (cases "r_pos W r < stop \<and> (\<exists>tag r1. r_uint32 W r = Inr (tag, r1))")
    case True
    then obtain tag r1 where go: "r_pos W r < stop" "r_uint32 W r = Inr (tag, r1)" by auto
    have ahead: "r_pos W r < r_pos W r1" using go(2) by (rule uint32_ahead)
    have on: "\<exists>res. decode_loop W cs stop m' r2 = Some res \<and> (\<forall>m'' r'. res = Inr (m'', r') \<longrightarrow> r_pos W r \<le> r_pos W r')"
      if "r_pos W r1 \<le> r_pos W r2" for m' r2
      using IH [of r2 m'] that ahead go(1) by fastforce
    note unfold = decode_loop.simps [of W cs stop m r] go
    show ?thesis
    proof (cases "dispatch cs tag")
      case None
      show ?thesis
      proof (cases "tag mod 8 = 4 \<or> tag = 0")
        case True
        with None ahead show ?thesis by (simp add: unfold)
      next
        case False
        show ?thesis
        proof (cases "r_skip W (tag mod 8) r1")
          case (Inr r2)
          then have "r_pos W r1 \<le> r_pos W r2" by (rule skip_ahead)
          from on [OF this, of m] show ?thesis using None False Inr by (simp add: unfold)
        qed (use None False in \<open>simp add: unfold\<close>)
      qed
    next
      case (Some act)
      obtain res where res: "act m r1 = Some res" "\<forall>m' r'. res = Inr (m', r') \<longrightarrow> r_pos W r1 \<le> r_pos W r'"
        using ret [OF Some] unfolding returns_def by blast
      show ?thesis
      proof (cases res)
        case (Inr p)
        obtain m' r2 where p: "p = (m', r2)" by force
        with res Inr have "r_pos W r1 \<le> r_pos W r2" by simp
        from on [OF this, of m'] show ?thesis using Some res Inr p by (simp add: unfold)
      qed (use Some res in \<open>simp add: unfold\<close>)
    qed
  qed (auto simp: decode_loop.simps [of W cs stop m r] split: sum.split)
qed

lemma decode_message_returns:
  "list_all (\<lambda>(_, _, act). returns W act) cs \<Longrightarrow> decodes W (decode_message W cs base)"
  unfolding decodes_def decode_message_def by (intro allI) (rule decode_loop_returns)

end

subsection \<open>Whole numbers\<close>

definition safe_int :: "number \<Rightarrow> bool" where
  "safe_int v \<longleftrightarrow> (case int_of v of None \<Rightarrow> False | Some n \<Rightarrow> v = num n \<and> \<bar>n\<bar> < 2 ^ 53)"

definition small_int :: "number \<Rightarrow> bool" where
  "small_int v \<longleftrightarrow> (case int_of v of None \<Rightarrow> False | Some n \<Rightarrow> v = num n \<and> - (2 ^ 31) \<le> n \<and> n < 2 ^ 31)"

definition small_nat :: "number \<Rightarrow> bool" where
  "small_nat v \<longleftrightarrow> (case int_of v of None \<Rightarrow> False | Some n \<Rightarrow> v = num n \<and> 0 \<le> n \<and> n < 2 ^ 32)"

lemma safe_intE: "safe_int v \<Longrightarrow> (\<And>n. v = num n \<Longrightarrow> \<bar>n\<bar> < 2 ^ 53 \<Longrightarrow> P) \<Longrightarrow> P"
  by (auto simp: safe_int_def split: option.splits)

lemma small_intE: "small_int v \<Longrightarrow> (\<And>n. v = num n \<Longrightarrow> - (2 ^ 31) \<le> n \<Longrightarrow> n < 2 ^ 31 \<Longrightarrow> P) \<Longrightarrow> P"
  by (auto simp: small_int_def split: option.splits)

lemma small_natE: "small_nat v \<Longrightarrow> (\<And>n. v = num n \<Longrightarrow> 0 \<le> n \<Longrightarrow> n < 2 ^ 32 \<Longrightarrow> P) \<Longrightarrow> P"
  by (auto simp: small_nat_def split: option.splits)

lemma num_checks [simp]:
  "safe_int (num n) \<longleftrightarrow> \<bar>n\<bar> < 2 ^ 53"
  "small_int (num n) \<longleftrightarrow> - (2 ^ 31) \<le> n \<and> n < 2 ^ 31"
  "small_nat (num n) \<longleftrightarrow> 0 \<le> n \<and> n < 2 ^ 32"
  by (simp_all add: safe_int_def small_int_def small_nat_def)

lemma longToNumber_safe: "\<bar>n\<bar> < 2 ^ 53 \<Longrightarrow> longToNumber n = Inr (num n)"
  by (auto simp: longToNumber_def Let_def num_lt_def MAX_SAFE_INTEGER_def MIN_SAFE_INTEGER_def)

lemma longToNumber_unsafe: "2 ^ 53 \<le> \<bar>n\<bar> \<Longrightarrow> \<exists>e. longToNumber n = Inl e"
  by (auto simp: longToNumber_def Let_def num_lt_def MAX_SAFE_INTEGER_def MIN_SAFE_INTEGER_def)

text \<open>The strings that are sent: shorter than a mebibyte.\<close>

definition short_text :: "string \<Rightarrow> bool" where
  "short_text s \<longleftrightarrow> length s < 2 ^ 20"

subsection \<open>What one side writes the other side reads\<close>

definition emits :: "('w \<Rightarrow> 'b list list) \<Rightarrow> ('w \<Rightarrow> string + 'w) \<Rightarrow> 'b list \<Rightarrow> bool" where
  "emits outs f bs \<longleftrightarrow>
     (\<forall>w b st. outs w = b # st \<longrightarrow> (\<exists>w'. f w = Inr w' \<and> outs w' = (b @ bs) # st))"

definition consumes ::
  "('w, 'r) wire \<Rightarrow> ('r \<Rightarrow> 'b list) \<Rightarrow> ('r \<Rightarrow> string + 'v \<times> 'r) \<Rightarrow> 'b list \<Rightarrow> 'v \<Rightarrow> bool" where
  "consumes W rest rd bs v \<longleftrightarrow>
     (\<forall>r more. rest r = bs @ more \<longrightarrow>
        (\<exists>r'. rd r = Inr (v, r') \<and> rest r' = more \<and> r_pos W r' = r_pos W r + length bs))"

definition carries ::
  "('w, 'r) wire \<Rightarrow> ('w \<Rightarrow> 'b list list) \<Rightarrow> ('r \<Rightarrow> 'b list) \<Rightarrow> ('w \<Rightarrow> string + 'w) \<Rightarrow>
   ('r \<Rightarrow> string + 'v \<times> 'r) \<Rightarrow> 'v \<Rightarrow> nat \<Rightarrow> bool" where
  "carries W outs rest f rd v c \<longleftrightarrow>
     (\<exists>bs. bs \<noteq> [] \<and> length bs \<le> c \<and> emits outs f bs \<and> consumes W rest rd bs v)"

definition skipping :: "('w, 'r) wire \<Rightarrow> nat \<Rightarrow> 'r \<Rightarrow> string + unit \<times> 'r" where
  "skipping W t r = map_sum id (Pair ()) (r_skip W t r)"

text \<open>
  \<open>outs w\<close> lists the bytes written so far to the message being written and, behind it, to
  the messages it is embedded in; \<open>rest r\<close> lists the bytes not read yet, and \<open>exact\<close>
  says which numbers a binary64 holds.
\<close>

locale wire_format = wire_reader W for W :: "('w, 'r) wire" +
  fixes outs :: "'w \<Rightarrow> 'b list list" and rest :: "'r \<Rightarrow> 'b list" and exact :: "number \<Rightarrow> bool"
  assumes pos_rest: "r_pos W r + length (rest r) = r_len W r"
    and uint32_law: "0 \<le> n \<Longrightarrow> n < 2 ^ 32 \<Longrightarrow> carries W outs rest (w_uint32 W (num n)) (r_uint32 W) (nat n) 5"
    and int32_law: "- (2 ^ 31) \<le> n \<Longrightarrow> n < 2 ^ 31 \<Longrightarrow> carries W outs rest (w_int32 W (num n)) (r_int32 W) n 10"
    and int64_law: "- (2 ^ 63) \<le> n \<Longrightarrow> n < 2 ^ 63 \<Longrightarrow> carries W outs rest (w_int64 W (num n)) (r_int64 W) n 10"
    and bool_law: "carries W outs rest (w_bool W yes) (r_bool W) yes 1"
    and double_law: "exact v \<Longrightarrow> carries W outs rest (w_double W v) (r_double W) v 8"
    and string_law: "length s < 2 ^ 32 \<Longrightarrow> carries W outs rest (w_string W s) (r_string W) s (length s + 5)"
    and fork_law: "outs (w_fork W w) = [] # outs w"
    and join_law: "k < 2 ^ 32 \<Longrightarrow>
      \<exists>ps. length ps \<le> 5 \<and> consumes W rest (r_uint32 W) ps k \<and>
        (\<forall>w b a st. outs w = b # a # st \<longrightarrow> length b = k \<longrightarrow>
           (\<exists>w'. w_join W w = Inr w' \<and> outs w' = (a @ ps @ b) # st))"
    and int64_fraction: "int_of v = None \<Longrightarrow> \<exists>e. w_int64 W v w = Inl e"
    and uint32_fraction: "int_of v = None \<Longrightarrow> \<exists>e. w_uint32 W v w = Inl e"
    and skip_int64: "- (2 ^ 63) \<le> n \<Longrightarrow> n < 2 ^ 63 \<Longrightarrow> carries W outs rest (w_int64 W (num n)) (skipping W 0) () 10"
    and skip_string: "length s < 2 ^ 32 \<Longrightarrow> carries W outs rest (w_string W s) (skipping W 2) () (length s + 5)"

text \<open>
  \<open>codes\<close>: what the step \<open>f\<close> of an encoder writes makes the loop with the cases \<open>cs\<close>
  apply \<open>u\<close> to the message. \<open>transmits\<close>: the whole of a message is read back.
\<close>

definition codes ::
  "('w, 'r) wire \<Rightarrow> ('w \<Rightarrow> 'b list list) \<Rightarrow> ('r \<Rightarrow> 'b list) \<Rightarrow> (nat \<times> nat \<times> ('m, 'r) action) list \<Rightarrow>
   ('w \<Rightarrow> string + 'w) \<Rightarrow> ('m \<Rightarrow> 'm) \<Rightarrow> nat \<Rightarrow> bool" where
  "codes W outs rest cs f u c \<longleftrightarrow>
     (\<exists>bs. length bs \<le> c \<and> emits outs f bs \<and>
        (\<forall>stop m r more. rest r = bs @ more \<longrightarrow> r_pos W r + length bs \<le> stop \<longrightarrow>
           (\<exists>r'. rest r' = more \<and> r_pos W r' = r_pos W r + length bs \<and>
              decode_loop W cs stop m r = decode_loop W cs stop (u m) r')))"

definition transmits ::
  "('w, 'r) wire \<Rightarrow> ('w \<Rightarrow> 'b list list) \<Rightarrow> ('r \<Rightarrow> 'b list) \<Rightarrow> ('m \<Rightarrow> 'w \<Rightarrow> string + 'w) \<Rightarrow>
   ('m, 'r) decoder \<Rightarrow> 'm \<Rightarrow> nat \<Rightarrow> bool" where
  "transmits W outs rest enc decode m c \<longleftrightarrow>
     (\<exists>bs. length bs \<le> c \<and> emits outs (enc m) bs \<and>
        (\<forall>r more. rest r = bs @ more \<longrightarrow>
           (\<exists>r'. rest r' = more \<and> r_pos W r' = r_pos W r + length bs \<and>
              decode r (Some (length bs)) = Some (Inr (m, r')))) \<and>
        (\<forall>r. rest r = bs \<longrightarrow>
           (\<exists>r'. rest r' = [] \<and> r_pos W r' = r_pos W r + length bs \<and>
              decode r None = Some (Inr (m, r')))))"

lemma emits_nothing: "emits outs Inr []"
  by (simp add: emits_def)

lemma emits_bind:
  "emits outs f bs \<Longrightarrow> emits outs g cs \<Longrightarrow> emits outs (\<lambda>w. bind_sum (f w) g) (bs @ cs)"
  unfolding emits_def by fastforce

lemma codes_nothing: "codes W outs rest cs Inr (\<lambda>m. m) 0"
  unfolding codes_def by (rule exI [of _ "[]"]) (auto simp: emits_nothing)

lemma codes_mono: "codes W outs rest cs f u c \<Longrightarrow> c \<le> d \<Longrightarrow> codes W outs rest cs f u d"
  unfolding codes_def by (meson order_trans)

lemma codes_bind:
  assumes "codes W outs rest cs f u c" "codes W outs rest cs g v d"
  shows "codes W outs rest cs (\<lambda>w. bind_sum (f w) g) (\<lambda>m. v (u m)) (c + d)"
proof -
  obtain bs where bs: "length bs \<le> c" "emits outs f bs"
    "\<And>stop m r more. rest r = bs @ more \<Longrightarrow> r_pos W r + length bs \<le> stop \<Longrightarrow>
       \<exists>r'. rest r' = more \<and> r_pos W r' = r_pos W r + length bs \<and>
            decode_loop W cs stop m r = decode_loop W cs stop (u m) r'"
    using assms(1) unfolding codes_def by blast
  obtain bt where bt: "length bt \<le> d" "emits outs g bt"
    "\<And>stop m r more. rest r = bt @ more \<Longrightarrow> r_pos W r + length bt \<le> stop \<Longrightarrow>
       \<exists>r'. rest r' = more \<and> r_pos W r' = r_pos W r + length bt \<and>
            decode_loop W cs stop m r = decode_loop W cs stop (v m) r'"
    using assms(2) unfolding codes_def by blast
  have "\<exists>r'. rest r' = more \<and> r_pos W r' = r_pos W r + length (bs @ bt) \<and>
      decode_loop W cs stop m r = decode_loop W cs stop (v (u m)) r'"
    if h: "rest r = (bs @ bt) @ more" "r_pos W r + length (bs @ bt) \<le> stop" for stop m r more
  proof -
    obtain r1 where r1: "rest r1 = bt @ more" "r_pos W r1 = r_pos W r + length bs"
      "decode_loop W cs stop m r = decode_loop W cs stop (u m) r1"
      by (rule exE [OF bs(3) [of r "bt @ more" stop m]]) (use h in auto)
    then show ?thesis using bt(3) [of r1 more stop "u m"] h by auto
  qed
  with bs(1,2) bt(1,2) show ?thesis
    unfolding codes_def by (intro exI [of _ "bs @ bt"]) (auto intro: emits_bind)
qed

lemma in_turn_funs: "in_turn [] = Inr" "in_turn (f # fs) = (\<lambda>w. bind_sum (f w) (in_turn fs))"
  by (simp_all add: fun_eq_iff)

lemma codes_Nil: "codes W outs rest cs (in_turn []) (\<lambda>m. m) 0"
  unfolding in_turn_funs by (rule codes_nothing)

lemma codes_Cons:
  "codes W outs rest cs f u c \<Longrightarrow> codes W outs rest cs (in_turn fs) v d \<Longrightarrow>
   codes W outs rest cs (in_turn (f # fs)) (\<lambda>m. v (u m)) (c + d)"
  unfolding in_turn_funs by (rule codes_bind)

context wire_format
begin

lemma codes_tagged:
  assumes tag: "0 < tag" "tag < 2 ^ 32"
    and case_: "dispatch cs tag = Some (reading rd store)"
    and value_: "carries W outs rest f rd v c"
  shows "codes W outs rest cs (tagged W tag f) (store v) (c + 5)"
proof -
  obtain ts where ts: "ts \<noteq> []" "length ts \<le> 5" "emits outs (w_uint32 W (num (int tag))) ts"
    "consumes W rest (r_uint32 W) ts tag"
    using uint32_law [of "int tag"] tag unfolding carries_def by auto
  obtain bs where bs: "length bs \<le> c" "emits outs f bs" "consumes W rest rd bs v"
    using value_ unfolding carries_def by blast
  have "\<exists>r'. rest r' = more \<and> r_pos W r' = r_pos W r + length (ts @ bs) \<and>
      decode_loop W cs stop m r = decode_loop W cs stop (store v m) r'"
    if h: "rest r = (ts @ bs) @ more" "r_pos W r + length (ts @ bs) \<le> stop" for stop m r more
  proof -
    obtain r1 where r1: "r_uint32 W r = Inr (tag, r1)" "rest r1 = bs @ more" "r_pos W r1 = r_pos W r + length ts"
      using ts(4) [unfolded consumes_def, rule_format, of r "bs @ more"] h(1) by auto
    obtain r2 where r2: "rd r1 = Inr (v, r2)" "rest r2 = more" "r_pos W r2 = r_pos W r1 + length bs"
      using bs(3) [unfolded consumes_def, rule_format, OF r1(2)] by auto
    have "r_pos W r < stop" using h(2) ts(1) by (cases ts) auto
    then have "decode_loop W cs stop m r = decode_loop W cs stop (store v m) r2"
      by (subst decode_loop.simps) (simp add: r1(1) r2(1) case_ reading_def)
    with r1 r2 show ?thesis by auto
  qed
  moreover have "emits outs (tagged W tag f) (ts @ bs)"
    using emits_bind [OF ts(3) bs(2)] by (simp add: emits_def tagged_def)
  ultimately show ?thesis
    using ts(2) bs(1) unfolding codes_def by (intro exI [of _ "ts @ bs"]) auto
qed

lemma carries_long_number:
  assumes "safe_int v"
  shows "carries W outs rest (w_int64 W v) (long_number W) v 10"
proof -
  obtain n where n: "v = num n" "\<bar>n\<bar> < 2 ^ 53" using assms by (rule safe_intE)
  then obtain bs where "bs \<noteq> []" "length bs \<le> 10" "emits outs (w_int64 W v) bs" "consumes W rest (r_int64 W) bs n"
    using int64_law [of n] unfolding carries_def by force
  moreover have "consumes W rest (long_number W) bs v"
    unfolding consumes_def
  proof (intro allI impI)
    fix r more
    assume "rest r = bs @ more"
    then obtain r' where "r_int64 W r = Inr (n, r')" "rest r' = more" "r_pos W r' = r_pos W r + length bs"
      using \<open>consumes W rest (r_int64 W) bs n\<close> unfolding consumes_def by blast
    then show "\<exists>r'. long_number W r = Inr (v, r') \<and> rest r' = more \<and> r_pos W r' = r_pos W r + length bs"
      using longToNumber_safe [OF n(2)] by (simp add: long_number_def n(1))
  qed
  ultimately show ?thesis unfolding carries_def by blast
qed

lemma codes_default: "codes W outs rest cs Inr u 0" if "\<And>m. u m = m"
proof -
  have "u = (\<lambda>m. m)" using that by auto
  then show ?thesis by (simp add: codes_nothing)
qed

end

text \<open>What a scalar field does to the message that is being read.\<close>

definition when_set :: "'v \<Rightarrow> 'v \<Rightarrow> (('v \<Rightarrow> 'v) \<Rightarrow> 'm \<Rightarrow> 'm) \<Rightarrow> 'm \<Rightarrow> 'm" where
  "when_set d v upd m = (if v = d then m else upd (\<lambda>_. v) m)"

context wire_format
begin

lemma codes_when_set:
  assumes "v \<noteq> d \<Longrightarrow> carries W outs rest f rd v c"
    and "0 < tag" "tag < 2 ^ 32" "dispatch cs tag = Some (reading rd (\<lambda>v. upd (\<lambda>_. v)))"
  shows "codes W outs rest cs (\<lambda>w. if v = d then Inr w else tagged W tag f w) (when_set d v upd) (c + 5)"
proof (cases "v = d")
  case True
  then have "when_set d v upd = (\<lambda>m. m)" by (simp add: when_set_def fun_eq_iff)
  moreover have "codes W outs rest cs (\<lambda>w. Inr w) (\<lambda>m. m) (c + 5)"
    using codes_mono [OF codes_nothing] by simp
  ultimately show ?thesis using True by simp
next
  case False
  then have "when_set d v upd = upd (\<lambda>_. v)" by (simp add: when_set_def fun_eq_iff)
  with False codes_tagged [OF assms(2,3,4)] assms(1) show ?thesis by simp
qed

lemma codes_int64:
  assumes "safe_int v" "0 < tag" "tag < 2 ^ 32" "dispatch cs tag = Some (read_int64 W upd)"
  shows "codes W outs rest cs (field_int64 W tag v) (when_set (num 0) v upd) 15"
  using codes_when_set [of v "num 0", OF carries_long_number assms(2,3)] assms
  by (simp add: field_int64_def [abs_def] read_int64_def)

lemma codes_int32:
  assumes "small_int v" "0 < tag" "tag < 2 ^ 32" "dispatch cs tag = Some (read_int32 W upd)"
  shows "codes W outs rest cs (field_int32 W tag v) (when_set (num 0) v upd) 15"
proof -
  obtain n where n: "v = num n" "- (2 ^ 31) \<le> n" "n < 2 ^ 31" using assms(1) by (rule small_intE)
  have "codes W outs rest cs (tagged W tag (w_int32 W v)) (upd (\<lambda>_. num n)) (10 + 5)"
    by (rule codes_tagged [OF assms(2,3)]) (use assms(4) n in \<open>auto simp: read_int32_def intro: int32_law\<close>)
  then show ?thesis
    using codes_mono [OF codes_nothing, of 15 W outs rest cs] n(1)
    by (cases "v = num 0") (simp_all add: field_int32_def [abs_def] when_set_def [abs_def])
qed

lemma codes_uint32:
  assumes "small_nat v" "0 < tag" "tag < 2 ^ 32" "dispatch cs tag = Some (read_uint32 W upd)"
  shows "codes W outs rest cs (field_uint32 W tag v) (when_set (num 0) v upd) 15"
proof -
  obtain n where n: "v = num n" "0 \<le> n" "n < 2 ^ 32" using assms(1) by (rule small_natE)
  have "codes W outs rest cs (tagged W tag (w_uint32 W v)) (upd (\<lambda>_. num (int (nat n)))) (5 + 5)"
    by (rule codes_tagged [OF assms(2,3)]) (use assms(4) n in \<open>auto simp: read_uint32_def intro: uint32_law\<close>)
  then have "codes W outs rest cs (tagged W tag (w_uint32 W v)) (upd (\<lambda>_. num n)) 15"
    using n(2) by (auto intro: codes_mono)
  then show ?thesis
    using codes_mono [OF codes_nothing, of 15 W outs rest cs] n(1)
    by (cases "v = num 0") (simp_all add: field_uint32_def [abs_def] when_set_def [abs_def])
qed

lemma codes_double:
  assumes "v = num 0 \<or> exact v" "0 < tag" "tag < 2 ^ 32" "dispatch cs tag = Some (read_double W upd)"
  shows "codes W outs rest cs (field_double W tag v) (when_set (num 0) v upd) 15"
proof (rule codes_mono)
  show "codes W outs rest cs (field_double W tag v) (when_set (num 0) v upd) (8 + 5)"
    unfolding field_double_def [abs_def]
    by (rule codes_when_set [OF _ assms(2,3)]) (use assms in \<open>auto simp: read_double_def intro: double_law\<close>)
qed simp

lemma codes_bool:
  assumes "0 < tag" "tag < 2 ^ 32" "dispatch cs tag = Some (read_bool W upd)"
  shows "codes W outs rest cs (field_bool W tag v) (when_set False v upd) 15"
proof (rule codes_mono)
  show "codes W outs rest cs (field_bool W tag v) (when_set False v upd) (1 + 5)"
    unfolding field_bool_def [abs_def]
    by (rule codes_when_set [OF _ assms(1,2)]) (use assms bool_law [of v] in \<open>simp_all add: read_bool_def\<close>)
qed simp

lemma carries_text:
  assumes "short_text s"
  shows "carries W outs rest (w_string W s) (r_string W) s (2 ^ 20 + 5)"
proof -
  have "carries W outs rest (w_string W s) (r_string W) s (length s + 5)"
    using assms by (intro string_law) (simp add: short_text_def)
  then show ?thesis using assms unfolding carries_def short_text_def by (auto intro: order_trans)
qed

lemma codes_string:
  assumes "short_text v" "0 < tag" "tag < 2 ^ 32" "dispatch cs tag = Some (read_text W upd)"
  shows "codes W outs rest cs (field_string W tag v) (when_set '''' v upd) (2 ^ 21)"
proof (rule codes_mono)
  show "codes W outs rest cs (field_string W tag v) (when_set '''' v upd) (2 ^ 20 + 5 + 5)"
    unfolding field_string_def [abs_def]
    by (rule codes_when_set [OF _ assms(2,3)]) (use assms carries_text [of v] in \<open>simp_all add: read_text_def\<close>)
qed simp

end

definition coded ::
  "('w, 'r) wire \<Rightarrow> ('w \<Rightarrow> 'b list list) \<Rightarrow> ('r \<Rightarrow> 'b list) \<Rightarrow> (nat \<times> nat \<times> ('m, 'r) action) list \<Rightarrow> 'm \<Rightarrow>
   ('w \<Rightarrow> string + 'w) \<Rightarrow> 'm \<Rightarrow> nat \<Rightarrow> bool" where
  "coded W outs rest cs base f m c \<longleftrightarrow> (\<exists>u. codes W outs rest cs f u c \<and> u base = m)"

text \<open>A repeated field: each element is pushed.\<close>

definition push_all :: "'v list \<Rightarrow> (('v list \<Rightarrow> 'v list) \<Rightarrow> 'm \<Rightarrow> 'm) \<Rightarrow> 'm \<Rightarrow> 'm" where
  "push_all vs upd m = fold (\<lambda>v. upd (\<lambda>us. us @ [v])) vs m"

lemma push_all_update:
  assumes "\<And>m. upd (\<lambda>us. us) m = m" "\<And>f g m. upd f (upd g m) = upd (\<lambda>us. f (g us)) m"
  shows "push_all vs upd m = upd (\<lambda>us. us @ vs) m"
  by (induction vs arbitrary: m) (simp_all add: push_all_def assms)

lemma codes_each:
  assumes "\<And>v. v \<in> set vs \<Longrightarrow> codes W outs rest cs (f v) (upd (\<lambda>us. us @ [v])) c"
  shows "codes W outs rest cs (in_turn (map f vs)) (push_all vs upd) (length vs * c)"
  using assms
proof (induction vs)
  case Nil
  then show ?case using codes_nothing [of W outs rest cs] by (simp add: push_all_def [abs_def] in_turn_funs(1) del: in_turn.simps)
next
  case (Cons v vs)
  have "codes W outs rest cs (in_turn (map f (v # vs))) (\<lambda>m. push_all vs upd (upd (\<lambda>us. us @ [v]) m)) (c + length vs * c)"
    using Cons by (auto intro: codes_Cons)
  then show ?case by (simp add: push_all_def [abs_def] del: in_turn.simps)
qed

context wire_format
begin

lemma codes_strings:
  assumes "list_all short_text vs" "0 < tag" "tag < 2 ^ 32" "dispatch cs tag = Some (push_text W upd)"
  shows "codes W outs rest cs (field_strings W tag vs) (push_all vs upd) (length vs * 2 ^ 21)"
  unfolding field_strings_def
proof (rule codes_each)
  fix v
  assume "v \<in> set vs"
  with assms(1) have "carries W outs rest (w_string W v) (r_string W) v (2 ^ 20 + 5)"
    by (intro carries_text) (auto simp: list_all_iff)
  from codes_tagged [OF assms(2,3) _ this, of cs "\<lambda>v. upd (\<lambda>us. us @ [v])"]
  show "codes W outs rest cs (tagged W tag (w_string W v)) (upd (\<lambda>us. us @ [v])) (2 ^ 21)"
    using assms(4) by (auto simp: push_text_def intro: codes_mono)
qed

text \<open>An embedded message.\<close>

lemma codes_embedded:
  assumes msg: "transmits W outs rest enc decode v c" "c < 2 ^ 32"
    and tag: "0 < tag" "tag < 2 ^ 32" and case_: "dispatch cs tag = Some (storing W decode store)"
  shows "codes W outs rest cs (embedded W tag enc v) (store v) (c + 10)"
proof -
  obtain bs where bs: "length bs \<le> c" "emits outs (enc v) bs"
    "\<And>r more. rest r = bs @ more \<Longrightarrow>
      \<exists>r'. rest r' = more \<and> r_pos W r' = r_pos W r + length bs \<and> decode r (Some (length bs)) = Some (Inr (v, r'))"
    using msg(1) unfolding transmits_def by blast
  obtain ts where ts: "ts \<noteq> []" "length ts \<le> 5" "emits outs (w_uint32 W (num (int tag))) ts"
    "consumes W rest (r_uint32 W) ts tag"
    using uint32_law [of "int tag"] tag unfolding carries_def by auto
  obtain ps where ps: "length ps \<le> 5" "consumes W rest (r_uint32 W) ps (length bs)"
    "\<And>w b a st. outs w = b # a # st \<Longrightarrow> length b = length bs \<Longrightarrow>
      \<exists>w'. w_join W w = Inr w' \<and> outs w' = (a @ ps @ b) # st"
    using join_law [of "length bs"] bs(1) msg(2) by auto
  have "emits outs (\<lambda>w. bind_sum (enc v (w_fork W w)) (w_join W)) (ps @ bs)"
    unfolding emits_def
  proof (intro allI impI)
    fix w b st
    assume "outs w = b # st"
    then have "outs (w_fork W w) = [] # b # st" by (simp add: fork_law)
    then obtain w1 where w1: "enc v (w_fork W w) = Inr w1" "outs w1 = bs # b # st"
      using bs(2) unfolding emits_def by fastforce
    with ps(3) [OF w1(2)] show "\<exists>w'. bind_sum (enc v (w_fork W w)) (w_join W) = Inr w' \<and> outs w' = (b @ ps @ bs) # st"
      by auto
  qed
  from emits_bind [OF ts(3) this]
  have out: "emits outs (embedded W tag enc v) (ts @ ps @ bs)"
    by (simp add: embedded_def tagged_def emits_def)
  have "\<exists>r'. rest r' = more \<and> r_pos W r' = r_pos W r + length (ts @ ps @ bs) \<and>
      decode_loop W cs stop m r = decode_loop W cs stop (store v m) r'"
    if h: "rest r = (ts @ ps @ bs) @ more" "r_pos W r + length (ts @ ps @ bs) \<le> stop" for stop m r more
  proof -
    obtain r1 where r1: "r_uint32 W r = Inr (tag, r1)" "rest r1 = ps @ bs @ more" "r_pos W r1 = r_pos W r + length ts"
      using ts(4) [unfolded consumes_def, rule_format, of r "ps @ bs @ more"] h(1) by auto
    obtain r2 where r2: "r_uint32 W r1 = Inr (length bs, r2)" "rest r2 = bs @ more" "r_pos W r2 = r_pos W r1 + length ps"
      using ps(2) [unfolded consumes_def, rule_format, OF r1(2)] by auto
    obtain r3 where r3: "rest r3 = more" "r_pos W r3 = r_pos W r2 + length bs" "decode r2 (Some (length bs)) = Some (Inr (v, r3))"
      using bs(3) [OF r2(2)] by auto
    have "r_pos W r < stop" using h(2) ts(1) by (cases ts) auto
    then have "decode_loop W cs stop m r = decode_loop W cs stop (store v m) r3"
      by (subst decode_loop.simps) (simp add: r1(1) r2(1) r3(3) case_ storing_def)
    with r1 r2 r3 show ?thesis by auto
  qed
  with out ts(2) ps(1) bs(1) show ?thesis
    unfolding codes_def by (intro exI [of _ "ts @ ps @ bs"]) auto
qed

lemma codes_message:
  assumes "\<And>m. v = Some m \<Longrightarrow> transmits W outs rest enc decode m c" "c < 2 ^ 32"
    and "0 < tag" "tag < 2 ^ 32" "dispatch cs tag = Some (read_message W decode upd)"
  shows "codes W outs rest cs (field_message W tag enc v) (when_set None v upd) (c + 10)"
proof (cases v)
  case None
  then show ?thesis
    using codes_mono [OF codes_nothing, of "c + 10" W outs rest cs] by (simp add: field_message_def [abs_def] when_set_def [abs_def])
next
  case (Some m)
  have "codes W outs rest cs (embedded W tag enc m) (upd (\<lambda>_. Some m)) (c + 10)"
    using codes_embedded [OF assms(1) [OF Some] assms(2-4), of cs "\<lambda>v. upd (\<lambda>_. Some v)"] assms(5)
    by (simp add: read_message_def)
  with Some show ?thesis by (simp add: field_message_def [abs_def] when_set_def [abs_def])
qed

lemma codes_messages:
  assumes "\<And>v. v \<in> set vs \<Longrightarrow> transmits W outs rest enc decode v c" "c < 2 ^ 32"
    and "0 < tag" "tag < 2 ^ 32" "dispatch cs tag = Some (push_message W decode upd)"
  shows "codes W outs rest cs (field_messages W tag enc vs) (push_all vs upd) (length vs * (c + 10))"
  unfolding field_messages_def
proof (rule codes_each)
  fix v
  assume "v \<in> set vs"
  from codes_embedded [OF assms(1) [OF this] assms(2-4), of cs "\<lambda>v. upd (\<lambda>us. us @ [v])"]
  show "codes W outs rest cs (embedded W tag enc v) (upd (\<lambda>us. us @ [v])) (c + 10)"
    using assms(5) by (simp add: push_message_def)
qed

text \<open>A message whose fields are coded is transmitted.\<close>

lemma codedI:
  "enc m = in_turn fs \<Longrightarrow> codes W outs rest cs (in_turn fs) u c \<Longrightarrow> u base = m \<Longrightarrow> c \<le> d \<Longrightarrow>
   coded W outs rest cs base (enc m) m d"
  unfolding coded_def by (auto intro: codes_mono)

lemma coded_then:
  "coded W outs rest cs base f m c \<Longrightarrow> codes W outs rest cs g (\<lambda>m. m) d \<Longrightarrow>
   coded W outs rest cs base (\<lambda>w. bind_sum (f w) g) m (c + d)"
  unfolding coded_def using codes_bind [of W outs rest cs f _ c g "\<lambda>m. m" d] by blast

lemma transmits_message:
  assumes "coded W outs rest cs base (enc m) m d" "decode = decode_message W cs base"
  shows "transmits W outs rest enc decode m d"
proof -
  obtain u where u: "codes W outs rest cs (enc m) u d" "u base = m"
    using assms(1) unfolding coded_def by blast
  obtain bs where bs: "length bs \<le> d" "emits outs (enc m) bs"
    "\<And>stop m r more. rest r = bs @ more \<Longrightarrow> r_pos W r + length bs \<le> stop \<Longrightarrow>
      \<exists>r'. rest r' = more \<and> r_pos W r' = r_pos W r + length bs \<and>
           decode_loop W cs stop m r = decode_loop W cs stop (u m) r'"
    using u(1) unfolding codes_def by blast
  have "\<exists>r'. rest r' = more \<and> r_pos W r' = r_pos W r + length bs \<and>
      decode_loop W cs (r_pos W r + length bs) base r = Some (Inr (m, r'))"
    if "rest r = bs @ more" for r more
    using bs(3) [OF that order_refl, of base] u(2) by (auto simp: decode_loop.simps [of W cs _ m])
  note complete = this
  show ?thesis
    unfolding transmits_def
  proof (intro exI [of _ bs] conjI allI impI)
    show "length bs \<le> d" "emits outs (enc m) bs" by (rule bs)+
  next
    fix r more
    assume "rest r = bs @ more"
    from complete [OF this]
    show "\<exists>r'. rest r' = more \<and> r_pos W r' = r_pos W r + length bs \<and> decode r (Some (length bs)) = Some (Inr (m, r'))"
      by (simp add: assms(2) decode_message_def)
  next
    fix r
    assume "rest r = bs"
    moreover from this have "r_len W r = r_pos W r + length bs" using pos_rest [of r] by simp
    ultimately show "\<exists>r'. rest r' = [] \<and> r_pos W r' = r_pos W r + length bs \<and> decode r None = Some (Inr (m, r'))"
      using complete [of r "[]"] by (simp add: assms(2) decode_message_def)
  qed
qed

end

lemma when_set_update: "upd (\<lambda>_. d) m = m \<Longrightarrow> when_set d v upd m = upd (\<lambda>_. v) m"
  by (auto simp: when_set_def)

context wire_format
begin

text \<open>The rules for the fields of a message, with the case of its decoder first.\<close>

lemmas field_codes = codes_Cons codes_Nil codes_int64 [rotated 3] codes_int32 [rotated 3]
  codes_uint32 [rotated 3] codes_double [rotated 3] codes_bool [rotated 2] codes_string [rotated 3]
  codes_strings [rotated 3] codes_message [rotated 4] codes_messages [rotated 4]

end

context wire_format
begin

lemma transmitted:
  assumes "transmits W outs rest enc decode m c" "outs w = [[]]"
  shows "\<exists>w' bs. enc m w = Inr w' \<and> outs w' = [bs] \<and>
    (\<forall>r. rest r = bs \<longrightarrow> (\<exists>r'. decode r None = Some (Inr (m, r')) \<and> rest r' = []))"
proof -
  obtain bs where bs: "emits outs (enc m) bs"
    "\<forall>r. rest r = bs \<longrightarrow> (\<exists>r'. rest r' = [] \<and> r_pos W r' = r_pos W r + length bs \<and> decode r None = Some (Inr (m, r')))"
    using assms(1) unfolding transmits_def by blast
  from bs(1) assms(2) obtain w' where "enc m w = Inr w'" "outs w' = [bs]" unfolding emits_def by fastforce
  with bs(2) show ?thesis by blast
qed

text \<open>A field of a number the decoder does not know.\<close>

lemma codes_unknown:
  assumes tag: "tag mod 8 \<noteq> 4" "0 < tag" "tag < 2 ^ 32" and none: "dispatch cs tag = None"
    and skip: "carries W outs rest f (skipping W (tag mod 8)) () c"
  shows "codes W outs rest cs (tagged W tag f) (\<lambda>m. m) (c + 5)"
proof -
  obtain ts where ts: "ts \<noteq> []" "length ts \<le> 5" "emits outs (w_uint32 W (num (int tag))) ts"
    "consumes W rest (r_uint32 W) ts tag"
    using uint32_law [of "int tag"] tag unfolding carries_def by auto
  obtain bs where bs: "length bs \<le> c" "emits outs f bs" "consumes W rest (skipping W (tag mod 8)) bs ()"
    using skip unfolding carries_def by blast
  have "\<exists>r'. rest r' = more \<and> r_pos W r' = r_pos W r + length (ts @ bs) \<and>
      decode_loop W cs stop m r = decode_loop W cs stop m r'"
    if h: "rest r = (ts @ bs) @ more" "r_pos W r + length (ts @ bs) \<le> stop" for stop m r more
  proof -
    obtain r1 where r1: "r_uint32 W r = Inr (tag, r1)" "rest r1 = bs @ more" "r_pos W r1 = r_pos W r + length ts"
      using ts(4) [unfolded consumes_def, rule_format, of r "bs @ more"] h(1) by auto
    obtain r2 where r2: "skipping W (tag mod 8) r1 = Inr ((), r2)" "rest r2 = more" "r_pos W r2 = r_pos W r1 + length bs"
      using bs(3) [unfolded consumes_def, rule_format, OF r1(2)] by auto
    from r2(1) have skipped: "r_skip W (tag mod 8) r1 = Inr r2"
      by (cases "r_skip W (tag mod 8) r1") (simp_all add: skipping_def)
    have "r_pos W r < stop" using h(2) ts(1) by (cases ts) auto
    then have "decode_loop W cs stop m r = decode_loop W cs stop m r2"
      using tag(1,2) by (subst decode_loop.simps) (simp add: r1(1) skipped none)
    with r1 r2 show ?thesis by auto
  qed
  moreover have "emits outs (tagged W tag f) (ts @ bs)"
    using emits_bind [OF ts(3) bs(2)] by (simp add: emits_def tagged_def)
  ultimately show ?thesis
    using ts(2) bs(1) unfolding codes_def by (intro exI [of _ "ts @ bs"]) auto
qed

end

lemma in_turn_fails: "f \<in> set fs \<Longrightarrow> (\<And>s. \<exists>e. f s = Inl e) \<Longrightarrow> \<exists>e. in_turn fs s = Inl e"
proof (induction fs arbitrary: s)
  case (Cons g fs)
  show ?case
  proof (cases "g s")
    case (Inr s')
    with Cons.prems(1) Cons.prems(2) [of s] have "f \<in> set fs" by auto
    from Cons.IH [OF this Cons.prems(2), of s'] Inr show ?thesis by simp
  qed simp
qed simp

end
