(* ===== verification/Varint.thy ===== *)
theory Varint
  imports Wire
begin

text \<open>
  The wire format of protocol buffers, as an instance of the laws the generated codec relies
  on: variable-length integers, binary64 in eight bytes, strings and embedded messages behind
  their length. The properties of the codec are stated for every \<open>wire_format\<close>; this
  instance shows that there is one, and the witnesses evaluate on it.
\<close>

subsection \<open>Variable-length integers\<close>

type_synonym byte = "8 word"

fun varint :: "nat \<Rightarrow> byte list" where
  "varint n = (if n < 128 then [word_of_nat n] else word_of_nat (n mod 128 + 128) # varint (n div 128))"

declare varint.simps [simp del]

primrec read_varint :: "byte list \<Rightarrow> (nat \<times> byte list) option" where
  "read_varint [] = None"
| "read_varint (b # bs) =
     (if unat b < 128 then Some (unat b, bs)
      else (case read_varint bs of
              None \<Rightarrow> None
            | Some (n, cs) \<Rightarrow> Some (unat b - 128 + 128 * n, cs)))"

lemma unat_byte: "n < 256 \<Longrightarrow> unat (word_of_nat n :: byte) = n"
  by (simp add: unat_of_nat)

lemma read_varint_append: "read_varint (varint n @ cs) = Some (n, cs)"
proof (induction n rule: varint.induct)
  case (1 n)
  show ?case
  proof (cases "n < 128")
    case True
    then show ?thesis by (simp add: varint.simps [of n] unat_byte)
  next
    case False
    have "n mod 128 + 128 < 256" using mod_less_divisor [of 128 n] by simp
    then have "unat (word_of_nat (n mod 128 + 128) :: byte) = n mod 128 + 128" by (rule unat_byte)
    with False 1 show ?thesis by (simp add: varint.simps [of n] del: of_nat_add)
  qed
qed

lemma varint_ne [simp]: "varint n \<noteq> []"
  by (simp add: varint.simps [of n])

lemma length_varint: "n < 128 ^ k \<Longrightarrow> 0 < k \<Longrightarrow> length (varint n) \<le> k"
proof (induction k arbitrary: n)
  case (Suc k)
  show ?case
  proof (cases "n < 128")
    case False
    then have "n div 128 < 128 ^ k" "0 < k" using Suc.prems by (cases k; auto)+
    with Suc.IH False show ?thesis by (simp add: varint.simps [of n])
  qed (simp add: varint.simps [of n])
qed simp

lemma read_varint_shorter: "read_varint bs = Some (n, cs) \<Longrightarrow> length cs < length bs"
  by (induction bs arbitrary: n cs) (fastforce split: if_splits option.splits)+

text \<open>Fixed width, least significant byte first.\<close>

primrec le_bytes :: "nat \<Rightarrow> nat \<Rightarrow> byte list" where
  "le_bytes 0 n = []"
| "le_bytes (Suc k) n = word_of_nat (n mod 256) # le_bytes k (n div 256)"

primrec from_le :: "byte list \<Rightarrow> nat" where
  "from_le [] = 0"
| "from_le (b # bs) = unat b + 256 * from_le bs"

lemma length_le_bytes [simp]: "length (le_bytes k n) = k"
  by (induction k arbitrary: n) auto

lemma from_le_bytes: "n < 256 ^ k \<Longrightarrow> from_le (le_bytes k n) = n"
proof (induction k arbitrary: n)
  case (Suc k)
  then have "n div 256 < 256 ^ k" by (simp add: less_mult_imp_div_less mult.commute)
  with Suc show ?case by (simp add: unat_byte)
qed simp

definition take_bytes :: "nat \<Rightarrow> byte list \<Rightarrow> (byte list \<times> byte list) option" where
  "take_bytes k bs = (if k \<le> length bs then Some (take k bs, drop k bs) else None)"

subsection \<open>Binary64\<close>

text \<open>
  \<open>binary64 v = Some (neg, p, k)\<close>: the number is \<open>p / 2 ^ k\<close>, negated or not, with
  \<open>p < 2 ^ 53\<close> and \<open>k \<le> 900\<close>, so that it has a normal representation.
\<close>

fun binary64 :: "number \<Rightarrow> (bool \<times> nat \<times> nat) option" where
  "binary64 (Dec m e) =
     (if \<not> finite_num (Dec m e) then None
      else if 0 \<le> e then (if e \<le> 16 \<and> nat \<bar>m\<bar> * 10 ^ nat e < 2 ^ 53 then Some (m < 0, nat \<bar>m\<bar> * 10 ^ nat e, 0) else None)
      else if e < - 900 then None
      else (let j = nat (- e) in
            if nat \<bar>m\<bar> mod 5 ^ j = 0 \<and> nat \<bar>m\<bar> div 5 ^ j < 2 ^ 53 then Some (m < 0, nat \<bar>m\<bar> div 5 ^ j, j) else None))"
| "binary64 _ = None"

definition double_bits :: "bool \<Rightarrow> nat \<Rightarrow> nat \<Rightarrow> nat" where
  "double_bits neg p k =
     (if p = 0 then 0
      else (let l = floor_log2 p
            in (if neg then 2 ^ 63 else 0) + (l + 1023 - k) * 2 ^ 52 + (p * 2 ^ (52 - l) - 2 ^ 52)))"

definition bits_double :: "nat \<Rightarrow> number" where
  "bits_double n =
     (if n mod 2 ^ 63 = 0 then num 0
      else (let neg = (2 ^ 63 \<le> n); ex = n div 2 ^ 52 mod 2048; f = n mod 2 ^ 52;
                m = (if neg then - int (2 ^ 52 + f) else int (2 ^ 52 + f))
            in if 1075 \<le> ex then dec (m * 2 ^ (ex - 1075)) 0
               else dec (m * 5 ^ (1075 - ex)) (- int (1075 - ex))))"

lemma floor_log2_pow: "0 < n \<Longrightarrow> 2 ^ floor_log2 n \<le> n \<and> n < 2 ^ Suc (floor_log2 n)"
proof (induction n rule: floor_log2.induct)
  case (1 n)
  show ?case
  proof (cases "n < 2")
    case True
    with 1 show ?thesis by (simp add: floor_log2.simps [of n])
  next
    case False
    then have "2 ^ floor_log2 (n div 2) \<le> n div 2" "n div 2 < 2 ^ Suc (floor_log2 (n div 2))" using 1 by auto
    then have "2 * 2 ^ floor_log2 (n div 2) \<le> n" "n < 2 * (2 * 2 ^ floor_log2 (n div 2))" by simp_all
    with False show ?thesis by (simp add: floor_log2.simps [of n])
  qed
qed

lemma dec_shift10: "m \<noteq> 0 \<Longrightarrow> dec (m * 10 ^ i) (e - int i) = dec m e"
  by (simp add: dec_def strip10_shift)

lemma double_fields:
  assumes p: "0 < p" "p < 2 ^ 53" and k: "k \<le> 900"
  defines "l \<equiv> floor_log2 p"
  shows "double_bits neg p k div 2 ^ 52 mod 2048 = l + 1023 - k"
    and "2 ^ 52 + double_bits neg p k mod 2 ^ 52 = p * 2 ^ (52 - l)"
    and "2 ^ 63 \<le> double_bits neg p k \<longleftrightarrow> neg"
    and "double_bits neg p k mod 2 ^ 63 \<noteq> 0"
    and "double_bits neg p k < 2 ^ 64"
    and "l \<le> 52"
proof -
  show l: "l \<le> 52" using floor_log2_bound [of p 52] p by (simp add: l_def)
  have b: "2 ^ l \<le> p" "p < 2 ^ Suc l" using floor_log2_pow [OF p(1)] by (simp_all add: l_def)
  define q :: nat where "q = p * 2 ^ (52 - l)"
  have e: "(2::nat) ^ l * 2 ^ (52 - l) = 2 ^ 52" using l by (simp flip: power_add)
  have "2 ^ l * 2 ^ (52 - l) \<le> q" "q < 2 ^ Suc l * 2 ^ (52 - l)"
    using b unfolding q_def by (intro mult_right_mono mult_strict_right_mono; simp)+
  then have q: "2 ^ 52 \<le> q" "q < 2 * 2 ^ 52" using e by (simp_all add: mult.assoc)
  define f where "f = q - 2 ^ 52"
  define ex where "ex = l + 1023 - k"
  have f: "f < 2 ^ 52" "2 ^ 52 + f = q" using q by (simp_all add: f_def)
  have ex: "0 < ex" "ex < 2048" using l k by (simp_all add: ex_def)
  have d: "double_bits neg p k = (if neg then 2 ^ 63 else 0) + ex * 2 ^ 52 + f"
    using p(1) by (simp add: double_bits_def Let_def ex_def f_def q_def l_def)
  then have d': "double_bits neg p k = f + (ex + (if neg then 2048 else 0)) * 2 ^ 52" by simp
  have d2: "double_bits neg p k div 2 ^ 52 = ex + (if neg then 2048 else 0)"
    using f(1) unfolding d' by (subst div_mult_self1) simp_all
  show "double_bits neg p k div 2 ^ 52 mod 2048 = l + 1023 - k"
    using ex unfolding d2 by (simp flip: ex_def)
  show "2 ^ 52 + double_bits neg p k mod 2 ^ 52 = p * 2 ^ (52 - l)"
    using f unfolding d' by (subst mod_mult_self1) (simp flip: q_def)
  show "2 ^ 63 \<le> double_bits neg p k \<longleftrightarrow> neg" "double_bits neg p k < 2 ^ 64"
    using f(1) ex(2) by (simp_all add: d)
  have "double_bits neg p k = (ex * 2 ^ 52 + f) + (if neg then 1 else 0) * 2 ^ 63" by (simp add: d)
  then have "double_bits neg p k mod 2 ^ 63 = (ex * 2 ^ 52 + f) mod 2 ^ 63" by (simp only: mod_mult_self1)
  also have "\<dots> = ex * 2 ^ 52 + f" using f(1) ex by simp
  finally show "double_bits neg p k mod 2 ^ 63 \<noteq> 0" using ex by simp
qed

lemma bits_double_bits:
  assumes "p < 2 ^ 53" "k \<le> 900"
  shows "bits_double (double_bits neg p k) = dec ((if neg then - int p else int p) * 5 ^ k) (- int k)"
proof (cases "p = 0")
  case True
  then show ?thesis by (simp add: double_bits_def bits_double_def num_def)
next
  case False
  then have p: "0 < p" by simp
  note fs = double_fields(1-5) [OF p assms, of neg] double_fields(6) [OF p assms]
  define l where "l = floor_log2 p"
  define s :: int where "s = (if neg then - int p else int p)"
  note fields = fs [folded l_def]
  have s: "s * 5 ^ k \<noteq> 0" using p by (auto simp: s_def)
  have m: "(if neg then - int (2 ^ 52 + double_bits neg p k mod 2 ^ 52) else int (2 ^ 52 + double_bits neg p k mod 2 ^ 52))
      = s * 2 ^ (52 - l)"
    unfolding fields(2) by (simp add: s_def)
  show ?thesis
  proof (cases "1075 \<le> l + 1023 - k")
    case True
    with fields(6) have "l = 52" "k = 0" by auto
    then show ?thesis
      using fields(4) unfolding bits_double_def Let_def fields(1,3) m s_def [symmetric] by simp
  next
    case False
    define j where "j = 52 - l"
    have j: "1075 - (l + 1023 - k) = j + k" using fields(6) assms(2) False by (simp add: j_def)
    have "bits_double (double_bits neg p k) = dec (s * 2 ^ j * 5 ^ (j + k)) (- int (j + k))"
      using fields(4) False unfolding bits_double_def Let_def fields(1,3) m j j_def [symmetric] by simp
    also have "s * 2 ^ j * 5 ^ (j + k) = s * 5 ^ k * 10 ^ j"
      by (simp add: power_add flip: power_mult_distrib)
    also have "- int (j + k) = - int k - int j" by simp
    also have "dec (s * 5 ^ k * 10 ^ j) (- int k - int j) = dec (s * 5 ^ k) (- int k)"
      using s by (rule dec_shift10)
    finally show ?thesis by (simp add: s_def)
  qed
qed

lemma binary64_bits:
  assumes "binary64 v = Some (neg, p, k)"
  shows "p < 2 ^ 53 \<and> k \<le> 900 \<and> dec ((if neg then - int p else int p) * 5 ^ k) (- int k) = v"
proof -
  obtain m e where v: "v = Dec m e" using assms by (cases v) auto
  have fin: "finite_num (Dec m e)" using assms by (simp add: v split: if_splits)
  show ?thesis
  proof (cases "0 \<le> e")
    case True
    then have f: "neg = (m < 0)" "p = nat \<bar>m\<bar> * 10 ^ nat e" "k = 0" "p < 2 ^ 53"
      using assms fin by (auto simp: v split: if_splits)
    have "(if neg then - int p else int p) = m * 10 ^ nat e" by (simp add: f(1,2))
    moreover have "dec (m * 10 ^ nat e) 0 = Dec m e"
      using dec_shift [OF fin, of "nat e"] True fin by (cases "m = 0") auto
    ultimately show ?thesis using f by (simp add: v)
  next
    case False
    then have f: "neg = (m < 0)" "p = nat \<bar>m\<bar> div 5 ^ k" "k = nat (- e)" "p < 2 ^ 53" "nat \<bar>m\<bar> mod 5 ^ k = 0" "k \<le> 900"
      using assms fin by (auto simp: v Let_def split: if_splits)
    have "p * 5 ^ k = nat \<bar>m\<bar>" using f(2,5) by auto
    then have "int p * 5 ^ k = \<bar>m\<bar>" by (metis int_nat_eq abs_ge_zero of_nat_mult of_nat_numeral of_nat_power)
    then have "(if neg then - int p else int p) * 5 ^ k = m" by (auto simp: f(1))
    moreover have "- int k = e" using False by (simp add: f(3))
    ultimately show ?thesis using f(4,6) fin by (simp add: v dec_finite)
  qed
qed

subsection \<open>The wire format\<close>

text \<open>
  The writer keeps the bytes of the open messages, the innermost first. The reader keeps its
  position and the bytes that follow.
\<close>

type_synonym bytes_writer = "byte list list"
type_synonym bytes_reader = "nat \<times> byte list"

fun write_bytes :: "byte list \<Rightarrow> bytes_writer \<Rightarrow> bytes_writer" where
  "write_bytes bs [] = [bs]"
| "write_bytes bs (b # st) = (b @ bs) # st"

definition write_int :: "int \<Rightarrow> int \<Rightarrow> number \<Rightarrow> bytes_writer \<Rightarrow> string + bytes_writer" where
  "write_int lo hi v w =
     (case int_of v of
        None \<Rightarrow> Inl ''invalid integer''
      | Some n \<Rightarrow>
          if lo \<le> n \<and> n < hi then Inr (write_bytes (varint (nat (n mod 2 ^ 64))) w)
          else Inl ''invalid integer'')"

definition write_double :: "number \<Rightarrow> bytes_writer \<Rightarrow> string + bytes_writer" where
  "write_double v w =
     (case binary64 v of
        None \<Rightarrow> Inl ''not a binary64''
      | Some (neg, p, k) \<Rightarrow> Inr (write_bytes (le_bytes 8 (double_bits neg p k)) w))"

fun join_message :: "bytes_writer \<Rightarrow> string + bytes_writer" where
  "join_message (b # a # st) =
     (if length b < 2 ^ 32 then Inr ((a @ varint (length b) @ b) # st) else Inl ''invalid uint32'')"
| "join_message _ = Inl ''invalid state, fork stack empty''"

definition parse :: "(byte list \<Rightarrow> ('v \<times> byte list) option) \<Rightarrow> bytes_reader \<Rightarrow> string + 'v \<times> bytes_reader" where
  "parse f r =
     (case f (snd r) of
        None \<Rightarrow> Inl ''premature EOF''
      | Some (v, cs) \<Rightarrow> Inr (v, (fst r + (length (snd r) - length cs), cs)))"

definition parse_signed :: "byte list \<Rightarrow> (int \<times> byte list) option" where
  "parse_signed bs =
     (case read_varint bs of
        None \<Rightarrow> None
      | Some (n, cs) \<Rightarrow>
          (let k = n mod 2 ^ 64 in Some (if k < 2 ^ 63 then int k else int k - 2 ^ 64, cs)))"

definition parse_text :: "byte list \<Rightarrow> (string \<times> byte list) option" where
  "parse_text bs =
     (case read_varint bs of
        None \<Rightarrow> None
      | Some (n, cs) \<Rightarrow>
          (case take_bytes n cs of
             None \<Rightarrow> None
           | Some (b, ds) \<Rightarrow> Some (map (\<lambda>x. char_of (unat x)) b, ds)))"

definition skip_bytes :: "nat \<Rightarrow> byte list \<Rightarrow> (unit \<times> byte list) option" where
  "skip_bytes t bs =
     (if t = 0 then map_option (\<lambda>(_, cs). ((), cs)) (read_varint bs)
      else if t = 1 then map_option (\<lambda>(_, cs). ((), cs)) (take_bytes 8 bs)
      else if t = 2 then map_option (\<lambda>(_, cs). ((), cs)) (parse_text bs)
      else if t = 5 then map_option (\<lambda>(_, cs). ((), cs)) (take_bytes 4 bs)
      else None)"

definition bytes_wire :: "(bytes_writer, bytes_reader) wire" where
  "bytes_wire =
     \<lparr>w_uint32 = write_int 0 (2 ^ 32), w_int32 = write_int (- (2 ^ 31)) (2 ^ 31),
      w_int64 = write_int (- (2 ^ 63)) (2 ^ 63),
      w_bool = (\<lambda>b w. Inr (write_bytes (varint (if b then 1 else 0)) w)),
      w_double = write_double,
      w_string = (\<lambda>s w. if length s < 2 ^ 32 then Inr (write_bytes (varint (length s) @ map of_char s) w)
                         else Inl ''invalid uint32''),
      w_fork = (\<lambda>w. [] # w), w_join = join_message,
      r_pos = fst, r_len = (\<lambda>r. fst r + length (snd r)),
      r_uint32 = parse (\<lambda>bs. map_option (\<lambda>(n, cs). (n mod 2 ^ 32, cs)) (read_varint bs)),
      r_int32 = parse (\<lambda>bs. map_option (\<lambda>(n, cs). ((n + 2 ^ 31) mod 2 ^ 32 - 2 ^ 31, cs)) (parse_signed bs)),
      r_int64 = parse parse_signed,
      r_bool = parse (\<lambda>bs. map_option (\<lambda>(n, cs). (n \<noteq> 0, cs)) (read_varint bs)),
      r_double = parse (\<lambda>bs. map_option (\<lambda>(b, cs). (bits_double (from_le b), cs)) (take_bytes 8 bs)),
      r_string = parse parse_text,
      r_skip = (\<lambda>t r. map_sum id snd (parse (skip_bytes t) r))\<rparr>"

lemma parse_ahead: "parse f r = Inr (v, r') \<Longrightarrow> fst r \<le> fst r'"
  by (auto simp: parse_def split: option.splits)

lemma parse_strict: "(\<And>bs v cs. f bs = Some (v, cs) \<Longrightarrow> length cs < length bs) \<Longrightarrow>
  parse f r = Inr (v, r') \<Longrightarrow> fst r < fst r'"
  by (auto simp: parse_def split: option.splits)

interpretation bytes_wire: wire_reader bytes_wire
proof
  fix r :: bytes_reader and r' n
  assume "r_uint32 bytes_wire r = Inr (n, r')"
  then show "r_pos bytes_wire r < r_pos bytes_wire r'"
    by (simp add: bytes_wire_def) (erule parse_strict [rotated], auto simp: read_varint_shorter)
next
  fix r :: bytes_reader and r' n
  assume "r_skip bytes_wire n r = Inr r'"
  then show "r_pos bytes_wire r \<le> r_pos bytes_wire r'"
    using parse_ahead [of "skip_bytes n" r] by (cases "parse (skip_bytes n) r") (auto simp: bytes_wire_def)
qed (auto simp: bytes_wire_def dest: parse_ahead)

lemma emits_write: "emits id (\<lambda>w. Inr (write_bytes bs w)) bs"
  by (simp add: emits_def)

lemma consumes_parse: "(\<And>cs. f (bs @ cs) = Some (v, cs)) \<Longrightarrow> consumes bytes_wire snd (parse f) bs v"
  by (auto simp: consumes_def parse_def bytes_wire_def)

lemma carries_bytes:
  "bs \<noteq> [] \<Longrightarrow> length bs \<le> c \<Longrightarrow> f = (\<lambda>w. Inr (write_bytes bs w)) \<Longrightarrow> (\<And>cs. g (bs @ cs) = Some (v, cs)) \<Longrightarrow>
   carries bytes_wire id snd f (parse g) v c"
  unfolding carries_def by (intro exI [of _ bs]) (simp add: emits_write consumes_parse)

lemma parse_signed_varint:
  assumes "- (2 ^ 63) \<le> n" "n < 2 ^ 63"
  shows "parse_signed (varint (nat (n mod 2 ^ 64)) @ cs) = Some (n, cs)"
proof -
  have "n mod 2 ^ 64 = (if n < 0 then n + 2 ^ 64 else n)"
    using assms zmod_trivial_iff [of "n + 2 ^ 64" "2 ^ 64"] zmod_trivial_iff [of n "2 ^ 64"]
      mod_add_self2 [of n "2 ^ 64"] by auto
  with assms show ?thesis by (auto simp: parse_signed_def read_varint_append Let_def nat_less_iff)
qed

lemma varint_lengths:
  "n < 2 ^ 32 \<Longrightarrow> length (varint n) \<le> 5"
  "n < 2 ^ 64 \<Longrightarrow> length (varint n) \<le> 10"
  by (rule length_varint; simp)+

lemma unat_of_char: "unat (of_char c :: byte) = of_char c"
proof -
  have "(of_char c :: nat) < 256" by (rule nat_of_char_less_256)
  then show ?thesis by (metis of_nat_of_char unat_byte)
qed

lemma skipping_bytes: "skipping bytes_wire t = parse (skip_bytes t)"
proof
  fix r
  show "skipping bytes_wire t r = parse (skip_bytes t) r"
    by (cases "parse (skip_bytes t) r") (auto simp: skipping_def bytes_wire_def)
qed

interpretation bytes_wire: wire_format bytes_wire id snd "\<lambda>v. binary64 v \<noteq> None"
proof
  fix r :: bytes_reader
  show "r_pos bytes_wire r + length (snd r) = r_len bytes_wire r" by (simp add: bytes_wire_def)
next
  fix n :: int
  assume n: "0 \<le> n" "n < 2 ^ 32"
  then show "carries bytes_wire id snd (w_uint32 bytes_wire (num n)) (r_uint32 bytes_wire) (nat n) 5"
    unfolding bytes_wire_def wire.select_convs
    by (intro carries_bytes [of "varint (nat n)", unfolded bytes_wire_def])
      (auto simp: varint_lengths write_int_def fun_eq_iff read_varint_append nat_less_iff)
next
  fix n :: int
  assume n: "- (2 ^ 31) \<le> n" "n < 2 ^ 31"
  then have "parse_signed (varint (nat (n mod 2 ^ 64)) @ cs) = Some (n, cs)" for cs by (intro parse_signed_varint) auto
  moreover have "(n + 2 ^ 31) mod 2 ^ 32 - 2 ^ 31 = n" using n by simp
  moreover have "nat (n mod 2 ^ 64) < 2 ^ 64" by (simp add: nat_less_iff)
  ultimately show "carries bytes_wire id snd (w_int32 bytes_wire (num n)) (r_int32 bytes_wire) n 10"
    using n unfolding bytes_wire_def wire.select_convs
    by (intro carries_bytes [of "varint (nat (n mod 2 ^ 64))", unfolded bytes_wire_def])
      (auto simp: varint_lengths(2) write_int_def fun_eq_iff)
next
  fix n :: int
  assume n: "- (2 ^ 63) \<le> n" "n < 2 ^ 63"
  have "nat (n mod 2 ^ 64) < 2 ^ 64" by (simp add: nat_less_iff)
  then show "carries bytes_wire id snd (w_int64 bytes_wire (num n)) (r_int64 bytes_wire) n 10"
    using n parse_signed_varint [OF n] unfolding bytes_wire_def wire.select_convs
    by (intro carries_bytes [of "varint (nat (n mod 2 ^ 64))", unfolded bytes_wire_def])
      (auto simp: varint_lengths(2) write_int_def fun_eq_iff)
next
  fix yes
  show "carries bytes_wire id snd (w_bool bytes_wire yes) (r_bool bytes_wire) yes 1"
    unfolding bytes_wire_def wire.select_convs
    by (intro carries_bytes [of "varint (if yes then 1 else 0)", unfolded bytes_wire_def])
      (auto simp: varint.simps read_varint_append)
next
  fix v
  assume "binary64 v \<noteq> None"
  then obtain neg p k where v: "binary64 v = Some (neg, p, k)" by auto
  note b = binary64_bits [OF v]
  have "double_bits neg p k < 2 ^ 64"
    using double_fields(5) [of p k neg] b by (cases "p = 0") (auto simp: double_bits_def)
  then have "from_le (le_bytes 8 (double_bits neg p k)) = double_bits neg p k" by (intro from_le_bytes) simp
  then show "carries bytes_wire id snd (w_double bytes_wire v) (r_double bytes_wire) v 8"
    using b bits_double_bits [of p k neg] unfolding bytes_wire_def wire.select_convs
    by (intro carries_bytes [of "le_bytes 8 (double_bits neg p k)", unfolded bytes_wire_def])
      (auto simp: write_double_def v fun_eq_iff take_bytes_def simp flip: length_0_conv)
next
  fix s :: string
  assume s: "length s < 2 ^ 32"
  have "map (\<lambda>x. char_of (unat x)) (map of_char s :: byte list) = s"
    by (induction s) (simp_all add: unat_of_char)
  with s show "carries bytes_wire id snd (w_string bytes_wire s) (r_string bytes_wire) s (length s + 5)"
    using varint_lengths(1) [of "length s"] unfolding bytes_wire_def wire.select_convs
    by (intro carries_bytes [of "varint (length s) @ map of_char s", unfolded bytes_wire_def])
      (auto simp: fun_eq_iff parse_text_def read_varint_append take_bytes_def)
next
  fix k :: nat
  assume "k < 2 ^ 32"
  then show "\<exists>ps. length ps \<le> 5 \<and> consumes bytes_wire snd (r_uint32 bytes_wire) ps k \<and>
     (\<forall>w b a st. id w = b # a # st \<longrightarrow> length b = k \<longrightarrow>
       (\<exists>w'. w_join bytes_wire w = Inr w' \<and> id w' = (a @ ps @ b) # st))"
    unfolding bytes_wire_def wire.select_convs
    by (intro exI [of _ "varint k"] conjI consumes_parse [unfolded bytes_wire_def])
      (auto simp: varint_lengths read_varint_append)
next
  fix n :: int
  assume n: "- (2 ^ 63) \<le> n" "n < 2 ^ 63"
  have "nat (n mod 2 ^ 64) < 2 ^ 64" by (simp add: nat_less_iff)
  then show "carries bytes_wire id snd (w_int64 bytes_wire (num n)) (skipping bytes_wire 0) () 10"
    using n unfolding skipping_bytes unfolding bytes_wire_def wire.select_convs
    by (intro carries_bytes [of "varint (nat (n mod 2 ^ 64))", unfolded bytes_wire_def])
      (auto simp: varint_lengths(2) write_int_def fun_eq_iff skip_bytes_def read_varint_append)
next
  fix s :: string
  assume s: "length s < 2 ^ 32"
  then show "carries bytes_wire id snd (w_string bytes_wire s) (skipping bytes_wire 2) () (length s + 5)"
    using varint_lengths(1) [of "length s"] unfolding skipping_bytes unfolding bytes_wire_def wire.select_convs
    by (intro carries_bytes [of "varint (length s) @ map of_char s", unfolded bytes_wire_def])
      (auto simp: fun_eq_iff skip_bytes_def parse_text_def read_varint_append take_bytes_def)
qed (auto simp: bytes_wire_def write_int_def)

end
