(* ===== verification/JsonFields.thy ===== *)
theory JsonFields
  imports Wire
begin

text \<open>
  The generated codec of \<^verbatim>\<open>global/model/api.ts\<close>, JSON part: what every \<open>fromJSON\<close> and
  \<open>toJSON\<close> is made of, over the values of the theory \<open>JsValue\<close>. A \<open>fromJSON\<close> converts
  the properties of an object one by one, and throws (\<open>Inl\<close>) where the language does; a
  \<open>toJSON\<close> leaves out the fields that hold the default. The lemmas at the end say that each
  kind of field is read as it was written.
\<close>

subsection \<open>Conversions\<close>

definition isSet :: "jsval \<Rightarrow> bool" where
  "isSet value \<longleftrightarrow> value \<noteq> JNull \<and> value \<noteq> JUndef"

text \<open>
  \<open>obj.k\<close> throws on \<open>null\<close> and \<open>undefined\<close>; a primitive has no property with the name of
  a field. \<open>obj?.k\<close> is \<open>get\<close>.
\<close>

definition field_of :: "jsval \<Rightarrow> string \<Rightarrow> string + jsval" where
  "field_of obj k = (if isSet obj then Inr (get obj k) else Inl ''TypeError'')"

primrec map_sum_list :: "('a \<Rightarrow> string + 'b) \<Rightarrow> 'a list \<Rightarrow> string + 'b list" where
  "map_sum_list f [] = Inr []"
| "map_sum_list f (x # xs) = bind_sum (f x) (\<lambda>y. bind_sum (map_sum_list f xs) (\<lambda>ys. Inr (y # ys)))"

lemma map_sum_list_cong [fundef_cong]:
  "xs = ys \<Longrightarrow> (\<And>x. x \<in> set ys \<Longrightarrow> f x = g x) \<Longrightarrow> map_sum_list f xs = map_sum_list g ys"
  by (induction xs arbitrary: ys) auto

text \<open>
  \<open>String(v)\<close>. An object with a property \<open>toString\<close> of its own, which is no function in
  parsed JSON, cannot be converted.
\<close>

function js_String :: "jsval \<Rightarrow> string + string" where
  "js_String JUndef = Inr ''undefined''"
| "js_String JNull = Inr ''null''"
| "js_String (JBool b) = Inr (if b then ''true'' else ''false'')"
| "js_String (JNum n) = Inr (number_toString n)"
| "js_String (JStr s) = Inr s"
| "js_String (JArr vs) =
     bind_sum (map_sum_list (\<lambda>v. if isSet v then js_String v else Inr '''') vs) (\<lambda>ss. Inr (join '','' ss))"
| "js_String (JObj kvs) =
     (if ''toString'' \<in> fst ` set kvs then Inl ''TypeError'' else Inr ''[object Object]'')"
  by pat_completeness auto

termination js_String
proof (relation "measure size")
  show "(v, JArr vs) \<in> measure size" if "v \<in> set vs" for v and vs :: "jsval list"
    using that by (induction vs) auto
  show "wf (measure (size :: jsval \<Rightarrow> nat))" by simp
qed

definition js_Number :: "jsval \<Rightarrow> string + number" where
  "js_Number v =
     (case v of
        JUndef \<Rightarrow> Inr NaN
      | JNull \<Rightarrow> Inr (num 0)
      | JBool b \<Rightarrow> Inr (num (if b then 1 else 0))
      | JNum n \<Rightarrow> Inr n
      | JStr s \<Rightarrow> Inr (toNumber s)
      | JArr vs \<Rightarrow> bind_sum (js_String v) (\<lambda>s. Inr (toNumber s))
      | JObj kvs \<Rightarrow> bind_sum (js_String v) (\<lambda>s. Inr (toNumber s)))"

fun truthy :: "jsval \<Rightarrow> bool" where
  "truthy JUndef = False"
| "truthy JNull = False"
| "truthy (JBool b) = b"
| "truthy (JNum n) = (n \<noteq> NaN \<and> n \<noteq> num 0)"
| "truthy (JStr s) = (s \<noteq> '''')"
| "truthy (JArr vs) = True"
| "truthy (JObj kvs) = True"

definition js_Boolean :: "jsval \<Rightarrow> string + bool" where
  "js_Boolean v = Inr (truthy v)"

subsection \<open>\<open>fromJSON\<close>\<close>

text \<open>
  \<open>isSet(object.a) ? conv(object.a) : isSet(object.a_b) ? conv(object.a_b) : d\<close>: the names a
  field may have are tried in turn.
\<close>

primrec from_names :: "(jsval \<Rightarrow> string + 'a) \<Rightarrow> 'a \<Rightarrow> jsval \<Rightarrow> string list \<Rightarrow> string + 'a" where
  "from_names conv d obj [] = Inr d"
| "from_names conv d obj (k # ks) =
     bind_sum (field_of obj k) (\<lambda>v. if isSet v then conv v else from_names conv d obj ks)"

type_synonym 'm from_field = "jsval \<Rightarrow> 'm \<Rightarrow> string + 'm"

definition from_value ::
  "(jsval \<Rightarrow> string + 'v) \<Rightarrow> 'v \<Rightarrow> string list \<Rightarrow> (('v \<Rightarrow> 'v) \<Rightarrow> 'm \<Rightarrow> 'm) \<Rightarrow> 'm from_field" where
  "from_value conv d names upd obj m =
     bind_sum (from_names conv d obj names) (\<lambda>v. Inr (upd (\<lambda>_. v) m))"

definition from_number :: "string list \<Rightarrow> ((number \<Rightarrow> number) \<Rightarrow> 'm \<Rightarrow> 'm) \<Rightarrow> 'm from_field" where
  "from_number = from_value js_Number (num 0)"

text \<open>The same for a field that holds a fraction.\<close>

definition from_double :: "string list \<Rightarrow> ((number \<Rightarrow> number) \<Rightarrow> 'm \<Rightarrow> 'm) \<Rightarrow> 'm from_field" where
  "from_double = from_number"

definition from_string :: "string list \<Rightarrow> ((string \<Rightarrow> string) \<Rightarrow> 'm \<Rightarrow> 'm) \<Rightarrow> 'm from_field" where
  "from_string = from_value js_String ''''"

definition from_bool :: "string list \<Rightarrow> ((bool \<Rightarrow> bool) \<Rightarrow> 'm \<Rightarrow> 'm) \<Rightarrow> 'm from_field" where
  "from_bool = from_value js_Boolean False"

definition from_enum ::
  "(jsval \<Rightarrow> number) \<Rightarrow> string list \<Rightarrow> ((number \<Rightarrow> number) \<Rightarrow> 'm \<Rightarrow> 'm) \<Rightarrow> 'm from_field" where
  "from_enum conv = from_value (\<lambda>v. Inr (conv v)) (num 0)"

definition from_message ::
  "(jsval \<Rightarrow> string + 'v) \<Rightarrow> string list \<Rightarrow> (('v option \<Rightarrow> 'v option) \<Rightarrow> 'm \<Rightarrow> 'm) \<Rightarrow> 'm from_field" where
  "from_message conv = from_value (\<lambda>v. bind_sum (conv v) (\<lambda>x. Inr (Some x))) None"

text \<open>
  \<open>Array.isArray(object?.a) ? object.a.map(conv) : Array.isArray(object?.a_b) ? ... : []\<close>.
\<close>

fun is_array :: "jsval \<Rightarrow> bool" where
  "is_array (JArr vs) = True"
| "is_array _ = False"

fun elements :: "jsval \<Rightarrow> jsval list" where
  "elements (JArr vs) = vs"
| "elements _ = []"

primrec list_from_names :: "(jsval \<Rightarrow> string + 'a) \<Rightarrow> jsval \<Rightarrow> string list \<Rightarrow> string + 'a list" where
  "list_from_names conv obj [] = Inr []"
| "list_from_names conv obj (k # ks) =
     (if is_array (get obj k) then map_sum_list conv (elements (get obj k)) else list_from_names conv obj ks)"

definition from_list ::
  "(jsval \<Rightarrow> string + 'v) \<Rightarrow> string list \<Rightarrow> (('v list \<Rightarrow> 'v list) \<Rightarrow> 'm \<Rightarrow> 'm) \<Rightarrow> 'm from_field" where
  "from_list conv names upd obj m =
     bind_sum (list_from_names conv obj names) (\<lambda>vs. Inr (upd (\<lambda>_. vs) m))"

text \<open>
  The object literal evaluates its fields in order; a conversion that throws ends it. The base
  is overwritten field by field.
\<close>

definition from_fields :: "'m from_field list \<Rightarrow> 'm \<Rightarrow> jsval \<Rightarrow> string + 'm" where
  "from_fields fs base obj = in_turn (map (\<lambda>f. f obj) fs) base"

subsection \<open>\<open>toJSON\<close>\<close>

type_synonym to_field = "string \<times> jsval option"

definition to_int :: "string \<Rightarrow> number \<Rightarrow> to_field" where
  "to_int k n = (k, if n \<noteq> num 0 then Some (JNum (math_round n)) else None)"

definition to_double :: "string \<Rightarrow> number \<Rightarrow> to_field" where
  "to_double k n = (k, if n \<noteq> num 0 then Some (JNum n) else None)"

definition to_string :: "string \<Rightarrow> string \<Rightarrow> to_field" where
  "to_string k s = (k, if s \<noteq> '''' then Some (JStr s) else None)"

definition to_bool :: "string \<Rightarrow> bool \<Rightarrow> to_field" where
  "to_bool k b = (k, if b \<noteq> False then Some (JBool b) else None)"

definition to_enum :: "(number \<Rightarrow> string) \<Rightarrow> string \<Rightarrow> number \<Rightarrow> to_field" where
  "to_enum name k n = (k, if n \<noteq> num 0 then Some (JStr (name n)) else None)"

definition to_message :: "('m \<Rightarrow> jsval) \<Rightarrow> string \<Rightarrow> 'm option \<Rightarrow> to_field" where
  "to_message conv k v = (k, map_option conv v)"

definition to_list :: "('a \<Rightarrow> jsval) \<Rightarrow> string \<Rightarrow> 'a list \<Rightarrow> to_field" where
  "to_list conv k vs = (k, if length vs \<noteq> 0 then Some (JArr (map conv vs)) else None)"

definition to_obj :: "to_field list \<Rightarrow> jsval" where
  "to_obj es = JObj (foldl (\<lambda>obj (k, v). case v of None \<Rightarrow> obj | Some x \<Rightarrow> put k x obj) [] es)"

subsection \<open>What \<open>toJSON\<close> writes \<open>fromJSON\<close> reads\<close>

definition plain_keys :: "to_field list \<Rightarrow> bool" where
  "plain_keys es \<longleftrightarrow> distinct (map fst es) \<and> (\<forall>k \<in> set (map fst es). array_index k = None)"

definition present :: "to_field list \<Rightarrow> (string \<times> jsval) list" where
  "present es = concat (map (\<lambda>(k, v). case v of None \<Rightarrow> [] | Some x \<Rightarrow> [(k, x)]) es)"

lemma present_keys: "fst ` set (present es) \<subseteq> fst ` set es"
  by (auto simp: present_def image_iff split: option.splits) (metis fst_conv)

lemma present_canonical: "plain_keys es \<Longrightarrow> canonical (present es)"
proof (induction es)
  case Nil
  then show ?case by (simp add: present_def canonical_def)
next
  case (Cons e es)
  have plain: "array_index k = None" if "k \<in> fst ` set (present es) \<or> k = fst e" for k
  proof -
    have "k \<in> set (map fst (e # es))" using that subsetD [OF present_keys, of k es] by (elim disjE) simp_all
    with Cons.prems show ?thesis unfolding plain_keys_def by blast
  qed
  have "fst e \<notin> fst ` set (present es)"
    using Cons.prems subsetD [OF present_keys, of "fst e" es] by (simp add: plain_keys_def) blast
  moreover have "canonical (present es)" using Cons by (simp add: plain_keys_def)
  ultimately have "canonical ((fst e, x) # present es)" for x
    using plain by (auto simp: canonical_def key_before_def)
  moreover have "present (e # es) = (case snd e of None \<Rightarrow> present es | Some x \<Rightarrow> (fst e, x) # present es)"
    by (cases e) (simp add: present_def split: option.split)
  ultimately show ?case using \<open>canonical (present es)\<close> by (simp split: option.split)
qed

lemma foldl_put_present:
  "foldl (\<lambda>obj (k, v). case v of None \<Rightarrow> obj | Some x \<Rightarrow> put k x obj) acc es =
   foldl (\<lambda>m (k, v). put k v m) acc (present es)"
  by (induction es arbitrary: acc) (auto simp: present_def split: option.split)

lemma to_obj_present: "plain_keys es \<Longrightarrow> to_obj es = JObj (present es)"
  using build_obj_canonical [OF present_canonical [of es]]
  by (simp add: to_obj_def foldl_put_present build_obj_def)

lemma map_of_present: "distinct (map fst es) \<Longrightarrow>
  map_of (present es) k = (case map_of es k of None \<Rightarrow> None | Some v \<Rightarrow> v)"
proof (induction es)
  case (Cons e es)
  have "k \<notin> fst ` set es \<Longrightarrow> map_of (present es) k = None"
    using present_keys [of es] by (auto simp: map_of_eq_None_iff)
  with Cons show ?case
    by (cases e; cases "snd e") (auto simp: present_def)
qed (simp add: present_def)

lemma get_to_obj:
  "plain_keys es \<Longrightarrow> get (to_obj es) k = (case map_of es k of Some (Some v) \<Rightarrow> v | _ \<Rightarrow> JUndef)"
  by (simp add: to_obj_present map_of_present plain_keys_def split: option.split)

lemma isSet_to_obj [simp]: "isSet (to_obj es)"
  by (simp add: isSet_def to_obj_def)

definition field_ok :: "to_field \<Rightarrow> bool" where
  "field_ok e \<longleftrightarrow> (case snd e of None \<Rightarrow> True | Some v \<Rightarrow> json_ok v)"

lemma json_ok_to_obj:
  assumes "plain_keys es" "list_all field_ok es"
  shows "json_ok (to_obj es)"
proof -
  have "json_ok v" if "(k, v) \<in> set (present es)" for k v
    using that assms(2) by (fastforce simp: present_def list_all_iff field_ok_def split: option.splits)
  then show ?thesis using assms(1) by (auto simp: to_obj_present present_canonical list_all_iff)
qed

text \<open>One field: the value that is sent, or the default when none is sent.\<close>

lemma from_names_sent:
  assumes "plain_keys es" "(k, Some v) \<in> set es" "isSet v"
  shows "from_names conv d (to_obj es) (k # ks) = conv v"
  using assms by (simp add: field_of_def get_to_obj plain_keys_def)

lemma from_names_default:
  assumes "plain_keys es" "(k, None) \<in> set es" "list_all (\<lambda>k'. k' \<notin> fst ` set es) ks"
  shows "from_names conv d (to_obj es) (k # ks) = Inr d"
proof -
  have "from_names conv d (to_obj es) ks = Inr d"
    using assms(3)
  proof (induction ks)
    case (Cons k' ks)
    then have "map_of es k' = None" by (simp add: map_of_eq_None_iff)
    with Cons show ?case by (simp add: field_of_def get_to_obj [OF assms(1)]) (simp add: isSet_def)
  qed simp
  then show ?thesis
    using assms(1,2) by (simp add: field_of_def get_to_obj plain_keys_def) (simp add: isSet_def)
qed

lemma from_value_sent:
  assumes "plain_keys es" "(k, e) \<in> set es" "list_all (\<lambda>k'. k' \<notin> fst ` set es) ks"
    and "e = None \<Longrightarrow> v = d" "\<And>x. e = Some x \<Longrightarrow> isSet x \<and> conv x = Inr v"
  shows "from_value conv d (k # ks) upd (to_obj es) m = Inr (upd (\<lambda>_. v) m)"
proof -
  have "from_names conv d (to_obj es) (k # ks) = Inr v"
  proof (cases e)
    case None
    with from_names_default [OF assms(1) _ assms(3), of k conv d] assms(2) assms(4) [OF None] show ?thesis by simp
  next
    case (Some x)
    with from_names_sent [OF assms(1), of k x conv d ks] assms(2) assms(5) [OF Some] show ?thesis by simp
  qed
  then show ?thesis by (simp only: from_value_def bind_sum_simps)
qed

lemma from_number_sent:
  assumes "plain_keys es" "to_int k n \<in> set es" "list_all (\<lambda>k'. k' \<notin> fst ` set es) ks" "math_round n = n"
  shows "from_number (k # ks) upd (to_obj es) m = Inr (upd (\<lambda>_. n) m)"
  unfolding from_number_def
  by (rule from_value_sent [OF assms(1) _ assms(3)])
    (use assms(2,4) in \<open>auto simp: to_int_def js_Number_def isSet_def split: if_splits\<close>)

lemma from_double_sent:
  assumes "plain_keys es" "to_double k n \<in> set es" "list_all (\<lambda>k'. k' \<notin> fst ` set es) ks"
  shows "from_double (k # ks) upd (to_obj es) m = Inr (upd (\<lambda>_. n) m)"
  unfolding from_double_def from_number_def
  by (rule from_value_sent [OF assms(1) _ assms(3)])
    (use assms(2) in \<open>auto simp: to_double_def js_Number_def isSet_def split: if_splits\<close>)

lemma from_string_sent:
  assumes "plain_keys es" "to_string k s \<in> set es" "list_all (\<lambda>k'. k' \<notin> fst ` set es) ks"
  shows "from_string (k # ks) upd (to_obj es) m = Inr (upd (\<lambda>_. s) m)"
  unfolding from_string_def
  by (rule from_value_sent [OF assms(1) _ assms(3)])
    (use assms(2) in \<open>auto simp: to_string_def isSet_def split: if_splits\<close>)

lemma from_bool_sent:
  assumes "plain_keys es" "to_bool k b \<in> set es" "list_all (\<lambda>k'. k' \<notin> fst ` set es) ks"
  shows "from_bool (k # ks) upd (to_obj es) m = Inr (upd (\<lambda>_. b) m)"
  unfolding from_bool_def
  by (rule from_value_sent [OF assms(1) _ assms(3)])
    (use assms(2) in \<open>auto simp: to_bool_def isSet_def js_Boolean_def split: if_splits\<close>)

lemma from_enum_sent:
  assumes "plain_keys es" "to_enum name k n \<in> set es" "list_all (\<lambda>k'. k' \<notin> fst ` set es) ks"
    and "conv (JStr (name n)) = n"
  shows "from_enum conv (k # ks) upd (to_obj es) m = Inr (upd (\<lambda>_. n) m)"
  unfolding from_enum_def
  by (rule from_value_sent [OF assms(1) _ assms(3)])
    (use assms(2,4) in \<open>auto simp: to_enum_def isSet_def split: if_splits\<close>)

lemma from_message_sent:
  assumes "plain_keys es" "to_message to k v \<in> set es" "list_all (\<lambda>k'. k' \<notin> fst ` set es) ks"
    and "\<And>x. v = Some x \<Longrightarrow> isSet (to x) \<and> conv (to x) = Inr x"
  shows "from_message conv (k # ks) upd (to_obj es) m = Inr (upd (\<lambda>_. v) m)"
  unfolding from_message_def
  by (rule from_value_sent [OF assms(1) _ assms(3)])
    (use assms(2,4) in \<open>auto simp: to_message_def\<close>)

lemma map_sum_list_all: "(\<And>x. x \<in> set xs \<Longrightarrow> conv (to x) = Inr x) \<Longrightarrow> map_sum_list conv (map to xs) = Inr xs"
  by (induction xs) auto

lemma from_list_sent:
  assumes "plain_keys es" "to_list to k vs \<in> set es" "list_all (\<lambda>k'. k' \<notin> fst ` set es) ks"
    and "\<And>x. x \<in> set vs \<Longrightarrow> conv (to x) = Inr x"
  shows "from_list conv (k # ks) upd (to_obj es) m = Inr (upd (\<lambda>_. vs) m)"
proof -
  have alts: "list_from_names conv (to_obj es) ks = Inr []"
    using assms(3)
  proof (induction ks)
    case (Cons k' ks)
    then have "map_of es k' = None" by (simp add: map_of_eq_None_iff)
    with Cons show ?case by (simp add: get_to_obj [OF assms(1)])
  qed simp
  have "map_of es k = Some (snd (to_list to k vs))"
    using assms(1,2) by (simp add: plain_keys_def to_list_def)
  then have "get (to_obj es) k = (if vs = [] then JUndef else JArr (map to vs))"
    by (simp add: get_to_obj [OF assms(1)] to_list_def)
  then show ?thesis
    using alts map_sum_list_all [of vs conv to] assms(4) by (simp add: from_list_def)
qed

lemma in_turn_step: "f s = Inr s' \<Longrightarrow> in_turn fs s' = r \<Longrightarrow> in_turn (f # fs) s = r"
  by simp

lemma in_turn_done: "s = s' \<Longrightarrow> in_turn [] s = Inr s'"
  by simp

lemmas field_sent = in_turn_step in_turn_done from_number_sent from_double_sent from_string_sent
  from_bool_sent from_enum_sent from_message_sent from_list_sent

lemmas to_defs = to_int_def to_double_def to_string_def to_bool_def to_enum_def to_message_def to_list_def

text \<open>A number that \<open>Math.round\<close> leaves alone and that JSON can carry.\<close>

definition whole :: "number \<Rightarrow> bool" where
  "whole n \<longleftrightarrow> finite_num n \<and> math_round n = n"

lemma whole_round: "whole n \<Longrightarrow> math_round n = n"
  by (simp add: whole_def)

lemma field_oks:
  "whole n \<Longrightarrow> field_ok (to_int k n)"
  "finite_num n \<Longrightarrow> field_ok (to_double k n)"
  "field_ok (to_string k s)"
  "field_ok (to_bool k b)"
  "field_ok (to_enum name k n)"
  "(\<And>x. v = Some x \<Longrightarrow> json_ok (to x)) \<Longrightarrow> field_ok (to_message to k v)"
  "(\<And>x. x \<in> set vs \<Longrightarrow> json_ok (conv x)) \<Longrightarrow> field_ok (to_list conv k vs)"
  by (auto simp: field_ok_def to_defs whole_def list_all_iff split: option.split)

lemma pred_option_conv: "pred_option P v \<longleftrightarrow> (\<forall>x. v = Some x \<longrightarrow> P x)"
  by (cases v) auto

end
