(* ===== verification/PartialFields.thy ===== *)
theory PartialFields
  imports JsonFields
begin

text \<open>
  Objects that hold some of the fields of a message, as the callers of \<open>create\<close> and
  \<open>fromPartial\<close> write them, and how \<open>fromJSON\<close> reads each kind of field of such an object: the
  value that is given, or the default the field has in an empty message.
\<close>

definition given :: "('v \<Rightarrow> jsval) \<Rightarrow> string \<Rightarrow> 'v option \<Rightarrow> to_field" where
  "given conv k v = (k, map_option conv v)"

definition array_of :: "('v \<Rightarrow> jsval) \<Rightarrow> 'v list \<Rightarrow> jsval" where
  "array_of conv vs = JArr (map conv vs)"

lemma from_value_given:
  assumes "plain_keys es" "given to k v \<in> set es" "list_all (\<lambda>k'. k' \<notin> fst ` set es) ks"
    and "\<And>x. v = Some x \<Longrightarrow> isSet (to x) \<and> conv (to x) = Inr (read x)"
  shows "from_value conv d (k # ks) upd (to_obj es) m = Inr (upd (\<lambda>_. nullish (map_option read v) d) m)"
proof (rule from_value_sent [OF assms(1) _ assms(3)])
  show "(k, map_option to v) \<in> set es" using assms(2) by (simp add: given_def)
  show "map_option to v = None \<Longrightarrow> nullish (map_option read v) d = d" by simp
  show "map_option to v = Some x \<Longrightarrow> isSet x \<and> conv x = Inr (nullish (map_option read v) d)" for x
    using assms(4) by auto
qed

lemma from_number_given:
  assumes "plain_keys es" "given JNum k v \<in> set es" "list_all (\<lambda>k'. k' \<notin> fst ` set es) ks"
  shows "from_number (k # ks) upd (to_obj es) m = Inr (upd (\<lambda>_. nullish v (num 0)) m)"
  using from_value_given [OF assms, of js_Number id]
  by (simp add: from_number_def js_Number_def isSet_def option.map_id)

lemma from_double_given:
  assumes "plain_keys es" "given JNum k v \<in> set es" "list_all (\<lambda>k'. k' \<notin> fst ` set es) ks"
  shows "from_double (k # ks) upd (to_obj es) m = Inr (upd (\<lambda>_. nullish v (num 0)) m)"
  unfolding from_double_def by (rule from_number_given [OF assms])

lemma from_string_given:
  assumes "plain_keys es" "given JStr k v \<in> set es" "list_all (\<lambda>k'. k' \<notin> fst ` set es) ks"
  shows "from_string (k # ks) upd (to_obj es) m = Inr (upd (\<lambda>_. nullish v '''') m)"
  using from_value_given [OF assms, of js_String id]
  by (simp add: from_string_def isSet_def option.map_id)

lemma from_bool_given:
  assumes "plain_keys es" "given JBool k v \<in> set es" "list_all (\<lambda>k'. k' \<notin> fst ` set es) ks"
  shows "from_bool (k # ks) upd (to_obj es) m = Inr (upd (\<lambda>_. nullish v False) m)"
  using from_value_given [OF assms, of js_Boolean id]
  by (simp add: from_bool_def js_Boolean_def isSet_def option.map_id)

text \<open>An enumeration is read through its conversion: a number it does not list is not kept.\<close>

lemma from_enum_given:
  assumes "plain_keys es" "given JNum k v \<in> set es" "list_all (\<lambda>k'. k' \<notin> fst ` set es) ks"
    and "\<And>x. conv (JNum x) = read x"
  shows "from_enum conv (k # ks) upd (to_obj es) m = Inr (upd (\<lambda>_. nullish (map_option read v) (num 0)) m)"
  using from_value_given [OF assms(1-3), of "\<lambda>v. Inr (conv v)" read] assms(4)
  by (simp add: from_enum_def isSet_def)

lemma from_message_given:
  assumes "plain_keys es" "given to k v \<in> set es" "list_all (\<lambda>k'. k' \<notin> fst ` set es) ks"
    and "\<And>x. v = Some x \<Longrightarrow> isSet (to x) \<and> conv (to x) = Inr (read x)"
  shows "from_message conv (k # ks) upd (to_obj es) m = Inr (upd (\<lambda>_. map_option read v) m)"
proof -
  have "from_message conv (k # ks) upd (to_obj es) m =
        Inr (upd (\<lambda>_. nullish (map_option (\<lambda>x. Some (read x)) v) None) m)"
    unfolding from_message_def
    by (rule from_value_given [OF assms(1-3)]) (use assms(4) in simp)
  then show ?thesis by (cases v) simp_all
qed

lemma map_sum_list_read:
  "(\<And>x. x \<in> set xs \<Longrightarrow> conv (to x) = Inr (read x)) \<Longrightarrow> map_sum_list conv (map to xs) = Inr (map read xs)"
  by (induction xs) auto

lemma list_from_names_absent:
  assumes "plain_keys es" "list_all (\<lambda>k'. k' \<notin> fst ` set es) ks"
  shows "list_from_names conv (to_obj es) ks = Inr []"
  using assms(2)
proof (induction ks)
  case (Cons k' ks)
  then have "map_of es k' = None" by (simp add: map_of_eq_None_iff)
  with Cons show ?case by (simp add: get_to_obj [OF assms(1)])
qed simp

lemma from_list_given:
  assumes "plain_keys es" "given (array_of to) k v \<in> set es" "list_all (\<lambda>k'. k' \<notin> fst ` set es) ks"
    and "\<And>x xs. v = Some xs \<Longrightarrow> x \<in> set xs \<Longrightarrow> conv (to x) = Inr (read x)"
  shows "from_list conv (k # ks) upd (to_obj es) m = Inr (upd (\<lambda>_. nullish (map_option (map read) v) []) m)"
proof -
  have "get (to_obj es) k = (case v of None \<Rightarrow> JUndef | Some xs \<Rightarrow> JArr (map to xs))"
    using assms(1,2)
    by (simp add: get_to_obj [OF assms(1)] plain_keys_def given_def array_of_def split: option.split)
  moreover have "map_sum_list conv (map to xs) = Inr (map read xs)" if "v = Some xs" for xs
    by (rule map_sum_list_read) (rule assms(4) [OF that])
  ultimately show ?thesis
    using list_from_names_absent [OF assms(1,3), of conv] by (cases v) (simp_all add: from_list_def)
qed

lemma from_texts_given:
  assumes "plain_keys es" "given (array_of JStr) k v \<in> set es" "list_all (\<lambda>k'. k' \<notin> fst ` set es) ks"
  shows "from_list js_String (k # ks) upd (to_obj es) m = Inr (upd (\<lambda>_. nullish v []) m)"
  using from_list_given [OF assms, of js_String "\<lambda>s. s"] by (simp add: map_idI option.map_ident)

lemmas field_given = in_turn_step in_turn_done from_number_given from_double_given from_string_given
  from_bool_given from_enum_given from_texts_given from_message_given from_list_given

end
