(* ===== verification/Model.thy ===== *)
theory Model
  imports JsString
begin

text \<open>
  The messages as the components read them: the JSON the server answers with, typed by the
  interfaces of \<^verbatim>\<open>global/model/api.ts\<close>. The client does not run the generated decoders on
  it, so a field the code guards with \<open>??\<close> or \<open>?.\<close> may be missing: it is an \<open>option\<close>
  here, with \<open>None\<close> for \<open>undefined\<close>. Identifiers, times and enumerations are the integers
  the interfaces declare; an enumeration value is its number, since JSON carries numbers the
  enumeration does not list as well.
\<close>

definition RECORD_PURPOSE_UNSPECIFIED :: int where "RECORD_PURPOSE_UNSPECIFIED = 0"
definition RECORD_PURPOSE_DDNS :: int where "RECORD_PURPOSE_DDNS = 1"
definition RECORD_PURPOSE_CERT :: int where "RECORD_PURPOSE_CERT = 2"
definition RECORD_PURPOSE_BOTH :: int where "RECORD_PURPOSE_BOTH = 3"

definition TASK_TRIGGER_UNSPECIFIED :: int where "TASK_TRIGGER_UNSPECIFIED = 0"
definition TASK_TRIGGER_IP :: int where "TASK_TRIGGER_IP = 1"
definition TASK_TRIGGER_CERT :: int where "TASK_TRIGGER_CERT = 2"
definition TASK_TRIGGER_BOTH :: int where "TASK_TRIGGER_BOTH = 3"

lemmas purpose_numbers [simp] =
  RECORD_PURPOSE_UNSPECIFIED_def RECORD_PURPOSE_DDNS_def RECORD_PURPOSE_CERT_def RECORD_PURPOSE_BOTH_def

lemmas trigger_numbers [simp] =
  TASK_TRIGGER_UNSPECIFIED_def TASK_TRIGGER_IP_def TASK_TRIGGER_CERT_def TASK_TRIGGER_BOTH_def

record address_msg =
  adr_updatedAt :: int
  adr_ipv4 :: "string option"
  adr_ipv6 :: "string option"
  adr_current :: bool

record certificate_msg =
  crt_domains :: string
  crt_status :: "string option"
  crt_notAfter :: int
  crt_serial :: string
  crt_lastError :: string

record record_msg =
  rec_id :: int
  rec_createdAt :: int
  rec_updatedAt :: int
  rec_token :: string
  rec_zoneId :: int
  rec_domain :: string
  rec_name :: string
  rec_ttl :: int
  rec_addressId :: int
  rec_address :: "address_msg option"
  rec_purpose :: "int option"
  rec_includeWildcard :: "bool option"
  rec_certificate :: "certificate_msg option"
  rec_acmeEmail :: "string option"

text \<open>A record, for the witnesses.\<close>

definition sample_record :: record_msg where
  "sample_record =
     \<lparr>rec_id = 7, rec_createdAt = 1, rec_updatedAt = 2, rec_token = ''t'', rec_zoneId = 3,
      rec_domain = ''example.org'', rec_name = ''home'', rec_ttl = 60, rec_addressId = 0,
      rec_address = None, rec_purpose = Some 1, rec_includeWildcard = Some False,
      rec_certificate = None, rec_acmeEmail = None\<rparr>"

record zone_msg =
  zone_id :: int
  zone_name :: "string option"

record task_msg =
  task_id :: int
  task_createdAt :: int
  task_updatedAt :: int
  task_recordId :: int
  task_name :: string
  task_triggerOn :: "int option"
  task_method :: string
  task_url :: string
  task_headers :: string
  task_body :: "string option"
  task_enabled :: bool
  task_lastRun :: int
  task_lastStatus :: string
  task_lastError :: string
  task_includeCertificate :: "bool option"
  task_certificateFormat :: string

record task_result_msg =
  tres_status :: string
  tres_error :: string

record resolution_msg =
  res_server :: string
  res_addresses :: "string list option"
  res_responseTime :: int
  res_error :: string

record artifact_msg =
  art_key :: string
  art_label :: string
  art_available :: bool

record job_msg =
  job_id :: int
  job_source :: string
  job_status :: string
  job_startedAt :: int
  job_durationMs :: int
  job_error :: string

record task_run_msg =
  run_id :: int
  run_taskId :: int
  run_taskName :: string
  run_status :: string
  run_startedAt :: int
  run_durationMs :: int
  run_error :: string

record details_msg =
  det_certificate :: "certificate_msg option"
  det_artifacts :: "artifact_msg list"
  det_issuanceJobs :: "job_msg list"
  det_taskRuns :: "task_run_msg list"

text \<open>\<open>addr?.ipv4 || addr?.ipv6 || ''\<close>.\<close>

definition pick_ip :: "address_msg option \<Rightarrow> string" where
  "pick_ip addr =
     (case addr of
        None \<Rightarrow> ''''
      | Some a \<Rightarrow> or_str (nullish (adr_ipv4 a) '''') (nullish (adr_ipv6 a) ''''))"

lemma pick_ip_empty_iff:
  "pick_ip addr = '''' \<longleftrightarrow>
     (\<forall>a. addr = Some a \<longrightarrow> nullish (adr_ipv4 a) '''' = '''' \<and> nullish (adr_ipv6 a) '''' = '''')"
  by (auto simp: pick_ip_def or_str_def split: option.splits)

end
