(* ===== verification/RecordMessages.thy ===== *)
theory RecordMessages
  imports JsonFields Model
begin

text \<open>
  The messages of \<^verbatim>\<open>global/model/api.ts\<close> about records, addresses, certificates, zones and
  resolutions: for each message its record, \<open>createBase\<close>, \<open>encode\<close>, the cases of
  \<open>decode\<close>, \<open>fromJSON\<close> and \<open>toJSON\<close>, in the order of the code. Numbers are those of the
  language, as the interfaces declare them. \<open>X_safe\<close> says which messages can be sent: numbers
  in the range of their wire type that the client can represent, strings below a mebibyte.
  \<open>X_whole\<close> says which ones JSON carries unchanged.
\<close>

text \<open>The number both enumerations give to a value they do not list, and the numbers they list.\<close>

definition UNRECOGNIZED :: int where "UNRECOGNIZED = -1"

definition known_enum :: "number \<Rightarrow> bool" where
  "known_enum n \<longleftrightarrow> n = num 0 \<or> n = num 1 \<or> n = num 2 \<or> n = num 3"

subsection \<open>RecordPurpose\<close>

definition recordPurposeFromJSON :: "jsval \<Rightarrow> number" where
  "recordPurposeFromJSON object =
     (if object = JNum (num 0) \<or> object = JStr ''RECORD_PURPOSE_UNSPECIFIED'' then num RECORD_PURPOSE_UNSPECIFIED
      else if object = JNum (num 1) \<or> object = JStr ''RECORD_PURPOSE_DDNS'' then num RECORD_PURPOSE_DDNS
      else if object = JNum (num 2) \<or> object = JStr ''RECORD_PURPOSE_CERT'' then num RECORD_PURPOSE_CERT
      else if object = JNum (num 3) \<or> object = JStr ''RECORD_PURPOSE_BOTH'' then num RECORD_PURPOSE_BOTH
      else num UNRECOGNIZED)"

definition recordPurposeToJSON :: "number \<Rightarrow> string" where
  "recordPurposeToJSON object =
     (if object = num RECORD_PURPOSE_UNSPECIFIED then ''RECORD_PURPOSE_UNSPECIFIED''
      else if object = num RECORD_PURPOSE_DDNS then ''RECORD_PURPOSE_DDNS''
      else if object = num RECORD_PURPOSE_CERT then ''RECORD_PURPOSE_CERT''
      else if object = num RECORD_PURPOSE_BOTH then ''RECORD_PURPOSE_BOTH''
      else ''UNRECOGNIZED'')"

lemma recordPurpose_known: "known_enum n \<Longrightarrow> recordPurposeFromJSON (JStr (recordPurposeToJSON n)) = n"
  by (auto simp: known_enum_def recordPurposeFromJSON_def recordPurposeToJSON_def UNRECOGNIZED_def)

subsection \<open>Empty\<close>

type_synonym Empty_pb = unit

definition createBaseEmpty :: Empty_pb where
  "createBaseEmpty = ()"

definition Empty_encode :: "('w, 'r) wire \<Rightarrow> Empty_pb \<Rightarrow> 'w \<Rightarrow> string + 'w" where
  "Empty_encode W message =
     in_turn
       []"

definition Empty_cases :: "('w, 'r) wire \<Rightarrow> (nat \<times> nat \<times> (Empty_pb, 'r) action) list" where
  "Empty_cases W =
     []"

definition Empty_decode :: "('w, 'r) wire \<Rightarrow> (Empty_pb, 'r) decoder" where
  "Empty_decode W = decode_message W (Empty_cases W) createBaseEmpty"

definition Empty_fromJSON :: "jsval \<Rightarrow> string + Empty_pb" where
  "Empty_fromJSON object = Inr ()"

definition Empty_fields :: "Empty_pb \<Rightarrow> to_field list" where
  "Empty_fields message =
     []"

definition Empty_toJSON :: "Empty_pb \<Rightarrow> jsval" where
  "Empty_toJSON message = to_obj (Empty_fields message)"

subsection \<open>Line\<close>

record Line_pb =
  Line_line :: string

definition createBaseLine :: Line_pb where
  "createBaseLine =
     \<lparr>Line_line = ''''\<rparr>"

definition Line_encode :: "('w, 'r) wire \<Rightarrow> Line_pb \<Rightarrow> 'w \<Rightarrow> string + 'w" where
  "Line_encode W message =
     in_turn
       [field_string W 10 (Line_line message)]"

definition Line_cases :: "('w, 'r) wire \<Rightarrow> (nat \<times> nat \<times> (Line_pb, 'r) action) list" where
  "Line_cases W =
     [(1, 10, read_text W Line_line_update)]"

definition Line_decode :: "('w, 'r) wire \<Rightarrow> (Line_pb, 'r) decoder" where
  "Line_decode W = decode_message W (Line_cases W) createBaseLine"

definition Line_fromJSON :: "jsval \<Rightarrow> string + Line_pb" where
  "Line_fromJSON =
     from_fields
       [from_string [''line''] Line_line_update]
       createBaseLine"

definition Line_fields :: "Line_pb \<Rightarrow> to_field list" where
  "Line_fields message =
     [to_string ''line'' (Line_line message)]"

definition Line_toJSON :: "Line_pb \<Rightarrow> jsval" where
  "Line_toJSON message = to_obj (Line_fields message)"

definition Line_safe :: "Line_pb \<Rightarrow> bool" where
  "Line_safe message \<longleftrightarrow>
     short_text (Line_line message)"

definition Line_whole :: "Line_pb \<Rightarrow> bool" where
  "Line_whole message \<longleftrightarrow> True"

lemma Line_dispatch:
  "dispatch (Line_cases W) 10 = Some (read_text W Line_line_update)"
  by (simp_all add: dispatch_def Line_cases_def)

context wire_reader
begin

lemma Line_decode_returns: "decodes W (Line_decode W)"
  unfolding Line_decode_def by (rule decode_message_returns) (simp add: Line_cases_def)

end

context wire_format
begin

lemma Line_coded:
  assumes "Line_safe m"
  shows "coded W outs rest (Line_cases W) createBaseLine (Line_encode W m) m 2097152"
  by (insert assms [unfolded Line_safe_def], rule codedI, rule Line_encode_def,
      (rule field_codes Line_dispatch
       | simp add: when_set_update createBaseLine_def; fail)+)

lemma Line_transmits:
  "Line_safe m \<Longrightarrow> transmits W outs rest (Line_encode W) (Line_decode W) m 2097152"
  by (rule transmits_message [OF Line_coded Line_decode_def])

end

lemma Line_plain: "plain_keys (Line_fields m)"
  by (simp add: plain_keys_def Line_fields_def to_defs array_index_def is_digit_def)

lemma Line_sends:
  "to_string ''line'' (Line_line m) \<in> set (Line_fields m)"
  by (simp_all add: Line_fields_def)

lemma Line_isSet: "isSet (Line_toJSON m)"
  by (simp add: Line_toJSON_def)

lemma Line_json:
  assumes "Line_whole m"
  shows "Line_fromJSON (Line_toJSON m) = Inr m"
  unfolding Line_fromJSON_def Line_toJSON_def from_fields_def list.map
  by (insert assms [unfolded Line_whole_def],
      (rule field_sent Line_plain Line_sends
       | simp add: createBaseLine_def whole_round; fail | simp add: Line_fields_def to_defs; fail)+)

lemma Line_json_ok: "Line_whole m \<Longrightarrow> json_ok (Line_toJSON m)"
  unfolding Line_toJSON_def Line_whole_def
  by (rule json_ok_to_obj [OF Line_plain])
    (simp add: Line_fields_def field_oks list_all_iff pred_option_conv)

subsection \<open>Request\<close>

record Request_pb =
  Request_search :: string

definition createBaseRequest :: Request_pb where
  "createBaseRequest =
     \<lparr>Request_search = ''''\<rparr>"

definition Request_encode :: "('w, 'r) wire \<Rightarrow> Request_pb \<Rightarrow> 'w \<Rightarrow> string + 'w" where
  "Request_encode W message =
     in_turn
       [field_string W 10 (Request_search message)]"

definition Request_cases :: "('w, 'r) wire \<Rightarrow> (nat \<times> nat \<times> (Request_pb, 'r) action) list" where
  "Request_cases W =
     [(1, 10, read_text W Request_search_update)]"

definition Request_decode :: "('w, 'r) wire \<Rightarrow> (Request_pb, 'r) decoder" where
  "Request_decode W = decode_message W (Request_cases W) createBaseRequest"

definition Request_fields :: "Request_pb \<Rightarrow> to_field list" where
  "Request_fields message =
     [to_string ''search'' (Request_search message)]"

definition Request_toJSON :: "Request_pb \<Rightarrow> jsval" where
  "Request_toJSON message = to_obj (Request_fields message)"

definition Request_safe :: "Request_pb \<Rightarrow> bool" where
  "Request_safe message \<longleftrightarrow>
     short_text (Request_search message)"

definition Request_whole :: "Request_pb \<Rightarrow> bool" where
  "Request_whole message \<longleftrightarrow> True"

lemma Request_dispatch:
  "dispatch (Request_cases W) 10 = Some (read_text W Request_search_update)"
  by (simp_all add: dispatch_def Request_cases_def)

context wire_reader
begin

lemma Request_decode_returns: "decodes W (Request_decode W)"
  unfolding Request_decode_def by (rule decode_message_returns) (simp add: Request_cases_def)

end

context wire_format
begin

lemma Request_coded:
  assumes "Request_safe m"
  shows "coded W outs rest (Request_cases W) createBaseRequest (Request_encode W m) m 2097152"
  by (insert assms [unfolded Request_safe_def], rule codedI, rule Request_encode_def,
      (rule field_codes Request_dispatch
       | simp add: when_set_update createBaseRequest_def; fail)+)

lemma Request_transmits:
  "Request_safe m \<Longrightarrow> transmits W outs rest (Request_encode W) (Request_decode W) m 2097152"
  by (rule transmits_message [OF Request_coded Request_decode_def])

end

lemma Request_plain: "plain_keys (Request_fields m)"
  by (simp add: plain_keys_def Request_fields_def to_defs array_index_def is_digit_def)

subsection \<open>Address\<close>

record Address_pb =
  Address_id :: number
  Address_createdAt :: number
  Address_updatedAt :: number
  Address_ipv4 :: string
  Address_ipv6 :: string
  Address_current :: bool

definition createBaseAddress :: Address_pb where
  "createBaseAddress =
     \<lparr>Address_id = num 0, Address_createdAt = num 0, Address_updatedAt = num 0,
      Address_ipv4 = '''', Address_ipv6 = '''', Address_current = False\<rparr>"

definition Address_encode :: "('w, 'r) wire \<Rightarrow> Address_pb \<Rightarrow> 'w \<Rightarrow> string + 'w" where
  "Address_encode W message =
     in_turn
       [field_int64 W 8 (Address_id message),
        field_int64 W 16 (Address_createdAt message),
        field_int64 W 24 (Address_updatedAt message),
        field_string W 34 (Address_ipv4 message),
        field_string W 42 (Address_ipv6 message),
        field_bool W 48 (Address_current message)]"

definition Address_cases :: "('w, 'r) wire \<Rightarrow> (nat \<times> nat \<times> (Address_pb, 'r) action) list" where
  "Address_cases W =
     [(1, 8, read_int64 W Address_id_update),
      (2, 16, read_int64 W Address_createdAt_update),
      (3, 24, read_int64 W Address_updatedAt_update),
      (4, 34, read_text W Address_ipv4_update),
      (5, 42, read_text W Address_ipv6_update),
      (6, 48, read_bool W Address_current_update)]"

definition Address_decode :: "('w, 'r) wire \<Rightarrow> (Address_pb, 'r) decoder" where
  "Address_decode W = decode_message W (Address_cases W) createBaseAddress"

definition Address_fromJSON :: "jsval \<Rightarrow> string + Address_pb" where
  "Address_fromJSON =
     from_fields
       [from_number [''id''] Address_id_update,
        from_number [''createdAt'', ''created_at''] Address_createdAt_update,
        from_number [''updatedAt'', ''updated_at''] Address_updatedAt_update,
        from_string [''ipv4''] Address_ipv4_update,
        from_string [''ipv6''] Address_ipv6_update,
        from_bool [''current''] Address_current_update]
       createBaseAddress"

definition Address_fields :: "Address_pb \<Rightarrow> to_field list" where
  "Address_fields message =
     [to_int ''id'' (Address_id message),
      to_int ''createdAt'' (Address_createdAt message),
      to_int ''updatedAt'' (Address_updatedAt message),
      to_string ''ipv4'' (Address_ipv4 message),
      to_string ''ipv6'' (Address_ipv6 message),
      to_bool ''current'' (Address_current message)]"

definition Address_toJSON :: "Address_pb \<Rightarrow> jsval" where
  "Address_toJSON message = to_obj (Address_fields message)"

definition Address_safe :: "Address_pb \<Rightarrow> bool" where
  "Address_safe message \<longleftrightarrow>
     safe_int (Address_id message) \<and>
     safe_int (Address_createdAt message) \<and>
     safe_int (Address_updatedAt message) \<and>
     short_text (Address_ipv4 message) \<and>
     short_text (Address_ipv6 message)"

definition Address_whole :: "Address_pb \<Rightarrow> bool" where
  "Address_whole message \<longleftrightarrow>
     whole (Address_id message) \<and>
     whole (Address_createdAt message) \<and>
     whole (Address_updatedAt message)"

lemma Address_dispatch:
  "dispatch (Address_cases W) 8 = Some (read_int64 W Address_id_update)"
  "dispatch (Address_cases W) 16 = Some (read_int64 W Address_createdAt_update)"
  "dispatch (Address_cases W) 24 = Some (read_int64 W Address_updatedAt_update)"
  "dispatch (Address_cases W) 34 = Some (read_text W Address_ipv4_update)"
  "dispatch (Address_cases W) 42 = Some (read_text W Address_ipv6_update)"
  "dispatch (Address_cases W) 48 = Some (read_bool W Address_current_update)"
  by (simp_all add: dispatch_def Address_cases_def)

context wire_reader
begin

lemma Address_decode_returns: "decodes W (Address_decode W)"
  unfolding Address_decode_def by (rule decode_message_returns) (simp add: Address_cases_def)

end

context wire_format
begin

lemma Address_coded:
  assumes "Address_safe m"
  shows "coded W outs rest (Address_cases W) createBaseAddress (Address_encode W m) m 4194364"
  by (insert assms [unfolded Address_safe_def], rule codedI, rule Address_encode_def,
      (rule field_codes Address_dispatch
       | simp add: when_set_update createBaseAddress_def; fail)+)

lemma Address_transmits:
  "Address_safe m \<Longrightarrow> transmits W outs rest (Address_encode W) (Address_decode W) m 4194364"
  by (rule transmits_message [OF Address_coded Address_decode_def])

end

lemma Address_plain: "plain_keys (Address_fields m)"
  by (simp add: plain_keys_def Address_fields_def to_defs array_index_def is_digit_def)

lemma Address_sends:
  "to_int ''id'' (Address_id m) \<in> set (Address_fields m)"
  "to_int ''createdAt'' (Address_createdAt m) \<in> set (Address_fields m)"
  "to_int ''updatedAt'' (Address_updatedAt m) \<in> set (Address_fields m)"
  "to_string ''ipv4'' (Address_ipv4 m) \<in> set (Address_fields m)"
  "to_string ''ipv6'' (Address_ipv6 m) \<in> set (Address_fields m)"
  "to_bool ''current'' (Address_current m) \<in> set (Address_fields m)"
  by (simp_all add: Address_fields_def)

lemma Address_isSet: "isSet (Address_toJSON m)"
  by (simp add: Address_toJSON_def)

lemma Address_json:
  assumes "Address_whole m"
  shows "Address_fromJSON (Address_toJSON m) = Inr m"
  unfolding Address_fromJSON_def Address_toJSON_def from_fields_def list.map
  by (insert assms [unfolded Address_whole_def],
      (rule field_sent Address_plain Address_sends
       | simp add: createBaseAddress_def whole_round; fail | simp add: Address_fields_def to_defs; fail)+)

lemma Address_json_ok: "Address_whole m \<Longrightarrow> json_ok (Address_toJSON m)"
  unfolding Address_toJSON_def Address_whole_def
  by (rule json_ok_to_obj [OF Address_plain])
    (simp add: Address_fields_def field_oks list_all_iff pred_option_conv)

subsection \<open>AddressHistory\<close>

record AddressHistory_pb =
  AddressHistory_addresses :: "Address_pb list"

definition createBaseAddressHistory :: AddressHistory_pb where
  "createBaseAddressHistory =
     \<lparr>AddressHistory_addresses = []\<rparr>"

definition AddressHistory_encode :: "('w, 'r) wire \<Rightarrow> AddressHistory_pb \<Rightarrow> 'w \<Rightarrow> string + 'w" where
  "AddressHistory_encode W message =
     in_turn
       [field_messages W 10 (Address_encode W) (AddressHistory_addresses message)]"

definition AddressHistory_cases :: "('w, 'r) wire \<Rightarrow> (nat \<times> nat \<times> (AddressHistory_pb, 'r) action) list" where
  "AddressHistory_cases W =
     [(1, 10, push_message W (Address_decode W) AddressHistory_addresses_update)]"

definition AddressHistory_decode :: "('w, 'r) wire \<Rightarrow> (AddressHistory_pb, 'r) decoder" where
  "AddressHistory_decode W = decode_message W (AddressHistory_cases W) createBaseAddressHistory"

definition AddressHistory_fromJSON :: "jsval \<Rightarrow> string + AddressHistory_pb" where
  "AddressHistory_fromJSON =
     from_fields
       [from_list Address_fromJSON [''addresses''] AddressHistory_addresses_update]
       createBaseAddressHistory"

definition AddressHistory_fields :: "AddressHistory_pb \<Rightarrow> to_field list" where
  "AddressHistory_fields message =
     [to_list Address_toJSON ''addresses'' (AddressHistory_addresses message)]"

definition AddressHistory_toJSON :: "AddressHistory_pb \<Rightarrow> jsval" where
  "AddressHistory_toJSON message = to_obj (AddressHistory_fields message)"

definition AddressHistory_safe :: "AddressHistory_pb \<Rightarrow> bool" where
  "AddressHistory_safe message \<longleftrightarrow>
     list_all Address_safe (AddressHistory_addresses message)"

definition AddressHistory_whole :: "AddressHistory_pb \<Rightarrow> bool" where
  "AddressHistory_whole message \<longleftrightarrow>
     list_all Address_whole (AddressHistory_addresses message)"

lemma AddressHistory_dispatch:
  "dispatch (AddressHistory_cases W) 10 = Some (push_message W (Address_decode W) AddressHistory_addresses_update)"
  by (simp_all add: dispatch_def AddressHistory_cases_def)

lemma push_AddressHistory_addresses: "push_all vs AddressHistory_addresses_update m = AddressHistory_addresses_update (\<lambda>us. us @ vs) m"
  by (rule push_all_update) simp_all

context wire_reader
begin

lemma AddressHistory_decode_returns: "decodes W (AddressHistory_decode W)"
  unfolding AddressHistory_decode_def by (rule decode_message_returns) (simp add: AddressHistory_cases_def Address_decode_returns)

end

context wire_format
begin

lemma AddressHistory_coded:
  assumes "AddressHistory_safe m"
  shows "coded W outs rest (AddressHistory_cases W) createBaseAddressHistory (AddressHistory_encode W m) m (length (AddressHistory_addresses m) * 4194374)"
  by (insert assms [unfolded AddressHistory_safe_def], rule codedI, rule AddressHistory_encode_def,
      (rule field_codes AddressHistory_dispatch Address_transmits
       | simp add: when_set_update createBaseAddressHistory_def push_AddressHistory_addresses list_all_iff; fail)+)

lemma AddressHistory_transmits:
  "AddressHistory_safe m \<Longrightarrow> transmits W outs rest (AddressHistory_encode W) (AddressHistory_decode W) m (length (AddressHistory_addresses m) * 4194374)"
  by (rule transmits_message [OF AddressHistory_coded AddressHistory_decode_def])

end

lemma AddressHistory_plain: "plain_keys (AddressHistory_fields m)"
  by (simp add: plain_keys_def AddressHistory_fields_def to_defs array_index_def is_digit_def)

lemma AddressHistory_sends:
  "to_list Address_toJSON ''addresses'' (AddressHistory_addresses m) \<in> set (AddressHistory_fields m)"
  by (simp_all add: AddressHistory_fields_def)

lemma AddressHistory_isSet: "isSet (AddressHistory_toJSON m)"
  by (simp add: AddressHistory_toJSON_def)

lemma AddressHistory_json:
  assumes "AddressHistory_whole m"
  shows "AddressHistory_fromJSON (AddressHistory_toJSON m) = Inr m"
  unfolding AddressHistory_fromJSON_def AddressHistory_toJSON_def from_fields_def list.map
  by (insert assms [unfolded AddressHistory_whole_def],
      (rule field_sent AddressHistory_plain AddressHistory_sends
       | simp add: createBaseAddressHistory_def whole_round Address_json Address_isSet list_all_iff; fail | simp add: AddressHistory_fields_def to_defs; fail)+)

lemma AddressHistory_json_ok: "AddressHistory_whole m \<Longrightarrow> json_ok (AddressHistory_toJSON m)"
  unfolding AddressHistory_toJSON_def AddressHistory_whole_def
  by (rule json_ok_to_obj [OF AddressHistory_plain])
    (simp add: AddressHistory_fields_def field_oks list_all_iff pred_option_conv Address_json_ok)

subsection \<open>Certificate\<close>

record Certificate_pb =
  Certificate_id :: number
  Certificate_createdAt :: number
  Certificate_updatedAt :: number
  Certificate_recordId :: number
  Certificate_domains :: string
  Certificate_status :: string
  Certificate_notBefore :: number
  Certificate_notAfter :: number
  Certificate_serial :: string
  Certificate_lastError :: string

definition createBaseCertificate :: Certificate_pb where
  "createBaseCertificate =
     \<lparr>Certificate_id = num 0, Certificate_createdAt = num 0, Certificate_updatedAt = num 0,
      Certificate_recordId = num 0, Certificate_domains = '''', Certificate_status = '''',
      Certificate_notBefore = num 0, Certificate_notAfter = num 0,
      Certificate_serial = '''', Certificate_lastError = ''''\<rparr>"

definition Certificate_encode :: "('w, 'r) wire \<Rightarrow> Certificate_pb \<Rightarrow> 'w \<Rightarrow> string + 'w" where
  "Certificate_encode W message =
     in_turn
       [field_int64 W 8 (Certificate_id message),
        field_int64 W 16 (Certificate_createdAt message),
        field_int64 W 24 (Certificate_updatedAt message),
        field_int64 W 32 (Certificate_recordId message),
        field_string W 42 (Certificate_domains message),
        field_string W 50 (Certificate_status message),
        field_int64 W 56 (Certificate_notBefore message),
        field_int64 W 64 (Certificate_notAfter message),
        field_string W 74 (Certificate_serial message),
        field_string W 82 (Certificate_lastError message)]"

definition Certificate_cases :: "('w, 'r) wire \<Rightarrow> (nat \<times> nat \<times> (Certificate_pb, 'r) action) list" where
  "Certificate_cases W =
     [(1, 8, read_int64 W Certificate_id_update),
      (2, 16, read_int64 W Certificate_createdAt_update),
      (3, 24, read_int64 W Certificate_updatedAt_update),
      (4, 32, read_int64 W Certificate_recordId_update),
      (5, 42, read_text W Certificate_domains_update),
      (6, 50, read_text W Certificate_status_update),
      (7, 56, read_int64 W Certificate_notBefore_update),
      (8, 64, read_int64 W Certificate_notAfter_update),
      (9, 74, read_text W Certificate_serial_update),
      (10, 82, read_text W Certificate_lastError_update)]"

definition Certificate_decode :: "('w, 'r) wire \<Rightarrow> (Certificate_pb, 'r) decoder" where
  "Certificate_decode W = decode_message W (Certificate_cases W) createBaseCertificate"

definition Certificate_fromJSON :: "jsval \<Rightarrow> string + Certificate_pb" where
  "Certificate_fromJSON =
     from_fields
       [from_number [''id''] Certificate_id_update,
        from_number [''createdAt'', ''created_at''] Certificate_createdAt_update,
        from_number [''updatedAt'', ''updated_at''] Certificate_updatedAt_update,
        from_number [''recordId'', ''record_id''] Certificate_recordId_update,
        from_string [''domains''] Certificate_domains_update,
        from_string [''status''] Certificate_status_update,
        from_number [''notBefore'', ''not_before''] Certificate_notBefore_update,
        from_number [''notAfter'', ''not_after''] Certificate_notAfter_update,
        from_string [''serial''] Certificate_serial_update,
        from_string [''lastError'', ''last_error''] Certificate_lastError_update]
       createBaseCertificate"

definition Certificate_fields :: "Certificate_pb \<Rightarrow> to_field list" where
  "Certificate_fields message =
     [to_int ''id'' (Certificate_id message),
      to_int ''createdAt'' (Certificate_createdAt message),
      to_int ''updatedAt'' (Certificate_updatedAt message),
      to_int ''recordId'' (Certificate_recordId message),
      to_string ''domains'' (Certificate_domains message),
      to_string ''status'' (Certificate_status message),
      to_int ''notBefore'' (Certificate_notBefore message),
      to_int ''notAfter'' (Certificate_notAfter message),
      to_string ''serial'' (Certificate_serial message),
      to_string ''lastError'' (Certificate_lastError message)]"

definition Certificate_toJSON :: "Certificate_pb \<Rightarrow> jsval" where
  "Certificate_toJSON message = to_obj (Certificate_fields message)"

definition Certificate_safe :: "Certificate_pb \<Rightarrow> bool" where
  "Certificate_safe message \<longleftrightarrow>
     safe_int (Certificate_id message) \<and>
     safe_int (Certificate_createdAt message) \<and>
     safe_int (Certificate_updatedAt message) \<and>
     safe_int (Certificate_recordId message) \<and>
     short_text (Certificate_domains message) \<and>
     short_text (Certificate_status message) \<and>
     safe_int (Certificate_notBefore message) \<and>
     safe_int (Certificate_notAfter message) \<and>
     short_text (Certificate_serial message) \<and>
     short_text (Certificate_lastError message)"

definition Certificate_whole :: "Certificate_pb \<Rightarrow> bool" where
  "Certificate_whole message \<longleftrightarrow>
     whole (Certificate_id message) \<and>
     whole (Certificate_createdAt message) \<and>
     whole (Certificate_updatedAt message) \<and>
     whole (Certificate_recordId message) \<and>
     whole (Certificate_notBefore message) \<and>
     whole (Certificate_notAfter message)"

lemma Certificate_dispatch:
  "dispatch (Certificate_cases W) 8 = Some (read_int64 W Certificate_id_update)"
  "dispatch (Certificate_cases W) 16 = Some (read_int64 W Certificate_createdAt_update)"
  "dispatch (Certificate_cases W) 24 = Some (read_int64 W Certificate_updatedAt_update)"
  "dispatch (Certificate_cases W) 32 = Some (read_int64 W Certificate_recordId_update)"
  "dispatch (Certificate_cases W) 42 = Some (read_text W Certificate_domains_update)"
  "dispatch (Certificate_cases W) 50 = Some (read_text W Certificate_status_update)"
  "dispatch (Certificate_cases W) 56 = Some (read_int64 W Certificate_notBefore_update)"
  "dispatch (Certificate_cases W) 64 = Some (read_int64 W Certificate_notAfter_update)"
  "dispatch (Certificate_cases W) 74 = Some (read_text W Certificate_serial_update)"
  "dispatch (Certificate_cases W) 82 = Some (read_text W Certificate_lastError_update)"
  by (simp_all add: dispatch_def Certificate_cases_def)

context wire_reader
begin

lemma Certificate_decode_returns: "decodes W (Certificate_decode W)"
  unfolding Certificate_decode_def by (rule decode_message_returns) (simp add: Certificate_cases_def)

end

context wire_format
begin

lemma Certificate_coded:
  assumes "Certificate_safe m"
  shows "coded W outs rest (Certificate_cases W) createBaseCertificate (Certificate_encode W m) m 8388698"
  by (insert assms [unfolded Certificate_safe_def], rule codedI, rule Certificate_encode_def,
      (rule field_codes Certificate_dispatch
       | simp add: when_set_update createBaseCertificate_def; fail)+)

lemma Certificate_transmits:
  "Certificate_safe m \<Longrightarrow> transmits W outs rest (Certificate_encode W) (Certificate_decode W) m 8388698"
  by (rule transmits_message [OF Certificate_coded Certificate_decode_def])

end

lemma Certificate_plain: "plain_keys (Certificate_fields m)"
  by (simp add: plain_keys_def Certificate_fields_def to_defs array_index_def is_digit_def)

lemma Certificate_sends:
  "to_int ''id'' (Certificate_id m) \<in> set (Certificate_fields m)"
  "to_int ''createdAt'' (Certificate_createdAt m) \<in> set (Certificate_fields m)"
  "to_int ''updatedAt'' (Certificate_updatedAt m) \<in> set (Certificate_fields m)"
  "to_int ''recordId'' (Certificate_recordId m) \<in> set (Certificate_fields m)"
  "to_string ''domains'' (Certificate_domains m) \<in> set (Certificate_fields m)"
  "to_string ''status'' (Certificate_status m) \<in> set (Certificate_fields m)"
  "to_int ''notBefore'' (Certificate_notBefore m) \<in> set (Certificate_fields m)"
  "to_int ''notAfter'' (Certificate_notAfter m) \<in> set (Certificate_fields m)"
  "to_string ''serial'' (Certificate_serial m) \<in> set (Certificate_fields m)"
  "to_string ''lastError'' (Certificate_lastError m) \<in> set (Certificate_fields m)"
  by (simp_all add: Certificate_fields_def)

lemma Certificate_isSet: "isSet (Certificate_toJSON m)"
  by (simp add: Certificate_toJSON_def)

lemma Certificate_json:
  assumes "Certificate_whole m"
  shows "Certificate_fromJSON (Certificate_toJSON m) = Inr m"
  unfolding Certificate_fromJSON_def Certificate_toJSON_def from_fields_def list.map
  by (insert assms [unfolded Certificate_whole_def],
      (rule field_sent Certificate_plain Certificate_sends
       | simp add: createBaseCertificate_def whole_round; fail | simp add: Certificate_fields_def to_defs; fail)+)

lemma Certificate_json_ok: "Certificate_whole m \<Longrightarrow> json_ok (Certificate_toJSON m)"
  unfolding Certificate_toJSON_def Certificate_whole_def
  by (rule json_ok_to_obj [OF Certificate_plain])
    (simp add: Certificate_fields_def field_oks list_all_iff pred_option_conv)

subsection \<open>CertificateList\<close>

record CertificateList_pb =
  CertificateList_certificates :: "Certificate_pb list"

definition createBaseCertificateList :: CertificateList_pb where
  "createBaseCertificateList =
     \<lparr>CertificateList_certificates = []\<rparr>"

definition CertificateList_encode :: "('w, 'r) wire \<Rightarrow> CertificateList_pb \<Rightarrow> 'w \<Rightarrow> string + 'w" where
  "CertificateList_encode W message =
     in_turn
       [field_messages W 10 (Certificate_encode W) (CertificateList_certificates message)]"

definition CertificateList_cases :: "('w, 'r) wire \<Rightarrow> (nat \<times> nat \<times> (CertificateList_pb, 'r) action) list" where
  "CertificateList_cases W =
     [(1, 10, push_message W (Certificate_decode W) CertificateList_certificates_update)]"

definition CertificateList_decode :: "('w, 'r) wire \<Rightarrow> (CertificateList_pb, 'r) decoder" where
  "CertificateList_decode W = decode_message W (CertificateList_cases W) createBaseCertificateList"

definition CertificateList_fromJSON :: "jsval \<Rightarrow> string + CertificateList_pb" where
  "CertificateList_fromJSON =
     from_fields
       [from_list Certificate_fromJSON [''certificates''] CertificateList_certificates_update]
       createBaseCertificateList"

definition CertificateList_fields :: "CertificateList_pb \<Rightarrow> to_field list" where
  "CertificateList_fields message =
     [to_list Certificate_toJSON ''certificates'' (CertificateList_certificates message)]"

definition CertificateList_toJSON :: "CertificateList_pb \<Rightarrow> jsval" where
  "CertificateList_toJSON message = to_obj (CertificateList_fields message)"

definition CertificateList_safe :: "CertificateList_pb \<Rightarrow> bool" where
  "CertificateList_safe message \<longleftrightarrow>
     list_all Certificate_safe (CertificateList_certificates message)"

definition CertificateList_whole :: "CertificateList_pb \<Rightarrow> bool" where
  "CertificateList_whole message \<longleftrightarrow>
     list_all Certificate_whole (CertificateList_certificates message)"

lemma CertificateList_dispatch:
  "dispatch (CertificateList_cases W) 10 = Some (push_message W (Certificate_decode W) CertificateList_certificates_update)"
  by (simp_all add: dispatch_def CertificateList_cases_def)

lemma push_CertificateList_certificates: "push_all vs CertificateList_certificates_update m = CertificateList_certificates_update (\<lambda>us. us @ vs) m"
  by (rule push_all_update) simp_all

context wire_reader
begin

lemma CertificateList_decode_returns: "decodes W (CertificateList_decode W)"
  unfolding CertificateList_decode_def by (rule decode_message_returns) (simp add: CertificateList_cases_def Certificate_decode_returns)

end

context wire_format
begin

lemma CertificateList_coded:
  assumes "CertificateList_safe m"
  shows "coded W outs rest (CertificateList_cases W) createBaseCertificateList (CertificateList_encode W m) m (length (CertificateList_certificates m) * 8388708)"
  by (insert assms [unfolded CertificateList_safe_def], rule codedI, rule CertificateList_encode_def,
      (rule field_codes CertificateList_dispatch Certificate_transmits
       | simp add: when_set_update createBaseCertificateList_def push_CertificateList_certificates list_all_iff; fail)+)

lemma CertificateList_transmits:
  "CertificateList_safe m \<Longrightarrow> transmits W outs rest (CertificateList_encode W) (CertificateList_decode W) m (length (CertificateList_certificates m) * 8388708)"
  by (rule transmits_message [OF CertificateList_coded CertificateList_decode_def])

end

lemma CertificateList_plain: "plain_keys (CertificateList_fields m)"
  by (simp add: plain_keys_def CertificateList_fields_def to_defs array_index_def is_digit_def)

lemma CertificateList_sends:
  "to_list Certificate_toJSON ''certificates'' (CertificateList_certificates m) \<in> set (CertificateList_fields m)"
  by (simp_all add: CertificateList_fields_def)

lemma CertificateList_isSet: "isSet (CertificateList_toJSON m)"
  by (simp add: CertificateList_toJSON_def)

lemma CertificateList_json:
  assumes "CertificateList_whole m"
  shows "CertificateList_fromJSON (CertificateList_toJSON m) = Inr m"
  unfolding CertificateList_fromJSON_def CertificateList_toJSON_def from_fields_def list.map
  by (insert assms [unfolded CertificateList_whole_def],
      (rule field_sent CertificateList_plain CertificateList_sends
       | simp add: createBaseCertificateList_def whole_round Certificate_json Certificate_isSet list_all_iff; fail | simp add: CertificateList_fields_def to_defs; fail)+)

lemma CertificateList_json_ok: "CertificateList_whole m \<Longrightarrow> json_ok (CertificateList_toJSON m)"
  unfolding CertificateList_toJSON_def CertificateList_whole_def
  by (rule json_ok_to_obj [OF CertificateList_plain])
    (simp add: CertificateList_fields_def field_oks list_all_iff pred_option_conv Certificate_json_ok)

subsection \<open>Record\<close>

record Record_pb =
  Record_id :: number
  Record_createdAt :: number
  Record_updatedAt :: number
  Record_token :: string
  Record_zoneId :: number
  Record_domain :: string
  Record_name :: string
  Record_ttl :: number
  Record_addressId :: number
  Record_address :: "Address_pb option"
  Record_purpose :: number
  Record_includeWildcard :: bool
  Record_certificate :: "Certificate_pb option"
  Record_acmeEmail :: string

definition createBaseRecord :: Record_pb where
  "createBaseRecord =
     \<lparr>Record_id = num 0, Record_createdAt = num 0, Record_updatedAt = num 0,
      Record_token = '''', Record_zoneId = num 0, Record_domain = '''', Record_name = '''',
      Record_ttl = num 0, Record_addressId = num 0, Record_address = None,
      Record_purpose = num 0, Record_includeWildcard = False, Record_certificate = None,
      Record_acmeEmail = ''''\<rparr>"

definition Record_encode :: "('w, 'r) wire \<Rightarrow> Record_pb \<Rightarrow> 'w \<Rightarrow> string + 'w" where
  "Record_encode W message =
     in_turn
       [field_int64 W 8 (Record_id message),
        field_int64 W 16 (Record_createdAt message),
        field_int64 W 24 (Record_updatedAt message),
        field_string W 34 (Record_token message),
        field_int64 W 40 (Record_zoneId message),
        field_string W 50 (Record_domain message),
        field_string W 58 (Record_name message),
        field_uint32 W 64 (Record_ttl message),
        field_int64 W 72 (Record_addressId message),
        field_message W 82 (Address_encode W) (Record_address message),
        field_int32 W 88 (Record_purpose message),
        field_bool W 96 (Record_includeWildcard message),
        field_message W 106 (Certificate_encode W) (Record_certificate message),
        field_string W 114 (Record_acmeEmail message)]"

definition Record_cases :: "('w, 'r) wire \<Rightarrow> (nat \<times> nat \<times> (Record_pb, 'r) action) list" where
  "Record_cases W =
     [(1, 8, read_int64 W Record_id_update),
      (2, 16, read_int64 W Record_createdAt_update),
      (3, 24, read_int64 W Record_updatedAt_update),
      (4, 34, read_text W Record_token_update),
      (5, 40, read_int64 W Record_zoneId_update),
      (6, 50, read_text W Record_domain_update),
      (7, 58, read_text W Record_name_update),
      (8, 64, read_uint32 W Record_ttl_update),
      (9, 72, read_int64 W Record_addressId_update),
      (10, 82, read_message W (Address_decode W) Record_address_update),
      (11, 88, read_int32 W Record_purpose_update),
      (12, 96, read_bool W Record_includeWildcard_update),
      (13, 106, read_message W (Certificate_decode W) Record_certificate_update),
      (14, 114, read_text W Record_acmeEmail_update)]"

definition Record_decode :: "('w, 'r) wire \<Rightarrow> (Record_pb, 'r) decoder" where
  "Record_decode W = decode_message W (Record_cases W) createBaseRecord"

definition Record_fromJSON :: "jsval \<Rightarrow> string + Record_pb" where
  "Record_fromJSON =
     from_fields
       [from_number [''id''] Record_id_update,
        from_number [''createdAt'', ''created_at''] Record_createdAt_update,
        from_number [''updatedAt'', ''updated_at''] Record_updatedAt_update,
        from_string [''token''] Record_token_update,
        from_number [''zoneId'', ''zone_id''] Record_zoneId_update,
        from_string [''domain''] Record_domain_update,
        from_string [''name''] Record_name_update,
        from_number [''ttl''] Record_ttl_update,
        from_number [''addressId'', ''address_id''] Record_addressId_update,
        from_message Address_fromJSON [''address''] Record_address_update,
        from_enum recordPurposeFromJSON [''purpose''] Record_purpose_update,
        from_bool [''includeWildcard'', ''include_wildcard''] Record_includeWildcard_update,
        from_message Certificate_fromJSON [''certificate''] Record_certificate_update,
        from_string [''acmeEmail'', ''acme_email''] Record_acmeEmail_update]
       createBaseRecord"

definition Record_fields :: "Record_pb \<Rightarrow> to_field list" where
  "Record_fields message =
     [to_int ''id'' (Record_id message),
      to_int ''createdAt'' (Record_createdAt message),
      to_int ''updatedAt'' (Record_updatedAt message),
      to_string ''token'' (Record_token message),
      to_int ''zoneId'' (Record_zoneId message),
      to_string ''domain'' (Record_domain message),
      to_string ''name'' (Record_name message),
      to_int ''ttl'' (Record_ttl message),
      to_int ''addressId'' (Record_addressId message),
      to_message Address_toJSON ''address'' (Record_address message),
      to_enum recordPurposeToJSON ''purpose'' (Record_purpose message),
      to_bool ''includeWildcard'' (Record_includeWildcard message),
      to_message Certificate_toJSON ''certificate'' (Record_certificate message),
      to_string ''acmeEmail'' (Record_acmeEmail message)]"

definition Record_toJSON :: "Record_pb \<Rightarrow> jsval" where
  "Record_toJSON message = to_obj (Record_fields message)"

definition Record_safe :: "Record_pb \<Rightarrow> bool" where
  "Record_safe message \<longleftrightarrow>
     safe_int (Record_id message) \<and>
     safe_int (Record_createdAt message) \<and>
     safe_int (Record_updatedAt message) \<and>
     short_text (Record_token message) \<and>
     safe_int (Record_zoneId message) \<and>
     short_text (Record_domain message) \<and>
     short_text (Record_name message) \<and>
     small_nat (Record_ttl message) \<and>
     safe_int (Record_addressId message) \<and>
     pred_option Address_safe (Record_address message) \<and>
     small_int (Record_purpose message) \<and>
     pred_option Certificate_safe (Record_certificate message) \<and>
     short_text (Record_acmeEmail message)"

definition Record_whole :: "Record_pb \<Rightarrow> bool" where
  "Record_whole message \<longleftrightarrow>
     whole (Record_id message) \<and>
     whole (Record_createdAt message) \<and>
     whole (Record_updatedAt message) \<and>
     whole (Record_zoneId message) \<and>
     whole (Record_ttl message) \<and>
     whole (Record_addressId message) \<and>
     pred_option Address_whole (Record_address message) \<and>
     known_enum (Record_purpose message) \<and>
     pred_option Certificate_whole (Record_certificate message)"

lemma Record_dispatch:
  "dispatch (Record_cases W) 8 = Some (read_int64 W Record_id_update)"
  "dispatch (Record_cases W) 16 = Some (read_int64 W Record_createdAt_update)"
  "dispatch (Record_cases W) 24 = Some (read_int64 W Record_updatedAt_update)"
  "dispatch (Record_cases W) 34 = Some (read_text W Record_token_update)"
  "dispatch (Record_cases W) 40 = Some (read_int64 W Record_zoneId_update)"
  "dispatch (Record_cases W) 50 = Some (read_text W Record_domain_update)"
  "dispatch (Record_cases W) 58 = Some (read_text W Record_name_update)"
  "dispatch (Record_cases W) 64 = Some (read_uint32 W Record_ttl_update)"
  "dispatch (Record_cases W) 72 = Some (read_int64 W Record_addressId_update)"
  "dispatch (Record_cases W) 82 = Some (read_message W (Address_decode W) Record_address_update)"
  "dispatch (Record_cases W) 88 = Some (read_int32 W Record_purpose_update)"
  "dispatch (Record_cases W) 96 = Some (read_bool W Record_includeWildcard_update)"
  "dispatch (Record_cases W) 106 = Some (read_message W (Certificate_decode W) Record_certificate_update)"
  "dispatch (Record_cases W) 114 = Some (read_text W Record_acmeEmail_update)"
  by (simp_all add: dispatch_def Record_cases_def)

context wire_reader
begin

lemma Record_decode_returns: "decodes W (Record_decode W)"
  unfolding Record_decode_def by (rule decode_message_returns) (simp add: Record_cases_def Address_decode_returns Certificate_decode_returns)

end

context wire_format
begin

lemma Record_coded:
  assumes "Record_safe m"
  shows "coded W outs rest (Record_cases W) createBaseRecord (Record_encode W m) m 20971810"
  by (insert assms [unfolded Record_safe_def], rule codedI, rule Record_encode_def,
      (rule field_codes Record_dispatch Address_transmits Certificate_transmits
       | simp add: when_set_update createBaseRecord_def pred_option_conv; fail)+)

lemma Record_transmits:
  "Record_safe m \<Longrightarrow> transmits W outs rest (Record_encode W) (Record_decode W) m 20971810"
  by (rule transmits_message [OF Record_coded Record_decode_def])

end

lemma Record_plain: "plain_keys (Record_fields m)"
  by (simp add: plain_keys_def Record_fields_def to_defs array_index_def is_digit_def)

lemma Record_sends:
  "to_int ''id'' (Record_id m) \<in> set (Record_fields m)"
  "to_int ''createdAt'' (Record_createdAt m) \<in> set (Record_fields m)"
  "to_int ''updatedAt'' (Record_updatedAt m) \<in> set (Record_fields m)"
  "to_string ''token'' (Record_token m) \<in> set (Record_fields m)"
  "to_int ''zoneId'' (Record_zoneId m) \<in> set (Record_fields m)"
  "to_string ''domain'' (Record_domain m) \<in> set (Record_fields m)"
  "to_string ''name'' (Record_name m) \<in> set (Record_fields m)"
  "to_int ''ttl'' (Record_ttl m) \<in> set (Record_fields m)"
  "to_int ''addressId'' (Record_addressId m) \<in> set (Record_fields m)"
  "to_message Address_toJSON ''address'' (Record_address m) \<in> set (Record_fields m)"
  "to_enum recordPurposeToJSON ''purpose'' (Record_purpose m) \<in> set (Record_fields m)"
  "to_bool ''includeWildcard'' (Record_includeWildcard m) \<in> set (Record_fields m)"
  "to_message Certificate_toJSON ''certificate'' (Record_certificate m) \<in> set (Record_fields m)"
  "to_string ''acmeEmail'' (Record_acmeEmail m) \<in> set (Record_fields m)"
  by (simp_all add: Record_fields_def)

lemma Record_isSet: "isSet (Record_toJSON m)"
  by (simp add: Record_toJSON_def)

lemma Record_json:
  assumes "Record_whole m"
  shows "Record_fromJSON (Record_toJSON m) = Inr m"
  unfolding Record_fromJSON_def Record_toJSON_def from_fields_def list.map
  by (insert assms [unfolded Record_whole_def],
      (rule field_sent Record_plain Record_sends
       | simp add: createBaseRecord_def whole_round recordPurpose_known Address_json Address_isSet Certificate_json Certificate_isSet pred_option_conv; fail | simp add: Record_fields_def to_defs; fail)+)

lemma Record_json_ok: "Record_whole m \<Longrightarrow> json_ok (Record_toJSON m)"
  unfolding Record_toJSON_def Record_whole_def
  by (rule json_ok_to_obj [OF Record_plain])
    (simp add: Record_fields_def field_oks list_all_iff pred_option_conv Address_json_ok Certificate_json_ok)

subsection \<open>RecordList\<close>

record RecordList_pb =
  RecordList_records :: "Record_pb list"

definition createBaseRecordList :: RecordList_pb where
  "createBaseRecordList =
     \<lparr>RecordList_records = []\<rparr>"

definition RecordList_encode :: "('w, 'r) wire \<Rightarrow> RecordList_pb \<Rightarrow> 'w \<Rightarrow> string + 'w" where
  "RecordList_encode W message =
     in_turn
       [field_messages W 10 (Record_encode W) (RecordList_records message)]"

definition RecordList_cases :: "('w, 'r) wire \<Rightarrow> (nat \<times> nat \<times> (RecordList_pb, 'r) action) list" where
  "RecordList_cases W =
     [(1, 10, push_message W (Record_decode W) RecordList_records_update)]"

definition RecordList_decode :: "('w, 'r) wire \<Rightarrow> (RecordList_pb, 'r) decoder" where
  "RecordList_decode W = decode_message W (RecordList_cases W) createBaseRecordList"

definition RecordList_fromJSON :: "jsval \<Rightarrow> string + RecordList_pb" where
  "RecordList_fromJSON =
     from_fields
       [from_list Record_fromJSON [''records''] RecordList_records_update]
       createBaseRecordList"

definition RecordList_fields :: "RecordList_pb \<Rightarrow> to_field list" where
  "RecordList_fields message =
     [to_list Record_toJSON ''records'' (RecordList_records message)]"

definition RecordList_toJSON :: "RecordList_pb \<Rightarrow> jsval" where
  "RecordList_toJSON message = to_obj (RecordList_fields message)"

definition RecordList_safe :: "RecordList_pb \<Rightarrow> bool" where
  "RecordList_safe message \<longleftrightarrow>
     list_all Record_safe (RecordList_records message)"

definition RecordList_whole :: "RecordList_pb \<Rightarrow> bool" where
  "RecordList_whole message \<longleftrightarrow>
     list_all Record_whole (RecordList_records message)"

lemma RecordList_dispatch:
  "dispatch (RecordList_cases W) 10 = Some (push_message W (Record_decode W) RecordList_records_update)"
  by (simp_all add: dispatch_def RecordList_cases_def)

lemma push_RecordList_records: "push_all vs RecordList_records_update m = RecordList_records_update (\<lambda>us. us @ vs) m"
  by (rule push_all_update) simp_all

context wire_reader
begin

lemma RecordList_decode_returns: "decodes W (RecordList_decode W)"
  unfolding RecordList_decode_def by (rule decode_message_returns) (simp add: RecordList_cases_def Record_decode_returns)

end

context wire_format
begin

lemma RecordList_coded:
  assumes "RecordList_safe m"
  shows "coded W outs rest (RecordList_cases W) createBaseRecordList (RecordList_encode W m) m (length (RecordList_records m) * 20971820)"
  by (insert assms [unfolded RecordList_safe_def], rule codedI, rule RecordList_encode_def,
      (rule field_codes RecordList_dispatch Record_transmits
       | simp add: when_set_update createBaseRecordList_def push_RecordList_records list_all_iff; fail)+)

lemma RecordList_transmits:
  "RecordList_safe m \<Longrightarrow> transmits W outs rest (RecordList_encode W) (RecordList_decode W) m (length (RecordList_records m) * 20971820)"
  by (rule transmits_message [OF RecordList_coded RecordList_decode_def])

end

lemma RecordList_plain: "plain_keys (RecordList_fields m)"
  by (simp add: plain_keys_def RecordList_fields_def to_defs array_index_def is_digit_def)

lemma RecordList_sends:
  "to_list Record_toJSON ''records'' (RecordList_records m) \<in> set (RecordList_fields m)"
  by (simp_all add: RecordList_fields_def)

lemma RecordList_isSet: "isSet (RecordList_toJSON m)"
  by (simp add: RecordList_toJSON_def)

lemma RecordList_json:
  assumes "RecordList_whole m"
  shows "RecordList_fromJSON (RecordList_toJSON m) = Inr m"
  unfolding RecordList_fromJSON_def RecordList_toJSON_def from_fields_def list.map
  by (insert assms [unfolded RecordList_whole_def],
      (rule field_sent RecordList_plain RecordList_sends
       | simp add: createBaseRecordList_def whole_round Record_json Record_isSet list_all_iff; fail | simp add: RecordList_fields_def to_defs; fail)+)

lemma RecordList_json_ok: "RecordList_whole m \<Longrightarrow> json_ok (RecordList_toJSON m)"
  unfolding RecordList_toJSON_def RecordList_whole_def
  by (rule json_ok_to_obj [OF RecordList_plain])
    (simp add: RecordList_fields_def field_oks list_all_iff pred_option_conv Record_json_ok)

subsection \<open>RecordDelete\<close>

record RecordDelete_pb =
  RecordDelete_record :: "Record_pb option"
  RecordDelete_deleteFromHetzner :: bool

definition createBaseRecordDelete :: RecordDelete_pb where
  "createBaseRecordDelete =
     \<lparr>RecordDelete_record = None, RecordDelete_deleteFromHetzner = False\<rparr>"

definition RecordDelete_encode :: "('w, 'r) wire \<Rightarrow> RecordDelete_pb \<Rightarrow> 'w \<Rightarrow> string + 'w" where
  "RecordDelete_encode W message =
     in_turn
       [field_message W 10 (Record_encode W) (RecordDelete_record message),
        field_bool W 16 (RecordDelete_deleteFromHetzner message)]"

definition RecordDelete_cases :: "('w, 'r) wire \<Rightarrow> (nat \<times> nat \<times> (RecordDelete_pb, 'r) action) list" where
  "RecordDelete_cases W =
     [(1, 10, read_message W (Record_decode W) RecordDelete_record_update),
      (2, 16, read_bool W RecordDelete_deleteFromHetzner_update)]"

definition RecordDelete_decode :: "('w, 'r) wire \<Rightarrow> (RecordDelete_pb, 'r) decoder" where
  "RecordDelete_decode W = decode_message W (RecordDelete_cases W) createBaseRecordDelete"

definition RecordDelete_fromJSON :: "jsval \<Rightarrow> string + RecordDelete_pb" where
  "RecordDelete_fromJSON =
     from_fields
       [from_message Record_fromJSON [''record''] RecordDelete_record_update,
        from_bool [''deleteFromHetzner'', ''delete_from_hetzner''] RecordDelete_deleteFromHetzner_update]
       createBaseRecordDelete"

definition RecordDelete_fields :: "RecordDelete_pb \<Rightarrow> to_field list" where
  "RecordDelete_fields message =
     [to_message Record_toJSON ''record'' (RecordDelete_record message),
      to_bool ''deleteFromHetzner'' (RecordDelete_deleteFromHetzner message)]"

definition RecordDelete_toJSON :: "RecordDelete_pb \<Rightarrow> jsval" where
  "RecordDelete_toJSON message = to_obj (RecordDelete_fields message)"

definition RecordDelete_safe :: "RecordDelete_pb \<Rightarrow> bool" where
  "RecordDelete_safe message \<longleftrightarrow>
     pred_option Record_safe (RecordDelete_record message)"

definition RecordDelete_whole :: "RecordDelete_pb \<Rightarrow> bool" where
  "RecordDelete_whole message \<longleftrightarrow>
     pred_option Record_whole (RecordDelete_record message)"

lemma RecordDelete_dispatch:
  "dispatch (RecordDelete_cases W) 10 = Some (read_message W (Record_decode W) RecordDelete_record_update)"
  "dispatch (RecordDelete_cases W) 16 = Some (read_bool W RecordDelete_deleteFromHetzner_update)"
  by (simp_all add: dispatch_def RecordDelete_cases_def)

context wire_reader
begin

lemma RecordDelete_decode_returns: "decodes W (RecordDelete_decode W)"
  unfolding RecordDelete_decode_def by (rule decode_message_returns) (simp add: RecordDelete_cases_def Record_decode_returns)

end

context wire_format
begin

lemma RecordDelete_coded:
  assumes "RecordDelete_safe m"
  shows "coded W outs rest (RecordDelete_cases W) createBaseRecordDelete (RecordDelete_encode W m) m 20971835"
  by (insert assms [unfolded RecordDelete_safe_def], rule codedI, rule RecordDelete_encode_def,
      (rule field_codes RecordDelete_dispatch Record_transmits
       | simp add: when_set_update createBaseRecordDelete_def pred_option_conv; fail)+)

lemma RecordDelete_transmits:
  "RecordDelete_safe m \<Longrightarrow> transmits W outs rest (RecordDelete_encode W) (RecordDelete_decode W) m 20971835"
  by (rule transmits_message [OF RecordDelete_coded RecordDelete_decode_def])

end

lemma RecordDelete_plain: "plain_keys (RecordDelete_fields m)"
  by (simp add: plain_keys_def RecordDelete_fields_def to_defs array_index_def is_digit_def)

lemma RecordDelete_sends:
  "to_message Record_toJSON ''record'' (RecordDelete_record m) \<in> set (RecordDelete_fields m)"
  "to_bool ''deleteFromHetzner'' (RecordDelete_deleteFromHetzner m) \<in> set (RecordDelete_fields m)"
  by (simp_all add: RecordDelete_fields_def)

lemma RecordDelete_isSet: "isSet (RecordDelete_toJSON m)"
  by (simp add: RecordDelete_toJSON_def)

lemma RecordDelete_json:
  assumes "RecordDelete_whole m"
  shows "RecordDelete_fromJSON (RecordDelete_toJSON m) = Inr m"
  unfolding RecordDelete_fromJSON_def RecordDelete_toJSON_def from_fields_def list.map
  by (insert assms [unfolded RecordDelete_whole_def],
      (rule field_sent RecordDelete_plain RecordDelete_sends
       | simp add: createBaseRecordDelete_def whole_round Record_json Record_isSet pred_option_conv; fail | simp add: RecordDelete_fields_def to_defs; fail)+)

lemma RecordDelete_json_ok: "RecordDelete_whole m \<Longrightarrow> json_ok (RecordDelete_toJSON m)"
  unfolding RecordDelete_toJSON_def RecordDelete_whole_def
  by (rule json_ok_to_obj [OF RecordDelete_plain])
    (simp add: RecordDelete_fields_def field_oks list_all_iff pred_option_conv Record_json_ok)

subsection \<open>Zone\<close>

record Zone_pb =
  Zone_id :: number
  Zone_name :: string
  Zone_recordCount :: number

definition createBaseZone :: Zone_pb where
  "createBaseZone =
     \<lparr>Zone_id = num 0, Zone_name = '''', Zone_recordCount = num 0\<rparr>"

definition Zone_encode :: "('w, 'r) wire \<Rightarrow> Zone_pb \<Rightarrow> 'w \<Rightarrow> string + 'w" where
  "Zone_encode W message =
     in_turn
       [field_int64 W 8 (Zone_id message),
        field_string W 18 (Zone_name message),
        field_int64 W 24 (Zone_recordCount message)]"

definition Zone_cases :: "('w, 'r) wire \<Rightarrow> (nat \<times> nat \<times> (Zone_pb, 'r) action) list" where
  "Zone_cases W =
     [(1, 8, read_int64 W Zone_id_update),
      (2, 18, read_text W Zone_name_update),
      (3, 24, read_int64 W Zone_recordCount_update)]"

definition Zone_decode :: "('w, 'r) wire \<Rightarrow> (Zone_pb, 'r) decoder" where
  "Zone_decode W = decode_message W (Zone_cases W) createBaseZone"

definition Zone_fromJSON :: "jsval \<Rightarrow> string + Zone_pb" where
  "Zone_fromJSON =
     from_fields
       [from_number [''id''] Zone_id_update,
        from_string [''name''] Zone_name_update,
        from_number [''recordCount'', ''record_count''] Zone_recordCount_update]
       createBaseZone"

definition Zone_fields :: "Zone_pb \<Rightarrow> to_field list" where
  "Zone_fields message =
     [to_int ''id'' (Zone_id message),
      to_string ''name'' (Zone_name message),
      to_int ''recordCount'' (Zone_recordCount message)]"

definition Zone_toJSON :: "Zone_pb \<Rightarrow> jsval" where
  "Zone_toJSON message = to_obj (Zone_fields message)"

definition Zone_safe :: "Zone_pb \<Rightarrow> bool" where
  "Zone_safe message \<longleftrightarrow>
     safe_int (Zone_id message) \<and>
     short_text (Zone_name message) \<and>
     safe_int (Zone_recordCount message)"

definition Zone_whole :: "Zone_pb \<Rightarrow> bool" where
  "Zone_whole message \<longleftrightarrow>
     whole (Zone_id message) \<and>
     whole (Zone_recordCount message)"

lemma Zone_dispatch:
  "dispatch (Zone_cases W) 8 = Some (read_int64 W Zone_id_update)"
  "dispatch (Zone_cases W) 18 = Some (read_text W Zone_name_update)"
  "dispatch (Zone_cases W) 24 = Some (read_int64 W Zone_recordCount_update)"
  by (simp_all add: dispatch_def Zone_cases_def)

context wire_reader
begin

lemma Zone_decode_returns: "decodes W (Zone_decode W)"
  unfolding Zone_decode_def by (rule decode_message_returns) (simp add: Zone_cases_def)

end

context wire_format
begin

lemma Zone_coded:
  assumes "Zone_safe m"
  shows "coded W outs rest (Zone_cases W) createBaseZone (Zone_encode W m) m 2097182"
  by (insert assms [unfolded Zone_safe_def], rule codedI, rule Zone_encode_def,
      (rule field_codes Zone_dispatch
       | simp add: when_set_update createBaseZone_def; fail)+)

lemma Zone_transmits:
  "Zone_safe m \<Longrightarrow> transmits W outs rest (Zone_encode W) (Zone_decode W) m 2097182"
  by (rule transmits_message [OF Zone_coded Zone_decode_def])

end

lemma Zone_plain: "plain_keys (Zone_fields m)"
  by (simp add: plain_keys_def Zone_fields_def to_defs array_index_def is_digit_def)

lemma Zone_sends:
  "to_int ''id'' (Zone_id m) \<in> set (Zone_fields m)"
  "to_string ''name'' (Zone_name m) \<in> set (Zone_fields m)"
  "to_int ''recordCount'' (Zone_recordCount m) \<in> set (Zone_fields m)"
  by (simp_all add: Zone_fields_def)

lemma Zone_isSet: "isSet (Zone_toJSON m)"
  by (simp add: Zone_toJSON_def)

lemma Zone_json:
  assumes "Zone_whole m"
  shows "Zone_fromJSON (Zone_toJSON m) = Inr m"
  unfolding Zone_fromJSON_def Zone_toJSON_def from_fields_def list.map
  by (insert assms [unfolded Zone_whole_def],
      (rule field_sent Zone_plain Zone_sends
       | simp add: createBaseZone_def whole_round; fail | simp add: Zone_fields_def to_defs; fail)+)

lemma Zone_json_ok: "Zone_whole m \<Longrightarrow> json_ok (Zone_toJSON m)"
  unfolding Zone_toJSON_def Zone_whole_def
  by (rule json_ok_to_obj [OF Zone_plain])
    (simp add: Zone_fields_def field_oks list_all_iff pred_option_conv)

subsection \<open>ZoneList\<close>

record ZoneList_pb =
  ZoneList_zones :: "Zone_pb list"

definition createBaseZoneList :: ZoneList_pb where
  "createBaseZoneList =
     \<lparr>ZoneList_zones = []\<rparr>"

definition ZoneList_encode :: "('w, 'r) wire \<Rightarrow> ZoneList_pb \<Rightarrow> 'w \<Rightarrow> string + 'w" where
  "ZoneList_encode W message =
     in_turn
       [field_messages W 10 (Zone_encode W) (ZoneList_zones message)]"

definition ZoneList_cases :: "('w, 'r) wire \<Rightarrow> (nat \<times> nat \<times> (ZoneList_pb, 'r) action) list" where
  "ZoneList_cases W =
     [(1, 10, push_message W (Zone_decode W) ZoneList_zones_update)]"

definition ZoneList_decode :: "('w, 'r) wire \<Rightarrow> (ZoneList_pb, 'r) decoder" where
  "ZoneList_decode W = decode_message W (ZoneList_cases W) createBaseZoneList"

definition ZoneList_fromJSON :: "jsval \<Rightarrow> string + ZoneList_pb" where
  "ZoneList_fromJSON =
     from_fields
       [from_list Zone_fromJSON [''zones''] ZoneList_zones_update]
       createBaseZoneList"

definition ZoneList_fields :: "ZoneList_pb \<Rightarrow> to_field list" where
  "ZoneList_fields message =
     [to_list Zone_toJSON ''zones'' (ZoneList_zones message)]"

definition ZoneList_toJSON :: "ZoneList_pb \<Rightarrow> jsval" where
  "ZoneList_toJSON message = to_obj (ZoneList_fields message)"

definition ZoneList_safe :: "ZoneList_pb \<Rightarrow> bool" where
  "ZoneList_safe message \<longleftrightarrow>
     list_all Zone_safe (ZoneList_zones message)"

definition ZoneList_whole :: "ZoneList_pb \<Rightarrow> bool" where
  "ZoneList_whole message \<longleftrightarrow>
     list_all Zone_whole (ZoneList_zones message)"

lemma ZoneList_dispatch:
  "dispatch (ZoneList_cases W) 10 = Some (push_message W (Zone_decode W) ZoneList_zones_update)"
  by (simp_all add: dispatch_def ZoneList_cases_def)

lemma push_ZoneList_zones: "push_all vs ZoneList_zones_update m = ZoneList_zones_update (\<lambda>us. us @ vs) m"
  by (rule push_all_update) simp_all

context wire_reader
begin

lemma ZoneList_decode_returns: "decodes W (ZoneList_decode W)"
  unfolding ZoneList_decode_def by (rule decode_message_returns) (simp add: ZoneList_cases_def Zone_decode_returns)

end

context wire_format
begin

lemma ZoneList_coded:
  assumes "ZoneList_safe m"
  shows "coded W outs rest (ZoneList_cases W) createBaseZoneList (ZoneList_encode W m) m (length (ZoneList_zones m) * 2097192)"
  by (insert assms [unfolded ZoneList_safe_def], rule codedI, rule ZoneList_encode_def,
      (rule field_codes ZoneList_dispatch Zone_transmits
       | simp add: when_set_update createBaseZoneList_def push_ZoneList_zones list_all_iff; fail)+)

lemma ZoneList_transmits:
  "ZoneList_safe m \<Longrightarrow> transmits W outs rest (ZoneList_encode W) (ZoneList_decode W) m (length (ZoneList_zones m) * 2097192)"
  by (rule transmits_message [OF ZoneList_coded ZoneList_decode_def])

end

lemma ZoneList_plain: "plain_keys (ZoneList_fields m)"
  by (simp add: plain_keys_def ZoneList_fields_def to_defs array_index_def is_digit_def)

lemma ZoneList_sends:
  "to_list Zone_toJSON ''zones'' (ZoneList_zones m) \<in> set (ZoneList_fields m)"
  by (simp_all add: ZoneList_fields_def)

lemma ZoneList_isSet: "isSet (ZoneList_toJSON m)"
  by (simp add: ZoneList_toJSON_def)

lemma ZoneList_json:
  assumes "ZoneList_whole m"
  shows "ZoneList_fromJSON (ZoneList_toJSON m) = Inr m"
  unfolding ZoneList_fromJSON_def ZoneList_toJSON_def from_fields_def list.map
  by (insert assms [unfolded ZoneList_whole_def],
      (rule field_sent ZoneList_plain ZoneList_sends
       | simp add: createBaseZoneList_def whole_round Zone_json Zone_isSet list_all_iff; fail | simp add: ZoneList_fields_def to_defs; fail)+)

lemma ZoneList_json_ok: "ZoneList_whole m \<Longrightarrow> json_ok (ZoneList_toJSON m)"
  unfolding ZoneList_toJSON_def ZoneList_whole_def
  by (rule json_ok_to_obj [OF ZoneList_plain])
    (simp add: ZoneList_fields_def field_oks list_all_iff pred_option_conv Zone_json_ok)

subsection \<open>Resolution\<close>

record Resolution_pb =
  Resolution_server :: string
  Resolution_addresses :: "string list"
  Resolution_responseTime :: number
  Resolution_error :: string

definition createBaseResolution :: Resolution_pb where
  "createBaseResolution =
     \<lparr>Resolution_server = '''', Resolution_addresses = [], Resolution_responseTime = num 0,
      Resolution_error = ''''\<rparr>"

definition Resolution_encode :: "('w, 'r) wire \<Rightarrow> Resolution_pb \<Rightarrow> 'w \<Rightarrow> string + 'w" where
  "Resolution_encode W message =
     in_turn
       [field_string W 10 (Resolution_server message),
        field_strings W 18 (Resolution_addresses message),
        field_int64 W 24 (Resolution_responseTime message),
        field_string W 34 (Resolution_error message)]"

definition Resolution_cases :: "('w, 'r) wire \<Rightarrow> (nat \<times> nat \<times> (Resolution_pb, 'r) action) list" where
  "Resolution_cases W =
     [(1, 10, read_text W Resolution_server_update),
      (2, 18, push_text W Resolution_addresses_update),
      (3, 24, read_int64 W Resolution_responseTime_update),
      (4, 34, read_text W Resolution_error_update)]"

definition Resolution_decode :: "('w, 'r) wire \<Rightarrow> (Resolution_pb, 'r) decoder" where
  "Resolution_decode W = decode_message W (Resolution_cases W) createBaseResolution"

definition Resolution_fromJSON :: "jsval \<Rightarrow> string + Resolution_pb" where
  "Resolution_fromJSON =
     from_fields
       [from_string [''server''] Resolution_server_update,
        from_list js_String [''addresses''] Resolution_addresses_update,
        from_number [''responseTime'', ''response_time''] Resolution_responseTime_update,
        from_string [''error''] Resolution_error_update]
       createBaseResolution"

definition Resolution_fields :: "Resolution_pb \<Rightarrow> to_field list" where
  "Resolution_fields message =
     [to_string ''server'' (Resolution_server message),
      to_list JStr ''addresses'' (Resolution_addresses message),
      to_int ''responseTime'' (Resolution_responseTime message),
      to_string ''error'' (Resolution_error message)]"

definition Resolution_toJSON :: "Resolution_pb \<Rightarrow> jsval" where
  "Resolution_toJSON message = to_obj (Resolution_fields message)"

definition Resolution_safe :: "Resolution_pb \<Rightarrow> bool" where
  "Resolution_safe message \<longleftrightarrow>
     short_text (Resolution_server message) \<and>
     list_all short_text (Resolution_addresses message) \<and>
     length (Resolution_addresses message) \<le> 1000 \<and>
     safe_int (Resolution_responseTime message) \<and>
     short_text (Resolution_error message)"

definition Resolution_whole :: "Resolution_pb \<Rightarrow> bool" where
  "Resolution_whole message \<longleftrightarrow>
     whole (Resolution_responseTime message)"

lemma Resolution_dispatch:
  "dispatch (Resolution_cases W) 10 = Some (read_text W Resolution_server_update)"
  "dispatch (Resolution_cases W) 18 = Some (push_text W Resolution_addresses_update)"
  "dispatch (Resolution_cases W) 24 = Some (read_int64 W Resolution_responseTime_update)"
  "dispatch (Resolution_cases W) 34 = Some (read_text W Resolution_error_update)"
  by (simp_all add: dispatch_def Resolution_cases_def)

lemma push_Resolution_addresses: "push_all vs Resolution_addresses_update m = Resolution_addresses_update (\<lambda>us. us @ vs) m"
  by (rule push_all_update) simp_all

context wire_reader
begin

lemma Resolution_decode_returns: "decodes W (Resolution_decode W)"
  unfolding Resolution_decode_def by (rule decode_message_returns) (simp add: Resolution_cases_def)

end

context wire_format
begin

lemma Resolution_coded:
  assumes "Resolution_safe m"
  shows "coded W outs rest (Resolution_cases W) createBaseResolution (Resolution_encode W m) m 2101346319"
  by (insert assms [unfolded Resolution_safe_def], rule codedI, rule Resolution_encode_def,
      (rule field_codes Resolution_dispatch
       | simp add: when_set_update createBaseResolution_def push_Resolution_addresses; fail)+)

lemma Resolution_transmits:
  "Resolution_safe m \<Longrightarrow> transmits W outs rest (Resolution_encode W) (Resolution_decode W) m 2101346319"
  by (rule transmits_message [OF Resolution_coded Resolution_decode_def])

end

lemma Resolution_plain: "plain_keys (Resolution_fields m)"
  by (simp add: plain_keys_def Resolution_fields_def to_defs array_index_def is_digit_def)

lemma Resolution_sends:
  "to_string ''server'' (Resolution_server m) \<in> set (Resolution_fields m)"
  "to_list JStr ''addresses'' (Resolution_addresses m) \<in> set (Resolution_fields m)"
  "to_int ''responseTime'' (Resolution_responseTime m) \<in> set (Resolution_fields m)"
  "to_string ''error'' (Resolution_error m) \<in> set (Resolution_fields m)"
  by (simp_all add: Resolution_fields_def)

lemma Resolution_isSet: "isSet (Resolution_toJSON m)"
  by (simp add: Resolution_toJSON_def)

lemma Resolution_json:
  assumes "Resolution_whole m"
  shows "Resolution_fromJSON (Resolution_toJSON m) = Inr m"
  unfolding Resolution_fromJSON_def Resolution_toJSON_def from_fields_def list.map
  by (insert assms [unfolded Resolution_whole_def],
      (rule field_sent Resolution_plain Resolution_sends
       | simp add: createBaseResolution_def whole_round; fail | simp add: Resolution_fields_def to_defs; fail)+)

lemma Resolution_json_ok: "Resolution_whole m \<Longrightarrow> json_ok (Resolution_toJSON m)"
  unfolding Resolution_toJSON_def Resolution_whole_def
  by (rule json_ok_to_obj [OF Resolution_plain])
    (simp add: Resolution_fields_def field_oks list_all_iff pred_option_conv)

subsection \<open>ResolutionResult\<close>

record ResolutionResult_pb =
  ResolutionResult_resolutions :: "Resolution_pb list"

definition createBaseResolutionResult :: ResolutionResult_pb where
  "createBaseResolutionResult =
     \<lparr>ResolutionResult_resolutions = []\<rparr>"

definition ResolutionResult_encode :: "('w, 'r) wire \<Rightarrow> ResolutionResult_pb \<Rightarrow> 'w \<Rightarrow> string + 'w" where
  "ResolutionResult_encode W message =
     in_turn
       [field_messages W 10 (Resolution_encode W) (ResolutionResult_resolutions message)]"

definition ResolutionResult_cases :: "('w, 'r) wire \<Rightarrow> (nat \<times> nat \<times> (ResolutionResult_pb, 'r) action) list" where
  "ResolutionResult_cases W =
     [(1, 10, push_message W (Resolution_decode W) ResolutionResult_resolutions_update)]"

definition ResolutionResult_decode :: "('w, 'r) wire \<Rightarrow> (ResolutionResult_pb, 'r) decoder" where
  "ResolutionResult_decode W = decode_message W (ResolutionResult_cases W) createBaseResolutionResult"

definition ResolutionResult_fromJSON :: "jsval \<Rightarrow> string + ResolutionResult_pb" where
  "ResolutionResult_fromJSON =
     from_fields
       [from_list Resolution_fromJSON [''resolutions''] ResolutionResult_resolutions_update]
       createBaseResolutionResult"

definition ResolutionResult_fields :: "ResolutionResult_pb \<Rightarrow> to_field list" where
  "ResolutionResult_fields message =
     [to_list Resolution_toJSON ''resolutions'' (ResolutionResult_resolutions message)]"

definition ResolutionResult_toJSON :: "ResolutionResult_pb \<Rightarrow> jsval" where
  "ResolutionResult_toJSON message = to_obj (ResolutionResult_fields message)"

definition ResolutionResult_safe :: "ResolutionResult_pb \<Rightarrow> bool" where
  "ResolutionResult_safe message \<longleftrightarrow>
     list_all Resolution_safe (ResolutionResult_resolutions message)"

definition ResolutionResult_whole :: "ResolutionResult_pb \<Rightarrow> bool" where
  "ResolutionResult_whole message \<longleftrightarrow>
     list_all Resolution_whole (ResolutionResult_resolutions message)"

lemma ResolutionResult_dispatch:
  "dispatch (ResolutionResult_cases W) 10 = Some (push_message W (Resolution_decode W) ResolutionResult_resolutions_update)"
  by (simp_all add: dispatch_def ResolutionResult_cases_def)

lemma push_ResolutionResult_resolutions: "push_all vs ResolutionResult_resolutions_update m = ResolutionResult_resolutions_update (\<lambda>us. us @ vs) m"
  by (rule push_all_update) simp_all

context wire_reader
begin

lemma ResolutionResult_decode_returns: "decodes W (ResolutionResult_decode W)"
  unfolding ResolutionResult_decode_def by (rule decode_message_returns) (simp add: ResolutionResult_cases_def Resolution_decode_returns)

end

context wire_format
begin

lemma ResolutionResult_coded:
  assumes "ResolutionResult_safe m"
  shows "coded W outs rest (ResolutionResult_cases W) createBaseResolutionResult (ResolutionResult_encode W m) m (length (ResolutionResult_resolutions m) * 2101346329)"
  by (insert assms [unfolded ResolutionResult_safe_def], rule codedI, rule ResolutionResult_encode_def,
      (rule field_codes ResolutionResult_dispatch Resolution_transmits
       | simp add: when_set_update createBaseResolutionResult_def push_ResolutionResult_resolutions list_all_iff; fail)+)

lemma ResolutionResult_transmits:
  "ResolutionResult_safe m \<Longrightarrow> transmits W outs rest (ResolutionResult_encode W) (ResolutionResult_decode W) m (length (ResolutionResult_resolutions m) * 2101346329)"
  by (rule transmits_message [OF ResolutionResult_coded ResolutionResult_decode_def])

end

lemma ResolutionResult_plain: "plain_keys (ResolutionResult_fields m)"
  by (simp add: plain_keys_def ResolutionResult_fields_def to_defs array_index_def is_digit_def)

lemma ResolutionResult_sends:
  "to_list Resolution_toJSON ''resolutions'' (ResolutionResult_resolutions m) \<in> set (ResolutionResult_fields m)"
  by (simp_all add: ResolutionResult_fields_def)

lemma ResolutionResult_isSet: "isSet (ResolutionResult_toJSON m)"
  by (simp add: ResolutionResult_toJSON_def)

lemma ResolutionResult_json:
  assumes "ResolutionResult_whole m"
  shows "ResolutionResult_fromJSON (ResolutionResult_toJSON m) = Inr m"
  unfolding ResolutionResult_fromJSON_def ResolutionResult_toJSON_def from_fields_def list.map
  by (insert assms [unfolded ResolutionResult_whole_def],
      (rule field_sent ResolutionResult_plain ResolutionResult_sends
       | simp add: createBaseResolutionResult_def whole_round Resolution_json Resolution_isSet list_all_iff; fail | simp add: ResolutionResult_fields_def to_defs; fail)+)

lemma ResolutionResult_json_ok: "ResolutionResult_whole m \<Longrightarrow> json_ok (ResolutionResult_toJSON m)"
  unfolding ResolutionResult_toJSON_def ResolutionResult_whole_def
  by (rule json_ok_to_obj [OF ResolutionResult_plain])
    (simp add: ResolutionResult_fields_def field_oks list_all_iff pred_option_conv Resolution_json_ok)

end
