(* ===== verification/TaskMessages.thy ===== *)
theory TaskMessages
  imports RecordMessages
begin

text \<open>
  The messages of \<^verbatim>\<open>global/model/api.ts\<close> about tasks and certificate details, in the
  same arrangement.
\<close>

subsection \<open>TaskTrigger\<close>

definition taskTriggerFromJSON :: "jsval \<Rightarrow> number" where
  "taskTriggerFromJSON object =
     (if object = JNum (num 0) \<or> object = JStr ''TASK_TRIGGER_UNSPECIFIED'' then num TASK_TRIGGER_UNSPECIFIED
      else if object = JNum (num 1) \<or> object = JStr ''TASK_TRIGGER_IP'' then num TASK_TRIGGER_IP
      else if object = JNum (num 2) \<or> object = JStr ''TASK_TRIGGER_CERT'' then num TASK_TRIGGER_CERT
      else if object = JNum (num 3) \<or> object = JStr ''TASK_TRIGGER_BOTH'' then num TASK_TRIGGER_BOTH
      else num UNRECOGNIZED)"

definition taskTriggerToJSON :: "number \<Rightarrow> string" where
  "taskTriggerToJSON object =
     (if object = num TASK_TRIGGER_UNSPECIFIED then ''TASK_TRIGGER_UNSPECIFIED''
      else if object = num TASK_TRIGGER_IP then ''TASK_TRIGGER_IP''
      else if object = num TASK_TRIGGER_CERT then ''TASK_TRIGGER_CERT''
      else if object = num TASK_TRIGGER_BOTH then ''TASK_TRIGGER_BOTH''
      else ''UNRECOGNIZED'')"

lemma taskTrigger_known: "known_enum n \<Longrightarrow> taskTriggerFromJSON (JStr (taskTriggerToJSON n)) = n"
  by (auto simp: known_enum_def taskTriggerFromJSON_def taskTriggerToJSON_def UNRECOGNIZED_def)

subsection \<open>Task\<close>

record Task_pb =
  Task_id :: number
  Task_createdAt :: number
  Task_updatedAt :: number
  Task_recordId :: number
  Task_name :: string
  Task_triggerOn :: number
  Task_method :: string
  Task_url :: string
  Task_headers :: string
  Task_body :: string
  Task_enabled :: bool
  Task_lastRun :: number
  Task_lastStatus :: string
  Task_lastError :: string
  Task_includeCertificate :: bool
  Task_certificateFormat :: string

definition createBaseTask :: Task_pb where
  "createBaseTask =
     \<lparr>Task_id = num 0, Task_createdAt = num 0, Task_updatedAt = num 0,
      Task_recordId = num 0, Task_name = '''', Task_triggerOn = num 0, Task_method = '''',
      Task_url = '''', Task_headers = '''', Task_body = '''', Task_enabled = False,
      Task_lastRun = num 0, Task_lastStatus = '''', Task_lastError = '''',
      Task_includeCertificate = False, Task_certificateFormat = ''''\<rparr>"

definition Task_encode :: "('w, 'r) wire \<Rightarrow> Task_pb \<Rightarrow> 'w \<Rightarrow> string + 'w" where
  "Task_encode W message =
     in_turn
       [field_int64 W 8 (Task_id message),
        field_int64 W 16 (Task_createdAt message),
        field_int64 W 24 (Task_updatedAt message),
        field_int64 W 32 (Task_recordId message),
        field_string W 42 (Task_name message),
        field_int32 W 48 (Task_triggerOn message),
        field_string W 58 (Task_method message),
        field_string W 66 (Task_url message),
        field_string W 74 (Task_headers message),
        field_string W 82 (Task_body message),
        field_bool W 88 (Task_enabled message),
        field_int64 W 96 (Task_lastRun message),
        field_string W 106 (Task_lastStatus message),
        field_string W 114 (Task_lastError message),
        field_bool W 120 (Task_includeCertificate message),
        field_string W 130 (Task_certificateFormat message)]"

definition Task_cases :: "('w, 'r) wire \<Rightarrow> (nat \<times> nat \<times> (Task_pb, 'r) action) list" where
  "Task_cases W =
     [(1, 8, read_int64 W Task_id_update),
      (2, 16, read_int64 W Task_createdAt_update),
      (3, 24, read_int64 W Task_updatedAt_update),
      (4, 32, read_int64 W Task_recordId_update),
      (5, 42, read_text W Task_name_update),
      (6, 48, read_int32 W Task_triggerOn_update),
      (7, 58, read_text W Task_method_update),
      (8, 66, read_text W Task_url_update),
      (9, 74, read_text W Task_headers_update),
      (10, 82, read_text W Task_body_update),
      (11, 88, read_bool W Task_enabled_update),
      (12, 96, read_int64 W Task_lastRun_update),
      (13, 106, read_text W Task_lastStatus_update),
      (14, 114, read_text W Task_lastError_update),
      (15, 120, read_bool W Task_includeCertificate_update),
      (16, 130, read_text W Task_certificateFormat_update)]"

definition Task_decode :: "('w, 'r) wire \<Rightarrow> (Task_pb, 'r) decoder" where
  "Task_decode W = decode_message W (Task_cases W) createBaseTask"

definition Task_fromJSON :: "jsval \<Rightarrow> string + Task_pb" where
  "Task_fromJSON =
     from_fields
       [from_number [''id''] Task_id_update,
        from_number [''createdAt'', ''created_at''] Task_createdAt_update,
        from_number [''updatedAt'', ''updated_at''] Task_updatedAt_update,
        from_number [''recordId'', ''record_id''] Task_recordId_update,
        from_string [''name''] Task_name_update,
        from_enum taskTriggerFromJSON [''triggerOn'', ''trigger_on''] Task_triggerOn_update,
        from_string [''method''] Task_method_update,
        from_string [''url''] Task_url_update,
        from_string [''headers''] Task_headers_update,
        from_string [''body''] Task_body_update,
        from_bool [''enabled''] Task_enabled_update,
        from_number [''lastRun'', ''last_run''] Task_lastRun_update,
        from_string [''lastStatus'', ''last_status''] Task_lastStatus_update,
        from_string [''lastError'', ''last_error''] Task_lastError_update,
        from_bool [''includeCertificate'', ''include_certificate''] Task_includeCertificate_update,
        from_string [''certificateFormat'', ''certificate_format''] Task_certificateFormat_update]
       createBaseTask"

definition Task_fields :: "Task_pb \<Rightarrow> to_field list" where
  "Task_fields message =
     [to_int ''id'' (Task_id message),
      to_int ''createdAt'' (Task_createdAt message),
      to_int ''updatedAt'' (Task_updatedAt message),
      to_int ''recordId'' (Task_recordId message),
      to_string ''name'' (Task_name message),
      to_enum taskTriggerToJSON ''triggerOn'' (Task_triggerOn message),
      to_string ''method'' (Task_method message),
      to_string ''url'' (Task_url message),
      to_string ''headers'' (Task_headers message),
      to_string ''body'' (Task_body message),
      to_bool ''enabled'' (Task_enabled message),
      to_int ''lastRun'' (Task_lastRun message),
      to_string ''lastStatus'' (Task_lastStatus message),
      to_string ''lastError'' (Task_lastError message),
      to_bool ''includeCertificate'' (Task_includeCertificate message),
      to_string ''certificateFormat'' (Task_certificateFormat message)]"

definition Task_toJSON :: "Task_pb \<Rightarrow> jsval" where
  "Task_toJSON message = to_obj (Task_fields message)"

definition Task_safe :: "Task_pb \<Rightarrow> bool" where
  "Task_safe message \<longleftrightarrow>
     safe_int (Task_id message) \<and>
     safe_int (Task_createdAt message) \<and>
     safe_int (Task_updatedAt message) \<and>
     safe_int (Task_recordId message) \<and>
     short_text (Task_name message) \<and>
     small_int (Task_triggerOn message) \<and>
     short_text (Task_method message) \<and>
     short_text (Task_url message) \<and>
     short_text (Task_headers message) \<and>
     short_text (Task_body message) \<and>
     safe_int (Task_lastRun message) \<and>
     short_text (Task_lastStatus message) \<and>
     short_text (Task_lastError message) \<and>
     short_text (Task_certificateFormat message)"

definition Task_whole :: "Task_pb \<Rightarrow> bool" where
  "Task_whole message \<longleftrightarrow>
     whole (Task_id message) \<and>
     whole (Task_createdAt message) \<and>
     whole (Task_updatedAt message) \<and>
     whole (Task_recordId message) \<and>
     known_enum (Task_triggerOn message) \<and>
     whole (Task_lastRun message)"

lemma Task_dispatch:
  "dispatch (Task_cases W) 8 = Some (read_int64 W Task_id_update)"
  "dispatch (Task_cases W) 16 = Some (read_int64 W Task_createdAt_update)"
  "dispatch (Task_cases W) 24 = Some (read_int64 W Task_updatedAt_update)"
  "dispatch (Task_cases W) 32 = Some (read_int64 W Task_recordId_update)"
  "dispatch (Task_cases W) 42 = Some (read_text W Task_name_update)"
  "dispatch (Task_cases W) 48 = Some (read_int32 W Task_triggerOn_update)"
  "dispatch (Task_cases W) 58 = Some (read_text W Task_method_update)"
  "dispatch (Task_cases W) 66 = Some (read_text W Task_url_update)"
  "dispatch (Task_cases W) 74 = Some (read_text W Task_headers_update)"
  "dispatch (Task_cases W) 82 = Some (read_text W Task_body_update)"
  "dispatch (Task_cases W) 88 = Some (read_bool W Task_enabled_update)"
  "dispatch (Task_cases W) 96 = Some (read_int64 W Task_lastRun_update)"
  "dispatch (Task_cases W) 106 = Some (read_text W Task_lastStatus_update)"
  "dispatch (Task_cases W) 114 = Some (read_text W Task_lastError_update)"
  "dispatch (Task_cases W) 120 = Some (read_bool W Task_includeCertificate_update)"
  "dispatch (Task_cases W) 130 = Some (read_text W Task_certificateFormat_update)"
  by (simp_all add: dispatch_def Task_cases_def)

context wire_reader
begin

lemma Task_decode_returns: "decodes W (Task_decode W)"
  unfolding Task_decode_def by (rule decode_message_returns) (simp add: Task_cases_def)

end

context wire_format
begin

lemma Task_coded:
  assumes "Task_safe m"
  shows "coded W outs rest (Task_cases W) createBaseTask (Task_encode W m) m 16777336"
  by (insert assms [unfolded Task_safe_def], rule codedI, rule Task_encode_def,
      (rule field_codes Task_dispatch
       | simp add: when_set_update createBaseTask_def; fail)+)

lemma Task_transmits:
  "Task_safe m \<Longrightarrow> transmits W outs rest (Task_encode W) (Task_decode W) m 16777336"
  by (rule transmits_message [OF Task_coded Task_decode_def])

end

lemma Task_plain: "plain_keys (Task_fields m)"
  by (simp add: plain_keys_def Task_fields_def to_defs array_index_def is_digit_def)

lemma Task_sends:
  "to_int ''id'' (Task_id m) \<in> set (Task_fields m)"
  "to_int ''createdAt'' (Task_createdAt m) \<in> set (Task_fields m)"
  "to_int ''updatedAt'' (Task_updatedAt m) \<in> set (Task_fields m)"
  "to_int ''recordId'' (Task_recordId m) \<in> set (Task_fields m)"
  "to_string ''name'' (Task_name m) \<in> set (Task_fields m)"
  "to_enum taskTriggerToJSON ''triggerOn'' (Task_triggerOn m) \<in> set (Task_fields m)"
  "to_string ''method'' (Task_method m) \<in> set (Task_fields m)"
  "to_string ''url'' (Task_url m) \<in> set (Task_fields m)"
  "to_string ''headers'' (Task_headers m) \<in> set (Task_fields m)"
  "to_string ''body'' (Task_body m) \<in> set (Task_fields m)"
  "to_bool ''enabled'' (Task_enabled m) \<in> set (Task_fields m)"
  "to_int ''lastRun'' (Task_lastRun m) \<in> set (Task_fields m)"
  "to_string ''lastStatus'' (Task_lastStatus m) \<in> set (Task_fields m)"
  "to_string ''lastError'' (Task_lastError m) \<in> set (Task_fields m)"
  "to_bool ''includeCertificate'' (Task_includeCertificate m) \<in> set (Task_fields m)"
  "to_string ''certificateFormat'' (Task_certificateFormat m) \<in> set (Task_fields m)"
  by (simp_all add: Task_fields_def)

lemma Task_isSet: "isSet (Task_toJSON m)"
  by (simp add: Task_toJSON_def)

lemma Task_json:
  assumes "Task_whole m"
  shows "Task_fromJSON (Task_toJSON m) = Inr m"
  unfolding Task_fromJSON_def Task_toJSON_def from_fields_def list.map
  by (insert assms [unfolded Task_whole_def],
      (rule field_sent Task_plain Task_sends
       | simp add: createBaseTask_def whole_round taskTrigger_known; fail | simp add: Task_fields_def to_defs; fail)+)

lemma Task_json_ok: "Task_whole m \<Longrightarrow> json_ok (Task_toJSON m)"
  unfolding Task_toJSON_def Task_whole_def
  by (rule json_ok_to_obj [OF Task_plain])
    (simp add: Task_fields_def field_oks list_all_iff pred_option_conv)

subsection \<open>TaskList\<close>

record TaskList_pb =
  TaskList_tasks :: "Task_pb list"

definition createBaseTaskList :: TaskList_pb where
  "createBaseTaskList =
     \<lparr>TaskList_tasks = []\<rparr>"

definition TaskList_encode :: "('w, 'r) wire \<Rightarrow> TaskList_pb \<Rightarrow> 'w \<Rightarrow> string + 'w" where
  "TaskList_encode W message =
     in_turn
       [field_messages W 10 (Task_encode W) (TaskList_tasks message)]"

definition TaskList_cases :: "('w, 'r) wire \<Rightarrow> (nat \<times> nat \<times> (TaskList_pb, 'r) action) list" where
  "TaskList_cases W =
     [(1, 10, push_message W (Task_decode W) TaskList_tasks_update)]"

definition TaskList_decode :: "('w, 'r) wire \<Rightarrow> (TaskList_pb, 'r) decoder" where
  "TaskList_decode W = decode_message W (TaskList_cases W) createBaseTaskList"

definition TaskList_fromJSON :: "jsval \<Rightarrow> string + TaskList_pb" where
  "TaskList_fromJSON =
     from_fields
       [from_list Task_fromJSON [''tasks''] TaskList_tasks_update]
       createBaseTaskList"

definition TaskList_fields :: "TaskList_pb \<Rightarrow> to_field list" where
  "TaskList_fields message =
     [to_list Task_toJSON ''tasks'' (TaskList_tasks message)]"

definition TaskList_toJSON :: "TaskList_pb \<Rightarrow> jsval" where
  "TaskList_toJSON message = to_obj (TaskList_fields message)"

definition TaskList_safe :: "TaskList_pb \<Rightarrow> bool" where
  "TaskList_safe message \<longleftrightarrow>
     list_all Task_safe (TaskList_tasks message)"

definition TaskList_whole :: "TaskList_pb \<Rightarrow> bool" where
  "TaskList_whole message \<longleftrightarrow>
     list_all Task_whole (TaskList_tasks message)"

lemma TaskList_dispatch:
  "dispatch (TaskList_cases W) 10 = Some (push_message W (Task_decode W) TaskList_tasks_update)"
  by (simp_all add: dispatch_def TaskList_cases_def)

lemma push_TaskList_tasks: "push_all vs TaskList_tasks_update m = TaskList_tasks_update (\<lambda>us. us @ vs) m"
  by (rule push_all_update) simp_all

context wire_reader
begin

lemma TaskList_decode_returns: "decodes W (TaskList_decode W)"
  unfolding TaskList_decode_def by (rule decode_message_returns) (simp add: TaskList_cases_def Task_decode_returns)

end

context wire_format
begin

lemma TaskList_coded:
  assumes "TaskList_safe m"
  shows "coded W outs rest (TaskList_cases W) createBaseTaskList (TaskList_encode W m) m (length (TaskList_tasks m) * 16777346)"
  by (insert assms [unfolded TaskList_safe_def], rule codedI, rule TaskList_encode_def,
      (rule field_codes TaskList_dispatch Task_transmits
       | simp add: when_set_update createBaseTaskList_def push_TaskList_tasks list_all_iff; fail)+)

lemma TaskList_transmits:
  "TaskList_safe m \<Longrightarrow> transmits W outs rest (TaskList_encode W) (TaskList_decode W) m (length (TaskList_tasks m) * 16777346)"
  by (rule transmits_message [OF TaskList_coded TaskList_decode_def])

end

lemma TaskList_plain: "plain_keys (TaskList_fields m)"
  by (simp add: plain_keys_def TaskList_fields_def to_defs array_index_def is_digit_def)

lemma TaskList_sends:
  "to_list Task_toJSON ''tasks'' (TaskList_tasks m) \<in> set (TaskList_fields m)"
  by (simp_all add: TaskList_fields_def)

lemma TaskList_isSet: "isSet (TaskList_toJSON m)"
  by (simp add: TaskList_toJSON_def)

lemma TaskList_json:
  assumes "TaskList_whole m"
  shows "TaskList_fromJSON (TaskList_toJSON m) = Inr m"
  unfolding TaskList_fromJSON_def TaskList_toJSON_def from_fields_def list.map
  by (insert assms [unfolded TaskList_whole_def],
      (rule field_sent TaskList_plain TaskList_sends
       | simp add: createBaseTaskList_def whole_round Task_json Task_isSet list_all_iff; fail | simp add: TaskList_fields_def to_defs; fail)+)

lemma TaskList_json_ok: "TaskList_whole m \<Longrightarrow> json_ok (TaskList_toJSON m)"
  unfolding TaskList_toJSON_def TaskList_whole_def
  by (rule json_ok_to_obj [OF TaskList_plain])
    (simp add: TaskList_fields_def field_oks list_all_iff pred_option_conv Task_json_ok)

subsection \<open>TaskDelete\<close>

record TaskDelete_pb =
  TaskDelete_id :: number

definition createBaseTaskDelete :: TaskDelete_pb where
  "createBaseTaskDelete =
     \<lparr>TaskDelete_id = num 0\<rparr>"

definition TaskDelete_encode :: "('w, 'r) wire \<Rightarrow> TaskDelete_pb \<Rightarrow> 'w \<Rightarrow> string + 'w" where
  "TaskDelete_encode W message =
     in_turn
       [field_int64 W 8 (TaskDelete_id message)]"

definition TaskDelete_cases :: "('w, 'r) wire \<Rightarrow> (nat \<times> nat \<times> (TaskDelete_pb, 'r) action) list" where
  "TaskDelete_cases W =
     [(1, 8, read_int64 W TaskDelete_id_update)]"

definition TaskDelete_decode :: "('w, 'r) wire \<Rightarrow> (TaskDelete_pb, 'r) decoder" where
  "TaskDelete_decode W = decode_message W (TaskDelete_cases W) createBaseTaskDelete"

definition TaskDelete_fromJSON :: "jsval \<Rightarrow> string + TaskDelete_pb" where
  "TaskDelete_fromJSON =
     from_fields
       [from_number [''id''] TaskDelete_id_update]
       createBaseTaskDelete"

definition TaskDelete_fields :: "TaskDelete_pb \<Rightarrow> to_field list" where
  "TaskDelete_fields message =
     [to_int ''id'' (TaskDelete_id message)]"

definition TaskDelete_toJSON :: "TaskDelete_pb \<Rightarrow> jsval" where
  "TaskDelete_toJSON message = to_obj (TaskDelete_fields message)"

definition TaskDelete_safe :: "TaskDelete_pb \<Rightarrow> bool" where
  "TaskDelete_safe message \<longleftrightarrow>
     safe_int (TaskDelete_id message)"

definition TaskDelete_whole :: "TaskDelete_pb \<Rightarrow> bool" where
  "TaskDelete_whole message \<longleftrightarrow>
     whole (TaskDelete_id message)"

lemma TaskDelete_dispatch:
  "dispatch (TaskDelete_cases W) 8 = Some (read_int64 W TaskDelete_id_update)"
  by (simp_all add: dispatch_def TaskDelete_cases_def)

context wire_reader
begin

lemma TaskDelete_decode_returns: "decodes W (TaskDelete_decode W)"
  unfolding TaskDelete_decode_def by (rule decode_message_returns) (simp add: TaskDelete_cases_def)

end

context wire_format
begin

lemma TaskDelete_coded:
  assumes "TaskDelete_safe m"
  shows "coded W outs rest (TaskDelete_cases W) createBaseTaskDelete (TaskDelete_encode W m) m 15"
  by (insert assms [unfolded TaskDelete_safe_def], rule codedI, rule TaskDelete_encode_def,
      (rule field_codes TaskDelete_dispatch
       | simp add: when_set_update createBaseTaskDelete_def; fail)+)

lemma TaskDelete_transmits:
  "TaskDelete_safe m \<Longrightarrow> transmits W outs rest (TaskDelete_encode W) (TaskDelete_decode W) m 15"
  by (rule transmits_message [OF TaskDelete_coded TaskDelete_decode_def])

end

lemma TaskDelete_plain: "plain_keys (TaskDelete_fields m)"
  by (simp add: plain_keys_def TaskDelete_fields_def to_defs array_index_def is_digit_def)

lemma TaskDelete_sends:
  "to_int ''id'' (TaskDelete_id m) \<in> set (TaskDelete_fields m)"
  by (simp_all add: TaskDelete_fields_def)

lemma TaskDelete_isSet: "isSet (TaskDelete_toJSON m)"
  by (simp add: TaskDelete_toJSON_def)

lemma TaskDelete_json:
  assumes "TaskDelete_whole m"
  shows "TaskDelete_fromJSON (TaskDelete_toJSON m) = Inr m"
  unfolding TaskDelete_fromJSON_def TaskDelete_toJSON_def from_fields_def list.map
  by (insert assms [unfolded TaskDelete_whole_def],
      (rule field_sent TaskDelete_plain TaskDelete_sends
       | simp add: createBaseTaskDelete_def whole_round; fail | simp add: TaskDelete_fields_def to_defs; fail)+)

lemma TaskDelete_json_ok: "TaskDelete_whole m \<Longrightarrow> json_ok (TaskDelete_toJSON m)"
  unfolding TaskDelete_toJSON_def TaskDelete_whole_def
  by (rule json_ok_to_obj [OF TaskDelete_plain])
    (simp add: TaskDelete_fields_def field_oks list_all_iff pred_option_conv)

subsection \<open>TaskResult\<close>

record TaskResult_pb =
  TaskResult_status :: string
  TaskResult_error :: string

definition createBaseTaskResult :: TaskResult_pb where
  "createBaseTaskResult =
     \<lparr>TaskResult_status = '''', TaskResult_error = ''''\<rparr>"

definition TaskResult_encode :: "('w, 'r) wire \<Rightarrow> TaskResult_pb \<Rightarrow> 'w \<Rightarrow> string + 'w" where
  "TaskResult_encode W message =
     in_turn
       [field_string W 10 (TaskResult_status message),
        field_string W 18 (TaskResult_error message)]"

definition TaskResult_cases :: "('w, 'r) wire \<Rightarrow> (nat \<times> nat \<times> (TaskResult_pb, 'r) action) list" where
  "TaskResult_cases W =
     [(1, 10, read_text W TaskResult_status_update),
      (2, 18, read_text W TaskResult_error_update)]"

definition TaskResult_decode :: "('w, 'r) wire \<Rightarrow> (TaskResult_pb, 'r) decoder" where
  "TaskResult_decode W = decode_message W (TaskResult_cases W) createBaseTaskResult"

definition TaskResult_fromJSON :: "jsval \<Rightarrow> string + TaskResult_pb" where
  "TaskResult_fromJSON =
     from_fields
       [from_string [''status''] TaskResult_status_update,
        from_string [''error''] TaskResult_error_update]
       createBaseTaskResult"

definition TaskResult_fields :: "TaskResult_pb \<Rightarrow> to_field list" where
  "TaskResult_fields message =
     [to_string ''status'' (TaskResult_status message),
      to_string ''error'' (TaskResult_error message)]"

definition TaskResult_toJSON :: "TaskResult_pb \<Rightarrow> jsval" where
  "TaskResult_toJSON message = to_obj (TaskResult_fields message)"

definition TaskResult_safe :: "TaskResult_pb \<Rightarrow> bool" where
  "TaskResult_safe message \<longleftrightarrow>
     short_text (TaskResult_status message) \<and>
     short_text (TaskResult_error message)"

definition TaskResult_whole :: "TaskResult_pb \<Rightarrow> bool" where
  "TaskResult_whole message \<longleftrightarrow> True"

lemma TaskResult_dispatch:
  "dispatch (TaskResult_cases W) 10 = Some (read_text W TaskResult_status_update)"
  "dispatch (TaskResult_cases W) 18 = Some (read_text W TaskResult_error_update)"
  by (simp_all add: dispatch_def TaskResult_cases_def)

context wire_reader
begin

lemma TaskResult_decode_returns: "decodes W (TaskResult_decode W)"
  unfolding TaskResult_decode_def by (rule decode_message_returns) (simp add: TaskResult_cases_def)

end

context wire_format
begin

lemma TaskResult_coded:
  assumes "TaskResult_safe m"
  shows "coded W outs rest (TaskResult_cases W) createBaseTaskResult (TaskResult_encode W m) m 4194304"
  by (insert assms [unfolded TaskResult_safe_def], rule codedI, rule TaskResult_encode_def,
      (rule field_codes TaskResult_dispatch
       | simp add: when_set_update createBaseTaskResult_def; fail)+)

lemma TaskResult_transmits:
  "TaskResult_safe m \<Longrightarrow> transmits W outs rest (TaskResult_encode W) (TaskResult_decode W) m 4194304"
  by (rule transmits_message [OF TaskResult_coded TaskResult_decode_def])

end

lemma TaskResult_plain: "plain_keys (TaskResult_fields m)"
  by (simp add: plain_keys_def TaskResult_fields_def to_defs array_index_def is_digit_def)

lemma TaskResult_sends:
  "to_string ''status'' (TaskResult_status m) \<in> set (TaskResult_fields m)"
  "to_string ''error'' (TaskResult_error m) \<in> set (TaskResult_fields m)"
  by (simp_all add: TaskResult_fields_def)

lemma TaskResult_isSet: "isSet (TaskResult_toJSON m)"
  by (simp add: TaskResult_toJSON_def)

lemma TaskResult_json:
  assumes "TaskResult_whole m"
  shows "TaskResult_fromJSON (TaskResult_toJSON m) = Inr m"
  unfolding TaskResult_fromJSON_def TaskResult_toJSON_def from_fields_def list.map
  by (insert assms [unfolded TaskResult_whole_def],
      (rule field_sent TaskResult_plain TaskResult_sends
       | simp add: createBaseTaskResult_def whole_round; fail | simp add: TaskResult_fields_def to_defs; fail)+)

lemma TaskResult_json_ok: "TaskResult_whole m \<Longrightarrow> json_ok (TaskResult_toJSON m)"
  unfolding TaskResult_toJSON_def TaskResult_whole_def
  by (rule json_ok_to_obj [OF TaskResult_plain])
    (simp add: TaskResult_fields_def field_oks list_all_iff pred_option_conv)

subsection \<open>CertificateArtifact\<close>

record CertificateArtifact_pb =
  CertificateArtifact_key :: string
  CertificateArtifact_label :: string
  CertificateArtifact_available :: bool
  CertificateArtifact_downloadUrl :: string

definition createBaseCertificateArtifact :: CertificateArtifact_pb where
  "createBaseCertificateArtifact =
     \<lparr>CertificateArtifact_key = '''', CertificateArtifact_label = '''',
      CertificateArtifact_available = False, CertificateArtifact_downloadUrl = ''''\<rparr>"

definition CertificateArtifact_encode :: "('w, 'r) wire \<Rightarrow> CertificateArtifact_pb \<Rightarrow> 'w \<Rightarrow> string + 'w" where
  "CertificateArtifact_encode W message =
     in_turn
       [field_string W 10 (CertificateArtifact_key message),
        field_string W 18 (CertificateArtifact_label message),
        field_bool W 24 (CertificateArtifact_available message),
        field_string W 34 (CertificateArtifact_downloadUrl message)]"

definition CertificateArtifact_cases :: "('w, 'r) wire \<Rightarrow> (nat \<times> nat \<times> (CertificateArtifact_pb, 'r) action) list" where
  "CertificateArtifact_cases W =
     [(1, 10, read_text W CertificateArtifact_key_update),
      (2, 18, read_text W CertificateArtifact_label_update),
      (3, 24, read_bool W CertificateArtifact_available_update),
      (4, 34, read_text W CertificateArtifact_downloadUrl_update)]"

definition CertificateArtifact_decode :: "('w, 'r) wire \<Rightarrow> (CertificateArtifact_pb, 'r) decoder" where
  "CertificateArtifact_decode W = decode_message W (CertificateArtifact_cases W) createBaseCertificateArtifact"

definition CertificateArtifact_fromJSON :: "jsval \<Rightarrow> string + CertificateArtifact_pb" where
  "CertificateArtifact_fromJSON =
     from_fields
       [from_string [''key''] CertificateArtifact_key_update,
        from_string [''label''] CertificateArtifact_label_update,
        from_bool [''available''] CertificateArtifact_available_update,
        from_string [''downloadUrl'', ''download_url''] CertificateArtifact_downloadUrl_update]
       createBaseCertificateArtifact"

definition CertificateArtifact_fields :: "CertificateArtifact_pb \<Rightarrow> to_field list" where
  "CertificateArtifact_fields message =
     [to_string ''key'' (CertificateArtifact_key message),
      to_string ''label'' (CertificateArtifact_label message),
      to_bool ''available'' (CertificateArtifact_available message),
      to_string ''downloadUrl'' (CertificateArtifact_downloadUrl message)]"

definition CertificateArtifact_toJSON :: "CertificateArtifact_pb \<Rightarrow> jsval" where
  "CertificateArtifact_toJSON message = to_obj (CertificateArtifact_fields message)"

definition CertificateArtifact_safe :: "CertificateArtifact_pb \<Rightarrow> bool" where
  "CertificateArtifact_safe message \<longleftrightarrow>
     short_text (CertificateArtifact_key message) \<and>
     short_text (CertificateArtifact_label message) \<and>
     short_text (CertificateArtifact_downloadUrl message)"

definition CertificateArtifact_whole :: "CertificateArtifact_pb \<Rightarrow> bool" where
  "CertificateArtifact_whole message \<longleftrightarrow> True"

lemma CertificateArtifact_dispatch:
  "dispatch (CertificateArtifact_cases W) 10 = Some (read_text W CertificateArtifact_key_update)"
  "dispatch (CertificateArtifact_cases W) 18 = Some (read_text W CertificateArtifact_label_update)"
  "dispatch (CertificateArtifact_cases W) 24 = Some (read_bool W CertificateArtifact_available_update)"
  "dispatch (CertificateArtifact_cases W) 34 = Some (read_text W CertificateArtifact_downloadUrl_update)"
  by (simp_all add: dispatch_def CertificateArtifact_cases_def)

context wire_reader
begin

lemma CertificateArtifact_decode_returns: "decodes W (CertificateArtifact_decode W)"
  unfolding CertificateArtifact_decode_def by (rule decode_message_returns) (simp add: CertificateArtifact_cases_def)

end

context wire_format
begin

lemma CertificateArtifact_coded:
  assumes "CertificateArtifact_safe m"
  shows "coded W outs rest (CertificateArtifact_cases W) createBaseCertificateArtifact (CertificateArtifact_encode W m) m 6291471"
  by (insert assms [unfolded CertificateArtifact_safe_def], rule codedI, rule CertificateArtifact_encode_def,
      (rule field_codes CertificateArtifact_dispatch
       | simp add: when_set_update createBaseCertificateArtifact_def; fail)+)

lemma CertificateArtifact_transmits:
  "CertificateArtifact_safe m \<Longrightarrow> transmits W outs rest (CertificateArtifact_encode W) (CertificateArtifact_decode W) m 6291471"
  by (rule transmits_message [OF CertificateArtifact_coded CertificateArtifact_decode_def])

end

lemma CertificateArtifact_plain: "plain_keys (CertificateArtifact_fields m)"
  by (simp add: plain_keys_def CertificateArtifact_fields_def to_defs array_index_def is_digit_def)

lemma CertificateArtifact_sends:
  "to_string ''key'' (CertificateArtifact_key m) \<in> set (CertificateArtifact_fields m)"
  "to_string ''label'' (CertificateArtifact_label m) \<in> set (CertificateArtifact_fields m)"
  "to_bool ''available'' (CertificateArtifact_available m) \<in> set (CertificateArtifact_fields m)"
  "to_string ''downloadUrl'' (CertificateArtifact_downloadUrl m) \<in> set (CertificateArtifact_fields m)"
  by (simp_all add: CertificateArtifact_fields_def)

lemma CertificateArtifact_isSet: "isSet (CertificateArtifact_toJSON m)"
  by (simp add: CertificateArtifact_toJSON_def)

lemma CertificateArtifact_json:
  assumes "CertificateArtifact_whole m"
  shows "CertificateArtifact_fromJSON (CertificateArtifact_toJSON m) = Inr m"
  unfolding CertificateArtifact_fromJSON_def CertificateArtifact_toJSON_def from_fields_def list.map
  by (insert assms [unfolded CertificateArtifact_whole_def],
      (rule field_sent CertificateArtifact_plain CertificateArtifact_sends
       | simp add: createBaseCertificateArtifact_def whole_round; fail | simp add: CertificateArtifact_fields_def to_defs; fail)+)

lemma CertificateArtifact_json_ok: "CertificateArtifact_whole m \<Longrightarrow> json_ok (CertificateArtifact_toJSON m)"
  unfolding CertificateArtifact_toJSON_def CertificateArtifact_whole_def
  by (rule json_ok_to_obj [OF CertificateArtifact_plain])
    (simp add: CertificateArtifact_fields_def field_oks list_all_iff pred_option_conv)

subsection \<open>CertificateIssuanceJob\<close>

record CertificateIssuanceJob_pb =
  CertificateIssuanceJob_id :: number
  CertificateIssuanceJob_source :: string
  CertificateIssuanceJob_status :: string
  CertificateIssuanceJob_startedAt :: number
  CertificateIssuanceJob_finishedAt :: number
  CertificateIssuanceJob_durationMs :: number
  CertificateIssuanceJob_error :: string
  CertificateIssuanceJob_certificateId :: number

definition createBaseCertificateIssuanceJob :: CertificateIssuanceJob_pb where
  "createBaseCertificateIssuanceJob =
     \<lparr>CertificateIssuanceJob_id = num 0, CertificateIssuanceJob_source = '''',
      CertificateIssuanceJob_status = '''', CertificateIssuanceJob_startedAt = num 0,
      CertificateIssuanceJob_finishedAt = num 0, CertificateIssuanceJob_durationMs = num 0,
      CertificateIssuanceJob_error = '''', CertificateIssuanceJob_certificateId = num 0\<rparr>"

definition CertificateIssuanceJob_encode :: "('w, 'r) wire \<Rightarrow> CertificateIssuanceJob_pb \<Rightarrow> 'w \<Rightarrow> string + 'w" where
  "CertificateIssuanceJob_encode W message =
     in_turn
       [field_int64 W 8 (CertificateIssuanceJob_id message),
        field_string W 18 (CertificateIssuanceJob_source message),
        field_string W 26 (CertificateIssuanceJob_status message),
        field_int64 W 32 (CertificateIssuanceJob_startedAt message),
        field_int64 W 40 (CertificateIssuanceJob_finishedAt message),
        field_int64 W 48 (CertificateIssuanceJob_durationMs message),
        field_string W 58 (CertificateIssuanceJob_error message),
        field_int64 W 64 (CertificateIssuanceJob_certificateId message)]"

definition CertificateIssuanceJob_cases :: "('w, 'r) wire \<Rightarrow> (nat \<times> nat \<times> (CertificateIssuanceJob_pb, 'r) action) list" where
  "CertificateIssuanceJob_cases W =
     [(1, 8, read_int64 W CertificateIssuanceJob_id_update),
      (2, 18, read_text W CertificateIssuanceJob_source_update),
      (3, 26, read_text W CertificateIssuanceJob_status_update),
      (4, 32, read_int64 W CertificateIssuanceJob_startedAt_update),
      (5, 40, read_int64 W CertificateIssuanceJob_finishedAt_update),
      (6, 48, read_int64 W CertificateIssuanceJob_durationMs_update),
      (7, 58, read_text W CertificateIssuanceJob_error_update),
      (8, 64, read_int64 W CertificateIssuanceJob_certificateId_update)]"

definition CertificateIssuanceJob_decode :: "('w, 'r) wire \<Rightarrow> (CertificateIssuanceJob_pb, 'r) decoder" where
  "CertificateIssuanceJob_decode W = decode_message W (CertificateIssuanceJob_cases W) createBaseCertificateIssuanceJob"

definition CertificateIssuanceJob_fromJSON :: "jsval \<Rightarrow> string + CertificateIssuanceJob_pb" where
  "CertificateIssuanceJob_fromJSON =
     from_fields
       [from_number [''id''] CertificateIssuanceJob_id_update,
        from_string [''source''] CertificateIssuanceJob_source_update,
        from_string [''status''] CertificateIssuanceJob_status_update,
        from_number [''startedAt'', ''started_at''] CertificateIssuanceJob_startedAt_update,
        from_number [''finishedAt'', ''finished_at''] CertificateIssuanceJob_finishedAt_update,
        from_number [''durationMs'', ''duration_ms''] CertificateIssuanceJob_durationMs_update,
        from_string [''error''] CertificateIssuanceJob_error_update,
        from_number [''certificateId'', ''certificate_id''] CertificateIssuanceJob_certificateId_update]
       createBaseCertificateIssuanceJob"

definition CertificateIssuanceJob_fields :: "CertificateIssuanceJob_pb \<Rightarrow> to_field list" where
  "CertificateIssuanceJob_fields message =
     [to_int ''id'' (CertificateIssuanceJob_id message),
      to_string ''source'' (CertificateIssuanceJob_source message),
      to_string ''status'' (CertificateIssuanceJob_status message),
      to_int ''startedAt'' (CertificateIssuanceJob_startedAt message),
      to_int ''finishedAt'' (CertificateIssuanceJob_finishedAt message),
      to_int ''durationMs'' (CertificateIssuanceJob_durationMs message),
      to_string ''error'' (CertificateIssuanceJob_error message),
      to_int ''certificateId'' (CertificateIssuanceJob_certificateId message)]"

definition CertificateIssuanceJob_toJSON :: "CertificateIssuanceJob_pb \<Rightarrow> jsval" where
  "CertificateIssuanceJob_toJSON message = to_obj (CertificateIssuanceJob_fields message)"

definition CertificateIssuanceJob_safe :: "CertificateIssuanceJob_pb \<Rightarrow> bool" where
  "CertificateIssuanceJob_safe message \<longleftrightarrow>
     safe_int (CertificateIssuanceJob_id message) \<and>
     short_text (CertificateIssuanceJob_source message) \<and>
     short_text (CertificateIssuanceJob_status message) \<and>
     safe_int (CertificateIssuanceJob_startedAt message) \<and>
     safe_int (CertificateIssuanceJob_finishedAt message) \<and>
     safe_int (CertificateIssuanceJob_durationMs message) \<and>
     short_text (CertificateIssuanceJob_error message) \<and>
     safe_int (CertificateIssuanceJob_certificateId message)"

definition CertificateIssuanceJob_whole :: "CertificateIssuanceJob_pb \<Rightarrow> bool" where
  "CertificateIssuanceJob_whole message \<longleftrightarrow>
     whole (CertificateIssuanceJob_id message) \<and>
     whole (CertificateIssuanceJob_startedAt message) \<and>
     whole (CertificateIssuanceJob_finishedAt message) \<and>
     whole (CertificateIssuanceJob_durationMs message) \<and>
     whole (CertificateIssuanceJob_certificateId message)"

lemma CertificateIssuanceJob_dispatch:
  "dispatch (CertificateIssuanceJob_cases W) 8 = Some (read_int64 W CertificateIssuanceJob_id_update)"
  "dispatch (CertificateIssuanceJob_cases W) 18 = Some (read_text W CertificateIssuanceJob_source_update)"
  "dispatch (CertificateIssuanceJob_cases W) 26 = Some (read_text W CertificateIssuanceJob_status_update)"
  "dispatch (CertificateIssuanceJob_cases W) 32 = Some (read_int64 W CertificateIssuanceJob_startedAt_update)"
  "dispatch (CertificateIssuanceJob_cases W) 40 = Some (read_int64 W CertificateIssuanceJob_finishedAt_update)"
  "dispatch (CertificateIssuanceJob_cases W) 48 = Some (read_int64 W CertificateIssuanceJob_durationMs_update)"
  "dispatch (CertificateIssuanceJob_cases W) 58 = Some (read_text W CertificateIssuanceJob_error_update)"
  "dispatch (CertificateIssuanceJob_cases W) 64 = Some (read_int64 W CertificateIssuanceJob_certificateId_update)"
  by (simp_all add: dispatch_def CertificateIssuanceJob_cases_def)

context wire_reader
begin

lemma CertificateIssuanceJob_decode_returns: "decodes W (CertificateIssuanceJob_decode W)"
  unfolding CertificateIssuanceJob_decode_def by (rule decode_message_returns) (simp add: CertificateIssuanceJob_cases_def)

end

context wire_format
begin

lemma CertificateIssuanceJob_coded:
  assumes "CertificateIssuanceJob_safe m"
  shows "coded W outs rest (CertificateIssuanceJob_cases W) createBaseCertificateIssuanceJob (CertificateIssuanceJob_encode W m) m 6291531"
  by (insert assms [unfolded CertificateIssuanceJob_safe_def], rule codedI, rule CertificateIssuanceJob_encode_def,
      (rule field_codes CertificateIssuanceJob_dispatch
       | simp add: when_set_update createBaseCertificateIssuanceJob_def; fail)+)

lemma CertificateIssuanceJob_transmits:
  "CertificateIssuanceJob_safe m \<Longrightarrow> transmits W outs rest (CertificateIssuanceJob_encode W) (CertificateIssuanceJob_decode W) m 6291531"
  by (rule transmits_message [OF CertificateIssuanceJob_coded CertificateIssuanceJob_decode_def])

end

lemma CertificateIssuanceJob_plain: "plain_keys (CertificateIssuanceJob_fields m)"
  by (simp add: plain_keys_def CertificateIssuanceJob_fields_def to_defs array_index_def is_digit_def)

lemma CertificateIssuanceJob_sends:
  "to_int ''id'' (CertificateIssuanceJob_id m) \<in> set (CertificateIssuanceJob_fields m)"
  "to_string ''source'' (CertificateIssuanceJob_source m) \<in> set (CertificateIssuanceJob_fields m)"
  "to_string ''status'' (CertificateIssuanceJob_status m) \<in> set (CertificateIssuanceJob_fields m)"
  "to_int ''startedAt'' (CertificateIssuanceJob_startedAt m) \<in> set (CertificateIssuanceJob_fields m)"
  "to_int ''finishedAt'' (CertificateIssuanceJob_finishedAt m) \<in> set (CertificateIssuanceJob_fields m)"
  "to_int ''durationMs'' (CertificateIssuanceJob_durationMs m) \<in> set (CertificateIssuanceJob_fields m)"
  "to_string ''error'' (CertificateIssuanceJob_error m) \<in> set (CertificateIssuanceJob_fields m)"
  "to_int ''certificateId'' (CertificateIssuanceJob_certificateId m) \<in> set (CertificateIssuanceJob_fields m)"
  by (simp_all add: CertificateIssuanceJob_fields_def)

lemma CertificateIssuanceJob_isSet: "isSet (CertificateIssuanceJob_toJSON m)"
  by (simp add: CertificateIssuanceJob_toJSON_def)

lemma CertificateIssuanceJob_json:
  assumes "CertificateIssuanceJob_whole m"
  shows "CertificateIssuanceJob_fromJSON (CertificateIssuanceJob_toJSON m) = Inr m"
  unfolding CertificateIssuanceJob_fromJSON_def CertificateIssuanceJob_toJSON_def from_fields_def list.map
  by (insert assms [unfolded CertificateIssuanceJob_whole_def],
      (rule field_sent CertificateIssuanceJob_plain CertificateIssuanceJob_sends
       | simp add: createBaseCertificateIssuanceJob_def whole_round; fail | simp add: CertificateIssuanceJob_fields_def to_defs; fail)+)

lemma CertificateIssuanceJob_json_ok: "CertificateIssuanceJob_whole m \<Longrightarrow> json_ok (CertificateIssuanceJob_toJSON m)"
  unfolding CertificateIssuanceJob_toJSON_def CertificateIssuanceJob_whole_def
  by (rule json_ok_to_obj [OF CertificateIssuanceJob_plain])
    (simp add: CertificateIssuanceJob_fields_def field_oks list_all_iff pred_option_conv)

subsection \<open>CertificateTaskRun\<close>

record CertificateTaskRun_pb =
  CertificateTaskRun_id :: number
  CertificateTaskRun_taskId :: number
  CertificateTaskRun_taskName :: string
  CertificateTaskRun_status :: string
  CertificateTaskRun_responseStatus :: string
  CertificateTaskRun_error :: string
  CertificateTaskRun_startedAt :: number
  CertificateTaskRun_finishedAt :: number
  CertificateTaskRun_durationMs :: number
  CertificateTaskRun_certificateJobId :: number

definition createBaseCertificateTaskRun :: CertificateTaskRun_pb where
  "createBaseCertificateTaskRun =
     \<lparr>CertificateTaskRun_id = num 0, CertificateTaskRun_taskId = num 0,
      CertificateTaskRun_taskName = '''', CertificateTaskRun_status = '''',
      CertificateTaskRun_responseStatus = '''', CertificateTaskRun_error = '''',
      CertificateTaskRun_startedAt = num 0, CertificateTaskRun_finishedAt = num 0,
      CertificateTaskRun_durationMs = num 0, CertificateTaskRun_certificateJobId = num 0\<rparr>"

definition CertificateTaskRun_encode :: "('w, 'r) wire \<Rightarrow> CertificateTaskRun_pb \<Rightarrow> 'w \<Rightarrow> string + 'w" where
  "CertificateTaskRun_encode W message =
     in_turn
       [field_int64 W 8 (CertificateTaskRun_id message),
        field_int64 W 16 (CertificateTaskRun_taskId message),
        field_string W 26 (CertificateTaskRun_taskName message),
        field_string W 34 (CertificateTaskRun_status message),
        field_string W 42 (CertificateTaskRun_responseStatus message),
        field_string W 50 (CertificateTaskRun_error message),
        field_int64 W 56 (CertificateTaskRun_startedAt message),
        field_int64 W 64 (CertificateTaskRun_finishedAt message),
        field_int64 W 72 (CertificateTaskRun_durationMs message),
        field_int64 W 80 (CertificateTaskRun_certificateJobId message)]"

definition CertificateTaskRun_cases :: "('w, 'r) wire \<Rightarrow> (nat \<times> nat \<times> (CertificateTaskRun_pb, 'r) action) list" where
  "CertificateTaskRun_cases W =
     [(1, 8, read_int64 W CertificateTaskRun_id_update),
      (2, 16, read_int64 W CertificateTaskRun_taskId_update),
      (3, 26, read_text W CertificateTaskRun_taskName_update),
      (4, 34, read_text W CertificateTaskRun_status_update),
      (5, 42, read_text W CertificateTaskRun_responseStatus_update),
      (6, 50, read_text W CertificateTaskRun_error_update),
      (7, 56, read_int64 W CertificateTaskRun_startedAt_update),
      (8, 64, read_int64 W CertificateTaskRun_finishedAt_update),
      (9, 72, read_int64 W CertificateTaskRun_durationMs_update),
      (10, 80, read_int64 W CertificateTaskRun_certificateJobId_update)]"

definition CertificateTaskRun_decode :: "('w, 'r) wire \<Rightarrow> (CertificateTaskRun_pb, 'r) decoder" where
  "CertificateTaskRun_decode W = decode_message W (CertificateTaskRun_cases W) createBaseCertificateTaskRun"

definition CertificateTaskRun_fromJSON :: "jsval \<Rightarrow> string + CertificateTaskRun_pb" where
  "CertificateTaskRun_fromJSON =
     from_fields
       [from_number [''id''] CertificateTaskRun_id_update,
        from_number [''taskId'', ''task_id''] CertificateTaskRun_taskId_update,
        from_string [''taskName'', ''task_name''] CertificateTaskRun_taskName_update,
        from_string [''status''] CertificateTaskRun_status_update,
        from_string [''responseStatus'', ''response_status''] CertificateTaskRun_responseStatus_update,
        from_string [''error''] CertificateTaskRun_error_update,
        from_number [''startedAt'', ''started_at''] CertificateTaskRun_startedAt_update,
        from_number [''finishedAt'', ''finished_at''] CertificateTaskRun_finishedAt_update,
        from_number [''durationMs'', ''duration_ms''] CertificateTaskRun_durationMs_update,
        from_number [''certificateJobId'', ''certificate_job_id''] CertificateTaskRun_certificateJobId_update]
       createBaseCertificateTaskRun"

definition CertificateTaskRun_fields :: "CertificateTaskRun_pb \<Rightarrow> to_field list" where
  "CertificateTaskRun_fields message =
     [to_int ''id'' (CertificateTaskRun_id message),
      to_int ''taskId'' (CertificateTaskRun_taskId message),
      to_string ''taskName'' (CertificateTaskRun_taskName message),
      to_string ''status'' (CertificateTaskRun_status message),
      to_string ''responseStatus'' (CertificateTaskRun_responseStatus message),
      to_string ''error'' (CertificateTaskRun_error message),
      to_int ''startedAt'' (CertificateTaskRun_startedAt message),
      to_int ''finishedAt'' (CertificateTaskRun_finishedAt message),
      to_int ''durationMs'' (CertificateTaskRun_durationMs message),
      to_int ''certificateJobId'' (CertificateTaskRun_certificateJobId message)]"

definition CertificateTaskRun_toJSON :: "CertificateTaskRun_pb \<Rightarrow> jsval" where
  "CertificateTaskRun_toJSON message = to_obj (CertificateTaskRun_fields message)"

definition CertificateTaskRun_safe :: "CertificateTaskRun_pb \<Rightarrow> bool" where
  "CertificateTaskRun_safe message \<longleftrightarrow>
     safe_int (CertificateTaskRun_id message) \<and>
     safe_int (CertificateTaskRun_taskId message) \<and>
     short_text (CertificateTaskRun_taskName message) \<and>
     short_text (CertificateTaskRun_status message) \<and>
     short_text (CertificateTaskRun_responseStatus message) \<and>
     short_text (CertificateTaskRun_error message) \<and>
     safe_int (CertificateTaskRun_startedAt message) \<and>
     safe_int (CertificateTaskRun_finishedAt message) \<and>
     safe_int (CertificateTaskRun_durationMs message) \<and>
     safe_int (CertificateTaskRun_certificateJobId message)"

definition CertificateTaskRun_whole :: "CertificateTaskRun_pb \<Rightarrow> bool" where
  "CertificateTaskRun_whole message \<longleftrightarrow>
     whole (CertificateTaskRun_id message) \<and>
     whole (CertificateTaskRun_taskId message) \<and>
     whole (CertificateTaskRun_startedAt message) \<and>
     whole (CertificateTaskRun_finishedAt message) \<and>
     whole (CertificateTaskRun_durationMs message) \<and>
     whole (CertificateTaskRun_certificateJobId message)"

lemma CertificateTaskRun_dispatch:
  "dispatch (CertificateTaskRun_cases W) 8 = Some (read_int64 W CertificateTaskRun_id_update)"
  "dispatch (CertificateTaskRun_cases W) 16 = Some (read_int64 W CertificateTaskRun_taskId_update)"
  "dispatch (CertificateTaskRun_cases W) 26 = Some (read_text W CertificateTaskRun_taskName_update)"
  "dispatch (CertificateTaskRun_cases W) 34 = Some (read_text W CertificateTaskRun_status_update)"
  "dispatch (CertificateTaskRun_cases W) 42 = Some (read_text W CertificateTaskRun_responseStatus_update)"
  "dispatch (CertificateTaskRun_cases W) 50 = Some (read_text W CertificateTaskRun_error_update)"
  "dispatch (CertificateTaskRun_cases W) 56 = Some (read_int64 W CertificateTaskRun_startedAt_update)"
  "dispatch (CertificateTaskRun_cases W) 64 = Some (read_int64 W CertificateTaskRun_finishedAt_update)"
  "dispatch (CertificateTaskRun_cases W) 72 = Some (read_int64 W CertificateTaskRun_durationMs_update)"
  "dispatch (CertificateTaskRun_cases W) 80 = Some (read_int64 W CertificateTaskRun_certificateJobId_update)"
  by (simp_all add: dispatch_def CertificateTaskRun_cases_def)

context wire_reader
begin

lemma CertificateTaskRun_decode_returns: "decodes W (CertificateTaskRun_decode W)"
  unfolding CertificateTaskRun_decode_def by (rule decode_message_returns) (simp add: CertificateTaskRun_cases_def)

end

context wire_format
begin

lemma CertificateTaskRun_coded:
  assumes "CertificateTaskRun_safe m"
  shows "coded W outs rest (CertificateTaskRun_cases W) createBaseCertificateTaskRun (CertificateTaskRun_encode W m) m 8388698"
  by (insert assms [unfolded CertificateTaskRun_safe_def], rule codedI, rule CertificateTaskRun_encode_def,
      (rule field_codes CertificateTaskRun_dispatch
       | simp add: when_set_update createBaseCertificateTaskRun_def; fail)+)

lemma CertificateTaskRun_transmits:
  "CertificateTaskRun_safe m \<Longrightarrow> transmits W outs rest (CertificateTaskRun_encode W) (CertificateTaskRun_decode W) m 8388698"
  by (rule transmits_message [OF CertificateTaskRun_coded CertificateTaskRun_decode_def])

end

lemma CertificateTaskRun_plain: "plain_keys (CertificateTaskRun_fields m)"
  by (simp add: plain_keys_def CertificateTaskRun_fields_def to_defs array_index_def is_digit_def)

lemma CertificateTaskRun_sends:
  "to_int ''id'' (CertificateTaskRun_id m) \<in> set (CertificateTaskRun_fields m)"
  "to_int ''taskId'' (CertificateTaskRun_taskId m) \<in> set (CertificateTaskRun_fields m)"
  "to_string ''taskName'' (CertificateTaskRun_taskName m) \<in> set (CertificateTaskRun_fields m)"
  "to_string ''status'' (CertificateTaskRun_status m) \<in> set (CertificateTaskRun_fields m)"
  "to_string ''responseStatus'' (CertificateTaskRun_responseStatus m) \<in> set (CertificateTaskRun_fields m)"
  "to_string ''error'' (CertificateTaskRun_error m) \<in> set (CertificateTaskRun_fields m)"
  "to_int ''startedAt'' (CertificateTaskRun_startedAt m) \<in> set (CertificateTaskRun_fields m)"
  "to_int ''finishedAt'' (CertificateTaskRun_finishedAt m) \<in> set (CertificateTaskRun_fields m)"
  "to_int ''durationMs'' (CertificateTaskRun_durationMs m) \<in> set (CertificateTaskRun_fields m)"
  "to_int ''certificateJobId'' (CertificateTaskRun_certificateJobId m) \<in> set (CertificateTaskRun_fields m)"
  by (simp_all add: CertificateTaskRun_fields_def)

lemma CertificateTaskRun_isSet: "isSet (CertificateTaskRun_toJSON m)"
  by (simp add: CertificateTaskRun_toJSON_def)

lemma CertificateTaskRun_json:
  assumes "CertificateTaskRun_whole m"
  shows "CertificateTaskRun_fromJSON (CertificateTaskRun_toJSON m) = Inr m"
  unfolding CertificateTaskRun_fromJSON_def CertificateTaskRun_toJSON_def from_fields_def list.map
  by (insert assms [unfolded CertificateTaskRun_whole_def],
      (rule field_sent CertificateTaskRun_plain CertificateTaskRun_sends
       | simp add: createBaseCertificateTaskRun_def whole_round; fail | simp add: CertificateTaskRun_fields_def to_defs; fail)+)

lemma CertificateTaskRun_json_ok: "CertificateTaskRun_whole m \<Longrightarrow> json_ok (CertificateTaskRun_toJSON m)"
  unfolding CertificateTaskRun_toJSON_def CertificateTaskRun_whole_def
  by (rule json_ok_to_obj [OF CertificateTaskRun_plain])
    (simp add: CertificateTaskRun_fields_def field_oks list_all_iff pred_option_conv)

subsection \<open>CertificateDetails\<close>

record CertificateDetails_pb =
  CertificateDetails_recordId :: number
  CertificateDetails_recordName :: string
  CertificateDetails_recordDomain :: string
  CertificateDetails_certificate :: "Certificate_pb option"
  CertificateDetails_artifacts :: "CertificateArtifact_pb list"
  CertificateDetails_issuanceJobs :: "CertificateIssuanceJob_pb list"
  CertificateDetails_taskRuns :: "CertificateTaskRun_pb list"
  CertificateDetails_fetchedAt :: number

definition createBaseCertificateDetails :: CertificateDetails_pb where
  "createBaseCertificateDetails =
     \<lparr>CertificateDetails_recordId = num 0, CertificateDetails_recordName = '''',
      CertificateDetails_recordDomain = '''', CertificateDetails_certificate = None,
      CertificateDetails_artifacts = [], CertificateDetails_issuanceJobs = [],
      CertificateDetails_taskRuns = [], CertificateDetails_fetchedAt = num 0\<rparr>"

definition CertificateDetails_encode :: "('w, 'r) wire \<Rightarrow> CertificateDetails_pb \<Rightarrow> 'w \<Rightarrow> string + 'w" where
  "CertificateDetails_encode W message =
     in_turn
       [field_int64 W 8 (CertificateDetails_recordId message),
        field_string W 18 (CertificateDetails_recordName message),
        field_string W 26 (CertificateDetails_recordDomain message),
        field_message W 34 (Certificate_encode W) (CertificateDetails_certificate message),
        field_messages W 42 (CertificateArtifact_encode W) (CertificateDetails_artifacts message),
        field_messages W 50 (CertificateIssuanceJob_encode W) (CertificateDetails_issuanceJobs message),
        field_messages W 58 (CertificateTaskRun_encode W) (CertificateDetails_taskRuns message),
        field_int64 W 64 (CertificateDetails_fetchedAt message)]"

definition CertificateDetails_cases :: "('w, 'r) wire \<Rightarrow> (nat \<times> nat \<times> (CertificateDetails_pb, 'r) action) list" where
  "CertificateDetails_cases W =
     [(1, 8, read_int64 W CertificateDetails_recordId_update),
      (2, 18, read_text W CertificateDetails_recordName_update),
      (3, 26, read_text W CertificateDetails_recordDomain_update),
      (4, 34, read_message W (Certificate_decode W) CertificateDetails_certificate_update),
      (5, 42, push_message W (CertificateArtifact_decode W) CertificateDetails_artifacts_update),
      (6, 50, push_message W (CertificateIssuanceJob_decode W) CertificateDetails_issuanceJobs_update),
      (7, 58, push_message W (CertificateTaskRun_decode W) CertificateDetails_taskRuns_update),
      (8, 64, read_int64 W CertificateDetails_fetchedAt_update)]"

definition CertificateDetails_decode :: "('w, 'r) wire \<Rightarrow> (CertificateDetails_pb, 'r) decoder" where
  "CertificateDetails_decode W = decode_message W (CertificateDetails_cases W) createBaseCertificateDetails"

definition CertificateDetails_fromJSON :: "jsval \<Rightarrow> string + CertificateDetails_pb" where
  "CertificateDetails_fromJSON =
     from_fields
       [from_number [''recordId'', ''record_id''] CertificateDetails_recordId_update,
        from_string [''recordName'', ''record_name''] CertificateDetails_recordName_update,
        from_string [''recordDomain'', ''record_domain''] CertificateDetails_recordDomain_update,
        from_message Certificate_fromJSON [''certificate''] CertificateDetails_certificate_update,
        from_list CertificateArtifact_fromJSON [''artifacts''] CertificateDetails_artifacts_update,
        from_list CertificateIssuanceJob_fromJSON [''issuanceJobs'', ''issuance_jobs''] CertificateDetails_issuanceJobs_update,
        from_list CertificateTaskRun_fromJSON [''taskRuns'', ''task_runs''] CertificateDetails_taskRuns_update,
        from_number [''fetchedAt'', ''fetched_at''] CertificateDetails_fetchedAt_update]
       createBaseCertificateDetails"

definition CertificateDetails_fields :: "CertificateDetails_pb \<Rightarrow> to_field list" where
  "CertificateDetails_fields message =
     [to_int ''recordId'' (CertificateDetails_recordId message),
      to_string ''recordName'' (CertificateDetails_recordName message),
      to_string ''recordDomain'' (CertificateDetails_recordDomain message),
      to_message Certificate_toJSON ''certificate'' (CertificateDetails_certificate message),
      to_list CertificateArtifact_toJSON ''artifacts'' (CertificateDetails_artifacts message),
      to_list CertificateIssuanceJob_toJSON ''issuanceJobs'' (CertificateDetails_issuanceJobs message),
      to_list CertificateTaskRun_toJSON ''taskRuns'' (CertificateDetails_taskRuns message),
      to_int ''fetchedAt'' (CertificateDetails_fetchedAt message)]"

definition CertificateDetails_toJSON :: "CertificateDetails_pb \<Rightarrow> jsval" where
  "CertificateDetails_toJSON message = to_obj (CertificateDetails_fields message)"

definition CertificateDetails_safe :: "CertificateDetails_pb \<Rightarrow> bool" where
  "CertificateDetails_safe message \<longleftrightarrow>
     safe_int (CertificateDetails_recordId message) \<and>
     short_text (CertificateDetails_recordName message) \<and>
     short_text (CertificateDetails_recordDomain message) \<and>
     pred_option Certificate_safe (CertificateDetails_certificate message) \<and>
     list_all CertificateArtifact_safe (CertificateDetails_artifacts message) \<and>
     list_all CertificateIssuanceJob_safe (CertificateDetails_issuanceJobs message) \<and>
     list_all CertificateTaskRun_safe (CertificateDetails_taskRuns message) \<and>
     safe_int (CertificateDetails_fetchedAt message)"

definition CertificateDetails_whole :: "CertificateDetails_pb \<Rightarrow> bool" where
  "CertificateDetails_whole message \<longleftrightarrow>
     whole (CertificateDetails_recordId message) \<and>
     pred_option Certificate_whole (CertificateDetails_certificate message) \<and>
     list_all CertificateArtifact_whole (CertificateDetails_artifacts message) \<and>
     list_all CertificateIssuanceJob_whole (CertificateDetails_issuanceJobs message) \<and>
     list_all CertificateTaskRun_whole (CertificateDetails_taskRuns message) \<and>
     whole (CertificateDetails_fetchedAt message)"

lemma CertificateDetails_dispatch:
  "dispatch (CertificateDetails_cases W) 8 = Some (read_int64 W CertificateDetails_recordId_update)"
  "dispatch (CertificateDetails_cases W) 18 = Some (read_text W CertificateDetails_recordName_update)"
  "dispatch (CertificateDetails_cases W) 26 = Some (read_text W CertificateDetails_recordDomain_update)"
  "dispatch (CertificateDetails_cases W) 34 = Some (read_message W (Certificate_decode W) CertificateDetails_certificate_update)"
  "dispatch (CertificateDetails_cases W) 42 = Some (push_message W (CertificateArtifact_decode W) CertificateDetails_artifacts_update)"
  "dispatch (CertificateDetails_cases W) 50 = Some (push_message W (CertificateIssuanceJob_decode W) CertificateDetails_issuanceJobs_update)"
  "dispatch (CertificateDetails_cases W) 58 = Some (push_message W (CertificateTaskRun_decode W) CertificateDetails_taskRuns_update)"
  "dispatch (CertificateDetails_cases W) 64 = Some (read_int64 W CertificateDetails_fetchedAt_update)"
  by (simp_all add: dispatch_def CertificateDetails_cases_def)

lemma push_CertificateDetails_artifacts: "push_all vs CertificateDetails_artifacts_update m = CertificateDetails_artifacts_update (\<lambda>us. us @ vs) m"
  by (rule push_all_update) simp_all

lemma push_CertificateDetails_issuanceJobs: "push_all vs CertificateDetails_issuanceJobs_update m = CertificateDetails_issuanceJobs_update (\<lambda>us. us @ vs) m"
  by (rule push_all_update) simp_all

lemma push_CertificateDetails_taskRuns: "push_all vs CertificateDetails_taskRuns_update m = CertificateDetails_taskRuns_update (\<lambda>us. us @ vs) m"
  by (rule push_all_update) simp_all

context wire_reader
begin

lemma CertificateDetails_decode_returns: "decodes W (CertificateDetails_decode W)"
  unfolding CertificateDetails_decode_def by (rule decode_message_returns) (simp add: CertificateDetails_cases_def Certificate_decode_returns CertificateArtifact_decode_returns CertificateIssuanceJob_decode_returns CertificateTaskRun_decode_returns)

end

context wire_format
begin

lemma CertificateDetails_coded:
  assumes "CertificateDetails_safe m"
  shows "coded W outs rest (CertificateDetails_cases W) createBaseCertificateDetails (CertificateDetails_encode W m) m (length (CertificateDetails_artifacts m) * 6291481 + length (CertificateDetails_issuanceJobs m) * 6291541 + length (CertificateDetails_taskRuns m) * 8388708 + 12583042)"
  by (insert assms [unfolded CertificateDetails_safe_def], rule codedI, rule CertificateDetails_encode_def,
      (rule field_codes CertificateDetails_dispatch Certificate_transmits CertificateArtifact_transmits CertificateIssuanceJob_transmits CertificateTaskRun_transmits
       | simp add: when_set_update createBaseCertificateDetails_def push_CertificateDetails_artifacts push_CertificateDetails_issuanceJobs push_CertificateDetails_taskRuns pred_option_conv list_all_iff; fail)+)

lemma CertificateDetails_transmits:
  "CertificateDetails_safe m \<Longrightarrow> transmits W outs rest (CertificateDetails_encode W) (CertificateDetails_decode W) m (length (CertificateDetails_artifacts m) * 6291481 + length (CertificateDetails_issuanceJobs m) * 6291541 + length (CertificateDetails_taskRuns m) * 8388708 + 12583042)"
  by (rule transmits_message [OF CertificateDetails_coded CertificateDetails_decode_def])

end

lemma CertificateDetails_plain: "plain_keys (CertificateDetails_fields m)"
  by (simp add: plain_keys_def CertificateDetails_fields_def to_defs array_index_def is_digit_def)

lemma CertificateDetails_sends:
  "to_int ''recordId'' (CertificateDetails_recordId m) \<in> set (CertificateDetails_fields m)"
  "to_string ''recordName'' (CertificateDetails_recordName m) \<in> set (CertificateDetails_fields m)"
  "to_string ''recordDomain'' (CertificateDetails_recordDomain m) \<in> set (CertificateDetails_fields m)"
  "to_message Certificate_toJSON ''certificate'' (CertificateDetails_certificate m) \<in> set (CertificateDetails_fields m)"
  "to_list CertificateArtifact_toJSON ''artifacts'' (CertificateDetails_artifacts m) \<in> set (CertificateDetails_fields m)"
  "to_list CertificateIssuanceJob_toJSON ''issuanceJobs'' (CertificateDetails_issuanceJobs m) \<in> set (CertificateDetails_fields m)"
  "to_list CertificateTaskRun_toJSON ''taskRuns'' (CertificateDetails_taskRuns m) \<in> set (CertificateDetails_fields m)"
  "to_int ''fetchedAt'' (CertificateDetails_fetchedAt m) \<in> set (CertificateDetails_fields m)"
  by (simp_all add: CertificateDetails_fields_def)

lemma CertificateDetails_isSet: "isSet (CertificateDetails_toJSON m)"
  by (simp add: CertificateDetails_toJSON_def)

lemma CertificateDetails_json:
  assumes "CertificateDetails_whole m"
  shows "CertificateDetails_fromJSON (CertificateDetails_toJSON m) = Inr m"
  unfolding CertificateDetails_fromJSON_def CertificateDetails_toJSON_def from_fields_def list.map
  by (insert assms [unfolded CertificateDetails_whole_def],
      (rule field_sent CertificateDetails_plain CertificateDetails_sends
       | simp add: createBaseCertificateDetails_def whole_round Certificate_json Certificate_isSet CertificateArtifact_json CertificateArtifact_isSet CertificateIssuanceJob_json CertificateIssuanceJob_isSet CertificateTaskRun_json CertificateTaskRun_isSet pred_option_conv list_all_iff; fail | simp add: CertificateDetails_fields_def to_defs; fail)+)

lemma CertificateDetails_json_ok: "CertificateDetails_whole m \<Longrightarrow> json_ok (CertificateDetails_toJSON m)"
  unfolding CertificateDetails_toJSON_def CertificateDetails_whole_def
  by (rule json_ok_to_obj [OF CertificateDetails_plain])
    (simp add: CertificateDetails_fields_def field_oks list_all_iff pred_option_conv Certificate_json_ok CertificateArtifact_json_ok CertificateIssuanceJob_json_ok CertificateTaskRun_json_ok)

end
