(* ===== verification/ConfigMessages.thy ===== *)
theory ConfigMessages
  imports JsonFields
begin

text \<open>
  The messages of \<^verbatim>\<open>global/model/api.ts\<close> about the configuration and the log, in the
  same arrangement. Which fractions a binary64 holds is the parameter \<open>exact\<close>.
\<close>

subsection \<open>Configuration\<close>

record Configuration_pb =
  Configuration_logLevel :: number
  Configuration_refreshCron :: string
  Configuration_dnsServers :: "string list"
  Configuration_ipv4Resolvers :: "string list"
  Configuration_ipv6Resolvers :: "string list"
  Configuration_ipv4ResolverAgreementThreshold :: number
  Configuration_ipv6ResolverAgreementThreshold :: number
  Configuration_ipv4ResolverMinResponses :: number
  Configuration_ipv6ResolverMinResponses :: number
  Configuration_notificationsEnabled :: bool
  Configuration_notificationsOnSuccess :: bool
  Configuration_notificationsRecipients :: "string list"
  Configuration_notificationsCooldownMinutes :: number
  Configuration_notificationsSubjectPrefix :: string
  Configuration_acmeEnabled :: bool
  Configuration_acmeEmail :: string
  Configuration_acmeStaging :: bool
  Configuration_acmeRenewBeforeDays :: number

definition createBaseConfiguration :: Configuration_pb where
  "createBaseConfiguration =
     \<lparr>Configuration_logLevel = num 0, Configuration_refreshCron = '''',
      Configuration_dnsServers = [], Configuration_ipv4Resolvers = [],
      Configuration_ipv6Resolvers = [],
      Configuration_ipv4ResolverAgreementThreshold = num 0,
      Configuration_ipv6ResolverAgreementThreshold = num 0,
      Configuration_ipv4ResolverMinResponses = num 0,
      Configuration_ipv6ResolverMinResponses = num 0,
      Configuration_notificationsEnabled = False,
      Configuration_notificationsOnSuccess = False,
      Configuration_notificationsRecipients = [],
      Configuration_notificationsCooldownMinutes = num 0,
      Configuration_notificationsSubjectPrefix = '''', Configuration_acmeEnabled = False,
      Configuration_acmeEmail = '''', Configuration_acmeStaging = False,
      Configuration_acmeRenewBeforeDays = num 0\<rparr>"

definition Configuration_encode :: "('w, 'r) wire \<Rightarrow> Configuration_pb \<Rightarrow> 'w \<Rightarrow> string + 'w" where
  "Configuration_encode W message =
     in_turn
       [field_int32 W 8 (Configuration_logLevel message),
        field_string W 18 (Configuration_refreshCron message),
        field_strings W 26 (Configuration_dnsServers message),
        field_strings W 34 (Configuration_ipv4Resolvers message),
        field_strings W 42 (Configuration_ipv6Resolvers message),
        field_double W 121 (Configuration_ipv4ResolverAgreementThreshold message),
        field_double W 129 (Configuration_ipv6ResolverAgreementThreshold message),
        field_int32 W 136 (Configuration_ipv4ResolverMinResponses message),
        field_int32 W 144 (Configuration_ipv6ResolverMinResponses message),
        field_bool W 48 (Configuration_notificationsEnabled message),
        field_bool W 56 (Configuration_notificationsOnSuccess message),
        field_strings W 66 (Configuration_notificationsRecipients message),
        field_int32 W 72 (Configuration_notificationsCooldownMinutes message),
        field_string W 82 (Configuration_notificationsSubjectPrefix message),
        field_bool W 88 (Configuration_acmeEnabled message),
        field_string W 98 (Configuration_acmeEmail message),
        field_bool W 104 (Configuration_acmeStaging message),
        field_int32 W 112 (Configuration_acmeRenewBeforeDays message)]"

definition Configuration_cases :: "('w, 'r) wire \<Rightarrow> (nat \<times> nat \<times> (Configuration_pb, 'r) action) list" where
  "Configuration_cases W =
     [(1, 8, read_int32 W Configuration_logLevel_update),
      (2, 18, read_text W Configuration_refreshCron_update),
      (3, 26, push_text W Configuration_dnsServers_update),
      (4, 34, push_text W Configuration_ipv4Resolvers_update),
      (5, 42, push_text W Configuration_ipv6Resolvers_update),
      (15, 121, read_double W Configuration_ipv4ResolverAgreementThreshold_update),
      (16, 129, read_double W Configuration_ipv6ResolverAgreementThreshold_update),
      (17, 136, read_int32 W Configuration_ipv4ResolverMinResponses_update),
      (18, 144, read_int32 W Configuration_ipv6ResolverMinResponses_update),
      (6, 48, read_bool W Configuration_notificationsEnabled_update),
      (7, 56, read_bool W Configuration_notificationsOnSuccess_update),
      (8, 66, push_text W Configuration_notificationsRecipients_update),
      (9, 72, read_int32 W Configuration_notificationsCooldownMinutes_update),
      (10, 82, read_text W Configuration_notificationsSubjectPrefix_update),
      (11, 88, read_bool W Configuration_acmeEnabled_update),
      (12, 98, read_text W Configuration_acmeEmail_update),
      (13, 104, read_bool W Configuration_acmeStaging_update),
      (14, 112, read_int32 W Configuration_acmeRenewBeforeDays_update)]"

definition Configuration_decode :: "('w, 'r) wire \<Rightarrow> (Configuration_pb, 'r) decoder" where
  "Configuration_decode W = decode_message W (Configuration_cases W) createBaseConfiguration"

definition Configuration_fromJSON :: "jsval \<Rightarrow> string + Configuration_pb" where
  "Configuration_fromJSON =
     from_fields
       [from_number [''logLevel'', ''log_level''] Configuration_logLevel_update,
        from_string [''refreshCron'', ''refresh_cron''] Configuration_refreshCron_update,
        from_list js_String [''dnsServers'', ''dns_servers''] Configuration_dnsServers_update,
        from_list js_String [''ipv4Resolvers'', ''ipv4_resolvers''] Configuration_ipv4Resolvers_update,
        from_list js_String [''ipv6Resolvers'', ''ipv6_resolvers''] Configuration_ipv6Resolvers_update,
        from_double [''ipv4ResolverAgreementThreshold'', ''ipv4_resolver_agreement_threshold''] Configuration_ipv4ResolverAgreementThreshold_update,
        from_double [''ipv6ResolverAgreementThreshold'', ''ipv6_resolver_agreement_threshold''] Configuration_ipv6ResolverAgreementThreshold_update,
        from_number [''ipv4ResolverMinResponses'', ''ipv4_resolver_min_responses''] Configuration_ipv4ResolverMinResponses_update,
        from_number [''ipv6ResolverMinResponses'', ''ipv6_resolver_min_responses''] Configuration_ipv6ResolverMinResponses_update,
        from_bool [''notificationsEnabled'', ''notifications_enabled''] Configuration_notificationsEnabled_update,
        from_bool [''notificationsOnSuccess'', ''notifications_on_success''] Configuration_notificationsOnSuccess_update,
        from_list js_String [''notificationsRecipients'', ''notifications_recipients''] Configuration_notificationsRecipients_update,
        from_number [''notificationsCooldownMinutes'', ''notifications_cooldown_minutes''] Configuration_notificationsCooldownMinutes_update,
        from_string [''notificationsSubjectPrefix'', ''notifications_subject_prefix''] Configuration_notificationsSubjectPrefix_update,
        from_bool [''acmeEnabled'', ''acme_enabled''] Configuration_acmeEnabled_update,
        from_string [''acmeEmail'', ''acme_email''] Configuration_acmeEmail_update,
        from_bool [''acmeStaging'', ''acme_staging''] Configuration_acmeStaging_update,
        from_number [''acmeRenewBeforeDays'', ''acme_renew_before_days''] Configuration_acmeRenewBeforeDays_update]
       createBaseConfiguration"

definition Configuration_fields :: "Configuration_pb \<Rightarrow> to_field list" where
  "Configuration_fields message =
     [to_int ''logLevel'' (Configuration_logLevel message),
      to_string ''refreshCron'' (Configuration_refreshCron message),
      to_list JStr ''dnsServers'' (Configuration_dnsServers message),
      to_list JStr ''ipv4Resolvers'' (Configuration_ipv4Resolvers message),
      to_list JStr ''ipv6Resolvers'' (Configuration_ipv6Resolvers message),
      to_double ''ipv4ResolverAgreementThreshold'' (Configuration_ipv4ResolverAgreementThreshold message),
      to_double ''ipv6ResolverAgreementThreshold'' (Configuration_ipv6ResolverAgreementThreshold message),
      to_int ''ipv4ResolverMinResponses'' (Configuration_ipv4ResolverMinResponses message),
      to_int ''ipv6ResolverMinResponses'' (Configuration_ipv6ResolverMinResponses message),
      to_bool ''notificationsEnabled'' (Configuration_notificationsEnabled message),
      to_bool ''notificationsOnSuccess'' (Configuration_notificationsOnSuccess message),
      to_list JStr ''notificationsRecipients'' (Configuration_notificationsRecipients message),
      to_int ''notificationsCooldownMinutes'' (Configuration_notificationsCooldownMinutes message),
      to_string ''notificationsSubjectPrefix'' (Configuration_notificationsSubjectPrefix message),
      to_bool ''acmeEnabled'' (Configuration_acmeEnabled message),
      to_string ''acmeEmail'' (Configuration_acmeEmail message),
      to_bool ''acmeStaging'' (Configuration_acmeStaging message),
      to_int ''acmeRenewBeforeDays'' (Configuration_acmeRenewBeforeDays message)]"

definition Configuration_toJSON :: "Configuration_pb \<Rightarrow> jsval" where
  "Configuration_toJSON message = to_obj (Configuration_fields message)"

definition Configuration_safe :: "(number \<Rightarrow> bool) \<Rightarrow> Configuration_pb \<Rightarrow> bool" where
  "Configuration_safe exact message \<longleftrightarrow>
     small_int (Configuration_logLevel message) \<and>
     short_text (Configuration_refreshCron message) \<and>
     list_all short_text (Configuration_dnsServers message) \<and>
     list_all short_text (Configuration_ipv4Resolvers message) \<and>
     list_all short_text (Configuration_ipv6Resolvers message) \<and>
     (Configuration_ipv4ResolverAgreementThreshold message = num 0 \<or> exact (Configuration_ipv4ResolverAgreementThreshold message)) \<and>
     (Configuration_ipv6ResolverAgreementThreshold message = num 0 \<or> exact (Configuration_ipv6ResolverAgreementThreshold message)) \<and>
     small_int (Configuration_ipv4ResolverMinResponses message) \<and>
     small_int (Configuration_ipv6ResolverMinResponses message) \<and>
     list_all short_text (Configuration_notificationsRecipients message) \<and>
     small_int (Configuration_notificationsCooldownMinutes message) \<and>
     short_text (Configuration_notificationsSubjectPrefix message) \<and>
     short_text (Configuration_acmeEmail message) \<and>
     small_int (Configuration_acmeRenewBeforeDays message)"

definition Configuration_whole :: "Configuration_pb \<Rightarrow> bool" where
  "Configuration_whole message \<longleftrightarrow>
     whole (Configuration_logLevel message) \<and>
     finite_num (Configuration_ipv4ResolverAgreementThreshold message) \<and>
     finite_num (Configuration_ipv6ResolverAgreementThreshold message) \<and>
     whole (Configuration_ipv4ResolverMinResponses message) \<and>
     whole (Configuration_ipv6ResolverMinResponses message) \<and>
     whole (Configuration_notificationsCooldownMinutes message) \<and>
     whole (Configuration_acmeRenewBeforeDays message)"

lemma Configuration_dispatch:
  "dispatch (Configuration_cases W) 8 = Some (read_int32 W Configuration_logLevel_update)"
  "dispatch (Configuration_cases W) 18 = Some (read_text W Configuration_refreshCron_update)"
  "dispatch (Configuration_cases W) 26 = Some (push_text W Configuration_dnsServers_update)"
  "dispatch (Configuration_cases W) 34 = Some (push_text W Configuration_ipv4Resolvers_update)"
  "dispatch (Configuration_cases W) 42 = Some (push_text W Configuration_ipv6Resolvers_update)"
  "dispatch (Configuration_cases W) 121 = Some (read_double W Configuration_ipv4ResolverAgreementThreshold_update)"
  "dispatch (Configuration_cases W) 129 = Some (read_double W Configuration_ipv6ResolverAgreementThreshold_update)"
  "dispatch (Configuration_cases W) 136 = Some (read_int32 W Configuration_ipv4ResolverMinResponses_update)"
  "dispatch (Configuration_cases W) 144 = Some (read_int32 W Configuration_ipv6ResolverMinResponses_update)"
  "dispatch (Configuration_cases W) 48 = Some (read_bool W Configuration_notificationsEnabled_update)"
  "dispatch (Configuration_cases W) 56 = Some (read_bool W Configuration_notificationsOnSuccess_update)"
  "dispatch (Configuration_cases W) 66 = Some (push_text W Configuration_notificationsRecipients_update)"
  "dispatch (Configuration_cases W) 72 = Some (read_int32 W Configuration_notificationsCooldownMinutes_update)"
  "dispatch (Configuration_cases W) 82 = Some (read_text W Configuration_notificationsSubjectPrefix_update)"
  "dispatch (Configuration_cases W) 88 = Some (read_bool W Configuration_acmeEnabled_update)"
  "dispatch (Configuration_cases W) 98 = Some (read_text W Configuration_acmeEmail_update)"
  "dispatch (Configuration_cases W) 104 = Some (read_bool W Configuration_acmeStaging_update)"
  "dispatch (Configuration_cases W) 112 = Some (read_int32 W Configuration_acmeRenewBeforeDays_update)"
  by (simp_all add: dispatch_def Configuration_cases_def)

lemma push_Configuration_dnsServers: "push_all vs Configuration_dnsServers_update m = Configuration_dnsServers_update (\<lambda>us. us @ vs) m"
  by (rule push_all_update) simp_all

lemma push_Configuration_ipv4Resolvers: "push_all vs Configuration_ipv4Resolvers_update m = Configuration_ipv4Resolvers_update (\<lambda>us. us @ vs) m"
  by (rule push_all_update) simp_all

lemma push_Configuration_ipv6Resolvers: "push_all vs Configuration_ipv6Resolvers_update m = Configuration_ipv6Resolvers_update (\<lambda>us. us @ vs) m"
  by (rule push_all_update) simp_all

lemma push_Configuration_notificationsRecipients: "push_all vs Configuration_notificationsRecipients_update m = Configuration_notificationsRecipients_update (\<lambda>us. us @ vs) m"
  by (rule push_all_update) simp_all

context wire_reader
begin

lemma Configuration_decode_returns: "decodes W (Configuration_decode W)"
  unfolding Configuration_decode_def by (rule decode_message_returns) (simp add: Configuration_cases_def)

end

context wire_format
begin

lemma Configuration_coded:
  assumes "Configuration_safe exact m"
  shows "coded W outs rest (Configuration_cases W) createBaseConfiguration (Configuration_encode W m) m (length (Configuration_dnsServers m) * 2097152 + length (Configuration_ipv4Resolvers m) * 2097152 + length (Configuration_ipv6Resolvers m) * 2097152 + length (Configuration_notificationsRecipients m) * 2097152 + 6291621)"
  by (insert assms [unfolded Configuration_safe_def], rule codedI, rule Configuration_encode_def,
      (rule field_codes Configuration_dispatch
       | simp add: when_set_update createBaseConfiguration_def push_Configuration_dnsServers push_Configuration_ipv4Resolvers push_Configuration_ipv6Resolvers push_Configuration_notificationsRecipients; fail)+)

lemma Configuration_transmits:
  "Configuration_safe exact m \<Longrightarrow> transmits W outs rest (Configuration_encode W) (Configuration_decode W) m (length (Configuration_dnsServers m) * 2097152 + length (Configuration_ipv4Resolvers m) * 2097152 + length (Configuration_ipv6Resolvers m) * 2097152 + length (Configuration_notificationsRecipients m) * 2097152 + 6291621)"
  by (rule transmits_message [OF Configuration_coded Configuration_decode_def])

end

lemma Configuration_plain: "plain_keys (Configuration_fields m)"
  by (simp add: plain_keys_def Configuration_fields_def to_defs array_index_def is_digit_def)

lemma Configuration_sends:
  "to_int ''logLevel'' (Configuration_logLevel m) \<in> set (Configuration_fields m)"
  "to_string ''refreshCron'' (Configuration_refreshCron m) \<in> set (Configuration_fields m)"
  "to_list JStr ''dnsServers'' (Configuration_dnsServers m) \<in> set (Configuration_fields m)"
  "to_list JStr ''ipv4Resolvers'' (Configuration_ipv4Resolvers m) \<in> set (Configuration_fields m)"
  "to_list JStr ''ipv6Resolvers'' (Configuration_ipv6Resolvers m) \<in> set (Configuration_fields m)"
  "to_double ''ipv4ResolverAgreementThreshold'' (Configuration_ipv4ResolverAgreementThreshold m) \<in> set (Configuration_fields m)"
  "to_double ''ipv6ResolverAgreementThreshold'' (Configuration_ipv6ResolverAgreementThreshold m) \<in> set (Configuration_fields m)"
  "to_int ''ipv4ResolverMinResponses'' (Configuration_ipv4ResolverMinResponses m) \<in> set (Configuration_fields m)"
  "to_int ''ipv6ResolverMinResponses'' (Configuration_ipv6ResolverMinResponses m) \<in> set (Configuration_fields m)"
  "to_bool ''notificationsEnabled'' (Configuration_notificationsEnabled m) \<in> set (Configuration_fields m)"
  "to_bool ''notificationsOnSuccess'' (Configuration_notificationsOnSuccess m) \<in> set (Configuration_fields m)"
  "to_list JStr ''notificationsRecipients'' (Configuration_notificationsRecipients m) \<in> set (Configuration_fields m)"
  "to_int ''notificationsCooldownMinutes'' (Configuration_notificationsCooldownMinutes m) \<in> set (Configuration_fields m)"
  "to_string ''notificationsSubjectPrefix'' (Configuration_notificationsSubjectPrefix m) \<in> set (Configuration_fields m)"
  "to_bool ''acmeEnabled'' (Configuration_acmeEnabled m) \<in> set (Configuration_fields m)"
  "to_string ''acmeEmail'' (Configuration_acmeEmail m) \<in> set (Configuration_fields m)"
  "to_bool ''acmeStaging'' (Configuration_acmeStaging m) \<in> set (Configuration_fields m)"
  "to_int ''acmeRenewBeforeDays'' (Configuration_acmeRenewBeforeDays m) \<in> set (Configuration_fields m)"
  by (simp_all add: Configuration_fields_def)

lemma Configuration_isSet: "isSet (Configuration_toJSON m)"
  by (simp add: Configuration_toJSON_def)

lemma Configuration_json:
  assumes "Configuration_whole m"
  shows "Configuration_fromJSON (Configuration_toJSON m) = Inr m"
  unfolding Configuration_fromJSON_def Configuration_toJSON_def from_fields_def list.map
  by (insert assms [unfolded Configuration_whole_def],
      (rule field_sent Configuration_plain Configuration_sends
       | simp add: createBaseConfiguration_def whole_round; fail | simp add: Configuration_fields_def to_defs; fail)+)

lemma Configuration_json_ok: "Configuration_whole m \<Longrightarrow> json_ok (Configuration_toJSON m)"
  unfolding Configuration_toJSON_def Configuration_whole_def
  by (rule json_ok_to_obj [OF Configuration_plain])
    (simp add: Configuration_fields_def field_oks list_all_iff pred_option_conv)

subsection \<open>LogEntry\<close>

record LogEntry_pb =
  LogEntry_timestamp :: number
  LogEntry_level :: number
  LogEntry_message :: string

definition createBaseLogEntry :: LogEntry_pb where
  "createBaseLogEntry =
     \<lparr>LogEntry_timestamp = num 0, LogEntry_level = num 0, LogEntry_message = ''''\<rparr>"

definition LogEntry_encode :: "('w, 'r) wire \<Rightarrow> LogEntry_pb \<Rightarrow> 'w \<Rightarrow> string + 'w" where
  "LogEntry_encode W message =
     in_turn
       [field_int64 W 8 (LogEntry_timestamp message),
        field_int32 W 16 (LogEntry_level message),
        field_string W 26 (LogEntry_message message)]"

definition LogEntry_cases :: "('w, 'r) wire \<Rightarrow> (nat \<times> nat \<times> (LogEntry_pb, 'r) action) list" where
  "LogEntry_cases W =
     [(1, 8, read_int64 W LogEntry_timestamp_update),
      (2, 16, read_int32 W LogEntry_level_update),
      (3, 26, read_text W LogEntry_message_update)]"

definition LogEntry_decode :: "('w, 'r) wire \<Rightarrow> (LogEntry_pb, 'r) decoder" where
  "LogEntry_decode W = decode_message W (LogEntry_cases W) createBaseLogEntry"

definition LogEntry_fromJSON :: "jsval \<Rightarrow> string + LogEntry_pb" where
  "LogEntry_fromJSON =
     from_fields
       [from_number [''timestamp''] LogEntry_timestamp_update,
        from_number [''level''] LogEntry_level_update,
        from_string [''message''] LogEntry_message_update]
       createBaseLogEntry"

definition LogEntry_fields :: "LogEntry_pb \<Rightarrow> to_field list" where
  "LogEntry_fields message =
     [to_int ''timestamp'' (LogEntry_timestamp message),
      to_int ''level'' (LogEntry_level message),
      to_string ''message'' (LogEntry_message message)]"

definition LogEntry_toJSON :: "LogEntry_pb \<Rightarrow> jsval" where
  "LogEntry_toJSON message = to_obj (LogEntry_fields message)"

definition LogEntry_safe :: "LogEntry_pb \<Rightarrow> bool" where
  "LogEntry_safe message \<longleftrightarrow>
     safe_int (LogEntry_timestamp message) \<and>
     small_int (LogEntry_level message) \<and>
     short_text (LogEntry_message message)"

definition LogEntry_whole :: "LogEntry_pb \<Rightarrow> bool" where
  "LogEntry_whole message \<longleftrightarrow>
     whole (LogEntry_timestamp message) \<and>
     whole (LogEntry_level message)"

lemma LogEntry_dispatch:
  "dispatch (LogEntry_cases W) 8 = Some (read_int64 W LogEntry_timestamp_update)"
  "dispatch (LogEntry_cases W) 16 = Some (read_int32 W LogEntry_level_update)"
  "dispatch (LogEntry_cases W) 26 = Some (read_text W LogEntry_message_update)"
  by (simp_all add: dispatch_def LogEntry_cases_def)

context wire_reader
begin

lemma LogEntry_decode_returns: "decodes W (LogEntry_decode W)"
  unfolding LogEntry_decode_def by (rule decode_message_returns) (simp add: LogEntry_cases_def)

end

context wire_format
begin

lemma LogEntry_coded:
  assumes "LogEntry_safe m"
  shows "coded W outs rest (LogEntry_cases W) createBaseLogEntry (LogEntry_encode W m) m 2097182"
  by (insert assms [unfolded LogEntry_safe_def], rule codedI, rule LogEntry_encode_def,
      (rule field_codes LogEntry_dispatch
       | simp add: when_set_update createBaseLogEntry_def; fail)+)

lemma LogEntry_transmits:
  "LogEntry_safe m \<Longrightarrow> transmits W outs rest (LogEntry_encode W) (LogEntry_decode W) m 2097182"
  by (rule transmits_message [OF LogEntry_coded LogEntry_decode_def])

end

lemma LogEntry_plain: "plain_keys (LogEntry_fields m)"
  by (simp add: plain_keys_def LogEntry_fields_def to_defs array_index_def is_digit_def)

lemma LogEntry_sends:
  "to_int ''timestamp'' (LogEntry_timestamp m) \<in> set (LogEntry_fields m)"
  "to_int ''level'' (LogEntry_level m) \<in> set (LogEntry_fields m)"
  "to_string ''message'' (LogEntry_message m) \<in> set (LogEntry_fields m)"
  by (simp_all add: LogEntry_fields_def)

lemma LogEntry_isSet: "isSet (LogEntry_toJSON m)"
  by (simp add: LogEntry_toJSON_def)

lemma LogEntry_json:
  assumes "LogEntry_whole m"
  shows "LogEntry_fromJSON (LogEntry_toJSON m) = Inr m"
  unfolding LogEntry_fromJSON_def LogEntry_toJSON_def from_fields_def list.map
  by (insert assms [unfolded LogEntry_whole_def],
      (rule field_sent LogEntry_plain LogEntry_sends
       | simp add: createBaseLogEntry_def whole_round; fail | simp add: LogEntry_fields_def to_defs; fail)+)

lemma LogEntry_json_ok: "LogEntry_whole m \<Longrightarrow> json_ok (LogEntry_toJSON m)"
  unfolding LogEntry_toJSON_def LogEntry_whole_def
  by (rule json_ok_to_obj [OF LogEntry_plain])
    (simp add: LogEntry_fields_def field_oks list_all_iff pred_option_conv)

end
