(* ===== verification/PartialMessages.thy ===== *)
theory PartialMessages
  imports PartialFields TaskMessages ConfigMessages
begin

text \<open>
  Messages made from some of their fields (\<^verbatim>\<open>global/model/api.ts\<close>): for each message the
  record of what a caller may give (the type \<open>DeepPartial\<close>, in which every field is optional),
  \<open>fromPartial\<close> and \<open>create\<close>. \<open>X_given\<close> is the object that holds what is given, and the
  lemma \<open>X_made\<close> says that \<open>fromJSON\<close> makes the same message of it, but for the numbers an
  enumeration does not list, which \<open>fromJSON\<close> reads as \<open>UNRECOGNIZED\<close>: \<open>X_numbered\<close>.
\<close>

text \<open>How \<open>fromJSON\<close> reads a number as a value of an enumeration.\<close>

definition enum_number :: "number \<Rightarrow> number" where
  "enum_number n = (if known_enum n then n else num UNRECOGNIZED)"

lemma recordPurpose_number: "recordPurposeFromJSON (JNum n) = enum_number n"
  by (auto simp: enum_number_def known_enum_def recordPurposeFromJSON_def)

lemma taskTrigger_number: "taskTriggerFromJSON (JNum n) = enum_number n"
  by (auto simp: enum_number_def known_enum_def taskTriggerFromJSON_def)

subsection \<open>Empty\<close>

type_synonym Empty_partial = unit

definition Empty_fromPartial :: "Empty_partial \<Rightarrow> Empty_pb" where
  "Empty_fromPartial object = createBaseEmpty"

definition Empty_create :: "Empty_partial option \<Rightarrow> Empty_pb" where
  "Empty_create base = Empty_fromPartial (nullish base ())"

subsection \<open>Line\<close>

record Line_partial =
  Line_p_line :: "string option"

definition no_Line :: Line_partial where
  "no_Line =
     \<lparr>Line_p_line = None\<rparr>"

definition Line_fromPartial :: "Line_partial \<Rightarrow> Line_pb" where
  "Line_fromPartial object =
     createBaseLine
       \<lparr>Line_line := nullish (Line_p_line object) ''''\<rparr>"

definition Line_create :: "Line_partial option \<Rightarrow> Line_pb" where
  "Line_create base = Line_fromPartial (nullish base no_Line)"

definition Line_object :: "Line_partial \<Rightarrow> to_field list" where
  "Line_object object =
     [given JStr ''line'' (Line_p_line object)]"

definition Line_given :: "Line_partial \<Rightarrow> jsval" where
  "Line_given object = to_obj (Line_object object)"

lemma Line_object_plain: "plain_keys (Line_object p)"
  by (simp add: plain_keys_def Line_object_def given_def array_index_def is_digit_def)

lemma Line_gives:
  "given JStr ''line'' (Line_p_line p) \<in> set (Line_object p)"
  by (simp_all add: Line_object_def)

lemma Line_given_set: "isSet (Line_given p)"
  by (simp add: Line_given_def)

lemma Line_read: "Line_fromJSON (Line_given p) = Inr (Line_fromPartial p)"
  unfolding Line_fromJSON_def Line_given_def from_fields_def list.map
  by ((rule field_given Line_object_plain Line_gives
       | simp add: createBaseLine_def Line_fromPartial_def o_def option.map_comp; fail | simp add: Line_object_def given_def; fail)+)

lemma Line_made: "Line_fromJSON (Line_given (nullish b no_Line)) = Inr (Line_create b)"
  by (cases b) (simp_all add: Line_read Line_create_def)

subsection \<open>Request\<close>

record Request_partial =
  Request_p_search :: "string option"

definition no_Request :: Request_partial where
  "no_Request =
     \<lparr>Request_p_search = None\<rparr>"

definition Request_fromPartial :: "Request_partial \<Rightarrow> Request_pb" where
  "Request_fromPartial object =
     createBaseRequest
       \<lparr>Request_search := nullish (Request_p_search object) ''''\<rparr>"

definition Request_create :: "Request_partial option \<Rightarrow> Request_pb" where
  "Request_create base = Request_fromPartial (nullish base no_Request)"

subsection \<open>Address\<close>

record Address_partial =
  Address_p_id :: "number option"
  Address_p_createdAt :: "number option"
  Address_p_updatedAt :: "number option"
  Address_p_ipv4 :: "string option"
  Address_p_ipv6 :: "string option"
  Address_p_current :: "bool option"

definition no_Address :: Address_partial where
  "no_Address =
     \<lparr>Address_p_id = None, Address_p_createdAt = None, Address_p_updatedAt = None,
      Address_p_ipv4 = None, Address_p_ipv6 = None, Address_p_current = None\<rparr>"

definition Address_fromPartial :: "Address_partial \<Rightarrow> Address_pb" where
  "Address_fromPartial object =
     createBaseAddress
       \<lparr>Address_id := nullish (Address_p_id object) (num 0),
        Address_createdAt := nullish (Address_p_createdAt object) (num 0),
        Address_updatedAt := nullish (Address_p_updatedAt object) (num 0),
        Address_ipv4 := nullish (Address_p_ipv4 object) '''',
        Address_ipv6 := nullish (Address_p_ipv6 object) '''',
        Address_current := nullish (Address_p_current object) False\<rparr>"

definition Address_create :: "Address_partial option \<Rightarrow> Address_pb" where
  "Address_create base = Address_fromPartial (nullish base no_Address)"

definition Address_object :: "Address_partial \<Rightarrow> to_field list" where
  "Address_object object =
     [given JNum ''id'' (Address_p_id object),
      given JNum ''createdAt'' (Address_p_createdAt object),
      given JNum ''updatedAt'' (Address_p_updatedAt object),
      given JStr ''ipv4'' (Address_p_ipv4 object),
      given JStr ''ipv6'' (Address_p_ipv6 object),
      given JBool ''current'' (Address_p_current object)]"

definition Address_given :: "Address_partial \<Rightarrow> jsval" where
  "Address_given object = to_obj (Address_object object)"

lemma Address_object_plain: "plain_keys (Address_object p)"
  by (simp add: plain_keys_def Address_object_def given_def array_index_def is_digit_def)

lemma Address_gives:
  "given JNum ''id'' (Address_p_id p) \<in> set (Address_object p)"
  "given JNum ''createdAt'' (Address_p_createdAt p) \<in> set (Address_object p)"
  "given JNum ''updatedAt'' (Address_p_updatedAt p) \<in> set (Address_object p)"
  "given JStr ''ipv4'' (Address_p_ipv4 p) \<in> set (Address_object p)"
  "given JStr ''ipv6'' (Address_p_ipv6 p) \<in> set (Address_object p)"
  "given JBool ''current'' (Address_p_current p) \<in> set (Address_object p)"
  by (simp_all add: Address_object_def)

lemma Address_given_set: "isSet (Address_given p)"
  by (simp add: Address_given_def)

lemma Address_read: "Address_fromJSON (Address_given p) = Inr (Address_fromPartial p)"
  unfolding Address_fromJSON_def Address_given_def from_fields_def list.map
  by ((rule field_given Address_object_plain Address_gives
       | simp add: createBaseAddress_def Address_fromPartial_def o_def option.map_comp; fail | simp add: Address_object_def given_def; fail)+)

lemma Address_made: "Address_fromJSON (Address_given (nullish b no_Address)) = Inr (Address_create b)"
  by (cases b) (simp_all add: Address_read Address_create_def)

subsection \<open>AddressHistory\<close>

record AddressHistory_partial =
  AddressHistory_p_addresses :: "Address_partial list option"

definition no_AddressHistory :: AddressHistory_partial where
  "no_AddressHistory =
     \<lparr>AddressHistory_p_addresses = None\<rparr>"

definition AddressHistory_fromPartial :: "AddressHistory_partial \<Rightarrow> AddressHistory_pb" where
  "AddressHistory_fromPartial object =
     createBaseAddressHistory
       \<lparr>AddressHistory_addresses := nullish (map_option (map Address_fromPartial) (AddressHistory_p_addresses object)) []\<rparr>"

definition AddressHistory_create :: "AddressHistory_partial option \<Rightarrow> AddressHistory_pb" where
  "AddressHistory_create base = AddressHistory_fromPartial (nullish base no_AddressHistory)"

definition AddressHistory_object :: "AddressHistory_partial \<Rightarrow> to_field list" where
  "AddressHistory_object object =
     [given (array_of Address_given) ''addresses'' (AddressHistory_p_addresses object)]"

definition AddressHistory_given :: "AddressHistory_partial \<Rightarrow> jsval" where
  "AddressHistory_given object = to_obj (AddressHistory_object object)"

lemma AddressHistory_object_plain: "plain_keys (AddressHistory_object p)"
  by (simp add: plain_keys_def AddressHistory_object_def given_def array_index_def is_digit_def)

lemma AddressHistory_gives:
  "given (array_of Address_given) ''addresses'' (AddressHistory_p_addresses p) \<in> set (AddressHistory_object p)"
  by (simp_all add: AddressHistory_object_def)

lemma AddressHistory_given_set: "isSet (AddressHistory_given p)"
  by (simp add: AddressHistory_given_def)

lemma AddressHistory_read: "AddressHistory_fromJSON (AddressHistory_given p) = Inr (AddressHistory_fromPartial p)"
  unfolding AddressHistory_fromJSON_def AddressHistory_given_def from_fields_def list.map
  by ((rule field_given AddressHistory_object_plain AddressHistory_gives
       | simp add: createBaseAddressHistory_def AddressHistory_fromPartial_def Address_read Address_given_set o_def option.map_comp; fail | simp add: AddressHistory_object_def given_def; fail)+)

lemma AddressHistory_made: "AddressHistory_fromJSON (AddressHistory_given (nullish b no_AddressHistory)) = Inr (AddressHistory_create b)"
  by (cases b) (simp_all add: AddressHistory_read AddressHistory_create_def)

subsection \<open>Certificate\<close>

record Certificate_partial =
  Certificate_p_id :: "number option"
  Certificate_p_createdAt :: "number option"
  Certificate_p_updatedAt :: "number option"
  Certificate_p_recordId :: "number option"
  Certificate_p_domains :: "string option"
  Certificate_p_status :: "string option"
  Certificate_p_notBefore :: "number option"
  Certificate_p_notAfter :: "number option"
  Certificate_p_serial :: "string option"
  Certificate_p_lastError :: "string option"

definition no_Certificate :: Certificate_partial where
  "no_Certificate =
     \<lparr>Certificate_p_id = None, Certificate_p_createdAt = None,
      Certificate_p_updatedAt = None, Certificate_p_recordId = None,
      Certificate_p_domains = None, Certificate_p_status = None,
      Certificate_p_notBefore = None, Certificate_p_notAfter = None,
      Certificate_p_serial = None, Certificate_p_lastError = None\<rparr>"

definition Certificate_fromPartial :: "Certificate_partial \<Rightarrow> Certificate_pb" where
  "Certificate_fromPartial object =
     createBaseCertificate
       \<lparr>Certificate_id := nullish (Certificate_p_id object) (num 0),
        Certificate_createdAt := nullish (Certificate_p_createdAt object) (num 0),
        Certificate_updatedAt := nullish (Certificate_p_updatedAt object) (num 0),
        Certificate_recordId := nullish (Certificate_p_recordId object) (num 0),
        Certificate_domains := nullish (Certificate_p_domains object) '''',
        Certificate_status := nullish (Certificate_p_status object) '''',
        Certificate_notBefore := nullish (Certificate_p_notBefore object) (num 0),
        Certificate_notAfter := nullish (Certificate_p_notAfter object) (num 0),
        Certificate_serial := nullish (Certificate_p_serial object) '''',
        Certificate_lastError := nullish (Certificate_p_lastError object) ''''\<rparr>"

definition Certificate_create :: "Certificate_partial option \<Rightarrow> Certificate_pb" where
  "Certificate_create base = Certificate_fromPartial (nullish base no_Certificate)"

definition Certificate_object :: "Certificate_partial \<Rightarrow> to_field list" where
  "Certificate_object object =
     [given JNum ''id'' (Certificate_p_id object),
      given JNum ''createdAt'' (Certificate_p_createdAt object),
      given JNum ''updatedAt'' (Certificate_p_updatedAt object),
      given JNum ''recordId'' (Certificate_p_recordId object),
      given JStr ''domains'' (Certificate_p_domains object),
      given JStr ''status'' (Certificate_p_status object),
      given JNum ''notBefore'' (Certificate_p_notBefore object),
      given JNum ''notAfter'' (Certificate_p_notAfter object),
      given JStr ''serial'' (Certificate_p_serial object),
      given JStr ''lastError'' (Certificate_p_lastError object)]"

definition Certificate_given :: "Certificate_partial \<Rightarrow> jsval" where
  "Certificate_given object = to_obj (Certificate_object object)"

lemma Certificate_object_plain: "plain_keys (Certificate_object p)"
  by (simp add: plain_keys_def Certificate_object_def given_def array_index_def is_digit_def)

lemma Certificate_gives:
  "given JNum ''id'' (Certificate_p_id p) \<in> set (Certificate_object p)"
  "given JNum ''createdAt'' (Certificate_p_createdAt p) \<in> set (Certificate_object p)"
  "given JNum ''updatedAt'' (Certificate_p_updatedAt p) \<in> set (Certificate_object p)"
  "given JNum ''recordId'' (Certificate_p_recordId p) \<in> set (Certificate_object p)"
  "given JStr ''domains'' (Certificate_p_domains p) \<in> set (Certificate_object p)"
  "given JStr ''status'' (Certificate_p_status p) \<in> set (Certificate_object p)"
  "given JNum ''notBefore'' (Certificate_p_notBefore p) \<in> set (Certificate_object p)"
  "given JNum ''notAfter'' (Certificate_p_notAfter p) \<in> set (Certificate_object p)"
  "given JStr ''serial'' (Certificate_p_serial p) \<in> set (Certificate_object p)"
  "given JStr ''lastError'' (Certificate_p_lastError p) \<in> set (Certificate_object p)"
  by (simp_all add: Certificate_object_def)

lemma Certificate_given_set: "isSet (Certificate_given p)"
  by (simp add: Certificate_given_def)

lemma Certificate_read: "Certificate_fromJSON (Certificate_given p) = Inr (Certificate_fromPartial p)"
  unfolding Certificate_fromJSON_def Certificate_given_def from_fields_def list.map
  by ((rule field_given Certificate_object_plain Certificate_gives
       | simp add: createBaseCertificate_def Certificate_fromPartial_def o_def option.map_comp; fail | simp add: Certificate_object_def given_def; fail)+)

lemma Certificate_made: "Certificate_fromJSON (Certificate_given (nullish b no_Certificate)) = Inr (Certificate_create b)"
  by (cases b) (simp_all add: Certificate_read Certificate_create_def)

subsection \<open>CertificateList\<close>

record CertificateList_partial =
  CertificateList_p_certificates :: "Certificate_partial list option"

definition no_CertificateList :: CertificateList_partial where
  "no_CertificateList =
     \<lparr>CertificateList_p_certificates = None\<rparr>"

definition CertificateList_fromPartial :: "CertificateList_partial \<Rightarrow> CertificateList_pb" where
  "CertificateList_fromPartial object =
     createBaseCertificateList
       \<lparr>CertificateList_certificates := nullish (map_option (map Certificate_fromPartial) (CertificateList_p_certificates object)) []\<rparr>"

definition CertificateList_create :: "CertificateList_partial option \<Rightarrow> CertificateList_pb" where
  "CertificateList_create base = CertificateList_fromPartial (nullish base no_CertificateList)"

definition CertificateList_object :: "CertificateList_partial \<Rightarrow> to_field list" where
  "CertificateList_object object =
     [given (array_of Certificate_given) ''certificates'' (CertificateList_p_certificates object)]"

definition CertificateList_given :: "CertificateList_partial \<Rightarrow> jsval" where
  "CertificateList_given object = to_obj (CertificateList_object object)"

lemma CertificateList_object_plain: "plain_keys (CertificateList_object p)"
  by (simp add: plain_keys_def CertificateList_object_def given_def array_index_def is_digit_def)

lemma CertificateList_gives:
  "given (array_of Certificate_given) ''certificates'' (CertificateList_p_certificates p) \<in> set (CertificateList_object p)"
  by (simp_all add: CertificateList_object_def)

lemma CertificateList_given_set: "isSet (CertificateList_given p)"
  by (simp add: CertificateList_given_def)

lemma CertificateList_read: "CertificateList_fromJSON (CertificateList_given p) = Inr (CertificateList_fromPartial p)"
  unfolding CertificateList_fromJSON_def CertificateList_given_def from_fields_def list.map
  by ((rule field_given CertificateList_object_plain CertificateList_gives
       | simp add: createBaseCertificateList_def CertificateList_fromPartial_def Certificate_read Certificate_given_set o_def option.map_comp; fail | simp add: CertificateList_object_def given_def; fail)+)

lemma CertificateList_made: "CertificateList_fromJSON (CertificateList_given (nullish b no_CertificateList)) = Inr (CertificateList_create b)"
  by (cases b) (simp_all add: CertificateList_read CertificateList_create_def)

subsection \<open>Record\<close>

record Record_partial =
  Record_p_id :: "number option"
  Record_p_createdAt :: "number option"
  Record_p_updatedAt :: "number option"
  Record_p_token :: "string option"
  Record_p_zoneId :: "number option"
  Record_p_domain :: "string option"
  Record_p_name :: "string option"
  Record_p_ttl :: "number option"
  Record_p_addressId :: "number option"
  Record_p_address :: "Address_partial option"
  Record_p_purpose :: "number option"
  Record_p_includeWildcard :: "bool option"
  Record_p_certificate :: "Certificate_partial option"
  Record_p_acmeEmail :: "string option"

definition no_Record :: Record_partial where
  "no_Record =
     \<lparr>Record_p_id = None, Record_p_createdAt = None, Record_p_updatedAt = None,
      Record_p_token = None, Record_p_zoneId = None, Record_p_domain = None,
      Record_p_name = None, Record_p_ttl = None, Record_p_addressId = None,
      Record_p_address = None, Record_p_purpose = None, Record_p_includeWildcard = None,
      Record_p_certificate = None, Record_p_acmeEmail = None\<rparr>"

definition Record_fromPartial :: "Record_partial \<Rightarrow> Record_pb" where
  "Record_fromPartial object =
     createBaseRecord
       \<lparr>Record_id := nullish (Record_p_id object) (num 0),
        Record_createdAt := nullish (Record_p_createdAt object) (num 0),
        Record_updatedAt := nullish (Record_p_updatedAt object) (num 0),
        Record_token := nullish (Record_p_token object) '''',
        Record_zoneId := nullish (Record_p_zoneId object) (num 0),
        Record_domain := nullish (Record_p_domain object) '''',
        Record_name := nullish (Record_p_name object) '''',
        Record_ttl := nullish (Record_p_ttl object) (num 0),
        Record_addressId := nullish (Record_p_addressId object) (num 0),
        Record_address := map_option Address_fromPartial (Record_p_address object),
        Record_purpose := nullish (Record_p_purpose object) (num 0),
        Record_includeWildcard := nullish (Record_p_includeWildcard object) False,
        Record_certificate := map_option Certificate_fromPartial (Record_p_certificate object),
        Record_acmeEmail := nullish (Record_p_acmeEmail object) ''''\<rparr>"

definition Record_create :: "Record_partial option \<Rightarrow> Record_pb" where
  "Record_create base = Record_fromPartial (nullish base no_Record)"

definition Record_object :: "Record_partial \<Rightarrow> to_field list" where
  "Record_object object =
     [given JNum ''id'' (Record_p_id object),
      given JNum ''createdAt'' (Record_p_createdAt object),
      given JNum ''updatedAt'' (Record_p_updatedAt object),
      given JStr ''token'' (Record_p_token object),
      given JNum ''zoneId'' (Record_p_zoneId object),
      given JStr ''domain'' (Record_p_domain object),
      given JStr ''name'' (Record_p_name object),
      given JNum ''ttl'' (Record_p_ttl object),
      given JNum ''addressId'' (Record_p_addressId object),
      given Address_given ''address'' (Record_p_address object),
      given JNum ''purpose'' (Record_p_purpose object),
      given JBool ''includeWildcard'' (Record_p_includeWildcard object),
      given Certificate_given ''certificate'' (Record_p_certificate object),
      given JStr ''acmeEmail'' (Record_p_acmeEmail object)]"

definition Record_given :: "Record_partial \<Rightarrow> jsval" where
  "Record_given object = to_obj (Record_object object)"

definition Record_numbered :: "Record_partial \<Rightarrow> Record_partial" where
  "Record_numbered object = object\<lparr>Record_p_purpose := map_option enum_number (Record_p_purpose object)\<rparr>"

lemma Record_object_plain: "plain_keys (Record_object p)"
  by (simp add: plain_keys_def Record_object_def given_def array_index_def is_digit_def)

lemma Record_gives:
  "given JNum ''id'' (Record_p_id p) \<in> set (Record_object p)"
  "given JNum ''createdAt'' (Record_p_createdAt p) \<in> set (Record_object p)"
  "given JNum ''updatedAt'' (Record_p_updatedAt p) \<in> set (Record_object p)"
  "given JStr ''token'' (Record_p_token p) \<in> set (Record_object p)"
  "given JNum ''zoneId'' (Record_p_zoneId p) \<in> set (Record_object p)"
  "given JStr ''domain'' (Record_p_domain p) \<in> set (Record_object p)"
  "given JStr ''name'' (Record_p_name p) \<in> set (Record_object p)"
  "given JNum ''ttl'' (Record_p_ttl p) \<in> set (Record_object p)"
  "given JNum ''addressId'' (Record_p_addressId p) \<in> set (Record_object p)"
  "given Address_given ''address'' (Record_p_address p) \<in> set (Record_object p)"
  "given JNum ''purpose'' (Record_p_purpose p) \<in> set (Record_object p)"
  "given JBool ''includeWildcard'' (Record_p_includeWildcard p) \<in> set (Record_object p)"
  "given Certificate_given ''certificate'' (Record_p_certificate p) \<in> set (Record_object p)"
  "given JStr ''acmeEmail'' (Record_p_acmeEmail p) \<in> set (Record_object p)"
  by (simp_all add: Record_object_def)

lemma Record_given_set: "isSet (Record_given p)"
  by (simp add: Record_given_def)

lemma Record_read: "Record_fromJSON (Record_given p) = Inr (Record_fromPartial (Record_numbered p))"
  unfolding Record_fromJSON_def Record_given_def from_fields_def list.map
  by ((rule field_given Record_object_plain Record_gives
       | simp add: createBaseRecord_def Record_fromPartial_def recordPurpose_number Address_read Address_given_set Certificate_read Certificate_given_set Record_numbered_def o_def option.map_comp; fail | simp add: Record_object_def given_def; fail)+)

lemma Record_made: "Record_fromJSON (Record_given (nullish b no_Record)) = Inr (Record_create (map_option Record_numbered b))"
  by (cases b) (simp_all add: Record_read Record_create_def Record_numbered_def no_Record_def)

subsection \<open>RecordList\<close>

record RecordList_partial =
  RecordList_p_records :: "Record_partial list option"

definition no_RecordList :: RecordList_partial where
  "no_RecordList =
     \<lparr>RecordList_p_records = None\<rparr>"

definition RecordList_fromPartial :: "RecordList_partial \<Rightarrow> RecordList_pb" where
  "RecordList_fromPartial object =
     createBaseRecordList
       \<lparr>RecordList_records := nullish (map_option (map Record_fromPartial) (RecordList_p_records object)) []\<rparr>"

definition RecordList_create :: "RecordList_partial option \<Rightarrow> RecordList_pb" where
  "RecordList_create base = RecordList_fromPartial (nullish base no_RecordList)"

definition RecordList_object :: "RecordList_partial \<Rightarrow> to_field list" where
  "RecordList_object object =
     [given (array_of Record_given) ''records'' (RecordList_p_records object)]"

definition RecordList_given :: "RecordList_partial \<Rightarrow> jsval" where
  "RecordList_given object = to_obj (RecordList_object object)"

definition RecordList_numbered :: "RecordList_partial \<Rightarrow> RecordList_partial" where
  "RecordList_numbered object = object\<lparr>RecordList_p_records := map_option (map Record_numbered) (RecordList_p_records object)\<rparr>"

lemma RecordList_object_plain: "plain_keys (RecordList_object p)"
  by (simp add: plain_keys_def RecordList_object_def given_def array_index_def is_digit_def)

lemma RecordList_gives:
  "given (array_of Record_given) ''records'' (RecordList_p_records p) \<in> set (RecordList_object p)"
  by (simp_all add: RecordList_object_def)

lemma RecordList_given_set: "isSet (RecordList_given p)"
  by (simp add: RecordList_given_def)

lemma RecordList_read: "RecordList_fromJSON (RecordList_given p) = Inr (RecordList_fromPartial (RecordList_numbered p))"
  unfolding RecordList_fromJSON_def RecordList_given_def from_fields_def list.map
  by ((rule field_given RecordList_object_plain RecordList_gives
       | simp add: createBaseRecordList_def RecordList_fromPartial_def Record_read Record_given_set RecordList_numbered_def o_def option.map_comp; fail | simp add: RecordList_object_def given_def; fail)+)

lemma RecordList_made: "RecordList_fromJSON (RecordList_given (nullish b no_RecordList)) = Inr (RecordList_create (map_option RecordList_numbered b))"
  by (cases b) (simp_all add: RecordList_read RecordList_create_def RecordList_numbered_def no_RecordList_def)

subsection \<open>RecordDelete\<close>

record RecordDelete_partial =
  RecordDelete_p_record :: "Record_partial option"
  RecordDelete_p_deleteFromHetzner :: "bool option"

definition no_RecordDelete :: RecordDelete_partial where
  "no_RecordDelete =
     \<lparr>RecordDelete_p_record = None, RecordDelete_p_deleteFromHetzner = None\<rparr>"

definition RecordDelete_fromPartial :: "RecordDelete_partial \<Rightarrow> RecordDelete_pb" where
  "RecordDelete_fromPartial object =
     createBaseRecordDelete
       \<lparr>RecordDelete_record := map_option Record_fromPartial (RecordDelete_p_record object),
        RecordDelete_deleteFromHetzner := nullish (RecordDelete_p_deleteFromHetzner object) False\<rparr>"

definition RecordDelete_create :: "RecordDelete_partial option \<Rightarrow> RecordDelete_pb" where
  "RecordDelete_create base = RecordDelete_fromPartial (nullish base no_RecordDelete)"

definition RecordDelete_object :: "RecordDelete_partial \<Rightarrow> to_field list" where
  "RecordDelete_object object =
     [given Record_given ''record'' (RecordDelete_p_record object),
      given JBool ''deleteFromHetzner'' (RecordDelete_p_deleteFromHetzner object)]"

definition RecordDelete_given :: "RecordDelete_partial \<Rightarrow> jsval" where
  "RecordDelete_given object = to_obj (RecordDelete_object object)"

definition RecordDelete_numbered :: "RecordDelete_partial \<Rightarrow> RecordDelete_partial" where
  "RecordDelete_numbered object = object\<lparr>RecordDelete_p_record := map_option Record_numbered (RecordDelete_p_record object)\<rparr>"

lemma RecordDelete_object_plain: "plain_keys (RecordDelete_object p)"
  by (simp add: plain_keys_def RecordDelete_object_def given_def array_index_def is_digit_def)

lemma RecordDelete_gives:
  "given Record_given ''record'' (RecordDelete_p_record p) \<in> set (RecordDelete_object p)"
  "given JBool ''deleteFromHetzner'' (RecordDelete_p_deleteFromHetzner p) \<in> set (RecordDelete_object p)"
  by (simp_all add: RecordDelete_object_def)

lemma RecordDelete_given_set: "isSet (RecordDelete_given p)"
  by (simp add: RecordDelete_given_def)

lemma RecordDelete_read: "RecordDelete_fromJSON (RecordDelete_given p) = Inr (RecordDelete_fromPartial (RecordDelete_numbered p))"
  unfolding RecordDelete_fromJSON_def RecordDelete_given_def from_fields_def list.map
  by ((rule field_given RecordDelete_object_plain RecordDelete_gives
       | simp add: createBaseRecordDelete_def RecordDelete_fromPartial_def Record_read Record_given_set RecordDelete_numbered_def o_def option.map_comp; fail | simp add: RecordDelete_object_def given_def; fail)+)

lemma RecordDelete_made: "RecordDelete_fromJSON (RecordDelete_given (nullish b no_RecordDelete)) = Inr (RecordDelete_create (map_option RecordDelete_numbered b))"
  by (cases b) (simp_all add: RecordDelete_read RecordDelete_create_def RecordDelete_numbered_def no_RecordDelete_def)

subsection \<open>Zone\<close>

record Zone_partial =
  Zone_p_id :: "number option"
  Zone_p_name :: "string option"
  Zone_p_recordCount :: "number option"

definition no_Zone :: Zone_partial where
  "no_Zone =
     \<lparr>Zone_p_id = None, Zone_p_name = None, Zone_p_recordCount = None\<rparr>"

definition Zone_fromPartial :: "Zone_partial \<Rightarrow> Zone_pb" where
  "Zone_fromPartial object =
     createBaseZone
       \<lparr>Zone_id := nullish (Zone_p_id object) (num 0),
        Zone_name := nullish (Zone_p_name object) '''',
        Zone_recordCount := nullish (Zone_p_recordCount object) (num 0)\<rparr>"

definition Zone_create :: "Zone_partial option \<Rightarrow> Zone_pb" where
  "Zone_create base = Zone_fromPartial (nullish base no_Zone)"

definition Zone_object :: "Zone_partial \<Rightarrow> to_field list" where
  "Zone_object object =
     [given JNum ''id'' (Zone_p_id object),
      given JStr ''name'' (Zone_p_name object),
      given JNum ''recordCount'' (Zone_p_recordCount object)]"

definition Zone_given :: "Zone_partial \<Rightarrow> jsval" where
  "Zone_given object = to_obj (Zone_object object)"

lemma Zone_object_plain: "plain_keys (Zone_object p)"
  by (simp add: plain_keys_def Zone_object_def given_def array_index_def is_digit_def)

lemma Zone_gives:
  "given JNum ''id'' (Zone_p_id p) \<in> set (Zone_object p)"
  "given JStr ''name'' (Zone_p_name p) \<in> set (Zone_object p)"
  "given JNum ''recordCount'' (Zone_p_recordCount p) \<in> set (Zone_object p)"
  by (simp_all add: Zone_object_def)

lemma Zone_given_set: "isSet (Zone_given p)"
  by (simp add: Zone_given_def)

lemma Zone_read: "Zone_fromJSON (Zone_given p) = Inr (Zone_fromPartial p)"
  unfolding Zone_fromJSON_def Zone_given_def from_fields_def list.map
  by ((rule field_given Zone_object_plain Zone_gives
       | simp add: createBaseZone_def Zone_fromPartial_def o_def option.map_comp; fail | simp add: Zone_object_def given_def; fail)+)

lemma Zone_made: "Zone_fromJSON (Zone_given (nullish b no_Zone)) = Inr (Zone_create b)"
  by (cases b) (simp_all add: Zone_read Zone_create_def)

subsection \<open>ZoneList\<close>

record ZoneList_partial =
  ZoneList_p_zones :: "Zone_partial list option"

definition no_ZoneList :: ZoneList_partial where
  "no_ZoneList =
     \<lparr>ZoneList_p_zones = None\<rparr>"

definition ZoneList_fromPartial :: "ZoneList_partial \<Rightarrow> ZoneList_pb" where
  "ZoneList_fromPartial object =
     createBaseZoneList
       \<lparr>ZoneList_zones := nullish (map_option (map Zone_fromPartial) (ZoneList_p_zones object)) []\<rparr>"

definition ZoneList_create :: "ZoneList_partial option \<Rightarrow> ZoneList_pb" where
  "ZoneList_create base = ZoneList_fromPartial (nullish base no_ZoneList)"

definition ZoneList_object :: "ZoneList_partial \<Rightarrow> to_field list" where
  "ZoneList_object object =
     [given (array_of Zone_given) ''zones'' (ZoneList_p_zones object)]"

definition ZoneList_given :: "ZoneList_partial \<Rightarrow> jsval" where
  "ZoneList_given object = to_obj (ZoneList_object object)"

lemma ZoneList_object_plain: "plain_keys (ZoneList_object p)"
  by (simp add: plain_keys_def ZoneList_object_def given_def array_index_def is_digit_def)

lemma ZoneList_gives:
  "given (array_of Zone_given) ''zones'' (ZoneList_p_zones p) \<in> set (ZoneList_object p)"
  by (simp_all add: ZoneList_object_def)

lemma ZoneList_given_set: "isSet (ZoneList_given p)"
  by (simp add: ZoneList_given_def)

lemma ZoneList_read: "ZoneList_fromJSON (ZoneList_given p) = Inr (ZoneList_fromPartial p)"
  unfolding ZoneList_fromJSON_def ZoneList_given_def from_fields_def list.map
  by ((rule field_given ZoneList_object_plain ZoneList_gives
       | simp add: createBaseZoneList_def ZoneList_fromPartial_def Zone_read Zone_given_set o_def option.map_comp; fail | simp add: ZoneList_object_def given_def; fail)+)

lemma ZoneList_made: "ZoneList_fromJSON (ZoneList_given (nullish b no_ZoneList)) = Inr (ZoneList_create b)"
  by (cases b) (simp_all add: ZoneList_read ZoneList_create_def)

subsection \<open>Resolution\<close>

record Resolution_partial =
  Resolution_p_server :: "string option"
  Resolution_p_addresses :: "string list option"
  Resolution_p_responseTime :: "number option"
  Resolution_p_error :: "string option"

definition no_Resolution :: Resolution_partial where
  "no_Resolution =
     \<lparr>Resolution_p_server = None, Resolution_p_addresses = None,
      Resolution_p_responseTime = None, Resolution_p_error = None\<rparr>"

definition Resolution_fromPartial :: "Resolution_partial \<Rightarrow> Resolution_pb" where
  "Resolution_fromPartial object =
     createBaseResolution
       \<lparr>Resolution_server := nullish (Resolution_p_server object) '''',
        Resolution_addresses := nullish (Resolution_p_addresses object) [],
        Resolution_responseTime := nullish (Resolution_p_responseTime object) (num 0),
        Resolution_error := nullish (Resolution_p_error object) ''''\<rparr>"

definition Resolution_create :: "Resolution_partial option \<Rightarrow> Resolution_pb" where
  "Resolution_create base = Resolution_fromPartial (nullish base no_Resolution)"

definition Resolution_object :: "Resolution_partial \<Rightarrow> to_field list" where
  "Resolution_object object =
     [given JStr ''server'' (Resolution_p_server object),
      given (array_of JStr) ''addresses'' (Resolution_p_addresses object),
      given JNum ''responseTime'' (Resolution_p_responseTime object),
      given JStr ''error'' (Resolution_p_error object)]"

definition Resolution_given :: "Resolution_partial \<Rightarrow> jsval" where
  "Resolution_given object = to_obj (Resolution_object object)"

lemma Resolution_object_plain: "plain_keys (Resolution_object p)"
  by (simp add: plain_keys_def Resolution_object_def given_def array_index_def is_digit_def)

lemma Resolution_gives:
  "given JStr ''server'' (Resolution_p_server p) \<in> set (Resolution_object p)"
  "given (array_of JStr) ''addresses'' (Resolution_p_addresses p) \<in> set (Resolution_object p)"
  "given JNum ''responseTime'' (Resolution_p_responseTime p) \<in> set (Resolution_object p)"
  "given JStr ''error'' (Resolution_p_error p) \<in> set (Resolution_object p)"
  by (simp_all add: Resolution_object_def)

lemma Resolution_given_set: "isSet (Resolution_given p)"
  by (simp add: Resolution_given_def)

lemma Resolution_read: "Resolution_fromJSON (Resolution_given p) = Inr (Resolution_fromPartial p)"
  unfolding Resolution_fromJSON_def Resolution_given_def from_fields_def list.map
  by ((rule field_given Resolution_object_plain Resolution_gives
       | simp add: createBaseResolution_def Resolution_fromPartial_def o_def option.map_comp; fail | simp add: Resolution_object_def given_def; fail)+)

lemma Resolution_made: "Resolution_fromJSON (Resolution_given (nullish b no_Resolution)) = Inr (Resolution_create b)"
  by (cases b) (simp_all add: Resolution_read Resolution_create_def)

subsection \<open>ResolutionResult\<close>

record ResolutionResult_partial =
  ResolutionResult_p_resolutions :: "Resolution_partial list option"

definition no_ResolutionResult :: ResolutionResult_partial where
  "no_ResolutionResult =
     \<lparr>ResolutionResult_p_resolutions = None\<rparr>"

definition ResolutionResult_fromPartial :: "ResolutionResult_partial \<Rightarrow> ResolutionResult_pb" where
  "ResolutionResult_fromPartial object =
     createBaseResolutionResult
       \<lparr>ResolutionResult_resolutions := nullish (map_option (map Resolution_fromPartial) (ResolutionResult_p_resolutions object)) []\<rparr>"

definition ResolutionResult_create :: "ResolutionResult_partial option \<Rightarrow> ResolutionResult_pb" where
  "ResolutionResult_create base = ResolutionResult_fromPartial (nullish base no_ResolutionResult)"

definition ResolutionResult_object :: "ResolutionResult_partial \<Rightarrow> to_field list" where
  "ResolutionResult_object object =
     [given (array_of Resolution_given) ''resolutions'' (ResolutionResult_p_resolutions object)]"

definition ResolutionResult_given :: "ResolutionResult_partial \<Rightarrow> jsval" where
  "ResolutionResult_given object = to_obj (ResolutionResult_object object)"

lemma ResolutionResult_object_plain: "plain_keys (ResolutionResult_object p)"
  by (simp add: plain_keys_def ResolutionResult_object_def given_def array_index_def is_digit_def)

lemma ResolutionResult_gives:
  "given (array_of Resolution_given) ''resolutions'' (ResolutionResult_p_resolutions p) \<in> set (ResolutionResult_object p)"
  by (simp_all add: ResolutionResult_object_def)

lemma ResolutionResult_given_set: "isSet (ResolutionResult_given p)"
  by (simp add: ResolutionResult_given_def)

lemma ResolutionResult_read: "ResolutionResult_fromJSON (ResolutionResult_given p) = Inr (ResolutionResult_fromPartial p)"
  unfolding ResolutionResult_fromJSON_def ResolutionResult_given_def from_fields_def list.map
  by ((rule field_given ResolutionResult_object_plain ResolutionResult_gives
       | simp add: createBaseResolutionResult_def ResolutionResult_fromPartial_def Resolution_read Resolution_given_set o_def option.map_comp; fail | simp add: ResolutionResult_object_def given_def; fail)+)

lemma ResolutionResult_made: "ResolutionResult_fromJSON (ResolutionResult_given (nullish b no_ResolutionResult)) = Inr (ResolutionResult_create b)"
  by (cases b) (simp_all add: ResolutionResult_read ResolutionResult_create_def)

subsection \<open>Task\<close>

record Task_partial =
  Task_p_id :: "number option"
  Task_p_createdAt :: "number option"
  Task_p_updatedAt :: "number option"
  Task_p_recordId :: "number option"
  Task_p_name :: "string option"
  Task_p_triggerOn :: "number option"
  Task_p_method :: "string option"
  Task_p_url :: "string option"
  Task_p_headers :: "string option"
  Task_p_body :: "string option"
  Task_p_enabled :: "bool option"
  Task_p_lastRun :: "number option"
  Task_p_lastStatus :: "string option"
  Task_p_lastError :: "string option"
  Task_p_includeCertificate :: "bool option"
  Task_p_certificateFormat :: "string option"

definition no_Task :: Task_partial where
  "no_Task =
     \<lparr>Task_p_id = None, Task_p_createdAt = None, Task_p_updatedAt = None,
      Task_p_recordId = None, Task_p_name = None, Task_p_triggerOn = None,
      Task_p_method = None, Task_p_url = None, Task_p_headers = None, Task_p_body = None,
      Task_p_enabled = None, Task_p_lastRun = None, Task_p_lastStatus = None,
      Task_p_lastError = None, Task_p_includeCertificate = None,
      Task_p_certificateFormat = None\<rparr>"

definition Task_fromPartial :: "Task_partial \<Rightarrow> Task_pb" where
  "Task_fromPartial object =
     createBaseTask
       \<lparr>Task_id := nullish (Task_p_id object) (num 0),
        Task_createdAt := nullish (Task_p_createdAt object) (num 0),
        Task_updatedAt := nullish (Task_p_updatedAt object) (num 0),
        Task_recordId := nullish (Task_p_recordId object) (num 0),
        Task_name := nullish (Task_p_name object) '''',
        Task_triggerOn := nullish (Task_p_triggerOn object) (num 0),
        Task_method := nullish (Task_p_method object) '''',
        Task_url := nullish (Task_p_url object) '''',
        Task_headers := nullish (Task_p_headers object) '''',
        Task_body := nullish (Task_p_body object) '''',
        Task_enabled := nullish (Task_p_enabled object) False,
        Task_lastRun := nullish (Task_p_lastRun object) (num 0),
        Task_lastStatus := nullish (Task_p_lastStatus object) '''',
        Task_lastError := nullish (Task_p_lastError object) '''',
        Task_includeCertificate := nullish (Task_p_includeCertificate object) False,
        Task_certificateFormat := nullish (Task_p_certificateFormat object) ''''\<rparr>"

definition Task_create :: "Task_partial option \<Rightarrow> Task_pb" where
  "Task_create base = Task_fromPartial (nullish base no_Task)"

definition Task_object :: "Task_partial \<Rightarrow> to_field list" where
  "Task_object object =
     [given JNum ''id'' (Task_p_id object),
      given JNum ''createdAt'' (Task_p_createdAt object),
      given JNum ''updatedAt'' (Task_p_updatedAt object),
      given JNum ''recordId'' (Task_p_recordId object),
      given JStr ''name'' (Task_p_name object),
      given JNum ''triggerOn'' (Task_p_triggerOn object),
      given JStr ''method'' (Task_p_method object),
      given JStr ''url'' (Task_p_url object),
      given JStr ''headers'' (Task_p_headers object),
      given JStr ''body'' (Task_p_body object),
      given JBool ''enabled'' (Task_p_enabled object),
      given JNum ''lastRun'' (Task_p_lastRun object),
      given JStr ''lastStatus'' (Task_p_lastStatus object),
      given JStr ''lastError'' (Task_p_lastError object),
      given JBool ''includeCertificate'' (Task_p_includeCertificate object),
      given JStr ''certificateFormat'' (Task_p_certificateFormat object)]"

definition Task_given :: "Task_partial \<Rightarrow> jsval" where
  "Task_given object = to_obj (Task_object object)"

definition Task_numbered :: "Task_partial \<Rightarrow> Task_partial" where
  "Task_numbered object = object\<lparr>Task_p_triggerOn := map_option enum_number (Task_p_triggerOn object)\<rparr>"

lemma Task_object_plain: "plain_keys (Task_object p)"
  by (simp add: plain_keys_def Task_object_def given_def array_index_def is_digit_def)

lemma Task_gives:
  "given JNum ''id'' (Task_p_id p) \<in> set (Task_object p)"
  "given JNum ''createdAt'' (Task_p_createdAt p) \<in> set (Task_object p)"
  "given JNum ''updatedAt'' (Task_p_updatedAt p) \<in> set (Task_object p)"
  "given JNum ''recordId'' (Task_p_recordId p) \<in> set (Task_object p)"
  "given JStr ''name'' (Task_p_name p) \<in> set (Task_object p)"
  "given JNum ''triggerOn'' (Task_p_triggerOn p) \<in> set (Task_object p)"
  "given JStr ''method'' (Task_p_method p) \<in> set (Task_object p)"
  "given JStr ''url'' (Task_p_url p) \<in> set (Task_object p)"
  "given JStr ''headers'' (Task_p_headers p) \<in> set (Task_object p)"
  "given JStr ''body'' (Task_p_body p) \<in> set (Task_object p)"
  "given JBool ''enabled'' (Task_p_enabled p) \<in> set (Task_object p)"
  "given JNum ''lastRun'' (Task_p_lastRun p) \<in> set (Task_object p)"
  "given JStr ''lastStatus'' (Task_p_lastStatus p) \<in> set (Task_object p)"
  "given JStr ''lastError'' (Task_p_lastError p) \<in> set (Task_object p)"
  "given JBool ''includeCertificate'' (Task_p_includeCertificate p) \<in> set (Task_object p)"
  "given JStr ''certificateFormat'' (Task_p_certificateFormat p) \<in> set (Task_object p)"
  by (simp_all add: Task_object_def)

lemma Task_given_set: "isSet (Task_given p)"
  by (simp add: Task_given_def)

lemma Task_read: "Task_fromJSON (Task_given p) = Inr (Task_fromPartial (Task_numbered p))"
  unfolding Task_fromJSON_def Task_given_def from_fields_def list.map
  by ((rule field_given Task_object_plain Task_gives
       | simp add: createBaseTask_def Task_fromPartial_def taskTrigger_number Task_numbered_def o_def option.map_comp; fail | simp add: Task_object_def given_def; fail)+)

lemma Task_made: "Task_fromJSON (Task_given (nullish b no_Task)) = Inr (Task_create (map_option Task_numbered b))"
  by (cases b) (simp_all add: Task_read Task_create_def Task_numbered_def no_Task_def)

subsection \<open>TaskList\<close>

record TaskList_partial =
  TaskList_p_tasks :: "Task_partial list option"

definition no_TaskList :: TaskList_partial where
  "no_TaskList =
     \<lparr>TaskList_p_tasks = None\<rparr>"

definition TaskList_fromPartial :: "TaskList_partial \<Rightarrow> TaskList_pb" where
  "TaskList_fromPartial object =
     createBaseTaskList
       \<lparr>TaskList_tasks := nullish (map_option (map Task_fromPartial) (TaskList_p_tasks object)) []\<rparr>"

definition TaskList_create :: "TaskList_partial option \<Rightarrow> TaskList_pb" where
  "TaskList_create base = TaskList_fromPartial (nullish base no_TaskList)"

definition TaskList_object :: "TaskList_partial \<Rightarrow> to_field list" where
  "TaskList_object object =
     [given (array_of Task_given) ''tasks'' (TaskList_p_tasks object)]"

definition TaskList_given :: "TaskList_partial \<Rightarrow> jsval" where
  "TaskList_given object = to_obj (TaskList_object object)"

definition TaskList_numbered :: "TaskList_partial \<Rightarrow> TaskList_partial" where
  "TaskList_numbered object = object\<lparr>TaskList_p_tasks := map_option (map Task_numbered) (TaskList_p_tasks object)\<rparr>"

lemma TaskList_object_plain: "plain_keys (TaskList_object p)"
  by (simp add: plain_keys_def TaskList_object_def given_def array_index_def is_digit_def)

lemma TaskList_gives:
  "given (array_of Task_given) ''tasks'' (TaskList_p_tasks p) \<in> set (TaskList_object p)"
  by (simp_all add: TaskList_object_def)

lemma TaskList_given_set: "isSet (TaskList_given p)"
  by (simp add: TaskList_given_def)

lemma TaskList_read: "TaskList_fromJSON (TaskList_given p) = Inr (TaskList_fromPartial (TaskList_numbered p))"
  unfolding TaskList_fromJSON_def TaskList_given_def from_fields_def list.map
  by ((rule field_given TaskList_object_plain TaskList_gives
       | simp add: createBaseTaskList_def TaskList_fromPartial_def Task_read Task_given_set TaskList_numbered_def o_def option.map_comp; fail | simp add: TaskList_object_def given_def; fail)+)

lemma TaskList_made: "TaskList_fromJSON (TaskList_given (nullish b no_TaskList)) = Inr (TaskList_create (map_option TaskList_numbered b))"
  by (cases b) (simp_all add: TaskList_read TaskList_create_def TaskList_numbered_def no_TaskList_def)

subsection \<open>TaskDelete\<close>

record TaskDelete_partial =
  TaskDelete_p_id :: "number option"

definition no_TaskDelete :: TaskDelete_partial where
  "no_TaskDelete =
     \<lparr>TaskDelete_p_id = None\<rparr>"

definition TaskDelete_fromPartial :: "TaskDelete_partial \<Rightarrow> TaskDelete_pb" where
  "TaskDelete_fromPartial object =
     createBaseTaskDelete
       \<lparr>TaskDelete_id := nullish (TaskDelete_p_id object) (num 0)\<rparr>"

definition TaskDelete_create :: "TaskDelete_partial option \<Rightarrow> TaskDelete_pb" where
  "TaskDelete_create base = TaskDelete_fromPartial (nullish base no_TaskDelete)"

definition TaskDelete_object :: "TaskDelete_partial \<Rightarrow> to_field list" where
  "TaskDelete_object object =
     [given JNum ''id'' (TaskDelete_p_id object)]"

definition TaskDelete_given :: "TaskDelete_partial \<Rightarrow> jsval" where
  "TaskDelete_given object = to_obj (TaskDelete_object object)"

lemma TaskDelete_object_plain: "plain_keys (TaskDelete_object p)"
  by (simp add: plain_keys_def TaskDelete_object_def given_def array_index_def is_digit_def)

lemma TaskDelete_gives:
  "given JNum ''id'' (TaskDelete_p_id p) \<in> set (TaskDelete_object p)"
  by (simp_all add: TaskDelete_object_def)

lemma TaskDelete_given_set: "isSet (TaskDelete_given p)"
  by (simp add: TaskDelete_given_def)

lemma TaskDelete_read: "TaskDelete_fromJSON (TaskDelete_given p) = Inr (TaskDelete_fromPartial p)"
  unfolding TaskDelete_fromJSON_def TaskDelete_given_def from_fields_def list.map
  by ((rule field_given TaskDelete_object_plain TaskDelete_gives
       | simp add: createBaseTaskDelete_def TaskDelete_fromPartial_def o_def option.map_comp; fail | simp add: TaskDelete_object_def given_def; fail)+)

lemma TaskDelete_made: "TaskDelete_fromJSON (TaskDelete_given (nullish b no_TaskDelete)) = Inr (TaskDelete_create b)"
  by (cases b) (simp_all add: TaskDelete_read TaskDelete_create_def)

subsection \<open>TaskResult\<close>

record TaskResult_partial =
  TaskResult_p_status :: "string option"
  TaskResult_p_error :: "string option"

definition no_TaskResult :: TaskResult_partial where
  "no_TaskResult =
     \<lparr>TaskResult_p_status = None, TaskResult_p_error = None\<rparr>"

definition TaskResult_fromPartial :: "TaskResult_partial \<Rightarrow> TaskResult_pb" where
  "TaskResult_fromPartial object =
     createBaseTaskResult
       \<lparr>TaskResult_status := nullish (TaskResult_p_status object) '''',
        TaskResult_error := nullish (TaskResult_p_error object) ''''\<rparr>"

definition TaskResult_create :: "TaskResult_partial option \<Rightarrow> TaskResult_pb" where
  "TaskResult_create base = TaskResult_fromPartial (nullish base no_TaskResult)"

definition TaskResult_object :: "TaskResult_partial \<Rightarrow> to_field list" where
  "TaskResult_object object =
     [given JStr ''status'' (TaskResult_p_status object),
      given JStr ''error'' (TaskResult_p_error object)]"

definition TaskResult_given :: "TaskResult_partial \<Rightarrow> jsval" where
  "TaskResult_given object = to_obj (TaskResult_object object)"

lemma TaskResult_object_plain: "plain_keys (TaskResult_object p)"
  by (simp add: plain_keys_def TaskResult_object_def given_def array_index_def is_digit_def)

lemma TaskResult_gives:
  "given JStr ''status'' (TaskResult_p_status p) \<in> set (TaskResult_object p)"
  "given JStr ''error'' (TaskResult_p_error p) \<in> set (TaskResult_object p)"
  by (simp_all add: TaskResult_object_def)

lemma TaskResult_given_set: "isSet (TaskResult_given p)"
  by (simp add: TaskResult_given_def)

lemma TaskResult_read: "TaskResult_fromJSON (TaskResult_given p) = Inr (TaskResult_fromPartial p)"
  unfolding TaskResult_fromJSON_def TaskResult_given_def from_fields_def list.map
  by ((rule field_given TaskResult_object_plain TaskResult_gives
       | simp add: createBaseTaskResult_def TaskResult_fromPartial_def o_def option.map_comp; fail | simp add: TaskResult_object_def given_def; fail)+)

lemma TaskResult_made: "TaskResult_fromJSON (TaskResult_given (nullish b no_TaskResult)) = Inr (TaskResult_create b)"
  by (cases b) (simp_all add: TaskResult_read TaskResult_create_def)

subsection \<open>CertificateArtifact\<close>

record CertificateArtifact_partial =
  CertificateArtifact_p_key :: "string option"
  CertificateArtifact_p_label :: "string option"
  CertificateArtifact_p_available :: "bool option"
  CertificateArtifact_p_downloadUrl :: "string option"

definition no_CertificateArtifact :: CertificateArtifact_partial where
  "no_CertificateArtifact =
     \<lparr>CertificateArtifact_p_key = None, CertificateArtifact_p_label = None,
      CertificateArtifact_p_available = None, CertificateArtifact_p_downloadUrl = None\<rparr>"

definition CertificateArtifact_fromPartial :: "CertificateArtifact_partial \<Rightarrow> CertificateArtifact_pb" where
  "CertificateArtifact_fromPartial object =
     createBaseCertificateArtifact
       \<lparr>CertificateArtifact_key := nullish (CertificateArtifact_p_key object) '''',
        CertificateArtifact_label := nullish (CertificateArtifact_p_label object) '''',
        CertificateArtifact_available := nullish (CertificateArtifact_p_available object) False,
        CertificateArtifact_downloadUrl := nullish (CertificateArtifact_p_downloadUrl object) ''''\<rparr>"

definition CertificateArtifact_create :: "CertificateArtifact_partial option \<Rightarrow> CertificateArtifact_pb" where
  "CertificateArtifact_create base = CertificateArtifact_fromPartial (nullish base no_CertificateArtifact)"

definition CertificateArtifact_object :: "CertificateArtifact_partial \<Rightarrow> to_field list" where
  "CertificateArtifact_object object =
     [given JStr ''key'' (CertificateArtifact_p_key object),
      given JStr ''label'' (CertificateArtifact_p_label object),
      given JBool ''available'' (CertificateArtifact_p_available object),
      given JStr ''downloadUrl'' (CertificateArtifact_p_downloadUrl object)]"

definition CertificateArtifact_given :: "CertificateArtifact_partial \<Rightarrow> jsval" where
  "CertificateArtifact_given object = to_obj (CertificateArtifact_object object)"

lemma CertificateArtifact_object_plain: "plain_keys (CertificateArtifact_object p)"
  by (simp add: plain_keys_def CertificateArtifact_object_def given_def array_index_def is_digit_def)

lemma CertificateArtifact_gives:
  "given JStr ''key'' (CertificateArtifact_p_key p) \<in> set (CertificateArtifact_object p)"
  "given JStr ''label'' (CertificateArtifact_p_label p) \<in> set (CertificateArtifact_object p)"
  "given JBool ''available'' (CertificateArtifact_p_available p) \<in> set (CertificateArtifact_object p)"
  "given JStr ''downloadUrl'' (CertificateArtifact_p_downloadUrl p) \<in> set (CertificateArtifact_object p)"
  by (simp_all add: CertificateArtifact_object_def)

lemma CertificateArtifact_given_set: "isSet (CertificateArtifact_given p)"
  by (simp add: CertificateArtifact_given_def)

lemma CertificateArtifact_read: "CertificateArtifact_fromJSON (CertificateArtifact_given p) = Inr (CertificateArtifact_fromPartial p)"
  unfolding CertificateArtifact_fromJSON_def CertificateArtifact_given_def from_fields_def list.map
  by ((rule field_given CertificateArtifact_object_plain CertificateArtifact_gives
       | simp add: createBaseCertificateArtifact_def CertificateArtifact_fromPartial_def o_def option.map_comp; fail | simp add: CertificateArtifact_object_def given_def; fail)+)

lemma CertificateArtifact_made: "CertificateArtifact_fromJSON (CertificateArtifact_given (nullish b no_CertificateArtifact)) = Inr (CertificateArtifact_create b)"
  by (cases b) (simp_all add: CertificateArtifact_read CertificateArtifact_create_def)

subsection \<open>CertificateIssuanceJob\<close>

record CertificateIssuanceJob_partial =
  CertificateIssuanceJob_p_id :: "number option"
  CertificateIssuanceJob_p_source :: "string option"
  CertificateIssuanceJob_p_status :: "string option"
  CertificateIssuanceJob_p_startedAt :: "number option"
  CertificateIssuanceJob_p_finishedAt :: "number option"
  CertificateIssuanceJob_p_durationMs :: "number option"
  CertificateIssuanceJob_p_error :: "string option"
  CertificateIssuanceJob_p_certificateId :: "number option"

definition no_CertificateIssuanceJob :: CertificateIssuanceJob_partial where
  "no_CertificateIssuanceJob =
     \<lparr>CertificateIssuanceJob_p_id = None, CertificateIssuanceJob_p_source = None,
      CertificateIssuanceJob_p_status = None, CertificateIssuanceJob_p_startedAt = None,
      CertificateIssuanceJob_p_finishedAt = None,
      CertificateIssuanceJob_p_durationMs = None, CertificateIssuanceJob_p_error = None,
      CertificateIssuanceJob_p_certificateId = None\<rparr>"

definition CertificateIssuanceJob_fromPartial :: "CertificateIssuanceJob_partial \<Rightarrow> CertificateIssuanceJob_pb" where
  "CertificateIssuanceJob_fromPartial object =
     createBaseCertificateIssuanceJob
       \<lparr>CertificateIssuanceJob_id := nullish (CertificateIssuanceJob_p_id object) (num 0),
        CertificateIssuanceJob_source := nullish (CertificateIssuanceJob_p_source object) '''',
        CertificateIssuanceJob_status := nullish (CertificateIssuanceJob_p_status object) '''',
        CertificateIssuanceJob_startedAt := nullish (CertificateIssuanceJob_p_startedAt object) (num 0),
        CertificateIssuanceJob_finishedAt := nullish (CertificateIssuanceJob_p_finishedAt object) (num 0),
        CertificateIssuanceJob_durationMs := nullish (CertificateIssuanceJob_p_durationMs object) (num 0),
        CertificateIssuanceJob_error := nullish (CertificateIssuanceJob_p_error object) '''',
        CertificateIssuanceJob_certificateId := nullish (CertificateIssuanceJob_p_certificateId object) (num 0)\<rparr>"

definition CertificateIssuanceJob_create :: "CertificateIssuanceJob_partial option \<Rightarrow> CertificateIssuanceJob_pb" where
  "CertificateIssuanceJob_create base = CertificateIssuanceJob_fromPartial (nullish base no_CertificateIssuanceJob)"

definition CertificateIssuanceJob_object :: "CertificateIssuanceJob_partial \<Rightarrow> to_field list" where
  "CertificateIssuanceJob_object object =
     [given JNum ''id'' (CertificateIssuanceJob_p_id object),
      given JStr ''source'' (CertificateIssuanceJob_p_source object),
      given JStr ''status'' (CertificateIssuanceJob_p_status object),
      given JNum ''startedAt'' (CertificateIssuanceJob_p_startedAt object),
      given JNum ''finishedAt'' (CertificateIssuanceJob_p_finishedAt object),
      given JNum ''durationMs'' (CertificateIssuanceJob_p_durationMs object),
      given JStr ''error'' (CertificateIssuanceJob_p_error object),
      given JNum ''certificateId'' (CertificateIssuanceJob_p_certificateId object)]"

definition CertificateIssuanceJob_given :: "CertificateIssuanceJob_partial \<Rightarrow> jsval" where
  "CertificateIssuanceJob_given object = to_obj (CertificateIssuanceJob_object object)"

lemma CertificateIssuanceJob_object_plain: "plain_keys (CertificateIssuanceJob_object p)"
  by (simp add: plain_keys_def CertificateIssuanceJob_object_def given_def array_index_def is_digit_def)

lemma CertificateIssuanceJob_gives:
  "given JNum ''id'' (CertificateIssuanceJob_p_id p) \<in> set (CertificateIssuanceJob_object p)"
  "given JStr ''source'' (CertificateIssuanceJob_p_source p) \<in> set (CertificateIssuanceJob_object p)"
  "given JStr ''status'' (CertificateIssuanceJob_p_status p) \<in> set (CertificateIssuanceJob_object p)"
  "given JNum ''startedAt'' (CertificateIssuanceJob_p_startedAt p) \<in> set (CertificateIssuanceJob_object p)"
  "given JNum ''finishedAt'' (CertificateIssuanceJob_p_finishedAt p) \<in> set (CertificateIssuanceJob_object p)"
  "given JNum ''durationMs'' (CertificateIssuanceJob_p_durationMs p) \<in> set (CertificateIssuanceJob_object p)"
  "given JStr ''error'' (CertificateIssuanceJob_p_error p) \<in> set (CertificateIssuanceJob_object p)"
  "given JNum ''certificateId'' (CertificateIssuanceJob_p_certificateId p) \<in> set (CertificateIssuanceJob_object p)"
  by (simp_all add: CertificateIssuanceJob_object_def)

lemma CertificateIssuanceJob_given_set: "isSet (CertificateIssuanceJob_given p)"
  by (simp add: CertificateIssuanceJob_given_def)

lemma CertificateIssuanceJob_read: "CertificateIssuanceJob_fromJSON (CertificateIssuanceJob_given p) = Inr (CertificateIssuanceJob_fromPartial p)"
  unfolding CertificateIssuanceJob_fromJSON_def CertificateIssuanceJob_given_def from_fields_def list.map
  by ((rule field_given CertificateIssuanceJob_object_plain CertificateIssuanceJob_gives
       | simp add: createBaseCertificateIssuanceJob_def CertificateIssuanceJob_fromPartial_def o_def option.map_comp; fail | simp add: CertificateIssuanceJob_object_def given_def; fail)+)

lemma CertificateIssuanceJob_made: "CertificateIssuanceJob_fromJSON (CertificateIssuanceJob_given (nullish b no_CertificateIssuanceJob)) = Inr (CertificateIssuanceJob_create b)"
  by (cases b) (simp_all add: CertificateIssuanceJob_read CertificateIssuanceJob_create_def)

subsection \<open>CertificateTaskRun\<close>

record CertificateTaskRun_partial =
  CertificateTaskRun_p_id :: "number option"
  CertificateTaskRun_p_taskId :: "number option"
  CertificateTaskRun_p_taskName :: "string option"
  CertificateTaskRun_p_status :: "string option"
  CertificateTaskRun_p_responseStatus :: "string option"
  CertificateTaskRun_p_error :: "string option"
  CertificateTaskRun_p_startedAt :: "number option"
  CertificateTaskRun_p_finishedAt :: "number option"
  CertificateTaskRun_p_durationMs :: "number option"
  CertificateTaskRun_p_certificateJobId :: "number option"

definition no_CertificateTaskRun :: CertificateTaskRun_partial where
  "no_CertificateTaskRun =
     \<lparr>CertificateTaskRun_p_id = None, CertificateTaskRun_p_taskId = None,
      CertificateTaskRun_p_taskName = None, CertificateTaskRun_p_status = None,
      CertificateTaskRun_p_responseStatus = None, CertificateTaskRun_p_error = None,
      CertificateTaskRun_p_startedAt = None, CertificateTaskRun_p_finishedAt = None,
      CertificateTaskRun_p_durationMs = None, CertificateTaskRun_p_certificateJobId = None\<rparr>"

definition CertificateTaskRun_fromPartial :: "CertificateTaskRun_partial \<Rightarrow> CertificateTaskRun_pb" where
  "CertificateTaskRun_fromPartial object =
     createBaseCertificateTaskRun
       \<lparr>CertificateTaskRun_id := nullish (CertificateTaskRun_p_id object) (num 0),
        CertificateTaskRun_taskId := nullish (CertificateTaskRun_p_taskId object) (num 0),
        CertificateTaskRun_taskName := nullish (CertificateTaskRun_p_taskName object) '''',
        CertificateTaskRun_status := nullish (CertificateTaskRun_p_status object) '''',
        CertificateTaskRun_responseStatus := nullish (CertificateTaskRun_p_responseStatus object) '''',
        CertificateTaskRun_error := nullish (CertificateTaskRun_p_error object) '''',
        CertificateTaskRun_startedAt := nullish (CertificateTaskRun_p_startedAt object) (num 0),
        CertificateTaskRun_finishedAt := nullish (CertificateTaskRun_p_finishedAt object) (num 0),
        CertificateTaskRun_durationMs := nullish (CertificateTaskRun_p_durationMs object) (num 0),
        CertificateTaskRun_certificateJobId := nullish (CertificateTaskRun_p_certificateJobId object) (num 0)\<rparr>"

definition CertificateTaskRun_create :: "CertificateTaskRun_partial option \<Rightarrow> CertificateTaskRun_pb" where
  "CertificateTaskRun_create base = CertificateTaskRun_fromPartial (nullish base no_CertificateTaskRun)"

definition CertificateTaskRun_object :: "CertificateTaskRun_partial \<Rightarrow> to_field list" where
  "CertificateTaskRun_object object =
     [given JNum ''id'' (CertificateTaskRun_p_id object),
      given JNum ''taskId'' (CertificateTaskRun_p_taskId object),
      given JStr ''taskName'' (CertificateTaskRun_p_taskName object),
      given JStr ''status'' (CertificateTaskRun_p_status object),
      given JStr ''responseStatus'' (CertificateTaskRun_p_responseStatus object),
      given JStr ''error'' (CertificateTaskRun_p_error object),
      given JNum ''startedAt'' (CertificateTaskRun_p_startedAt object),
      given JNum ''finishedAt'' (CertificateTaskRun_p_finishedAt object),
      given JNum ''durationMs'' (CertificateTaskRun_p_durationMs object),
      given JNum ''certificateJobId'' (CertificateTaskRun_p_certificateJobId object)]"

definition CertificateTaskRun_given :: "CertificateTaskRun_partial \<Rightarrow> jsval" where
  "CertificateTaskRun_given object = to_obj (CertificateTaskRun_object object)"

lemma CertificateTaskRun_object_plain: "plain_keys (CertificateTaskRun_object p)"
  by (simp add: plain_keys_def CertificateTaskRun_object_def given_def array_index_def is_digit_def)

lemma CertificateTaskRun_gives:
  "given JNum ''id'' (CertificateTaskRun_p_id p) \<in> set (CertificateTaskRun_object p)"
  "given JNum ''taskId'' (CertificateTaskRun_p_taskId p) \<in> set (CertificateTaskRun_object p)"
  "given JStr ''taskName'' (CertificateTaskRun_p_taskName p) \<in> set (CertificateTaskRun_object p)"
  "given JStr ''status'' (CertificateTaskRun_p_status p) \<in> set (CertificateTaskRun_object p)"
  "given JStr ''responseStatus'' (CertificateTaskRun_p_responseStatus p) \<in> set (CertificateTaskRun_object p)"
  "given JStr ''error'' (CertificateTaskRun_p_error p) \<in> set (CertificateTaskRun_object p)"
  "given JNum ''startedAt'' (CertificateTaskRun_p_startedAt p) \<in> set (CertificateTaskRun_object p)"
  "given JNum ''finishedAt'' (CertificateTaskRun_p_finishedAt p) \<in> set (CertificateTaskRun_object p)"
  "given JNum ''durationMs'' (CertificateTaskRun_p_durationMs p) \<in> set (CertificateTaskRun_object p)"
  "given JNum ''certificateJobId'' (CertificateTaskRun_p_certificateJobId p) \<in> set (CertificateTaskRun_object p)"
  by (simp_all add: CertificateTaskRun_object_def)

lemma CertificateTaskRun_given_set: "isSet (CertificateTaskRun_given p)"
  by (simp add: CertificateTaskRun_given_def)

lemma CertificateTaskRun_read: "CertificateTaskRun_fromJSON (CertificateTaskRun_given p) = Inr (CertificateTaskRun_fromPartial p)"
  unfolding CertificateTaskRun_fromJSON_def CertificateTaskRun_given_def from_fields_def list.map
  by ((rule field_given CertificateTaskRun_object_plain CertificateTaskRun_gives
       | simp add: createBaseCertificateTaskRun_def CertificateTaskRun_fromPartial_def o_def option.map_comp; fail | simp add: CertificateTaskRun_object_def given_def; fail)+)

lemma CertificateTaskRun_made: "CertificateTaskRun_fromJSON (CertificateTaskRun_given (nullish b no_CertificateTaskRun)) = Inr (CertificateTaskRun_create b)"
  by (cases b) (simp_all add: CertificateTaskRun_read CertificateTaskRun_create_def)

subsection \<open>CertificateDetails\<close>

record CertificateDetails_partial =
  CertificateDetails_p_recordId :: "number option"
  CertificateDetails_p_recordName :: "string option"
  CertificateDetails_p_recordDomain :: "string option"
  CertificateDetails_p_certificate :: "Certificate_partial option"
  CertificateDetails_p_artifacts :: "CertificateArtifact_partial list option"
  CertificateDetails_p_issuanceJobs :: "CertificateIssuanceJob_partial list option"
  CertificateDetails_p_taskRuns :: "CertificateTaskRun_partial list option"
  CertificateDetails_p_fetchedAt :: "number option"

definition no_CertificateDetails :: CertificateDetails_partial where
  "no_CertificateDetails =
     \<lparr>CertificateDetails_p_recordId = None, CertificateDetails_p_recordName = None,
      CertificateDetails_p_recordDomain = None, CertificateDetails_p_certificate = None,
      CertificateDetails_p_artifacts = None, CertificateDetails_p_issuanceJobs = None,
      CertificateDetails_p_taskRuns = None, CertificateDetails_p_fetchedAt = None\<rparr>"

definition CertificateDetails_fromPartial :: "CertificateDetails_partial \<Rightarrow> CertificateDetails_pb" where
  "CertificateDetails_fromPartial object =
     createBaseCertificateDetails
       \<lparr>CertificateDetails_recordId := nullish (CertificateDetails_p_recordId object) (num 0),
        CertificateDetails_recordName := nullish (CertificateDetails_p_recordName object) '''',
        CertificateDetails_recordDomain := nullish (CertificateDetails_p_recordDomain object) '''',
        CertificateDetails_certificate := map_option Certificate_fromPartial (CertificateDetails_p_certificate object),
        CertificateDetails_artifacts := nullish (map_option (map CertificateArtifact_fromPartial) (CertificateDetails_p_artifacts object)) [],
        CertificateDetails_issuanceJobs := nullish (map_option (map CertificateIssuanceJob_fromPartial) (CertificateDetails_p_issuanceJobs object)) [],
        CertificateDetails_taskRuns := nullish (map_option (map CertificateTaskRun_fromPartial) (CertificateDetails_p_taskRuns object)) [],
        CertificateDetails_fetchedAt := nullish (CertificateDetails_p_fetchedAt object) (num 0)\<rparr>"

definition CertificateDetails_create :: "CertificateDetails_partial option \<Rightarrow> CertificateDetails_pb" where
  "CertificateDetails_create base = CertificateDetails_fromPartial (nullish base no_CertificateDetails)"

definition CertificateDetails_object :: "CertificateDetails_partial \<Rightarrow> to_field list" where
  "CertificateDetails_object object =
     [given JNum ''recordId'' (CertificateDetails_p_recordId object),
      given JStr ''recordName'' (CertificateDetails_p_recordName object),
      given JStr ''recordDomain'' (CertificateDetails_p_recordDomain object),
      given Certificate_given ''certificate'' (CertificateDetails_p_certificate object),
      given (array_of CertificateArtifact_given) ''artifacts'' (CertificateDetails_p_artifacts object),
      given (array_of CertificateIssuanceJob_given) ''issuanceJobs'' (CertificateDetails_p_issuanceJobs object),
      given (array_of CertificateTaskRun_given) ''taskRuns'' (CertificateDetails_p_taskRuns object),
      given JNum ''fetchedAt'' (CertificateDetails_p_fetchedAt object)]"

definition CertificateDetails_given :: "CertificateDetails_partial \<Rightarrow> jsval" where
  "CertificateDetails_given object = to_obj (CertificateDetails_object object)"

lemma CertificateDetails_object_plain: "plain_keys (CertificateDetails_object p)"
  by (simp add: plain_keys_def CertificateDetails_object_def given_def array_index_def is_digit_def)

lemma CertificateDetails_gives:
  "given JNum ''recordId'' (CertificateDetails_p_recordId p) \<in> set (CertificateDetails_object p)"
  "given JStr ''recordName'' (CertificateDetails_p_recordName p) \<in> set (CertificateDetails_object p)"
  "given JStr ''recordDomain'' (CertificateDetails_p_recordDomain p) \<in> set (CertificateDetails_object p)"
  "given Certificate_given ''certificate'' (CertificateDetails_p_certificate p) \<in> set (CertificateDetails_object p)"
  "given (array_of CertificateArtifact_given) ''artifacts'' (CertificateDetails_p_artifacts p) \<in> set (CertificateDetails_object p)"
  "given (array_of CertificateIssuanceJob_given) ''issuanceJobs'' (CertificateDetails_p_issuanceJobs p) \<in> set (CertificateDetails_object p)"
  "given (array_of CertificateTaskRun_given) ''taskRuns'' (CertificateDetails_p_taskRuns p) \<in> set (CertificateDetails_object p)"
  "given JNum ''fetchedAt'' (CertificateDetails_p_fetchedAt p) \<in> set (CertificateDetails_object p)"
  by (simp_all add: CertificateDetails_object_def)

lemma CertificateDetails_given_set: "isSet (CertificateDetails_given p)"
  by (simp add: CertificateDetails_given_def)

lemma CertificateDetails_read: "CertificateDetails_fromJSON (CertificateDetails_given p) = Inr (CertificateDetails_fromPartial p)"
  unfolding CertificateDetails_fromJSON_def CertificateDetails_given_def from_fields_def list.map
  by ((rule field_given CertificateDetails_object_plain CertificateDetails_gives
       | simp add: createBaseCertificateDetails_def CertificateDetails_fromPartial_def Certificate_read Certificate_given_set CertificateArtifact_read CertificateArtifact_given_set CertificateIssuanceJob_read CertificateIssuanceJob_given_set CertificateTaskRun_read CertificateTaskRun_given_set o_def option.map_comp; fail | simp add: CertificateDetails_object_def given_def; fail)+)

lemma CertificateDetails_made: "CertificateDetails_fromJSON (CertificateDetails_given (nullish b no_CertificateDetails)) = Inr (CertificateDetails_create b)"
  by (cases b) (simp_all add: CertificateDetails_read CertificateDetails_create_def)

subsection \<open>Configuration\<close>

record Configuration_partial =
  Configuration_p_logLevel :: "number option"
  Configuration_p_refreshCron :: "string option"
  Configuration_p_dnsServers :: "string list option"
  Configuration_p_ipv4Resolvers :: "string list option"
  Configuration_p_ipv6Resolvers :: "string list option"
  Configuration_p_ipv4ResolverAgreementThreshold :: "number option"
  Configuration_p_ipv6ResolverAgreementThreshold :: "number option"
  Configuration_p_ipv4ResolverMinResponses :: "number option"
  Configuration_p_ipv6ResolverMinResponses :: "number option"
  Configuration_p_notificationsEnabled :: "bool option"
  Configuration_p_notificationsOnSuccess :: "bool option"
  Configuration_p_notificationsRecipients :: "string list option"
  Configuration_p_notificationsCooldownMinutes :: "number option"
  Configuration_p_notificationsSubjectPrefix :: "string option"
  Configuration_p_acmeEnabled :: "bool option"
  Configuration_p_acmeEmail :: "string option"
  Configuration_p_acmeStaging :: "bool option"
  Configuration_p_acmeRenewBeforeDays :: "number option"

definition no_Configuration :: Configuration_partial where
  "no_Configuration =
     \<lparr>Configuration_p_logLevel = None, Configuration_p_refreshCron = None,
      Configuration_p_dnsServers = None, Configuration_p_ipv4Resolvers = None,
      Configuration_p_ipv6Resolvers = None,
      Configuration_p_ipv4ResolverAgreementThreshold = None,
      Configuration_p_ipv6ResolverAgreementThreshold = None,
      Configuration_p_ipv4ResolverMinResponses = None,
      Configuration_p_ipv6ResolverMinResponses = None,
      Configuration_p_notificationsEnabled = None,
      Configuration_p_notificationsOnSuccess = None,
      Configuration_p_notificationsRecipients = None,
      Configuration_p_notificationsCooldownMinutes = None,
      Configuration_p_notificationsSubjectPrefix = None,
      Configuration_p_acmeEnabled = None, Configuration_p_acmeEmail = None,
      Configuration_p_acmeStaging = None, Configuration_p_acmeRenewBeforeDays = None\<rparr>"

definition Configuration_fromPartial :: "Configuration_partial \<Rightarrow> Configuration_pb" where
  "Configuration_fromPartial object =
     createBaseConfiguration
       \<lparr>Configuration_logLevel := nullish (Configuration_p_logLevel object) (num 0),
        Configuration_refreshCron := nullish (Configuration_p_refreshCron object) '''',
        Configuration_dnsServers := nullish (Configuration_p_dnsServers object) [],
        Configuration_ipv4Resolvers := nullish (Configuration_p_ipv4Resolvers object) [],
        Configuration_ipv6Resolvers := nullish (Configuration_p_ipv6Resolvers object) [],
        Configuration_ipv4ResolverAgreementThreshold := nullish (Configuration_p_ipv4ResolverAgreementThreshold object) (num 0),
        Configuration_ipv6ResolverAgreementThreshold := nullish (Configuration_p_ipv6ResolverAgreementThreshold object) (num 0),
        Configuration_ipv4ResolverMinResponses := nullish (Configuration_p_ipv4ResolverMinResponses object) (num 0),
        Configuration_ipv6ResolverMinResponses := nullish (Configuration_p_ipv6ResolverMinResponses object) (num 0),
        Configuration_notificationsEnabled := nullish (Configuration_p_notificationsEnabled object) False,
        Configuration_notificationsOnSuccess := nullish (Configuration_p_notificationsOnSuccess object) False,
        Configuration_notificationsRecipients := nullish (Configuration_p_notificationsRecipients object) [],
        Configuration_notificationsCooldownMinutes := nullish (Configuration_p_notificationsCooldownMinutes object) (num 0),
        Configuration_notificationsSubjectPrefix := nullish (Configuration_p_notificationsSubjectPrefix object) '''',
        Configuration_acmeEnabled := nullish (Configuration_p_acmeEnabled object) False,
        Configuration_acmeEmail := nullish (Configuration_p_acmeEmail object) '''',
        Configuration_acmeStaging := nullish (Configuration_p_acmeStaging object) False,
        Configuration_acmeRenewBeforeDays := nullish (Configuration_p_acmeRenewBeforeDays object) (num 0)\<rparr>"

definition Configuration_create :: "Configuration_partial option \<Rightarrow> Configuration_pb" where
  "Configuration_create base = Configuration_fromPartial (nullish base no_Configuration)"

definition Configuration_object :: "Configuration_partial \<Rightarrow> to_field list" where
  "Configuration_object object =
     [given JNum ''logLevel'' (Configuration_p_logLevel object),
      given JStr ''refreshCron'' (Configuration_p_refreshCron object),
      given (array_of JStr) ''dnsServers'' (Configuration_p_dnsServers object),
      given (array_of JStr) ''ipv4Resolvers'' (Configuration_p_ipv4Resolvers object),
      given (array_of JStr) ''ipv6Resolvers'' (Configuration_p_ipv6Resolvers object),
      given JNum ''ipv4ResolverAgreementThreshold'' (Configuration_p_ipv4ResolverAgreementThreshold object),
      given JNum ''ipv6ResolverAgreementThreshold'' (Configuration_p_ipv6ResolverAgreementThreshold object),
      given JNum ''ipv4ResolverMinResponses'' (Configuration_p_ipv4ResolverMinResponses object),
      given JNum ''ipv6ResolverMinResponses'' (Configuration_p_ipv6ResolverMinResponses object),
      given JBool ''notificationsEnabled'' (Configuration_p_notificationsEnabled object),
      given JBool ''notificationsOnSuccess'' (Configuration_p_notificationsOnSuccess object),
      given (array_of JStr) ''notificationsRecipients'' (Configuration_p_notificationsRecipients object),
      given JNum ''notificationsCooldownMinutes'' (Configuration_p_notificationsCooldownMinutes object),
      given JStr ''notificationsSubjectPrefix'' (Configuration_p_notificationsSubjectPrefix object),
      given JBool ''acmeEnabled'' (Configuration_p_acmeEnabled object),
      given JStr ''acmeEmail'' (Configuration_p_acmeEmail object),
      given JBool ''acmeStaging'' (Configuration_p_acmeStaging object),
      given JNum ''acmeRenewBeforeDays'' (Configuration_p_acmeRenewBeforeDays object)]"

definition Configuration_given :: "Configuration_partial \<Rightarrow> jsval" where
  "Configuration_given object = to_obj (Configuration_object object)"

lemma Configuration_object_plain: "plain_keys (Configuration_object p)"
  by (simp add: plain_keys_def Configuration_object_def given_def array_index_def is_digit_def)

lemma Configuration_gives:
  "given JNum ''logLevel'' (Configuration_p_logLevel p) \<in> set (Configuration_object p)"
  "given JStr ''refreshCron'' (Configuration_p_refreshCron p) \<in> set (Configuration_object p)"
  "given (array_of JStr) ''dnsServers'' (Configuration_p_dnsServers p) \<in> set (Configuration_object p)"
  "given (array_of JStr) ''ipv4Resolvers'' (Configuration_p_ipv4Resolvers p) \<in> set (Configuration_object p)"
  "given (array_of JStr) ''ipv6Resolvers'' (Configuration_p_ipv6Resolvers p) \<in> set (Configuration_object p)"
  "given JNum ''ipv4ResolverAgreementThreshold'' (Configuration_p_ipv4ResolverAgreementThreshold p) \<in> set (Configuration_object p)"
  "given JNum ''ipv6ResolverAgreementThreshold'' (Configuration_p_ipv6ResolverAgreementThreshold p) \<in> set (Configuration_object p)"
  "given JNum ''ipv4ResolverMinResponses'' (Configuration_p_ipv4ResolverMinResponses p) \<in> set (Configuration_object p)"
  "given JNum ''ipv6ResolverMinResponses'' (Configuration_p_ipv6ResolverMinResponses p) \<in> set (Configuration_object p)"
  "given JBool ''notificationsEnabled'' (Configuration_p_notificationsEnabled p) \<in> set (Configuration_object p)"
  "given JBool ''notificationsOnSuccess'' (Configuration_p_notificationsOnSuccess p) \<in> set (Configuration_object p)"
  "given (array_of JStr) ''notificationsRecipients'' (Configuration_p_notificationsRecipients p) \<in> set (Configuration_object p)"
  "given JNum ''notificationsCooldownMinutes'' (Configuration_p_notificationsCooldownMinutes p) \<in> set (Configuration_object p)"
  "given JStr ''notificationsSubjectPrefix'' (Configuration_p_notificationsSubjectPrefix p) \<in> set (Configuration_object p)"
  "given JBool ''acmeEnabled'' (Configuration_p_acmeEnabled p) \<in> set (Configuration_object p)"
  "given JStr ''acmeEmail'' (Configuration_p_acmeEmail p) \<in> set (Configuration_object p)"
  "given JBool ''acmeStaging'' (Configuration_p_acmeStaging p) \<in> set (Configuration_object p)"
  "given JNum ''acmeRenewBeforeDays'' (Configuration_p_acmeRenewBeforeDays p) \<in> set (Configuration_object p)"
  by (simp_all add: Configuration_object_def)

lemma Configuration_given_set: "isSet (Configuration_given p)"
  by (simp add: Configuration_given_def)

lemma Configuration_read: "Configuration_fromJSON (Configuration_given p) = Inr (Configuration_fromPartial p)"
  unfolding Configuration_fromJSON_def Configuration_given_def from_fields_def list.map
  by ((rule field_given Configuration_object_plain Configuration_gives
       | simp add: createBaseConfiguration_def Configuration_fromPartial_def o_def option.map_comp; fail | simp add: Configuration_object_def given_def; fail)+)

lemma Configuration_made: "Configuration_fromJSON (Configuration_given (nullish b no_Configuration)) = Inr (Configuration_create b)"
  by (cases b) (simp_all add: Configuration_read Configuration_create_def)

subsection \<open>LogEntry\<close>

record LogEntry_partial =
  LogEntry_p_timestamp :: "number option"
  LogEntry_p_level :: "number option"
  LogEntry_p_message :: "string option"

definition no_LogEntry :: LogEntry_partial where
  "no_LogEntry =
     \<lparr>LogEntry_p_timestamp = None, LogEntry_p_level = None, LogEntry_p_message = None\<rparr>"

definition LogEntry_fromPartial :: "LogEntry_partial \<Rightarrow> LogEntry_pb" where
  "LogEntry_fromPartial object =
     createBaseLogEntry
       \<lparr>LogEntry_timestamp := nullish (LogEntry_p_timestamp object) (num 0),
        LogEntry_level := nullish (LogEntry_p_level object) (num 0),
        LogEntry_message := nullish (LogEntry_p_message object) ''''\<rparr>"

definition LogEntry_create :: "LogEntry_partial option \<Rightarrow> LogEntry_pb" where
  "LogEntry_create base = LogEntry_fromPartial (nullish base no_LogEntry)"

definition LogEntry_object :: "LogEntry_partial \<Rightarrow> to_field list" where
  "LogEntry_object object =
     [given JNum ''timestamp'' (LogEntry_p_timestamp object),
      given JNum ''level'' (LogEntry_p_level object),
      given JStr ''message'' (LogEntry_p_message object)]"

definition LogEntry_given :: "LogEntry_partial \<Rightarrow> jsval" where
  "LogEntry_given object = to_obj (LogEntry_object object)"

lemma LogEntry_object_plain: "plain_keys (LogEntry_object p)"
  by (simp add: plain_keys_def LogEntry_object_def given_def array_index_def is_digit_def)

lemma LogEntry_gives:
  "given JNum ''timestamp'' (LogEntry_p_timestamp p) \<in> set (LogEntry_object p)"
  "given JNum ''level'' (LogEntry_p_level p) \<in> set (LogEntry_object p)"
  "given JStr ''message'' (LogEntry_p_message p) \<in> set (LogEntry_object p)"
  by (simp_all add: LogEntry_object_def)

lemma LogEntry_given_set: "isSet (LogEntry_given p)"
  by (simp add: LogEntry_given_def)

lemma LogEntry_read: "LogEntry_fromJSON (LogEntry_given p) = Inr (LogEntry_fromPartial p)"
  unfolding LogEntry_fromJSON_def LogEntry_given_def from_fields_def list.map
  by ((rule field_given LogEntry_object_plain LogEntry_gives
       | simp add: createBaseLogEntry_def LogEntry_fromPartial_def o_def option.map_comp; fail | simp add: LogEntry_object_def given_def; fail)+)

lemma LogEntry_made: "LogEntry_fromJSON (LogEntry_given (nullish b no_LogEntry)) = Inr (LogEntry_create b)"
  by (cases b) (simp_all add: LogEntry_read LogEntry_create_def)

end
