(* ===== verification/RequestJson.thy ===== *)
theory RequestJson
  imports PartialMessages
begin

text \<open>
  The JSON form of a search request (\<open>Request.fromJSON\<close> in \<^verbatim>\<open>global/model/api.ts\<close>).
  Strings have a method \<open>search\<close>: for an argument that is a string, \<open>object.search\<close> is
  that function and its text is read. The language leaves the text of a built-in function to
  the implementation, so it is the argument \<open>native\<close>.
\<close>

definition Request_search_text :: "string \<Rightarrow> jsval \<Rightarrow> string + string" where
  "Request_search_text native object =
     (case object of JStr t \<Rightarrow> Inr native | _ \<Rightarrow> from_names js_String '''' object [''search''])"

definition Request_fromJSON :: "string \<Rightarrow> jsval \<Rightarrow> string + Request_pb" where
  "Request_fromJSON native object =
     bind_sum (Request_search_text native object) (\<lambda>v. Inr \<lparr>Request_search = v\<rparr>)"

subsection \<open>Facts\<close>

lemma Request_json: "Request_fromJSON native (Request_toJSON m) = Inr m"
  by (cases m)
    (simp add: Request_fromJSON_def Request_search_text_def Request_toJSON_def Request_fields_def to_obj_def
      to_string_def field_of_def isSet_def)

text \<open>The request a component writes and the one the generated code reads are the same: the text
  of the JSON that is posted gives back the message.\<close>

lemma Request_text:
  assumes "stringify (Request_toJSON m) = Some t" "json_ok (Request_toJSON m)"
  shows "\<exists>v. json_parse t = Some v \<and> Request_fromJSON native v = Inr m"
  using json_roundtrip [OF assms(2,1)] Request_json by auto

definition Request_given :: "Request_partial \<Rightarrow> jsval" where
  "Request_given object = to_obj [given JStr ''search'' (Request_p_search object)]"

lemma Request_made: "Request_fromJSON native (Request_given (nullish b no_Request)) = Inr (Request_create b)"
  by (cases "Request_p_search (nullish b no_Request)")
    (simp_all add: Request_fromJSON_def Request_search_text_def Request_given_def Request_create_def
      Request_fromPartial_def createBaseRequest_def given_def to_obj_def field_of_def isSet_def)

text \<open>A missing search is the empty one, as \<open>fromPartial\<close> has it.\<close>

lemma Request_missing:
  "Request_fromJSON native (JObj []) = Inr (Request_fromPartial no_Request)"
  by (simp add: Request_fromJSON_def Request_search_text_def Request_fromPartial_def no_Request_def createBaseRequest_def
      field_of_def isSet_def)

lemma Request_of_null: "Request_fromJSON native JNull = Inl ''TypeError''"
  by (simp add: Request_fromJSON_def Request_search_text_def field_of_def isSet_def)

text \<open>A request that is a string is read as the text of the method, whatever the string is.\<close>

lemma Request_of_string: "Request_fromJSON native (JStr t) = Inr \<lparr>Request_search = native\<rparr>"
  by (simp add: Request_fromJSON_def Request_search_text_def)

end
