(* ===== verification/Codec.thy ===== *)
theory Codec
  imports Varint RequestJson
begin

text \<open>
  What the generated codec of \<^verbatim>\<open>global/model/api.ts\<close> guarantees: messages survive the wire and
  JSON, decoders return, unknown fields are ignored, numbers that do not fit are refused, and
  both spellings of a field are read. The properties of the wire are stated for every
  \<open>wire_format\<close> and rest on the per-message lemmas \<open>X_transmits\<close>.
\<close>

definition sample_address :: Address_pb where
  "sample_address =
     \<lparr>Address_id = num 4, Address_createdAt = num 1700000000, Address_updatedAt = num 1700000001,
      Address_ipv4 = ''192.0.2.1'', Address_ipv6 = '''', Address_current = True\<rparr>"

definition sample_pb :: Record_pb where
  "sample_pb =
     createBaseRecord\<lparr>Record_id := num 7, Record_token := ''secret'', Record_domain := ''example.org'',
       Record_name := ''home'', Record_ttl := num 60, Record_address := Some sample_address,
       Record_purpose := num 3\<rparr>"

lemma sample_pb_safe: "Record_safe sample_pb"
  by (simp add: Record_safe_def sample_pb_def createBaseRecord_def sample_address_def Address_safe_def short_text_def)

lemma sample_pb_whole: "Record_whole sample_pb"
  by (simp add: Record_whole_def sample_pb_def createBaseRecord_def sample_address_def Address_whole_def whole_def known_enum_def)

lemma decodes_some: "decodes W f \<Longrightarrow> \<exists>res. f r len = Some res"
  unfolding decodes_def by blast

context wire_reader
begin

lemma Empty_decode_returns: "decodes W (Empty_decode W)"
  unfolding Empty_decode_def by (rule decode_message_returns) (simp add: Empty_cases_def)

lemmas decoders_done =
  Empty_decode_returns [THEN decodes_some] Line_decode_returns [THEN decodes_some]
  Request_decode_returns [THEN decodes_some] Address_decode_returns [THEN decodes_some]
  AddressHistory_decode_returns [THEN decodes_some] Certificate_decode_returns [THEN decodes_some]
  CertificateList_decode_returns [THEN decodes_some] Record_decode_returns [THEN decodes_some]
  RecordList_decode_returns [THEN decodes_some] RecordDelete_decode_returns [THEN decodes_some]
  Zone_decode_returns [THEN decodes_some] ZoneList_decode_returns [THEN decodes_some]
  Resolution_decode_returns [THEN decodes_some] ResolutionResult_decode_returns [THEN decodes_some]
  Task_decode_returns [THEN decodes_some] TaskList_decode_returns [THEN decodes_some]
  TaskDelete_decode_returns [THEN decodes_some] TaskResult_decode_returns [THEN decodes_some]
  CertificateArtifact_decode_returns [THEN decodes_some] CertificateIssuanceJob_decode_returns [THEN decodes_some]
  CertificateTaskRun_decode_returns [THEN decodes_some] CertificateDetails_decode_returns [THEN decodes_some]
  Configuration_decode_returns [THEN decodes_some] LogEntry_decode_returns [THEN decodes_some]

end

context wire_format
begin

lemma RecordList_round:
  "RecordList_safe m \<Longrightarrow> outs w = [[]] \<Longrightarrow>
   \<exists>w' bs. RecordList_encode W m w = Inr w' \<and> outs w' = [bs] \<and>
     (\<forall>r. rest r = bs \<longrightarrow> (\<exists>r'. RecordList_decode W r None = Some (Inr (m, r')) \<and> rest r' = []))"
  by (rule transmitted [OF RecordList_transmits])

lemma CertificateDetails_round:
  "CertificateDetails_safe m \<Longrightarrow> outs w = [[]] \<Longrightarrow>
   \<exists>w' bs. CertificateDetails_encode W m w = Inr w' \<and> outs w' = [bs] \<and>
     (\<forall>r. rest r = bs \<longrightarrow> (\<exists>r'. CertificateDetails_decode W r None = Some (Inr (m, r')) \<and> rest r' = []))"
  by (rule transmitted [OF CertificateDetails_transmits])

lemma Configuration_round:
  "Configuration_safe exact m \<Longrightarrow> outs w = [[]] \<Longrightarrow>
   \<exists>w' bs. Configuration_encode W m w = Inr w' \<and> outs w' = [bs] \<and>
     (\<forall>r. rest r = bs \<longrightarrow> (\<exists>r'. Configuration_decode W r None = Some (Inr (m, r')) \<and> rest r' = []))"
  by (rule transmitted [OF Configuration_transmits])

end

text \<open>
  C3. A list of records, with their addresses and certificates, survives the wire: whenever its
  numbers are in range and its strings are shorter than a mebibyte, encoding succeeds and
  decoding the bytes gives the same list and leaves nothing unread.
\<close>

theorem RecordList_wire_roundtrip:
  assumes "wire_format W outs rest exact" "RecordList_safe m" "outs w = [[]]"
  shows "\<exists>w' bs. RecordList_encode W m w = Inr w' \<and> outs w' = [bs] \<and>
    (\<forall>r. rest r = bs \<longrightarrow> (\<exists>r'. RecordList_decode W r None = Some (Inr (m, r')) \<and> rest r' = []))"
  using assms by (rule wire_format.RecordList_round)

lemma RecordList_wire_roundtrip_witness:
  "\<exists>w' bs. RecordList_encode bytes_wire \<lparr>RecordList_records = [sample_pb, sample_pb]\<rparr> [[]] = Inr w' \<and> id w' = [bs] \<and>
    (\<forall>r. snd r = bs \<longrightarrow>
      (\<exists>r'. RecordList_decode bytes_wire r None = Some (Inr (\<lparr>RecordList_records = [sample_pb, sample_pb]\<rparr>, r')) \<and> snd r' = []))"
  by (rule RecordList_wire_roundtrip [OF bytes_wire.wire_format_axioms])
    (simp_all add: RecordList_safe_def sample_pb_safe)

text \<open>
  The details of a certificate, with their embedded lists of artifacts, jobs and task runs,
  survive the wire.
\<close>

theorem CertificateDetails_wire_roundtrip:
  assumes "wire_format W outs rest exact" "CertificateDetails_safe m" "outs w = [[]]"
  shows "\<exists>w' bs. CertificateDetails_encode W m w = Inr w' \<and> outs w' = [bs] \<and>
    (\<forall>r. rest r = bs \<longrightarrow> (\<exists>r'. CertificateDetails_decode W r None = Some (Inr (m, r')) \<and> rest r' = []))"
  using assms by (rule wire_format.CertificateDetails_round)

definition sample_details :: CertificateDetails_pb where
  "sample_details =
     createBaseCertificateDetails
       \<lparr>CertificateDetails_recordId := num 7,
        CertificateDetails_certificate := Some (createBaseCertificate\<lparr>Certificate_status := ''valid''\<rparr>),
        CertificateDetails_artifacts :=
          [\<lparr>CertificateArtifact_key = ''pem'', CertificateArtifact_label = ''PEM'',
            CertificateArtifact_available = True, CertificateArtifact_downloadUrl = ''/x''\<rparr>]\<rparr>"

lemma CertificateDetails_wire_roundtrip_witness:
  "\<exists>w' bs. CertificateDetails_encode bytes_wire sample_details [[]] = Inr w' \<and> id w' = [bs] \<and>
    (\<forall>r. snd r = bs \<longrightarrow>
      (\<exists>r'. CertificateDetails_decode bytes_wire r None = Some (Inr (sample_details, r')) \<and> snd r' = []))"
  by (rule CertificateDetails_wire_roundtrip [OF bytes_wire.wire_format_axioms])
    (simp_all add: CertificateDetails_safe_def sample_details_def createBaseCertificateDetails_def
      Certificate_safe_def createBaseCertificate_def CertificateArtifact_safe_def short_text_def)

text \<open>
  A configuration survives the wire, its two fractions included when a binary64 holds them.
\<close>

theorem Configuration_wire_roundtrip:
  assumes "wire_format W outs rest exact" "Configuration_safe exact m" "outs w = [[]]"
  shows "\<exists>w' bs. Configuration_encode W m w = Inr w' \<and> outs w' = [bs] \<and>
    (\<forall>r. rest r = bs \<longrightarrow> (\<exists>r'. Configuration_decode W r None = Some (Inr (m, r')) \<and> rest r' = []))"
  using assms by (rule wire_format.Configuration_round)

definition sample_configuration :: Configuration_pb where
  "sample_configuration =
     createBaseConfiguration
       \<lparr>Configuration_logLevel := num (- 1), Configuration_dnsServers := [''1.1.1.1'', ''9.9.9.9''],
        Configuration_ipv4ResolverAgreementThreshold := dec 5 (- 1), Configuration_acmeStaging := True\<rparr>"

lemma half_exact: "binary64 (dec 5 (- 1)) = Some (False, 1, 1)"
  by (simp add: dec_def strip10_normal)

lemma Configuration_wire_roundtrip_witness:
  "\<exists>w' bs. Configuration_encode bytes_wire sample_configuration [[]] = Inr w' \<and> id w' = [bs] \<and>
    (\<forall>r. snd r = bs \<longrightarrow>
      (\<exists>r'. Configuration_decode bytes_wire r None = Some (Inr (sample_configuration, r')) \<and> snd r' = []))"
  by (rule Configuration_wire_roundtrip [OF bytes_wire.wire_format_axioms])
    (simp_all add: Configuration_safe_def sample_configuration_def createBaseConfiguration_def short_text_def
      half_exact exI [of Not False] del: binary64.simps)

text \<open>
  C9. The decoder of each of the 24 messages returns, with a message or an exception, whatever the reader yields and
  whatever length it is given, as long as each tag that is read moves the reader forward.
\<close>

theorem decoders_return:
  assumes "wire_reader W"
  shows "(\<exists>res. Empty_decode W r len = Some res) \<and> (\<exists>res. Line_decode W r len = Some res) \<and>
    (\<exists>res. Request_decode W r len = Some res) \<and> (\<exists>res. Address_decode W r len = Some res) \<and>
    (\<exists>res. AddressHistory_decode W r len = Some res) \<and>
    (\<exists>res. Certificate_decode W r len = Some res) \<and>
    (\<exists>res. CertificateList_decode W r len = Some res) \<and>
    (\<exists>res. Record_decode W r len = Some res) \<and>
    (\<exists>res. RecordList_decode W r len = Some res) \<and>
    (\<exists>res. RecordDelete_decode W r len = Some res) \<and>
    (\<exists>res. Zone_decode W r len = Some res) \<and> (\<exists>res. ZoneList_decode W r len = Some res) \<and>
    (\<exists>res. Resolution_decode W r len = Some res) \<and>
    (\<exists>res. ResolutionResult_decode W r len = Some res) \<and>
    (\<exists>res. Task_decode W r len = Some res) \<and> (\<exists>res. TaskList_decode W r len = Some res) \<and>
    (\<exists>res. TaskDelete_decode W r len = Some res) \<and>
    (\<exists>res. TaskResult_decode W r len = Some res) \<and>
    (\<exists>res. CertificateArtifact_decode W r len = Some res) \<and>
    (\<exists>res. CertificateIssuanceJob_decode W r len = Some res) \<and>
    (\<exists>res. CertificateTaskRun_decode W r len = Some res) \<and>
    (\<exists>res. CertificateDetails_decode W r len = Some res) \<and>
    (\<exists>res. Configuration_decode W r len = Some res) \<and> (\<exists>res. LogEntry_decode W r len = Some res)"
  by (intro conjI wire_reader.decoders_done [OF assms])

lemma decoders_return_witness: "\<exists>res. RecordList_decode bytes_wire (0, [10, 255]) None = Some res"
  using decoders_return [OF bytes_wire.wire_reader_axioms] by blast

text \<open>
  C18. A record whose integers are whole and whose purpose is one of the enumeration is read back
  from the JSON text of its \<open>toJSON\<close>.
\<close>

theorem Record_json_roundtrip:
  assumes "Record_whole m"
  shows "\<exists>t v. stringify (Record_toJSON m) = Some t \<and> json_parse t = Some v \<and> Record_fromJSON v = Inr m"
proof -
  have ok: "json_ok (Record_toJSON m)" using assms by (rule Record_json_ok)
  then obtain t where t: "stringify (Record_toJSON m) = Some t" using stringify_ok by blast
  with json_roundtrip [OF ok t] Record_json [OF assms] show ?thesis by blast
qed

lemma Record_json_roundtrip_witness:
  "\<exists>t v. stringify (Record_toJSON sample_pb) = Some t \<and> json_parse t = Some v \<and> Record_fromJSON v = Inr sample_pb"
  using Record_json_roundtrip [OF sample_pb_whole] .

context wire_format
begin

lemma future_field:
  assumes m: "Record_safe m" and n: "14 < n" "n < 2 ^ 29"
    and f: "t = 0 \<and> (\<exists>i. - (2 ^ 63) \<le> i \<and> i < 2 ^ 63 \<and> f = w_int64 W (num i)) \<or>
            t = 2 \<and> (\<exists>s. length s < 2 ^ 32 \<and> f = w_string W s)"
  shows "\<exists>c. transmits W outs rest (\<lambda>m w. bind_sum (Record_encode W m w) (tagged W (8 * n + t) f)) (Record_decode W) m c"
proof -
  have t: "(8 * n + t) mod 8 = t" "(8 * n + t) div 8 = n" "t \<noteq> 4" "8 * n + t < 2 ^ 32" "0 < 8 * n + t"
    using f n by auto
  have four: "(8 * n + t) mod 8 \<noteq> 4" unfolding t(1) by (rule t(3))
  have none: "dispatch (Record_cases W) (8 * n + t) = None"
    using n(1) unfolding dispatch_def t(2) by (simp add: Record_cases_def)
  obtain c where "carries W outs rest f (skipping W ((8 * n + t) mod 8)) () c"
    using f skip_int64 skip_string unfolding t(1) by blast
  then have "codes W outs rest (Record_cases W) (tagged W (8 * n + t) f) (\<lambda>m. m) (c + 5)"
    by (rule codes_unknown [OF four t(5,4) none])
  from coded_then [OF Record_coded [OF m] this]
  show ?thesis by (intro exI) (rule transmits_message [OF _ Record_decode_def])
qed

lemma future_field_read:
  assumes "Record_safe m" "14 < n" "n < 2 ^ 29" "outs w = [[]]"
    and "t = 0 \<and> (\<exists>i. - (2 ^ 63) \<le> i \<and> i < 2 ^ 63 \<and> f = w_int64 W (num i)) \<or>
         t = 2 \<and> (\<exists>s. length s < 2 ^ 32 \<and> f = w_string W s)"
  shows "\<exists>w' bs. bind_sum (Record_encode W m w) (tagged W (8 * n + t) f) = Inr w' \<and> outs w' = [bs] \<and>
    (\<forall>r. rest r = bs \<longrightarrow> (\<exists>r'. Record_decode W r None = Some (Inr (m, r')) \<and> rest r' = []))"
proof -
  obtain c where "transmits W outs rest (\<lambda>m w. bind_sum (Record_encode W m w) (tagged W (8 * n + t) f)) (Record_decode W) m c"
    using future_field [OF assms(1-3,5)] by blast
  from transmitted [OF this assms(4)] show ?thesis .
qed

end

text \<open>
  A decoder ignores a field of a number it does not know: a record followed by an integer or a
  string under any unused field number is decoded to the record.
\<close>

theorem future_field_ignored:
  assumes "wire_format W outs rest exact" "Record_safe m" "14 < n" "n < 2 ^ 29" "outs w = [[]]"
    and "t = 0 \<and> (\<exists>i. - (2 ^ 63) \<le> i \<and> i < 2 ^ 63 \<and> f = w_int64 W (num i)) \<or>
         t = 2 \<and> (\<exists>s. length s < 2 ^ 32 \<and> f = w_string W s)"
  shows "\<exists>w' bs. bind_sum (Record_encode W m w) (tagged W (8 * n + t) f) = Inr w' \<and> outs w' = [bs] \<and>
    (\<forall>r. rest r = bs \<longrightarrow> (\<exists>r'. Record_decode W r None = Some (Inr (m, r')) \<and> rest r' = []))"
  using assms by (rule wire_format.future_field_read)

lemma future_field_ignored_witness:
  "\<exists>w' bs. bind_sum (Record_encode bytes_wire sample_pb [[]]) (tagged bytes_wire (8 * 15 + 2) (w_string bytes_wire ''new'')) = Inr w' \<and>
    id w' = [bs] \<and> (\<forall>r. snd r = bs \<longrightarrow> (\<exists>r'. Record_decode bytes_wire r None = Some (Inr (sample_pb, r')) \<and> snd r' = []))"
  by (rule future_field_ignored [OF bytes_wire.wire_format_axioms sample_pb_safe])
    (simp_all, rule exI [of _ "''new''"], simp)

context wire_format
begin

lemma unsafe_id_read:
  assumes "2 ^ 53 \<le> \<bar>i\<bar>" "\<bar>i\<bar> < 2 ^ 63" "outs w = [[]]"
  shows "\<exists>w' bs. tagged W 8 (w_int64 W (num i)) w = Inr w' \<and> outs w' = [bs] \<and>
    (\<forall>r. rest r = bs \<longrightarrow> (\<exists>e. Record_decode W r None = Some (Inl e)))"
proof -
  obtain ts where ts: "ts \<noteq> []" "emits outs (w_uint32 W (num 8)) ts" "consumes W rest (r_uint32 W) ts 8"
    using uint32_law [of 8] unfolding carries_def by auto
  have range: "- (2 ^ 63) \<le> i" "i < 2 ^ 63" using assms(2) by linarith+
  obtain bs where bs: "emits outs (w_int64 W (num i)) bs" "consumes W rest (r_int64 W) bs i"
    using int64_law [of i] range unfolding carries_def by auto
  have "\<exists>e. Record_decode W r None = Some (Inl e)" if h: "rest r = ts @ bs" for r
  proof -
    obtain r1 where r1: "r_uint32 W r = Inr (8, r1)" "rest r1 = bs @ []"
      using ts(3) [unfolded consumes_def, rule_format, of r bs] h by auto
    obtain r2 where r2: "r_int64 W r1 = Inr (i, r2)"
      using bs(2) [unfolded consumes_def, rule_format, OF r1(2)] by auto
    obtain e where e: "longToNumber i = Inl e" using longToNumber_unsafe [OF assms(1)] by blast
    have "r_pos W r < r_len W r" using pos_rest [of r] h ts(1) by (cases ts) auto
    then show ?thesis
      by (simp add: Record_decode_def decode_message_def decode_loop.simps [of W _ _ createBaseRecord r]
          r1(1) Record_dispatch read_int64_def reading_def long_number_def r2 e)
  qed
  moreover have "\<exists>w'. tagged W 8 (w_int64 W (num i)) w = Inr w' \<and> outs w' = [ts @ bs]"
    using emits_bind [OF ts(2) bs(1)] assms(3) unfolding emits_def tagged_def by fastforce
  ultimately show ?thesis by blast
qed

end

text \<open>
  A 64-bit identifier the language cannot represent is never rounded: decoding a record with
  one throws.
\<close>

theorem unsafe_id_rejected:
  assumes "wire_format W outs rest exact" "2 ^ 53 \<le> \<bar>i\<bar>" "\<bar>i\<bar> < 2 ^ 63" "outs w = [[]]"
  shows "\<exists>w' bs. tagged W 8 (w_int64 W (num i)) w = Inr w' \<and> outs w' = [bs] \<and>
    (\<forall>r. rest r = bs \<longrightarrow> (\<exists>e. Record_decode W r None = Some (Inl e)))"
  using assms by (rule wire_format.unsafe_id_read)

lemma unsafe_id_rejected_witness:
  "\<exists>w' bs. tagged bytes_wire 8 (w_int64 bytes_wire (num (2 ^ 60))) [[]] = Inr w' \<and> id w' = [bs] \<and>
    (\<forall>r. snd r = bs \<longrightarrow> (\<exists>e. Record_decode bytes_wire r None = Some (Inl e)))"
  by (rule unsafe_id_rejected [OF bytes_wire.wire_format_axioms]) simp_all

text \<open>
  A time to live that is not whole cannot be encoded for the wire, while JSON carries it
  rounded to the nearest second.
\<close>

theorem fractional_ttl:
  assumes "wire_format W outs rest exact" "int_of (Record_ttl m) = None"
  shows "(\<exists>e. Record_encode W m w = Inl e) \<and>
    to_int ''ttl'' (Record_ttl m) \<in> set (Record_fields m) \<and>
    snd (to_int ''ttl'' (Record_ttl m)) = Some (JNum (math_round (Record_ttl m)))"
proof -
  have ne: "Record_ttl m \<noteq> num 0" using assms(2) by force
  have "\<exists>e. field_uint32 W 64 (Record_ttl m) w = Inl e" for w
    using ne wire_format.uint32_fraction [OF assms(1,2)]
    by (cases "w_uint32 W (num 64) w") (auto simp: field_uint32_def tagged_def)
  then have "\<exists>e. Record_encode W m w = Inl e"
    unfolding Record_encode_def by (intro in_turn_fails [of "field_uint32 W 64 (Record_ttl m)"]) auto
  moreover have "snd (to_int ''ttl'' (Record_ttl m)) = Some (JNum (math_round (Record_ttl m)))"
    using ne by (simp add: to_int_def)
  ultimately show ?thesis using Record_sends(8) [of m] by blast
qed

lemma fractional_ttl_witness:
  "\<exists>e. Record_encode bytes_wire (sample_pb\<lparr>Record_ttl := dec 15 (- 1)\<rparr>) [[]] = Inl e"
  using fractional_ttl [OF bytes_wire.wire_format_axioms, of "sample_pb\<lparr>Record_ttl := dec 15 (- 1)\<rparr>" "[[]]"]
  by (simp add: dec_def strip10_normal)

subsection \<open>Both spellings\<close>

definition snake_char :: "char \<Rightarrow> string" where
  "snake_char c = (if lower_char c = c then [c] else [CHR ''_'', lower_char c])"

definition snake :: "string \<Rightarrow> string" where
  "snake s = concat (map snake_char s)"

fun rename_keys :: "(string \<Rightarrow> string) \<Rightarrow> jsval \<Rightarrow> jsval" where
  "rename_keys f (JObj kvs) = JObj (map (apfst f) kvs)"
| "rename_keys f v = v"

lemma rename_to_obj:
  assumes "plain_keys es" "plain_keys (map (apfst f) es)"
  shows "rename_keys f (to_obj es) = to_obj (map (apfst f) es)"
proof -
  have "map (apfst f) (present es) = present (map (apfst f) es)"
    by (induction es) (auto simp: present_def split: option.split)
  with assms show ?thesis by (simp add: to_obj_present)
qed

lemma rename_fields [simp]:
  "apfst f (to_int k n) = to_int (f k) n" "apfst f (to_string k s) = to_string (f k) s"
  "apfst f (to_bool k b) = to_bool (f k) b" "apfst f (to_enum g k n) = to_enum g (f k) n"
  by (simp_all add: to_defs)

lemma from_value_alias:
  assumes "plain_keys es" "k \<notin> fst ` set es"
  shows "from_value conv d (k # ks) upd (to_obj es) m = from_value conv d ks upd (to_obj es) m"
proof -
  have "map_of es k = None" using assms(2) by (simp add: map_of_eq_None_iff)
  then have "from_names conv d (to_obj es) (k # ks) = from_names conv d (to_obj es) ks"
    by (simp add: field_of_def get_to_obj [OF assms(1)]) (simp add: isSet_def)
  then show ?thesis by (simp only: from_value_def)
qed

lemma from_alias:
  assumes "plain_keys es" "k \<notin> fst ` set es"
  shows "from_number (k' # ks) upd (to_obj es) m = r \<Longrightarrow> from_number (k # k' # ks) upd (to_obj es) m = r"
    and "from_string (k' # ks) us (to_obj es) m = r \<Longrightarrow> from_string (k # k' # ks) us (to_obj es) m = r"
    and "from_bool (k' # ks) ub (to_obj es) m = r \<Longrightarrow> from_bool (k # k' # ks) ub (to_obj es) m = r"
    and "from_enum conv (k' # ks) upd (to_obj es) m = r \<Longrightarrow> from_enum conv (k # k' # ks) upd (to_obj es) m = r"
  unfolding from_number_def from_string_def from_bool_def from_enum_def
  by (simp_all only: from_value_alias [OF assms])

definition Task_snake_fields :: "Task_pb \<Rightarrow> to_field list" where
  "Task_snake_fields m = map (apfst snake) (Task_fields m)"

lemma snake_names [simp]:
  "snake ''id'' = ''id''"
  "snake ''createdAt'' = ''created_at''"
  "snake ''updatedAt'' = ''updated_at''"
  "snake ''recordId'' = ''record_id''"
  "snake ''name'' = ''name''"
  "snake ''triggerOn'' = ''trigger_on''"
  "snake ''method'' = ''method''"
  "snake ''url'' = ''url''"
  "snake ''headers'' = ''headers''"
  "snake ''body'' = ''body''"
  "snake ''enabled'' = ''enabled''"
  "snake ''lastRun'' = ''last_run''"
  "snake ''lastStatus'' = ''last_status''"
  "snake ''lastError'' = ''last_error''"
  "snake ''includeCertificate'' = ''include_certificate''"
  "snake ''certificateFormat'' = ''certificate_format''"
  by code_simp+

lemma Task_snake:
  "Task_snake_fields m =
     [to_int ''id'' (Task_id m), to_int ''created_at'' (Task_createdAt m), to_int ''updated_at'' (Task_updatedAt m),
      to_int ''record_id'' (Task_recordId m), to_string ''name'' (Task_name m),
      to_enum taskTriggerToJSON ''trigger_on'' (Task_triggerOn m), to_string ''method'' (Task_method m),
      to_string ''url'' (Task_url m), to_string ''headers'' (Task_headers m), to_string ''body'' (Task_body m),
      to_bool ''enabled'' (Task_enabled m), to_int ''last_run'' (Task_lastRun m),
      to_string ''last_status'' (Task_lastStatus m), to_string ''last_error'' (Task_lastError m),
      to_bool ''include_certificate'' (Task_includeCertificate m),
      to_string ''certificate_format'' (Task_certificateFormat m)]"
  by (simp add: Task_snake_fields_def Task_fields_def)

lemma Task_snake_plain: "plain_keys (Task_snake_fields m)"
  by (simp add: plain_keys_def Task_snake to_defs array_index_def is_digit_def)

lemma Task_snake_sends:
  "to_int ''id'' (Task_id m) \<in> set (Task_snake_fields m)"
  "to_int ''created_at'' (Task_createdAt m) \<in> set (Task_snake_fields m)"
  "to_int ''updated_at'' (Task_updatedAt m) \<in> set (Task_snake_fields m)"
  "to_int ''record_id'' (Task_recordId m) \<in> set (Task_snake_fields m)"
  "to_string ''name'' (Task_name m) \<in> set (Task_snake_fields m)"
  "to_enum taskTriggerToJSON ''trigger_on'' (Task_triggerOn m) \<in> set (Task_snake_fields m)"
  "to_string ''method'' (Task_method m) \<in> set (Task_snake_fields m)"
  "to_string ''url'' (Task_url m) \<in> set (Task_snake_fields m)"
  "to_string ''headers'' (Task_headers m) \<in> set (Task_snake_fields m)"
  "to_string ''body'' (Task_body m) \<in> set (Task_snake_fields m)"
  "to_bool ''enabled'' (Task_enabled m) \<in> set (Task_snake_fields m)"
  "to_int ''last_run'' (Task_lastRun m) \<in> set (Task_snake_fields m)"
  "to_string ''last_status'' (Task_lastStatus m) \<in> set (Task_snake_fields m)"
  "to_string ''last_error'' (Task_lastError m) \<in> set (Task_snake_fields m)"
  "to_bool ''include_certificate'' (Task_includeCertificate m) \<in> set (Task_snake_fields m)"
  "to_string ''certificate_format'' (Task_certificateFormat m) \<in> set (Task_snake_fields m)"
  by (simp_all add: Task_snake)

lemma Task_snake_read:
  assumes "Task_whole m"
  shows "Task_fromJSON (to_obj (Task_snake_fields m)) = Inr m"
  unfolding Task_fromJSON_def from_fields_def list.map
  by (insert assms [unfolded Task_whole_def],
      (rule from_alias [OF Task_snake_plain] field_sent Task_snake_plain Task_snake_sends
       | simp add: createBaseTask_def whole_round taskTrigger_known; fail | simp add: Task_snake to_defs; fail)+)

text \<open>
  C17. A task is read the same from the names of the protocol (\<open>record_id\<close>) as from the names of
  JSON (\<open>recordId\<close>).
\<close>

theorem task_names_agree:
  assumes "Task_whole m"
  shows "Task_fromJSON (rename_keys snake (Task_toJSON m)) = Task_fromJSON (Task_toJSON m)"
  using Task_snake_read [OF assms] rename_to_obj [OF Task_plain, of snake m] Task_snake_plain [of m] Task_json [OF assms]
  by (simp add: Task_toJSON_def Task_snake_fields_def)

lemma task_names_agree_witness:
  "Task_fromJSON (rename_keys snake (Task_toJSON (createBaseTask\<lparr>Task_recordId := num 7, Task_triggerOn := num 2\<rparr>))) =
   Task_fromJSON (Task_toJSON (createBaseTask\<lparr>Task_recordId := num 7, Task_triggerOn := num 2\<rparr>))"
  by (rule task_names_agree) (simp add: Task_whole_def createBaseTask_def whole_def known_enum_def)

text \<open>
  A configuration is read back from the JSON text of its \<open>toJSON\<close>, its fractions unrounded.
\<close>

theorem Configuration_json_roundtrip:
  assumes "Configuration_whole m"
  shows "\<exists>t v. stringify (Configuration_toJSON m) = Some t \<and> json_parse t = Some v \<and> Configuration_fromJSON v = Inr m"
proof -
  have ok: "json_ok (Configuration_toJSON m)" using assms by (rule Configuration_json_ok)
  then obtain t where t: "stringify (Configuration_toJSON m) = Some t" using stringify_ok by blast
  with json_roundtrip [OF ok t] Configuration_json [OF assms] show ?thesis by blast
qed

lemma Configuration_json_roundtrip_witness:
  "\<exists>t v. stringify (Configuration_toJSON sample_configuration) = Some t \<and> json_parse t = Some v \<and>
     Configuration_fromJSON v = Inr sample_configuration"
  by (rule Configuration_json_roundtrip)
    (simp add: Configuration_whole_def sample_configuration_def createBaseConfiguration_def whole_def finite_dec)

lemma Empty_made: "Empty_fromJSON v = Inr (Empty_create b)"
  by (simp add: Empty_fromJSON_def Empty_create_def Empty_fromPartial_def createBaseEmpty_def)

text \<open>
  C34. The two ways of making a message agree, for each of the 24 messages: what \<open>create\<close>, by \<open>fromPartial\<close>, makes of the
  fields a caller gives, at any depth, or of nothing, is what \<open>fromJSON\<close> reads from the object that
  holds them, with the same default for every field that is absent. They differ in the numbers an
  enumeration does not list, in a purpose and in a trigger: \<open>fromJSON\<close> makes them \<open>UNRECOGNIZED\<close>, and
  \<open>create\<close> keeps them, so it agrees once they are replaced.
\<close>

theorem partial_agrees:
  "Empty_fromJSON v = Inr (Empty_create a_Empty) \<and>
    Line_fromJSON (Line_given (nullish a_Line no_Line)) = Inr (Line_create a_Line) \<and>
    Request_fromJSON native (Request_given (nullish a_Request no_Request)) = Inr (Request_create a_Request) \<and>
    Address_fromJSON (Address_given (nullish a_Address no_Address)) = Inr (Address_create a_Address) \<and>
    AddressHistory_fromJSON (AddressHistory_given (nullish a_AddressHistory no_AddressHistory)) = Inr (AddressHistory_create a_AddressHistory) \<and>
    Certificate_fromJSON (Certificate_given (nullish a_Certificate no_Certificate)) = Inr (Certificate_create a_Certificate) \<and>
    CertificateList_fromJSON (CertificateList_given (nullish a_CertificateList no_CertificateList)) = Inr (CertificateList_create a_CertificateList) \<and>
    Record_fromJSON (Record_given (nullish a_Record no_Record)) = Inr (Record_create (map_option Record_numbered a_Record)) \<and>
    RecordList_fromJSON (RecordList_given (nullish a_RecordList no_RecordList)) = Inr (RecordList_create (map_option RecordList_numbered a_RecordList)) \<and>
    RecordDelete_fromJSON (RecordDelete_given (nullish a_RecordDelete no_RecordDelete)) = Inr (RecordDelete_create (map_option RecordDelete_numbered a_RecordDelete)) \<and>
    Zone_fromJSON (Zone_given (nullish a_Zone no_Zone)) = Inr (Zone_create a_Zone) \<and>
    ZoneList_fromJSON (ZoneList_given (nullish a_ZoneList no_ZoneList)) = Inr (ZoneList_create a_ZoneList) \<and>
    Resolution_fromJSON (Resolution_given (nullish a_Resolution no_Resolution)) = Inr (Resolution_create a_Resolution) \<and>
    ResolutionResult_fromJSON (ResolutionResult_given (nullish a_ResolutionResult no_ResolutionResult)) = Inr (ResolutionResult_create a_ResolutionResult) \<and>
    Task_fromJSON (Task_given (nullish a_Task no_Task)) = Inr (Task_create (map_option Task_numbered a_Task)) \<and>
    TaskList_fromJSON (TaskList_given (nullish a_TaskList no_TaskList)) = Inr (TaskList_create (map_option TaskList_numbered a_TaskList)) \<and>
    TaskDelete_fromJSON (TaskDelete_given (nullish a_TaskDelete no_TaskDelete)) = Inr (TaskDelete_create a_TaskDelete) \<and>
    TaskResult_fromJSON (TaskResult_given (nullish a_TaskResult no_TaskResult)) = Inr (TaskResult_create a_TaskResult) \<and>
    CertificateArtifact_fromJSON (CertificateArtifact_given (nullish a_CertificateArtifact no_CertificateArtifact)) = Inr (CertificateArtifact_create a_CertificateArtifact) \<and>
    CertificateIssuanceJob_fromJSON (CertificateIssuanceJob_given (nullish a_CertificateIssuanceJob no_CertificateIssuanceJob)) = Inr (CertificateIssuanceJob_create a_CertificateIssuanceJob) \<and>
    CertificateTaskRun_fromJSON (CertificateTaskRun_given (nullish a_CertificateTaskRun no_CertificateTaskRun)) = Inr (CertificateTaskRun_create a_CertificateTaskRun) \<and>
    CertificateDetails_fromJSON (CertificateDetails_given (nullish a_CertificateDetails no_CertificateDetails)) = Inr (CertificateDetails_create a_CertificateDetails) \<and>
    Configuration_fromJSON (Configuration_given (nullish a_Configuration no_Configuration)) = Inr (Configuration_create a_Configuration) \<and>
    LogEntry_fromJSON (LogEntry_given (nullish a_LogEntry no_LogEntry)) = Inr (LogEntry_create a_LogEntry)"
  by (simp_all only: Line_made Request_made Address_made AddressHistory_made Certificate_made CertificateList_made Record_made RecordList_made RecordDelete_made Zone_made ZoneList_made Resolution_made ResolutionResult_made Task_made TaskList_made TaskDelete_made TaskResult_made CertificateArtifact_made CertificateIssuanceJob_made CertificateTaskRun_made CertificateDetails_made Configuration_made LogEntry_made Empty_made simp_thms)

text \<open>An unlisted number.\<close>

lemma unlisted_purpose:
  "Record_create (Some (no_Record\<lparr>Record_p_purpose := Some (num 7)\<rparr>)) = createBaseRecord\<lparr>Record_purpose := num 7\<rparr>"
  "Record_fromJSON (Record_given (no_Record\<lparr>Record_p_purpose := Some (num 7)\<rparr>)) = Inr (createBaseRecord\<lparr>Record_purpose := num (- 1)\<rparr>)"
  by (simp_all add: Record_read Record_numbered_def Record_create_def Record_fromPartial_def no_Record_def createBaseRecord_def
      enum_number_def known_enum_def UNRECOGNIZED_def)

text \<open>A message made of nothing is the empty one.\<close>

lemma create_empty:
  "RecordList_create None = createBaseRecordList" "Record_create None = createBaseRecord"
  "Task_create None = createBaseTask" "Configuration_create None = createBaseConfiguration"
  by (simp_all add: RecordList_create_def RecordList_fromPartial_def no_RecordList_def createBaseRecordList_def
      Record_create_def Record_fromPartial_def no_Record_def createBaseRecord_def
      Task_create_def Task_fromPartial_def no_Task_def createBaseTask_def
      Configuration_create_def Configuration_fromPartial_def no_Configuration_def createBaseConfiguration_def)

end
