(* ===== verification/JsRegex.thy ===== *)
theory JsRegex
  imports JsString
begin

text \<open>
  Regular expressions as the language matches them: backtracking, leftmost, with greedy and
  lazy quantifiers and capture groups. A pattern maps a matcher state (the unread text and the
  captures so far) to the list of the states it can leave, in the order in which backtracking
  visits them; the match is the first state of the list. The quantified patterns of the
  program all repeat a single character class, so \<open>Star\<close>, \<open>Plus\<close> and \<open>PlusLazy\<close>
  take a class. The flag \<open>i\<close> is written into the classes; \<open>^\<close> is matching at the first
  position only (\<open>match_here\<close>).
\<close>

datatype re =
    Cls "char \<Rightarrow> bool"
  | Star "char \<Rightarrow> bool"
  | Plus "char \<Rightarrow> bool"
  | PlusLazy "char \<Rightarrow> bool"
  | Seq "re list"
  | Maybe re
  | Cap nat re
  | AtEnd

type_synonym mstate = "string \<times> (nat \<rightharpoonup> string)"

text \<open>The texts left after the class has eaten as many characters as it can, one fewer, ...\<close>

fun star_rests :: "(char \<Rightarrow> bool) \<Rightarrow> string \<Rightarrow> string list" where
  "star_rests P [] = [[]]"
| "star_rests P (c # cs) = (if P c then star_rests P cs else []) @ [c # cs]"

fun plus_rests :: "(char \<Rightarrow> bool) \<Rightarrow> string \<Rightarrow> string list" where
  "plus_rests P [] = []"
| "plus_rests P (c # cs) = (if P c then star_rests P cs else [])"

fun matches :: "re \<Rightarrow> mstate \<Rightarrow> mstate list"
  and matches_seq :: "re list \<Rightarrow> mstate \<Rightarrow> mstate list" where
  "matches (Cls P) (s, caps) =
     (case s of [] \<Rightarrow> [] | c # cs \<Rightarrow> if P c then [(cs, caps)] else [])"
| "matches (Star P) (s, caps) = map (\<lambda>r. (r, caps)) (star_rests P s)"
| "matches (Plus P) (s, caps) = map (\<lambda>r. (r, caps)) (plus_rests P s)"
| "matches (PlusLazy P) (s, caps) = map (\<lambda>r. (r, caps)) (rev (plus_rests P s))"
| "matches (Seq rs) st = matches_seq rs st"
| "matches (Maybe r) st = matches r st @ [st]"
| "matches (Cap n r) (s, caps) =
     map (\<lambda>(s', caps'). (s', caps'(n \<mapsto> take (length s - length s') s))) (matches r (s, caps))"
| "matches AtEnd (s, caps) = (if s = [] then [(s, caps)] else [])"
| "matches_seq [] st = [st]"
| "matches_seq (r # rs) st = concat (map (matches_seq rs) (matches r st))"

definition match_here :: "re \<Rightarrow> string \<Rightarrow> mstate option" where
  "match_here r s = (case matches r (s, Map.empty) of [] \<Rightarrow> None | m # _ \<Rightarrow> Some m)"

text \<open>\<open>s.match(r)\<close> for a pattern without \<open>^\<close>: the first position where it matches.\<close>

fun search :: "re \<Rightarrow> string \<Rightarrow> mstate option" where
  "search r [] = match_here r []"
| "search r (c # cs) =
     (case match_here r (c # cs) of Some m \<Rightarrow> Some m | None \<Rightarrow> search r cs)"

definition test_here :: "re \<Rightarrow> string \<Rightarrow> bool" where
  "test_here r s \<longleftrightarrow> match_here r s \<noteq> None"

subsection \<open>What the quantifiers leave\<close>

lemma star_rests_ne [simp]: "star_rests P s \<noteq> []"
  by (cases s) auto

lemma in_star_rests_iff:
  "r \<in> set (star_rests P s) \<longleftrightarrow> (\<exists>p. s = p @ r \<and> (\<forall>c \<in> set p. P c))"
proof (induction s)
  case (Cons x xs)
  show ?case
  proof
    assume "r \<in> set (star_rests P (x # xs))"
    then consider "P x" "r \<in> set (star_rests P xs)" | "r = x # xs"
      by (auto split: if_splits)
    then show "\<exists>p. x # xs = p @ r \<and> (\<forall>c \<in> set p. P c)"
    proof cases
      case 1
      with Cons.IH obtain p where "xs = p @ r" "\<forall>c \<in> set p. P c" by auto
      with 1 have "x # xs = (x # p) @ r \<and> (\<forall>c \<in> set (x # p). P c)" by simp
      then show ?thesis by blast
    qed simp
  next
    assume "\<exists>p. x # xs = p @ r \<and> (\<forall>c \<in> set p. P c)"
    then show "r \<in> set (star_rests P (x # xs))"
      using Cons.IH by (auto simp: Cons_eq_append_conv)
  qed
qed auto

lemma in_plus_rests_iff:
  "r \<in> set (plus_rests P s) \<longleftrightarrow> (\<exists>p. p \<noteq> [] \<and> s = p @ r \<and> (\<forall>c \<in> set p. P c))"
proof (cases s)
  case (Cons c cs)
  show ?thesis
  proof
    assume "r \<in> set (plus_rests P s)"
    with Cons obtain p where "P c" "cs = p @ r" "\<forall>x \<in> set p. P x"
      by (auto simp: in_star_rests_iff split: if_splits)
    with Cons have "c # p \<noteq> [] \<and> s = (c # p) @ r \<and> (\<forall>x \<in> set (c # p). P x)" by simp
    then show "\<exists>p. p \<noteq> [] \<and> s = p @ r \<and> (\<forall>x \<in> set p. P x)" by blast
  next
    assume "\<exists>p. p \<noteq> [] \<and> s = p @ r \<and> (\<forall>x \<in> set p. P x)"
    with Cons show "r \<in> set (plus_rests P s)"
      by (auto simp: Cons_eq_append_conv in_star_rests_iff)
  qed
qed simp

text \<open>A class that stops at \<open>r\<close> eats exactly the text in front of it, first choice.\<close>

lemma star_rests_hd:
  assumes "\<forall>c \<in> set p. P c" and "r = [] \<or> \<not> P (hd r)"
  shows "hd (star_rests P (p @ r)) = r"
  using assms
proof (induction p)
  case Nil
  then show ?case by (cases r) auto
next
  case (Cons c p)
  then show ?case by (simp add: hd_append)
qed

lemma star_rests_all:
  assumes "\<forall>c \<in> set p. P c" and "r = [] \<or> \<not> P (hd r)"
  shows "star_rests P (p @ r) = rev (map (\<lambda>k. drop k p @ r) [0..<Suc (length p)])"
  using assms
proof (induction p)
  case Nil
  then show ?case by (cases r) auto
next
  case (Cons c p)
  have "map (\<lambda>k. drop k (c # p) @ r) [0..<Suc (length (c # p))] =
      (c # p @ r) # map (\<lambda>k. drop k p @ r) [0..<Suc (length p)]"
    by (simp add: upt_conv_Cons map_Suc_upt [symmetric] del: upt_Suc)
  with Cons show ?case by (simp del: upt_Suc)
qed

lemma plus_rests_all:
  assumes "\<forall>c \<in> set p. P c" and "r = [] \<or> \<not> P (hd r)"
  shows "plus_rests P (p @ r) = rev (map (\<lambda>k. drop (Suc k) p @ r) [0..<length p])"
proof (cases p)
  case Nil
  with assms(2) show ?thesis by (cases r) auto
next
  case (Cons c q)
  with assms star_rests_all [of q P r] show ?thesis by simp
qed

text \<open>The first state of a concatenation of choices, past the choices that fail.\<close>

lemma concat_map_first:
  assumes "\<forall>x \<in> set xs. f x = []"
  shows "concat (map f (xs @ y # ys)) = f y @ concat (map f ys)"
  using assms by (induction xs) auto

lemma match_here_Cons: "matches r (s, Map.empty) = m # ms \<Longrightarrow> match_here r s = Some m"
  by (simp add: match_here_def)

text \<open>Every state a pattern leaves holds a suffix of the text it was given.\<close>

lemma matches_suffix:
  "m \<in> set (matches r st) \<Longrightarrow> \<exists>p. fst st = p @ fst m"
  "m \<in> set (matches_seq rs st) \<Longrightarrow> \<exists>p. fst st = p @ fst m"
proof (induction r st and rs st arbitrary: m and m rule: matches_matches_seq.induct)
  case (2 P s caps)
  then show ?case by (auto simp: in_star_rests_iff)
next
  case (3 P s caps)
  then show ?case by (auto simp: in_plus_rests_iff)
next
  case (4 P s caps)
  then show ?case by (auto simp: in_plus_rests_iff)
next
  case (10 r rs st)
  then obtain m' where m': "m' \<in> set (matches r st)" "m \<in> set (matches_seq rs m')" by auto
  with 10 obtain p q where "fst st = p @ fst m'" "fst m' = q @ fst m" by metis
  then show ?case by auto
qed (auto split: list.splits if_splits)

lemma match_here_None_iff: "match_here r s = None \<longleftrightarrow> matches r (s, Map.empty) = []"
  by (auto simp: match_here_def split: list.splits)

lemma search_skip:
  "\<forall>k < length p. match_here r (drop k (p @ s)) = None \<Longrightarrow> search r (p @ s) = search r s"
proof (induction p)
  case (Cons c p)
  from Cons.prems have "match_here r (c # p @ s) = None" by force
  moreover have "\<forall>k < length p. match_here r (drop k (p @ s)) = None"
    using Cons.prems by (metis Suc_mono append_Cons drop_Suc_Cons length_Cons)
  ultimately show ?case using Cons.IH by simp
qed simp

lemma search_None_iff: "search r s = None \<longleftrightarrow> (\<forall>k \<le> length s. match_here r (drop k s) = None)"
proof (induction s)
  case (Cons c cs)
  have "(\<forall>k \<le> length (c # cs). match_here r (drop k (c # cs)) = None) \<longleftrightarrow>
      match_here r (c # cs) = None \<and> (\<forall>k \<le> length cs. match_here r (drop k cs) = None)"
    by (metis Suc_le_mono drop0 drop_Suc_Cons le0 length_Cons not0_implies_Suc)
  with Cons show ?case by (simp split: option.splits)
qed simp

end
