(* ===== verification/Notify.thy ===== *)
theory Notify
  imports JsRegex
begin

text \<open>
  The notification service (\<^verbatim>\<open>global/services/notify/notify.service.ts\<close>), the interceptor
  that drives its loading counter (\<^verbatim>\<open>global/interceptors/loading.interceptor.ts\<close>), and the
  components that show what it holds (toast container, error and warning dialogs).

  The state is the service's fields plus what the browser keeps for it: the pending
  \<open>setTimeout\<close> callbacks (by the id they dismiss) and the dialogs opened. The argument of
  \<open>error\<close> is whatever the caller finds in \<open>err?.error\<close>: a string, a falsy value such as
  \<open>undefined\<close>, or another object. Identifiers come from \<open>crypto.randomUUID()\<close>, so they
  are an argument; that they are fresh is a hypothesis where it matters.
\<close>

subsection \<open>Error messages\<close>

text \<open>The pattern of \<open>extractErrorMessage\<close>: white space, a bar, a message without an opening
  bracket, an optional bracketed detail, the end.\<close>

definition error_pattern :: re where
  "error_pattern =
     Seq [Cls is_ws, Cls (\<lambda>c. c = CHR ''|''), Star is_ws,
          Cap 1 (PlusLazy (\<lambda>c. c \<noteq> CHR ''['')),
          Maybe (Seq [Cls (\<lambda>c. c = CHR ''[''), Cap 2 (Plus (\<lambda>c. \<not> is_line_end c)),
                      Cls (\<lambda>c. c = CHR '']'')]),
          Star is_ws, AtEnd]"

datatype errval = EStr string | EFalsy | EObject

definition extractErrorMessage :: "errval \<Rightarrow> string" where
  "extractErrorMessage error =
     (case error of
        EFalsy \<Rightarrow> ''An unknown error occurred''
      | EObject \<Rightarrow> ''An unknown error occurred''
      | EStr e \<Rightarrow>
          (case search error_pattern e of
             None \<Rightarrow> trim e
           | Some (_, caps) \<Rightarrow>
               (let message = trim (nullish (caps 1) []);
                    part = map_option trim (caps 2)
                in (case part of
                      None \<Rightarrow> message
                    | Some p \<Rightarrow>
                        if p = [] then message
                        else (let parts = map trim (split_on (CHR ''|'') p);
                                  detail = (if 1 < length parts
                                            then trim (join '' | '' (tl parts)) else hd parts)
                              in message @ '': '' @ detail)))))"

subsection \<open>State\<close>

datatype NotificationKind = Info | ErrorKind

record NotificationItem =
  item_id :: string
  item_kind :: NotificationKind
  item_message :: string
  item_title :: "string option"
  item_rawError :: errval

text \<open>A warning's buttons carry a handler; \<open>'h\<close> is the type of the closures.\<close>

record 'h WarningButton =
  btn_text :: string
  btn_color :: string
  btn_handler :: "'h option"

record 'h Warning =
  warn_title :: string
  warn_message :: string
  warn_buttons :: "'h WarningButton list"
  warn_checkbox :: "(string \<times> bool) option"

datatype 'h dialog = WarningDialog "'h Warning" | ErrorDialog errval "string option"

record 'h notify_state =
  notifications :: "NotificationItem list"
  loadingCount :: int
  isLoading :: bool
  timers :: "string list"
  dialogs :: "'h dialog list"

definition init_notify :: "'h notify_state" where
  "init_notify = \<lparr>notifications = [], loadingCount = 0, isLoading = False, timers = [], dialogs = []\<rparr>"

subsection \<open>Operations\<close>

definition dismissNotification :: "string \<Rightarrow> 'h notify_state \<Rightarrow> 'h notify_state" where
  "dismissNotification i s = s\<lparr>notifications := filter (\<lambda>n. item_id n \<noteq> i) (notifications s)\<rparr>"

definition dismissAll :: "'h notify_state \<Rightarrow> 'h notify_state" where
  "dismissAll s = s\<lparr>notifications := []\<rparr>"

definition addNotification :: "NotificationItem \<Rightarrow> int \<Rightarrow> 'h notify_state \<Rightarrow> 'h notify_state" where
  "addNotification item duration s =
     (let next = notifications s @ [item];
          s1 = s\<lparr>notifications := (if 5 < length next then slice_last 5 next else next)\<rparr>
      in if 0 < duration then s1\<lparr>timers := timers s1 @ [item_id item]\<rparr> else s1)"

definition message_op :: "string \<Rightarrow> string \<Rightarrow> string option \<Rightarrow> int \<Rightarrow> 'h notify_state \<Rightarrow> 'h notify_state" where
  "message_op uuid msg title duration =
     addNotification \<lparr>item_id = uuid, item_kind = Info, item_message = msg, item_title = title,
                      item_rawError = EFalsy\<rparr> duration"

definition error_op :: "string \<Rightarrow> errval \<Rightarrow> string option \<Rightarrow> int \<Rightarrow> 'h notify_state \<Rightarrow> 'h notify_state" where
  "error_op uuid msg title duration =
     addNotification \<lparr>item_id = uuid, item_kind = ErrorKind, item_message = extractErrorMessage msg,
                      item_title = title, item_rawError = msg\<rparr> duration"

definition warning_op :: "'h Warning \<Rightarrow> 'h notify_state \<Rightarrow> 'h notify_state" where
  "warning_op config s = s\<lparr>dialogs := dialogs s @ [WarningDialog config]\<rparr>"

definition presentErrorDetailModal :: "errval \<Rightarrow> string option \<Rightarrow> 'h notify_state \<Rightarrow> 'h notify_state" where
  "presentErrorDetailModal error title s = s\<lparr>dialogs := dialogs s @ [ErrorDialog error title]\<rparr>"

definition loading :: "'h notify_state \<Rightarrow> 'h notify_state" where
  "loading s = s\<lparr>loadingCount := loadingCount s + 1, isLoading := True\<rparr>"

definition dismiss :: "'h notify_state \<Rightarrow> 'h notify_state" where
  "dismiss s =
     (let c = max 0 (loadingCount s - 1); s1 = s\<lparr>loadingCount := c\<rparr>
      in if c = 0 then s1\<lparr>isLoading := False\<rparr> else s1)"

text \<open>The timer callback set by \<open>addNotification\<close> for the id at position \<open>k\<close> of the queue.\<close>

definition fire_timer :: "nat \<Rightarrow> 'h notify_state \<Rightarrow> 'h notify_state" where
  "fire_timer k s =
     (if k < length (timers s)
      then dismissNotification (timers s ! k) (s\<lparr>timers := remove_at k (timers s)\<rparr>)
      else s)"

text \<open>The toast container's detail button, and a warning dialog's button: it runs the handler,
  if it has one, and closes the dialog.\<close>

definition showDetail :: "NotificationItem \<Rightarrow> 'h notify_state \<Rightarrow> 'h notify_state" where
  "showDetail item s =
     (if item_rawError item = EFalsy \<or> item_rawError item = EStr [] then s
      else presentErrorDetailModal (item_rawError item) (item_title item) s)"

definition handleButton :: "('h \<Rightarrow> 'a \<Rightarrow> 'a) \<Rightarrow> 'h option \<Rightarrow> 'a \<times> bool \<Rightarrow> 'a \<times> bool" where
  "handleButton call handler d =
     (let a = (case handler of None \<Rightarrow> fst d | Some h \<Rightarrow> call h (fst d)) in (a, False))"

text \<open>\<open>ErrorComponent.ngOnInit\<close>: inputs win over the dialog's data.\<close>

definition error_init ::
  "(errval \<times> string option) option \<Rightarrow> errval option \<times> string option \<Rightarrow> errval option \<times> string option" where
  "error_init dialogData inputs =
     (case dialogData of
        None \<Rightarrow> inputs
      | Some (m, t) \<Rightarrow> ((case fst inputs of None \<Rightarrow> Some m | Some x \<Rightarrow> Some x),
                        (case snd inputs of None \<Rightarrow> t | Some x \<Rightarrow> Some x)))"

definition dismiss_all_visible :: "'h notify_state \<Rightarrow> bool" where
  "dismiss_all_visible s \<longleftrightarrow> 1 < length (notifications s)"

subsection \<open>Facts about the operations\<close>

lemma loading_simps [simp]:
  "notifications (loading s) = notifications s" "timers (loading s) = timers s"
  "loadingCount (loading s) = loadingCount s + 1" "isLoading (loading s)"
  "dialogs (loading s) = dialogs s"
  by (simp_all add: loading_def)

lemma dismiss_simps [simp]:
  "notifications (dismiss s) = notifications s" "timers (dismiss s) = timers s"
  "loadingCount (dismiss s) = max 0 (loadingCount s - 1)"
  "isLoading (dismiss s) \<longleftrightarrow> isLoading s \<and> 1 < loadingCount s"
  by (auto simp: dismiss_def Let_def)

lemma dismissNotification_simps [simp]:
  "notifications (dismissNotification i s) = filter (\<lambda>n. item_id n \<noteq> i) (notifications s)"
  "timers (dismissNotification i s) = timers s"
  "loadingCount (dismissNotification i s) = loadingCount s"
  "isLoading (dismissNotification i s) = isLoading s"
  by (simp_all add: dismissNotification_def)

lemma notifications_addNotification:
  "notifications (addNotification item duration s) =
     (if 5 < length (notifications s @ [item]) then slice_last 5 (notifications s @ [item])
      else notifications s @ [item])"
  by (simp add: addNotification_def Let_def)

lemma addNotification_simps [simp]:
  "timers (addNotification item duration s) =
     (if 0 < duration then timers s @ [item_id item] else timers s)"
  "loadingCount (addNotification item duration s) = loadingCount s"
  "isLoading (addNotification item duration s) = isLoading s"
  by (simp_all add: addNotification_def Let_def)

lemma notifications_add:
  "notifications (addNotification item duration s) = slice_last 4 (notifications s) @ [item]"
  if "length (notifications s) \<le> 5"
  using that by (auto simp: notifications_addNotification slice_last_snoc)
    (simp add: slice_last_def)

lemma notifications_add_length: "length (notifications (addNotification item duration s)) \<le> 5"
  by (simp add: notifications_addNotification)

lemma notifications_add_subset:
  "set (notifications (addNotification item duration s)) \<subseteq> insert item (set (notifications s))"
  using set_slice_last [of 5 "notifications s @ [item]"]
  by (auto simp: notifications_addNotification)

subsection \<open>The service under its callers\<close>

text \<open>
  \<open>loadingInterceptor\<close>: each request calls \<open>loading\<close> when it starts and \<open>dismiss\<close> when
  it is finalized, once. The system pairs the service with the number of requests in flight.
\<close>

record 'h notify_sys =
  svc :: "'h notify_state"
  inflight :: nat

definition request_start :: "'h notify_sys \<Rightarrow> 'h notify_sys" where
  "request_start y = y\<lparr>svc := loading (svc y), inflight := Suc (inflight y)\<rparr>"

definition request_finalize :: "'h notify_sys \<Rightarrow> 'h notify_sys" where
  "request_finalize y =
     (if 0 < inflight y then y\<lparr>svc := dismiss (svc y), inflight := inflight y - 1\<rparr> else y)"

datatype 'h notify_event =
    Message string string "string option"
  | Error string errval "string option"
  | Warn "'h Warning"
  | DismissOne string
  | DismissEvery
  | Detail NotificationItem
  | TimerDue nat
  | RequestStart
  | RequestFinalize

text \<open>Every caller leaves out the \<open>duration\<close> argument, whose default is 5000.\<close>

definition default_duration :: int where
  "default_duration = 5000"

fun notify_step :: "'h notify_sys \<Rightarrow> 'h notify_event \<Rightarrow> 'h notify_sys" where
  "notify_step y (Message i m t) = y\<lparr>svc := message_op i m t default_duration (svc y)\<rparr>"
| "notify_step y (Error i m t) = y\<lparr>svc := error_op i m t default_duration (svc y)\<rparr>"
| "notify_step y (Warn w) = y\<lparr>svc := warning_op w (svc y)\<rparr>"
| "notify_step y (DismissOne i) = y\<lparr>svc := dismissNotification i (svc y)\<rparr>"
| "notify_step y DismissEvery = y\<lparr>svc := dismissAll (svc y)\<rparr>"
| "notify_step y (Detail n) = y\<lparr>svc := showDetail n (svc y)\<rparr>"
| "notify_step y (TimerDue k) = y\<lparr>svc := fire_timer k (svc y)\<rparr>"
| "notify_step y RequestStart = request_start y"
| "notify_step y RequestFinalize = request_finalize y"

definition init_notify_sys :: "'h notify_sys" where
  "init_notify_sys = \<lparr>svc = init_notify, inflight = 0\<rparr>"

definition notify_inv :: "'h notify_sys \<Rightarrow> bool" where
  "notify_inv y \<longleftrightarrow>
     length (notifications (svc y)) \<le> 5 \<and>
     item_id ` set (notifications (svc y)) \<subseteq> set (timers (svc y)) \<and>
     loadingCount (svc y) = int (inflight y) \<and>
     (isLoading (svc y) \<longleftrightarrow> 0 < inflight y)"

lemma notify_inv_init: "notify_inv init_notify_sys"
  by (simp add: notify_inv_def init_notify_sys_def init_notify_def)

lemma notify_inv_add:
  assumes "notify_inv y"
  shows "notify_inv (y\<lparr>svc := addNotification item default_duration (svc y)\<rparr>)"
  using assms notifications_add_subset [of item default_duration "svc y"]
  by (auto simp: notify_inv_def notifications_add_length default_duration_def)

lemma notify_inv_fire:
  assumes "notify_inv y"
  shows "notify_inv (y\<lparr>svc := fire_timer k (svc y)\<rparr>)"
proof (cases "k < length (timers (svc y))")
  case True
  have "x \<in> set (remove_at k (timers (svc y)))"
    if "x \<in> set (timers (svc y))" "x \<noteq> timers (svc y) ! k" for x
    using that by (rule in_set_remove_at)
  moreover have "length (filter P (notifications (svc y))) \<le> 5" for P
    using assms by (simp add: notify_inv_def)
  ultimately show ?thesis
    using assms True by (auto simp: notify_inv_def fire_timer_def)
next
  case False
  with assms show ?thesis by (simp add: fire_timer_def)
qed

lemma notify_inv_step: "notify_inv y \<Longrightarrow> notify_inv (notify_step y e)"
proof (cases e)
  case (Message i m t)
  assume "notify_inv y"
  then show ?thesis using Message by (simp add: message_op_def notify_inv_add)
next
  case (Error i m t)
  assume "notify_inv y"
  then show ?thesis using Error by (simp add: error_op_def notify_inv_add)
next
  case (DismissOne i)
  assume "notify_inv y"
  then show ?thesis using DismissOne by (auto simp: notify_inv_def)
next
  case (TimerDue k)
  assume "notify_inv y"
  then show ?thesis using TimerDue by (simp add: notify_inv_fire)
qed (auto simp: notify_inv_def warning_op_def dismissAll_def showDetail_def
      presentErrorDetailModal_def request_start_def request_finalize_def)

interpretation notify: quiescent_system notify_step notify_inv "\<lambda>y. timers (svc y)"
  "\<lambda>y. item_id ` set (notifications (svc y))" Some
proof unfold_locales
  show "notify_inv (notify_step s e)" if "notify_inv s" for s :: "'a notify_sys" and e
    using that by (rule notify_inv_step)
  show "\<exists>p \<in> set (timers (svc s)). Some p = Some m"
    if "notify_inv s" "m \<in> item_id ` set (notifications (svc s))" for s :: "'a notify_sys" and m
    using that by (auto simp: notify_inv_def)
qed

lemma notify_reachable_inv: "notify_inv (run notify_step init_notify_sys es)"
  by (rule notify.inv_run [OF notify_inv_init])

subsection \<open>What the error pattern captures\<close>

text \<open>Parts of the pattern, named for the proof.\<close>

abbreviation bracket_part :: re where
  "bracket_part \<equiv>
     Seq [Cls (\<lambda>c. c = CHR ''[''), Cap 2 (Plus (\<lambda>c. \<not> is_line_end c)), Cls (\<lambda>c. c = CHR '']'')]"

abbreviation tail_part :: "re list" where
  "tail_part \<equiv> [Maybe bracket_part, Star is_ws, AtEnd]"

lemma ws_not_special [simp]:
  "\<not> is_ws (CHR ''['')" "\<not> is_ws (CHR ''|'')" "\<not> is_ws (CHR '']'')" "\<not> is_line_end (CHR '']'')"
  by (simp_all add: is_ws_def is_line_end_def)

lemma end_after_ws_fails:
  assumes "c \<in> set s" "\<not> is_ws c"
  shows "matches_seq [Star is_ws, AtEnd] (s, caps) = []"
proof -
  have "r \<noteq> []" if "r \<in> set (star_rests is_ws s)" for r
    using that assms by (auto simp: in_star_rests_iff)
  then show ?thesis by auto
qed

lemma tail_fails_in_message:
  assumes "s = a # m @ CHR ''['' # r" "a \<noteq> CHR ''[''"
  shows "matches_seq tail_part (s, caps) = []"
  using assms end_after_ws_fails [of "CHR ''[''" s caps] by simp

lemma bracket_first:
  assumes "\<forall>c \<in> set det. \<not> is_line_end c" "det \<noteq> []"
  shows "\<exists>ms. matches bracket_part (CHR ''['' # det @ '']'', caps) = ([], caps(2 \<mapsto> det)) # ms"
proof -
  let ?P = "\<lambda>c. \<not> is_line_end c"
  have all: "plus_rests ?P ((det @ '']'') @ []) =
      rev (map (\<lambda>k. drop (Suc k) (det @ '']'') @ []) [0..<length (det @ '']'')])"
    by (rule plus_rests_all) (use assms in auto)
  obtain n where n: "length det = Suc n" using assms(2) by (cases det) auto
  have "plus_rests ?P (det @ '']'') =
      [] # '']'' # rev (map (\<lambda>k. drop (Suc k) (det @ '']'')) [0..<n])"
    using all n by simp
  then show ?thesis using n by (simp add: Let_def)
qed

lemma error_pattern_here:
  assumes ws: "is_ws w" and msg: "CHR ''['' \<notin> set msg" "trim msg \<noteq> []"
    and det: "\<forall>c \<in> set det. \<not> is_line_end c" "det \<noteq> []"
  shows "match_here error_pattern (w # CHR ''|'' # msg @ CHR ''['' # det @ '']'') =
    Some ([], Map.empty(2 \<mapsto> det, 1 \<mapsto> dropWhile is_ws msg))"
proof -
  let ?m = "dropWhile is_ws msg" and ?t = "CHR ''['' # det @ '']''"
  let ?P = "\<lambda>c::char. c \<noteq> CHR ''[''"
  let ?rest = "Cap 1 (PlusLazy ?P) # tail_part"
  have m: "?m \<noteq> []" using msg(2) by (metis trim_Nil trim_dropWhile)
  have mP: "\<forall>c \<in> set ?m. ?P c" using msg(1) by (auto dest: set_dropWhileD)
  have "hd (star_rests is_ws (takeWhile is_ws msg @ (?m @ ?t))) = ?m @ ?t"
    using m hd_dropWhile [OF m] by (intro star_rests_hd) (auto dest: set_takeWhileD)
  then have st: "hd (star_rests is_ws (msg @ ?t)) = ?m @ ?t"
    by (metis append_assoc takeWhile_dropWhile_id)
  obtain n where n: "length ?m = Suc n" using m by (cases ?m) auto
  obtain ms where ms: "matches bracket_part (?t, caps) = ([], caps(2 \<mapsto> det)) # ms caps" for caps
    using bracket_first [OF det] by metis
  let ?c = "\<lambda>k. [Suc 0 \<mapsto> take (Suc k) ?m]"
  have early: "matches_seq tail_part (drop (Suc k) ?m @ ?t, caps) = []" if "k < n" for k caps
  proof -
    have "drop (Suc k) ?m \<noteq> []" using n that by simp
    then obtain a q where aq: "drop (Suc k) ?m = a # q" by (cases "drop (Suc k) ?m") auto
    then have "a \<in> set ?m" by (metis in_set_dropD list.set_intros(1))
    with mP aq show ?thesis by (intro tail_fails_in_message [of _ a q "det @ '']''"]) auto
  qed
  have states: "matches (Cap 1 (PlusLazy ?P)) (?m @ ?t, Map.empty) =
      map (\<lambda>k. (drop (Suc k) ?m @ ?t, ?c k)) [0..<n] @ [(?t, [Suc 0 \<mapsto> ?m])]"
    using plus_rests_all [of ?m ?P ?t] mP n by (simp add: rev_map o_def)
  have "matches_seq ?rest (?m @ ?t, Map.empty) =
      concat (map (matches_seq tail_part)
        (map (\<lambda>k. (drop (Suc k) ?m @ ?t, ?c k)) [0..<n] @ (?t, [Suc 0 \<mapsto> ?m]) # []))"
    by (simp only: matches_seq.simps states)
  also have "\<dots> = matches_seq tail_part (?t, [Suc 0 \<mapsto> ?m])"
    by (subst concat_map_first) (auto simp: early simp del: matches.simps matches_seq.simps)
  finally obtain ms' where r: "matches_seq ?rest (?m @ ?t, Map.empty) =
      ([], [Suc 0 \<mapsto> ?m, 2 \<mapsto> det]) # ms'"
    by (simp add: ms del: matches.simps(5))
  obtain qs where qs: "star_rests is_ws (msg @ ?t) = (?m @ ?t) # qs"
    using st star_rests_ne by (metis list.exhaust_sel)
  then have "matches error_pattern (w # CHR ''|'' # msg @ ?t, Map.empty) =
      matches_seq ?rest (?m @ ?t, Map.empty) @ concat (map (matches_seq ?rest) (map (\<lambda>r. (r, Map.empty)) qs))"
    using ws by (simp add: error_pattern_def)
  with r show ?thesis by (simp add: match_here_def fun_upd_twist)
qed

lemma error_pattern_needs_bar:
  assumes "s = [] \<or> tl s = [] \<or> hd (tl s) \<noteq> CHR ''|''"
  shows "match_here error_pattern s = None"
  using assms by (auto simp: match_here_None_iff error_pattern_def split: list.splits)

lemma search_no_bar:
  assumes "CHR ''|'' \<notin> set s"
  shows "search error_pattern s = None"
proof -
  have "match_here error_pattern (drop k s) = None" for k
  proof (rule error_pattern_needs_bar)
    show "drop k s = [] \<or> tl (drop k s) = [] \<or> hd (tl (drop k s)) \<noteq> CHR ''|''"
      using assms by (metis hd_in_set in_set_dropD list.set_sel(2))
  qed
  then show ?thesis by (simp add: search_None_iff)
qed

lemma search_error_pattern:
  assumes "CHR ''|'' \<notin> set pre" "is_ws w" "CHR ''['' \<notin> set msg" "trim msg \<noteq> []"
    and "\<forall>c \<in> set det. \<not> is_line_end c" "det \<noteq> []"
  shows "search error_pattern (pre @ w # CHR ''|'' # msg @ CHR ''['' # det @ '']'') =
    Some ([], Map.empty(2 \<mapsto> det, 1 \<mapsto> dropWhile is_ws msg))"
proof -
  let ?e = "w # CHR ''|'' # msg @ CHR ''['' # det @ '']''"
  have "match_here error_pattern (drop k (pre @ ?e)) = None" if k: "k < length pre" for k
  proof (rule error_pattern_needs_bar)
    obtain a q where aq: "drop k pre = a # q" using k by (cases "drop k pre") auto
    then have "set q \<subseteq> set pre" by (metis set_drop_subset set_subset_Cons subset_trans)
    with assms(1,2) have "hd (q @ ?e) \<noteq> CHR ''|''" by (cases q) auto
    with aq k show "drop k (pre @ ?e) = [] \<or> tl (drop k (pre @ ?e)) = [] \<or>
        hd (tl (drop k (pre @ ?e))) \<noteq> CHR ''|''" by simp
  qed
  then have "search error_pattern (pre @ ?e) = search error_pattern ?e"
    by (intro search_skip) auto
  also have "\<dots> = Some ([], Map.empty(2 \<mapsto> det, 1 \<mapsto> dropWhile is_ws msg))"
    using error_pattern_here [OF assms(2-6)] by simp
  finally show ?thesis .
qed

lemma split_on_single_iff: "length (split_on c s) = 1 \<longleftrightarrow> c \<notin> set s"
proof (induction s)
  case (Cons x xs)
  then show ?case by (cases "split_on c xs") auto
qed simp

lemma split_on_single: "c \<notin> set s \<Longrightarrow> split_on c s = [s]"
  using split_on_single_iff [of c s] join_split_on [of c s]
  by (cases "split_on c s") auto

subsection \<open>Properties\<close>

text \<open>
  C11. Whatever the callers do and however the timers and requests interleave, at most five
  toasts are shown, the loading counter is the number of requests in flight, and the loading
  indicator is on exactly while there is one.
\<close>

theorem notify_always_consistent:
  "length (notifications (svc (run notify_step init_notify_sys es))) \<le> 5 \<and>
   loadingCount (svc (run notify_step init_notify_sys es)) = int (inflight (run notify_step init_notify_sys es)) \<and>
   (isLoading (svc (run notify_step init_notify_sys es)) \<longleftrightarrow>
      0 < inflight (run notify_step init_notify_sys es))"
  using notify_reachable_inv [of es] by (simp add: notify_inv_def)

text \<open>
  No toast is forgotten: once every timer that was set has fired, none is on the screen,
  whatever happened before.
\<close>

theorem toasts_expire:
  "timers (svc (run notify_step init_notify_sys es)) = [] \<Longrightarrow>
   notifications (svc (run notify_step init_notify_sys es)) = []"
  using notify.quiescent_no_marks [OF notify_inv_init] by simp

theorem toasts_expire_witness:
  "notifications (svc (run notify_step init_notify_sys
     [Message ''a'' ''saved'' None, Error ''b'' EObject None, TimerDue 1, TimerDue 0])) = []"
  by (rule toasts_expire)
    (simp add: init_notify_sys_def init_notify_def message_op_def error_op_def
      fire_timer_def default_duration_def remove_at_def)

text \<open>
  A new error toast is shown last, with the four newest of the toasts that were there
  before it, in their order, and with the extracted message over the raw one.
\<close>

theorem error_toast_shown:
  assumes "length (notifications s) \<le> 5"
  shows "notifications (error_op uuid raw title duration s) =
    slice_last 4 (notifications s) @
    [\<lparr>item_id = uuid, item_kind = ErrorKind, item_message = extractErrorMessage raw,
      item_title = title, item_rawError = raw\<rparr>]"
  using assms by (simp add: error_op_def notifications_add)

theorem error_toast_shown_witness:
  "notifications (error_op ''u'' (EStr ''boom'') None 5000 (init_notify :: nat notify_state)) =
    [\<lparr>item_id = ''u'', item_kind = ErrorKind, item_message = extractErrorMessage (EStr ''boom''),
      item_title = None, item_rawError = EStr ''boom''\<rparr>]"
  using error_toast_shown [of "init_notify :: nat notify_state" "''u''" "EStr ''boom''" None 5000]
  by (simp add: init_notify_def slice_last_def)

text \<open>
  An error text of the shape \<open>prefix | message [cause | cause | ...]\<close> is shown as the
  message, a colon and the detail: the causes after the first, trimmed and joined again, or the
  only one.
\<close>

theorem extract_structured_error:
  assumes "CHR ''|'' \<notin> set pre" "is_ws w" "CHR ''['' \<notin> set msg" "trim msg \<noteq> []"
    and "\<forall>c \<in> set det. \<not> is_line_end c" "trim det \<noteq> []"
  shows "extractErrorMessage (EStr (pre @ w # CHR ''|'' # msg @ CHR ''['' # det @ '']'')) =
    trim msg @ '': '' @
      (if CHR ''|'' \<in> set (trim det)
       then trim (join '' | '' (tl (map trim (split_on (CHR ''|'') (trim det)))))
       else trim det)"
proof -
  have "det \<noteq> []" using assms(6) by auto
  note s = search_error_pattern [OF assms(1-5) this]
  have "length (split_on (CHR ''|'') (trim det)) \<noteq> 0" by simp
  then have "Suc 0 < length (split_on (CHR ''|'') (trim det)) \<longleftrightarrow> CHR ''|'' \<in> set (trim det)"
    using split_on_single_iff [of "CHR ''|''" "trim det"] by linarith
  then show ?thesis
    using assms(6) by (auto simp: extractErrorMessage_def s Let_def split_on_single)
qed

theorem extract_structured_error_witness:
  "extractErrorMessage (EStr ''rpc | load failed [api | no zone]'') = ''load failed: no zone''"
  using extract_structured_error [of "''rpc''" "CHR '' ''" "'' load failed ''" "''api | no zone''"]
  by (simp add: trim_def is_ws_def is_line_end_def)

text \<open>An error text without a bar is shown as it is, trimmed.\<close>

theorem extract_plain_error:
  assumes "CHR ''|'' \<notin> set e"
  shows "extractErrorMessage (EStr e) = trim e"
  by (simp add: extractErrorMessage_def search_no_bar [OF assms])

theorem extract_plain_error_witness:
  "extractErrorMessage (EStr '' timeout [x]'') = ''timeout [x]''"
  using extract_plain_error [of "'' timeout [x]''"] by (simp add: trim_def is_ws_def)

end
