(* ===== verification/Drawer.thy ===== *)
theory Drawer
  imports JsString
begin

text \<open>
  The drawer overlay (\<^verbatim>\<open>components/drawer/drawer.component.ts\<close>) and the registry of drawers
  (\<^verbatim>\<open>global/services/drawer/drawer.service.ts\<close>).

  An overlay is the number the CDK created it under; \<open>live\<close> lists the overlays that are
  created and not disposed, so a leaked overlay would show there. \<open>close()\<close> does not close: it
  sets a timer whose callback disposes whatever overlay the drawer holds when it fires.
  \<open>close_timers\<close> counts the callbacks that are still to come.
\<close>

subsection \<open>Inputs and layout\<close>

datatype Side = SideLeft | SideRight
datatype Vertical = VTop | VBottom

record DrawerBreakpoint =
  maxWidth :: int
  bp_width :: int

record OverlayLayout =
  layout_side :: Side
  layout_vertical :: Vertical
  layout_width :: string
  layout_height :: string

record OverlayConfig = OverlayLayout +
  hasBackdrop :: bool
  panelClass :: "string list"
  disposeOnNavigation :: bool

record drawer =
  side :: Side
  vertical :: Vertical
  width :: int
  height :: int
  animate :: bool
  backdrop :: bool
  breakpoints :: "DrawerBreakpoint list"
  reference :: "nat option"
  visible :: bool
  slide_out :: bool
  destroyed :: bool
  close_timers :: nat
  live :: "nat list"
  next_ref :: nat
  layout :: "OverlayLayout option"

definition init_drawer :: drawer where
  "init_drawer =
     \<lparr>side = SideRight, vertical = VTop, width = 50, height = 100, animate = True, backdrop = True,
      breakpoints = [\<lparr>maxWidth = 1200, bp_width = 100\<rparr>], reference = None, visible = False,
      slide_out = False, destroyed = False, close_timers = 0, live = [], next_ref = 0, layout = None\<rparr>"

text \<open>\<open>calculateWidth\<close>: the first of the breakpoints, sorted by their limit, the window fits.\<close>

definition cmp_maxWidth :: "DrawerBreakpoint \<Rightarrow> DrawerBreakpoint \<Rightarrow> int" where
  "cmp_maxWidth a b = maxWidth a - maxWidth b"

definition calculateWidth :: "int \<Rightarrow> drawer \<Rightarrow> int" where
  "calculateWidth currentWidth d =
     (if breakpoints d \<noteq> []
      then (case List.find (\<lambda>bp. currentWidth \<le> maxWidth bp) (sort_by cmp_maxWidth (breakpoints d)) of
              Some bp \<Rightarrow> bp_width bp
            | None \<Rightarrow> width d)
      else width d)"

definition percent :: "int \<Rightarrow> string" where
  "percent n = show_int n @ ''%''"

definition side_name :: "Side \<Rightarrow> string" where
  "side_name s = (case s of SideLeft \<Rightarrow> ''left'' | SideRight \<Rightarrow> ''right'')"

definition drawer_layout :: "int \<Rightarrow> drawer \<Rightarrow> OverlayLayout" where
  "drawer_layout w d =
     \<lparr>layout_side = side d, layout_vertical = vertical d,
      layout_width = percent (calculateWidth w d), layout_height = percent (height d)\<rparr>"

definition buildConfig :: "int \<Rightarrow> drawer \<Rightarrow> OverlayConfig" where
  "buildConfig w d =
     \<lparr>layout_side = side d, layout_vertical = vertical d,
      layout_width = percent (calculateWidth w d), layout_height = percent (height d),
      hasBackdrop = backdrop d,
      panelClass = [''drawer-overlay-pane'', ''drawer-overlay-pane-'' @ side_name (side d),
                    (if backdrop d then '''' else ''drawer-no-backdrop'')],
      disposeOnNavigation = True\<rparr>"

subsection \<open>Operations\<close>

definition create :: "int \<Rightarrow> drawer \<Rightarrow> drawer" where
  "create w d =
     d\<lparr>reference := Some (next_ref d), next_ref := Suc (next_ref d), live := live d @ [next_ref d],
       slide_out := False, layout := Some (OverlayLayout.truncate (buildConfig w d))\<rparr>"

definition open_op :: "int \<Rightarrow> drawer \<Rightarrow> drawer" where
  "open_op w d = (if reference d \<noteq> None then d else (create w d)\<lparr>visible := True\<rparr>)"

definition close_op :: "drawer \<Rightarrow> drawer" where
  "close_op d =
     (if reference d = None then d
      else d\<lparr>slide_out := slide_out d \<or> animate d, close_timers := Suc (close_timers d)\<rparr>)"

definition close_delay :: "drawer \<Rightarrow> nat" where
  "close_delay d = (if animate d then 240 else 0)"

text \<open>The callback \<open>close\<close> sets: it reads \<open>this.reference\<close> when it fires.\<close>

definition close_due :: "drawer \<Rightarrow> drawer" where
  "close_due d =
     (if close_timers d = 0 then d
      else d\<lparr>live := (case reference d of None \<Rightarrow> live d | Some r \<Rightarrow> removeAll r (live d)),
             reference := None, visible := False, close_timers := close_timers d - 1\<rparr>)"

definition isOpen :: "drawer \<Rightarrow> bool" where
  "isOpen d = visible d"

text \<open>\<open>isTop\<close> reads the page: the overlay container's children, each with the overlay elements
  below it; \<open>None\<close> is a page without the container.\<close>

definition isTop :: "nat list list option \<Rightarrow> drawer \<Rightarrow> bool" where
  "isTop container d =
     (case container of
        None \<Rightarrow> False
      | Some overlays \<Rightarrow>
          if overlays = [] then False
          else (\<exists>child \<in> set (last overlays). Some child = reference d))"

definition update_op :: "int \<Rightarrow> drawer \<Rightarrow> drawer" where
  "update_op w d = (if reference d = None then d else d\<lparr>layout := Some (drawer_layout w d)\<rparr>)"

definition onWindowResize :: "int \<Rightarrow> drawer \<Rightarrow> drawer" where
  "onWindowResize w d = (if reference d \<noteq> None then update_op w d else d)"

text \<open>
  A click on the backdrop or the Escape key emits \<open>closed\<close> while the overlay is there and the
  component lives; every parent answers \<open>closed\<close> with \<open>close()\<close>.
\<close>

definition dismiss_gesture :: "drawer \<Rightarrow> drawer" where
  "dismiss_gesture d =
     (if (\<exists>r \<in> set (live d). reference d = Some r) \<and> \<not> destroyed d then close_op d else d)"

text \<open>
  The user goes back or forward in the browser's history: \<open>disposeOnNavigation\<close> makes the overlay
  library dispose the overlays on the page, and nothing tells the drawer. (A \<open>close()\<close> that
  follows is modelled as if the element of the disposed overlay were still there.)
\<close>

definition history_moved :: "int \<Rightarrow> drawer \<Rightarrow> drawer" where
  "history_moved w d = (if disposeOnNavigation (buildConfig w d) then d\<lparr>live := []\<rparr> else d)"

definition ngOnDestroy_drawer :: "drawer \<Rightarrow> drawer" where
  "ngOnDestroy_drawer d = close_op (d\<lparr>destroyed := True\<rparr>)"

subsection \<open>The registry\<close>

record 'k registry =
  drawers :: "'k list"

definition register :: "'k \<Rightarrow> 'k registry \<Rightarrow> 'k registry" where
  "register k r = (if k \<in> set (drawers r) then r else r\<lparr>drawers := drawers r @ [k]\<rparr>)"

definition unregister :: "'k \<Rightarrow> 'k registry \<Rightarrow> 'k registry" where
  "unregister k r = r\<lparr>drawers := removeAll k (drawers r)\<rparr>"

definition closeAll :: "'k registry \<Rightarrow> ('k \<Rightarrow> drawer) \<Rightarrow> ('k \<Rightarrow> drawer)" where
  "closeAll r ds = fold (\<lambda>k m. m(k := close_op (m k))) (drawers r) ds"

subsection \<open>Runs\<close>

datatype drawer_event =
    Open int
  | Close
  | Gesture
  | CloseDue
  | Resize int
  | History int
  | Destroy

text \<open>A destroyed component is not opened or resized any more; its timers still fire.\<close>

fun drawer_step :: "drawer \<Rightarrow> drawer_event \<Rightarrow> drawer" where
  "drawer_step d (Open w) = (if destroyed d then d else open_op w d)"
| "drawer_step d Close = (if destroyed d then d else close_op d)"
| "drawer_step d Gesture = dismiss_gesture d"
| "drawer_step d CloseDue = close_due d"
| "drawer_step d (Resize w) = (if destroyed d then d else onWindowResize w d)"
| "drawer_step d (History w) = history_moved w d"
| "drawer_step d Destroy = (if destroyed d then d else ngOnDestroy_drawer d)"

definition drawer_inv :: "drawer \<Rightarrow> bool" where
  "drawer_inv d \<longleftrightarrow>
     live d \<in> {[], case reference d of None \<Rightarrow> [] | Some r \<Rightarrow> [r]} \<and>
     (visible d \<longleftrightarrow> reference d \<noteq> None) \<and>
     (destroyed d \<and> reference d \<noteq> None \<longrightarrow> 0 < close_timers d)"

lemmas drawer_ops [step_defs] =
  create_def open_op_def close_op_def close_due_def update_op_def onWindowResize_def
  dismiss_gesture_def ngOnDestroy_drawer_def history_moved_def buildConfig_def

lemma drawer_inv_step: "drawer_inv d \<Longrightarrow> drawer_inv (drawer_step d e)"
  by (cases e) (auto simp: drawer_inv_def step_defs split: option.splits)

lemma drawer_inv_init: "drawer_inv init_drawer"
  by (simp add: drawer_inv_def init_drawer_def)

interpretation drawer: event_system drawer_step drawer_inv
  by unfold_locales (rule drawer_inv_step)

text \<open>As long as the history does not move, the overlay on the page is the one the drawer knows.\<close>

definition held :: "drawer \<Rightarrow> bool" where
  "held d \<longleftrightarrow> drawer_inv d \<and> live d = (case reference d of None \<Rightarrow> [] | Some r \<Rightarrow> [r])"

definition moves_history :: "drawer_event \<Rightarrow> bool" where
  "moves_history e \<longleftrightarrow> (case e of History _ \<Rightarrow> True | _ \<Rightarrow> False)"

lemma held_step: "held d \<Longrightarrow> \<not> moves_history e \<Longrightarrow> held (drawer_step d e)"
  using drawer_inv_step [of d e]
  by (cases e) (auto simp: held_def moves_history_def step_defs split: option.splits)

interpretation held: guarded_system drawer_step held "\<lambda>e. \<not> moves_history e"
  by unfold_locales (rule held_step)

text \<open>A drawer whose overlay the history took away: it still believes it is open.\<close>

definition stranded :: "drawer \<Rightarrow> bool" where
  "stranded d \<longleftrightarrow> live d = [] \<and> reference d \<noteq> None \<and> visible d \<and> close_timers d = 0"

definition closes :: "drawer_event \<Rightarrow> bool" where
  "closes e \<longleftrightarrow> e \<in> {Close, Destroy}"

lemma stranded_step: "stranded d \<Longrightarrow> \<not> closes e \<Longrightarrow> stranded (drawer_step d e)"
  by (cases e) (auto simp: stranded_def closes_def step_defs)

interpretation stranded: guarded_system drawer_step stranded "\<lambda>e. \<not> closes e"
  by unfold_locales (rule stranded_step)

interpretation breakpoint: comparison cmp_maxWidth
  by unfold_locales (auto simp: cmp_maxWidth_def)

lemma find_sorted_least:
  assumes "sorted_wrt (\<lambda>a b. cmp_maxWidth a b \<le> 0) xs"
    and "List.find (\<lambda>b. w \<le> maxWidth b) xs = Some bp" "b \<in> set xs" "w \<le> maxWidth b"
  shows "maxWidth bp \<le> maxWidth b"
  using assms by (induction xs) (auto simp: cmp_maxWidth_def split: if_splits)

lemma closeAll_other: "k \<notin> set (drawers r) \<Longrightarrow> closeAll r ds k = ds k"
proof -
  have "k \<notin> set ks \<Longrightarrow> fold (\<lambda>k m. m(k := close_op (m k))) ks ds k = ds k" for ks
    by (induction ks arbitrary: ds) auto
  then show "k \<notin> set (drawers r) \<Longrightarrow> closeAll r ds k = ds k" by (simp add: closeAll_def)
qed

lemma fold_close_each:
  "distinct ks \<Longrightarrow> fold (\<lambda>k m. m(k := close_op (m k))) ks ds k =
     (if k \<in> set ks then close_op (ds k) else ds k)"
  by (induction ks arbitrary: ds) auto

subsection \<open>Properties\<close>

text \<open>
  C10. However the drawer is opened, closed, dismissed, resized and destroyed, and however the
  close callbacks interleave with that, it holds at most one overlay, no overlay it created is
  left behind, and it reports open exactly while it holds one; unless the browser's history
  moved, that overlay is on the page.
\<close>

theorem drawer_no_leak:
  "live (run drawer_step init_drawer es) \<in>
     {[], case reference (run drawer_step init_drawer es) of None \<Rightarrow> [] | Some r \<Rightarrow> [r]} \<and>
   (isOpen (run drawer_step init_drawer es) \<longleftrightarrow> reference (run drawer_step init_drawer es) \<noteq> None) \<and>
   (list_all (\<lambda>e. \<not> moves_history e) es \<longrightarrow>
     live (run drawer_step init_drawer es) =
       (case reference (run drawer_step init_drawer es) of None \<Rightarrow> [] | Some r \<Rightarrow> [r]))"
proof -
  have "held init_drawer" by (simp add: held_def drawer_inv_init) (simp add: init_drawer_def)
  then show ?thesis
    using drawer.inv_run [OF drawer_inv_init, of es] held.inv_guarded_run [of init_drawer es]
    by (simp add: drawer_inv_def isOpen_def held_def)
qed

theorem drawer_no_leak_witness:
  "live (run drawer_step init_drawer [Open 800, Gesture, Resize 500]) = [0]"
  using drawer_no_leak [of "[Open 800, Gesture, Resize 500]"]
  by (simp add: moves_history_def step_defs init_drawer_def)

text \<open>
  C22. A drawer does not survive the browser's back button: once the history moved while it was open,
  whatever follows short of its own \<open>close()\<close> and its destruction, opening it included, it shows
  nothing and reports open.
\<close>

theorem history_strands_drawer:
  assumes "d = run drawer_step init_drawer fs" "isOpen d" "close_timers d = 0" "list_all (\<lambda>e. \<not> closes e) es"
  shows "let d' = run drawer_step d (History w # es) in live d' = [] \<and> isOpen d'"
proof -
  have "drawer_inv d" unfolding assms(1) by (rule drawer.inv_run [OF drawer_inv_init])
  with assms(2,3) have "stranded (drawer_step d (History w))"
    by (simp add: stranded_def drawer_inv_def isOpen_def step_defs)
  from stranded.inv_guarded_run [OF this assms(4)] show ?thesis by (simp add: stranded_def isOpen_def)
qed

theorem history_strands_drawer_witness:
  "live (run drawer_step init_drawer [Open 800, History 800, Open 800, Resize 900, Gesture, CloseDue, Open 900]) = []"
  using history_strands_drawer [of "run drawer_step init_drawer [Open 800]" "[Open 800]"
      "[Open 800, Resize 900, Gesture, CloseDue, Open 900]" 800]
  by (simp add: closes_def isOpen_def Let_def step_defs init_drawer_def)

text \<open>
  A destroyed drawer is cleaned up: once its close callbacks have fired, no overlay of it
  is on the page.
\<close>

theorem drawer_destroyed_disposed:
  assumes "destroyed (run drawer_step init_drawer es)" "close_timers (run drawer_step init_drawer es) = 0"
  shows "live (run drawer_step init_drawer es) = [] \<and> \<not> isOpen (run drawer_step init_drawer es)"
  using drawer.inv_run [OF drawer_inv_init, of es] assms
  by (auto simp: drawer_inv_def isOpen_def)

theorem drawer_destroyed_disposed_witness:
  "live (run drawer_step init_drawer [Open 800, Destroy, CloseDue]) = []"
  using drawer_destroyed_disposed [of "[Open 800, Destroy, CloseDue]"]
  by (simp add: step_defs init_drawer_def)

text \<open>
  The close callback is not tied to the overlay it was set for: dismissing the drawer twice
  and opening it again after the first callback leaves it closed, because the second callback
  disposes the overlay that was just opened.
\<close>

theorem stale_close_disposes_reopened:
  "isOpen (run drawer_step init_drawer [Open w, Gesture, Gesture, CloseDue, Open w]) \<and>
   \<not> isOpen (run drawer_step init_drawer [Open w, Gesture, Gesture, CloseDue, Open w, CloseDue])"
  by (simp add: step_defs init_drawer_def isOpen_def)

text \<open>
  The drawer takes the width of the tightest breakpoint the window fits under, and its own
  width when it fits under none.
\<close>

theorem calculateWidth_tightest:
  "(\<exists>bp \<in> set (breakpoints d). w \<le> maxWidth bp \<and> calculateWidth w d = bp_width bp \<and>
      (\<forall>b \<in> set (breakpoints d). w \<le> maxWidth b \<longrightarrow> maxWidth bp \<le> maxWidth b)) \<or>
   (\<forall>b \<in> set (breakpoints d). maxWidth b < w) \<and> calculateWidth w d = width d"
proof (cases "List.find (\<lambda>bp. w \<le> maxWidth bp) (sort_by cmp_maxWidth (breakpoints d))")
  case None
  then have "\<forall>b \<in> set (breakpoints d). maxWidth b < w" by (auto simp: find_None_iff)
  moreover have "calculateWidth w d = width d" using None by (simp add: calculateWidth_def)
  ultimately show ?thesis by simp
next
  case (Some bp)
  moreover from Some have "bp \<in> set (breakpoints d)" "w \<le> maxWidth bp"
    using find_Some_iff_first [OF Some] by auto
  moreover from this have "breakpoints d \<noteq> []" by auto
  ultimately show ?thesis
    using find_sorted_least [OF breakpoint.sorted_sort_by Some] by (auto simp: calculateWidth_def)
qed

theorem calculateWidth_tightest_witness:
  "calculateWidth 1000 (init_drawer\<lparr>breakpoints := [\<lparr>maxWidth = 1600, bp_width = 60\<rparr>,
      \<lparr>maxWidth = 768, bp_width = 100\<rparr>, \<lparr>maxWidth = 1200, bp_width = 80\<rparr>]\<rparr>) = 80"
  using calculateWidth_tightest [where w = 1000 and d = "init_drawer\<lparr>breakpoints := [\<lparr>maxWidth = 1600, bp_width = 60\<rparr>,
      \<lparr>maxWidth = 768, bp_width = 100\<rparr>, \<lparr>maxWidth = 1200, bp_width = 80\<rparr>]\<rparr>"]
  by (auto simp: init_drawer_def)

text \<open>
  Closing all drawers closes each registered one once, and touches no other.
\<close>

theorem closeAll_closes_registered:
  assumes "distinct (drawers r)"
  shows "closeAll r ds k = (if k \<in> set (drawers r) then close_op (ds k) else ds k)"
  using fold_close_each [OF assms] by (simp add: closeAll_def)

theorem closeAll_closes_registered_witness:
  "closeAll (register (2::nat) (register 1 \<lparr>drawers = []\<rparr>)) (\<lambda>_. open_op 900 init_drawer) 2 =
     close_op (open_op 900 init_drawer)"
  using closeAll_closes_registered [of "register (2::nat) (register 1 \<lparr>drawers = []\<rparr>)"
      "\<lambda>_. open_op 900 init_drawer" 2]
  by (simp add: register_def)

end
