(* ===== verification/Api.thy ===== *)
theory Api
  imports Complex_Main Model Notify
begin

text \<open>
  The client of the server (\<^verbatim>\<open>global/services/api/api.service.ts\<close>) and the service table it
  reads (\<open>HDNSDefinition\<close> in \<^verbatim>\<open>global/model/api.ts\<close>): the paths and bodies of the calls, the
  mapping of transport errors, the URLs, the reconnect delays of a stream and the closures a
  stream is made of.

  HTTP, the web socket and the reactive operators are the platform's and rxjs's; what is modelled
  is what the service hands to them: the call (path and body), the callbacks, and the subjects as
  the sequence of what was emitted on them (after \<open>complete()\<close> a subject ignores \<open>next\<close>).
\<close>

subsection \<open>The service table\<close>

datatype message_type =
    T_Empty | T_Line | T_Request | T_Address | T_AddressHistory | T_Record | T_RecordList
  | T_RecordDelete | T_Certificate | T_CertificateList | T_CertificateDetails | T_Task | T_TaskList
  | T_TaskDelete | T_TaskResult | T_ZoneList | T_Resolution | T_ResolutionResult | T_Configuration

record service_method =
  m_name :: string
  m_requestType :: message_type
  m_requestStream :: bool
  m_responseType :: message_type
  m_responseStream :: bool

definition unary :: "string \<Rightarrow> message_type \<Rightarrow> message_type \<Rightarrow> service_method" where
  "unary n req res = \<lparr>m_name = n, m_requestType = req, m_requestStream = False,
                      m_responseType = res, m_responseStream = False\<rparr>"

definition server_stream :: "string \<Rightarrow> message_type \<Rightarrow> message_type \<Rightarrow> service_method" where
  "server_stream n req res = (unary n req res)\<lparr>m_responseStream := True\<rparr>"

definition service_name :: string where
  "service_name = ''HDNS''"

text \<open>The table, in the two halves its entries fall into.\<close>

definition record_methods :: "(string \<times> service_method) list" where
  "record_methods =
     [(''getZones'', unary ''GetZones'' T_Record T_ZoneList),
      (''getRecords'', unary ''GetRecords'' T_Request T_RecordList),
      (''upsertRecord'', unary ''UpsertRecord'' T_Record T_Record),
      (''deleteRecord'', unary ''DeleteRecord'' T_RecordDelete T_Empty),
      (''refreshRecord'', unary ''RefreshRecord'' T_Record T_Record),
      (''fetchHetznerRecord'', unary ''FetchHetznerRecord'' T_Record T_Address),
      (''resolveRecord'', unary ''ResolveRecord'' T_Record T_ResolutionResult),
      (''streamResolveRecord'', server_stream ''StreamResolveRecord'' T_Record T_Resolution)]"

definition service_methods :: "(string \<times> service_method) list" where
  "service_methods =
     [(''streamAddress'', server_stream ''StreamAddress'' T_Empty T_Address),
      (''getAddress'', unary ''GetAddress'' T_Empty T_Address),
      (''getAddressHistory'', unary ''GetAddressHistory'' T_Empty T_AddressHistory),
      (''refreshAddress'', unary ''RefreshAddress'' T_Empty T_Address),
      (''getCertificates'', unary ''GetCertificates'' T_Empty T_CertificateList),
      (''issueCertificate'', unary ''IssueCertificate'' T_Record T_Certificate),
      (''getCertificateDetails'', unary ''GetCertificateDetails'' T_Record T_CertificateDetails),
      (''getTasks'', unary ''GetTasks'' T_Empty T_TaskList),
      (''upsertTask'', unary ''UpsertTask'' T_Task T_Task),
      (''deleteTask'', unary ''DeleteTask'' T_TaskDelete T_Empty),
      (''runTask'', unary ''RunTask'' T_Task T_TaskResult),
      (''getConfig'', unary ''GetConfig'' T_Empty T_Configuration),
      (''updateConfig'', unary ''UpdateConfig'' T_Configuration T_Configuration),
      (''streamLog'', server_stream ''StreamLog'' T_Empty T_Line)]"

definition HDNSDefinition_methods :: "(string \<times> service_method) list" where
  "HDNSDefinition_methods = record_methods @ service_methods"

lemmas methods_table = HDNSDefinition_methods_def record_methods_def service_methods_def

definition method_path :: "service_method \<Rightarrow> string" where
  "method_path m = ''/rpc/'' @ service_name @ ''/'' @ m_name m"

subsection \<open>Calls\<close>

text \<open>The bodies the service sends; \<open>'c\<close> is the configuration message.\<close>

datatype 'c body =
    B_Empty
  | B_Request "string option"
  | B_Record record_msg
  | B_ZonesOf int "string option"
  | B_RecordDelete record_msg bool
  | B_Task task_msg
  | B_TaskDelete int
  | B_Config 'c

record 'c call =
  call_key :: string
  call_body :: "'c body"

definition getZones :: "int \<Rightarrow> string option \<Rightarrow> 'c call" where
  "getZones i token = \<lparr>call_key = ''getZones'', call_body = B_ZonesOf i token\<rparr>"

definition getRecords :: "string option \<Rightarrow> 'c call" where
  "getRecords search_text = \<lparr>call_key = ''getRecords'', call_body = B_Request search_text\<rparr>"

definition upsertRecord :: "record_msg \<Rightarrow> 'c call" where
  "upsertRecord r = \<lparr>call_key = ''upsertRecord'', call_body = B_Record r\<rparr>"

definition deleteRecord_call :: "record_msg \<Rightarrow> bool \<Rightarrow> 'c call" where
  "deleteRecord_call r deleteFromHetzner =
     \<lparr>call_key = ''deleteRecord'', call_body = B_RecordDelete r deleteFromHetzner\<rparr>"

definition refreshRecord_call :: "record_msg \<Rightarrow> 'c call" where
  "refreshRecord_call r = \<lparr>call_key = ''refreshRecord'', call_body = B_Record r\<rparr>"

definition fetchHetznerRecord :: "record_msg \<Rightarrow> 'c call" where
  "fetchHetznerRecord r = \<lparr>call_key = ''fetchHetznerRecord'', call_body = B_Record r\<rparr>"

definition resolveRecord :: "record_msg \<Rightarrow> 'c call" where
  "resolveRecord r = \<lparr>call_key = ''resolveRecord'', call_body = B_Record r\<rparr>"

definition getAddress :: "'c call" where
  "getAddress = \<lparr>call_key = ''getAddress'', call_body = B_Empty\<rparr>"

definition getAddressHistory :: "'c call" where
  "getAddressHistory = \<lparr>call_key = ''getAddressHistory'', call_body = B_Empty\<rparr>"

definition refreshAddress :: "'c call" where
  "refreshAddress = \<lparr>call_key = ''refreshAddress'', call_body = B_Empty\<rparr>"

definition getConfig :: "'c call" where
  "getConfig = \<lparr>call_key = ''getConfig'', call_body = B_Empty\<rparr>"

definition updateConfig :: "'c \<Rightarrow> 'c call" where
  "updateConfig c = \<lparr>call_key = ''updateConfig'', call_body = B_Config c\<rparr>"

definition getCertificates :: "'c call" where
  "getCertificates = \<lparr>call_key = ''getCertificates'', call_body = B_Empty\<rparr>"

definition issueCertificate_call :: "record_msg \<Rightarrow> 'c call" where
  "issueCertificate_call r = \<lparr>call_key = ''issueCertificate'', call_body = B_Record r\<rparr>"

definition getTasks :: "'c call" where
  "getTasks = \<lparr>call_key = ''getTasks'', call_body = B_Empty\<rparr>"

definition upsertTask :: "task_msg \<Rightarrow> 'c call" where
  "upsertTask t = \<lparr>call_key = ''upsertTask'', call_body = B_Task t\<rparr>"

definition deleteTask_call :: "int \<Rightarrow> 'c call" where
  "deleteTask_call i = \<lparr>call_key = ''deleteTask'', call_body = B_TaskDelete i\<rparr>"

definition runTask_call :: "task_msg \<Rightarrow> 'c call" where
  "runTask_call t = \<lparr>call_key = ''runTask'', call_body = B_Task t\<rparr>"

definition getCertificateDetails :: "record_msg \<Rightarrow> 'c call" where
  "getCertificateDetails r = \<lparr>call_key = ''getCertificateDetails'', call_body = B_Record r\<rparr>"

lemmas api_calls =
  getZones_def getRecords_def upsertRecord_def deleteRecord_call_def refreshRecord_call_def
  fetchHetznerRecord_def resolveRecord_def getAddress_def getAddressHistory_def refreshAddress_def
  getConfig_def updateConfig_def getCertificates_def issueCertificate_call_def getTasks_def
  upsertTask_def deleteTask_call_def runTask_call_def getCertificateDetails_def

text \<open>\<open>rpc\<close>: the URL a call is posted to; \<open>None\<close> is a key the table lacks.\<close>

definition rpc_url :: "string \<Rightarrow> 'c call \<Rightarrow> string option" where
  "rpc_url baseURL c =
     map_option (\<lambda>m. baseURL @ method_path m) (map_of HDNSDefinition_methods (call_key c))"

subsection \<open>Errors of a call\<close>

record http_error =
  err_status :: "int option"
  err_body :: errval

definition unreachable_text :: string where
  "unreachable_text =
     ''Unable to connect to the server. Please check your network connection and try again.''"

text \<open>The \<open>catchError\<close> of \<open>post\<close> and \<open>get\<close>; the result is what subscribers see as
  \<open>err\<close>. An error without a status is passed on.\<close>

definition map_error :: "http_error \<Rightarrow> http_error" where
  "map_error e =
     (case err_status e of
        None \<Rightarrow> e
      | Some st \<Rightarrow>
          if st \<le> 0 then \<lparr>err_status = None, err_body = EStr unreachable_text\<rparr> else e)"

subsection \<open>URLs\<close>

definition uri_unreserved :: "char \<Rightarrow> bool" where
  "uri_unreserved c \<longleftrightarrow>
     (let n = of_char c :: nat in
      48 \<le> n \<and> n \<le> 57 \<or> 65 \<le> n \<and> n \<le> 90 \<or> 97 \<le> n \<and> n \<le> 122 \<or>
      c \<in> set (''-_.!~*()'' @ [CHR 0x27]))"

definition hex_upper :: "nat \<Rightarrow> char" where
  "hex_upper d = (if d < 10 then char_of (48 + d) else char_of (55 + d))"

definition percent_encode :: "char \<Rightarrow> string" where
  "percent_encode c = [CHR ''%'', hex_upper (of_char c div 16), hex_upper (of_char c mod 16)]"

definition encodeURIComponent :: "string \<Rightarrow> string" where
  "encodeURIComponent s = concat (map (\<lambda>c. if uri_unreserved c then [c] else percent_encode c) s)"

definition getCertificateDownloadUrl :: "string \<Rightarrow> int \<Rightarrow> string \<Rightarrow> string" where
  "getCertificateDownloadUrl baseURL recordId artifact =
     baseURL @ ''/api/certificates/download?record_id='' @ show_int recordId @
     ''&artifact='' @ encodeURIComponent artifact"

text \<open>The parts of \<open>window.location\<close> and of a base URL the service reads.\<close>

record url =
  protocol :: string
  hostname :: string
  port :: string

definition buildURL :: "bool \<Rightarrow> url \<Rightarrow> string \<Rightarrow> string" where
  "buildURL production location baseURL =
     (if \<not> production then baseURL
      else protocol location @ ''//'' @ hostname location @
           (if port location = [] then '''' else CHR '':'' # port location))"

text \<open>\<open>new URL(baseURL)\<close> for a base of the shape the service builds: a scheme, a host and
  perhaps a port, where a scheme's default port is dropped.\<close>

definition default_port :: "string \<Rightarrow> string" where
  "default_port p =
     (if p = ''https:'' \<or> p = ''wss:'' then ''443''
      else if p = ''http:'' \<or> p = ''ws:'' then ''80'' else '''')"

definition parse_origin :: "string \<Rightarrow> url option" where
  "parse_origin s =
     (let p = takeWhile (\<lambda>c. c \<noteq> CHR '':'') s; rest = drop (length p) s in
      if take 3 rest \<noteq> ''://'' then None
      else (let h = drop 3 rest;
                host = (if h \<noteq> [] \<and> hd h = CHR ''['' then takeWhile (\<lambda>c. c \<noteq> CHR '']'') h @ '']''
                        else takeWhile (\<lambda>c. c \<noteq> CHR '':'') h);
                after = drop (length host) h;
                q = (if after = [] then '''' else tl after)
            in Some \<lparr>protocol = p @ '':'', hostname = host,
                     port = (if q = default_port (p @ '':'') then '''' else q)\<rparr>))"

definition form_encode :: "string \<Rightarrow> string" where
  "form_encode s =
     concat (map (\<lambda>c. if c = CHR '' '' then ''+''
                      else if (let n = of_char c :: nat in
                               48 \<le> n \<and> n \<le> 57 \<or> 65 \<le> n \<and> n \<le> 90 \<or> 97 \<le> n \<and> n \<le> 122) \<or>
                              c \<in> set ''*-._'' then [c]
                      else percent_encode c) s)"

text \<open>\<open>toWebsocketURL\<close>; a parameter whose value is null or undefined (\<open>None\<close>) is left out.\<close>

definition toWebsocketURL :: "string \<Rightarrow> string \<Rightarrow> (string \<times> string option) list \<Rightarrow> string option" where
  "toWebsocketURL baseURL endpoint params =
     map_option (\<lambda>base.
       let shown = concat (map (\<lambda>(k, v). case v of None \<Rightarrow> [] | Some x \<Rightarrow>
                                  [form_encode k @ ''='' @ form_encode x]) params);
           scheme = (if protocol base = ''https:'' then ''wss:'' else ''ws:'')
       in scheme @ ''//'' @ hostname base @
          (if port base = [] \<or> port base = default_port scheme then '''' else CHR '':'' # port base) @
          endpoint @ (if shown = [] then '''' else CHR ''?'' # join ''&'' shown))
       (parse_origin baseURL)"

subsection \<open>Reconnecting\<close>

record stream_opts =
  opt_reconnect :: bool
  opt_backoffMs :: int
  opt_maxBackoffMs :: int

definition default_opts :: stream_opts where
  "default_opts = \<lparr>opt_reconnect = True, opt_backoffMs = 1000, opt_maxBackoffMs = 10000\<rparr>"

definition backoff :: "stream_opts \<Rightarrow> int \<Rightarrow> int" where
  "backoff opts n = min (opt_maxBackoffMs opts) (opt_backoffMs opts * 2 ^ nat (max 0 (n - 1)))"

text \<open>\<open>Math.floor(Math.random() * 300)\<close>, for the number \<open>r\<close> that \<open>random\<close> returned.\<close>

definition jitter :: "rat \<Rightarrow> int" where
  "jitter r = \<lfloor>r * 300\<rfloor>"

text \<open>The \<open>delay\<close> callbacks of \<open>retry\<close> and of \<open>repeat\<close>, which are the same.\<close>

definition retry_delay :: "stream_opts \<Rightarrow> int \<Rightarrow> rat \<Rightarrow> int" where
  "retry_delay opts retryCount r = backoff opts retryCount + jitter r"

definition repeat_delay :: "stream_opts \<Rightarrow> int \<Rightarrow> rat \<Rightarrow> int" where
  "repeat_delay opts repeatCount r = backoff opts repeatCount + jitter r"

subsection \<open>The closures of a stream\<close>

record 'a subject =
  emitted :: "'a list"
  completed :: bool

definition subject_next :: "'a \<Rightarrow> 'a subject \<Rightarrow> 'a subject" where
  "subject_next x s = (if completed s then s else s\<lparr>emitted := emitted s @ [x]\<rparr>)"

definition subject_complete :: "'a subject \<Rightarrow> 'a subject" where
  "subject_complete s = s\<lparr>completed := True\<rparr>"

definition new_subject :: "'a subject" where
  "new_subject = \<lparr>emitted = [], completed = False\<rparr>"

datatype 'ev terminated = Closed 'ev | Client

text \<open>\<open>sockets\<close> lists, for each socket, whether it is still fed by \<open>outgoing$\<close> and what it
  was given; \<open>currentWs\<close> is the one the stream uses.\<close>

record 'm socket =
  fed :: bool
  socket_completed :: bool
  handed :: "'m list"

record ('m, 'ev) stream =
  currentWs :: "nat option"
  sockets :: "'m socket list"
  outgoing :: "'m subject"
  terminate :: "'ev terminated subject"
  kill :: "unit subject"
  connectSource :: "unit subject"

definition new_stream :: "('m, 'ev) stream" where
  "new_stream = \<lparr>currentWs = None, sockets = [], outgoing = new_subject, terminate = new_subject,
                 kill = new_subject, connectSource = new_subject\<rparr>"

text \<open>The \<open>defer\<close> factory: a new socket becomes the current one and is fed, unless
  \<open>outgoing$\<close> is complete.\<close>

definition connect_socket :: "('m, 'ev) stream \<Rightarrow> ('m, 'ev) stream" where
  "connect_socket st =
     st\<lparr>sockets := sockets st @ [\<lparr>fed = \<not> completed (outgoing st), socket_completed = False, handed = []\<rparr>],
        currentWs := Some (length (sockets st))\<rparr>"

definition on_open :: "('m, 'ev) stream \<Rightarrow> ('m, 'ev) stream" where
  "on_open st = st\<lparr>connectSource := subject_next () (connectSource st)\<rparr>"

definition on_close :: "'ev \<Rightarrow> ('m, 'ev) stream \<Rightarrow> ('m, 'ev) stream" where
  "on_close ev st = st\<lparr>terminate := subject_next (Closed ev) (terminate st)\<rparr>"

text \<open>The \<open>finalize\<close> callback of the \<open>i\<close>-th socket.\<close>

definition on_finalize :: "nat \<Rightarrow> ('m, 'ev) stream \<Rightarrow> ('m, 'ev) stream" where
  "on_finalize i st =
     st\<lparr>sockets := (if i < length (sockets st) then (sockets st)[i := (sockets st ! i)\<lparr>fed := False\<rparr>]
                    else sockets st),
        currentWs := None\<rparr>"

definition send :: "'m \<Rightarrow> ('m, 'ev) stream \<Rightarrow> ('m, 'ev) stream" where
  "send msg st =
     (if completed (outgoing st) then st
      else st\<lparr>outgoing := subject_next msg (outgoing st),
              sockets := map (\<lambda>w. if fed w then w\<lparr>handed := handed w @ [msg]\<rparr> else w) (sockets st)\<rparr>)"

definition complete_current :: "('m, 'ev) stream \<Rightarrow> ('m, 'ev) stream" where
  "complete_current st =
     (case currentWs st of
        None \<Rightarrow> st
      | Some i \<Rightarrow> if i < length (sockets st)
                   then st\<lparr>sockets := (sockets st)[i := (sockets st ! i)\<lparr>socket_completed := True\<rparr>]\<rparr>
                   else st)"

text \<open>
  \<open>kill$.next()\<close>: \<open>takeUntil\<close> unsubscribes from the current socket at once, which runs its
  \<open>finalize\<close> callback; a subject that has completed emits nothing.
\<close>

definition kill_next :: "('m, 'ev) stream \<Rightarrow> ('m, 'ev) stream" where
  "kill_next st =
     (if completed (kill st) then st
      else (let s1 = st\<lparr>kill := subject_next () (kill st)\<rparr>
            in case currentWs s1 of None \<Rightarrow> s1 | Some i \<Rightarrow> on_finalize i s1))"

definition close_stream :: "('m, 'ev) stream \<Rightarrow> ('m, 'ev) stream" where
  "close_stream st =
     (let s0 = kill_next st;
          s1 = s0\<lparr>kill := subject_complete (kill s0)\<rparr>;
          s2 = complete_current s1;
          s3 = s2\<lparr>outgoing := subject_complete (outgoing s2)\<rparr>;
          s4 = s3\<lparr>connectSource := subject_complete (connectSource s3)\<rparr>
      in s4\<lparr>terminate := subject_complete (subject_next Client (terminate s4))\<rparr>)"

text \<open>Unsubscribing the only subscriber of \<open>messages$\<close> tears its socket down.\<close>

definition teardown :: "('m, 'ev) stream \<Rightarrow> ('m, 'ev) stream" where
  "teardown st = (case currentWs st of None \<Rightarrow> st | Some i \<Rightarrow> on_finalize i st)"

definition shut :: "('m, 'ev) stream \<Rightarrow> bool" where
  "shut st \<longleftrightarrow> completed (kill st) \<and> completed (outgoing st) \<and> completed (terminate st) \<and> currentWs st = None"

subsection \<open>Facts\<close>

text \<open>The inverse of \<open>encodeURIComponent\<close>, the language's \<open>decodeURIComponent\<close> on bytes.\<close>

fun percent_decode :: "string \<Rightarrow> string" where
  "percent_decode (c # a # b # r) =
     (if c = CHR ''%''
      then char_of (16 * (of_char a - (if (of_char a :: nat) < 58 then 48 else 55)) +
                    (of_char b - (if (of_char b :: nat) < 58 then 48 else 55)) :: nat) # percent_decode r
      else c # percent_decode (a # b # r))"
| "percent_decode s = s"

lemma hex_upper_val:
  "d < 16 \<Longrightarrow> of_char (hex_upper d) - (if (of_char (hex_upper d) :: nat) < 58 then 48 else 55) = d"
  by (simp add: hex_upper_def)

lemma percent_not_unreserved [simp]: "\<not> uri_unreserved (CHR ''%'')"
  by (simp add: uri_unreserved_def Let_def)

lemma percent_decode_plain: "c \<noteq> CHR ''%'' \<Longrightarrow> percent_decode (c # s) = c # percent_decode s"
  by (cases "(c # s)" rule: percent_decode.cases) auto

lemma char_div16: "(of_char c :: nat) div 16 < 16"
proof -
  have "(of_char c :: nat) < 256" by simp
  then show ?thesis by linarith
qed

lemma percent_decode_encode_char: "percent_decode (percent_encode c @ s) = c # percent_decode s"
proof -
  have "(of_char c :: nat) mod 16 < 16" by simp
  then show ?thesis
    by (simp add: percent_encode_def hex_upper_val [OF char_div16] hex_upper_val)
qed

lemma percent_decode_encode [simp]: "percent_decode (encodeURIComponent s) = s"
proof (induction s)
  case (Cons c s)
  show ?case
  proof (cases "uri_unreserved c")
    case True
    then have "c \<noteq> CHR ''%''" by auto
    with True Cons show ?thesis by (simp add: encodeURIComponent_def percent_decode_plain)
  next
    case False
    with Cons show ?thesis
      using percent_decode_encode_char [of c "encodeURIComponent s"] by (simp add: encodeURIComponent_def)
  qed
qed (simp add: encodeURIComponent_def)

lemma encodeURIComponent_inj: "encodeURIComponent a = encodeURIComponent b \<Longrightarrow> a = b"
  by (metis percent_decode_encode)

lemma hex_upper_unreserved: "d < 16 \<Longrightarrow> uri_unreserved (hex_upper d)"
  by (auto simp: uri_unreserved_def hex_upper_def Let_def)

lemma encodeURIComponent_chars: "c \<in> set (encodeURIComponent s) \<Longrightarrow> uri_unreserved c \<or> c = CHR ''%''"
proof -
  have "uri_unreserved (hex_upper (of_char x div 16))" "uri_unreserved (hex_upper (of_char x mod 16))"
    for x :: char
    by (auto intro!: hex_upper_unreserved char_div16)
  then show "c \<in> set (encodeURIComponent s) \<Longrightarrow> uri_unreserved c \<or> c = CHR ''%''"
    by (auto simp: encodeURIComponent_def percent_encode_def split: if_splits)
qed

lemma subject_simps [simp]:
  "emitted (subject_complete s) = emitted s"
  "completed (subject_complete s)"
  "completed (subject_next x s) = completed s"
  "completed s \<Longrightarrow> subject_next x s = s"
  by (simp_all add: subject_complete_def subject_next_def)

datatype ('m, 'ev) stream_event =
    Connect
  | Opened
  | ClosedBy 'ev
  | Finalized nat
  | Send 'm
  | CloseStream

fun stream_step :: "('m, 'ev) stream \<Rightarrow> ('m, 'ev) stream_event \<Rightarrow> ('m, 'ev) stream" where
  "stream_step st Connect = connect_socket st"
| "stream_step st Opened = on_open st"
| "stream_step st (ClosedBy ev) = on_close ev st"
| "stream_step st (Finalized i) = on_finalize i st"
| "stream_step st (Send m) = send m st"
| "stream_step st CloseStream = close_stream st"

lemmas stream_ops [step_defs] =
  connect_socket_def on_open_def on_close_def on_finalize_def send_def complete_current_def kill_next_def
  close_stream_def

lemma teardown_currentWs [simp]: "currentWs (teardown st) = None"
  by (simp add: teardown_def on_finalize_def split: option.splits)

lemma teardown_kill [simp]: "kill (teardown st) = kill st"
  by (simp add: teardown_def on_finalize_def split: option.splits)

lemma shut_closed: "currentWs st = None \<Longrightarrow> shut (close_stream st)"
  by (simp add: shut_def close_stream_def complete_current_def kill_next_def Let_def)

text \<open>What a closed stream keeps: its subjects are complete, with these emissions, and what the
  sockets were handed.\<close>

definition quiet :: "'m list \<Rightarrow> 'ev terminated list \<Rightarrow> unit list \<Rightarrow> ('m, 'ev) stream \<Rightarrow> bool" where
  "quiet h t c st \<longleftrightarrow>
     completed (outgoing st) \<and> completed (terminate st) \<and> completed (connectSource st) \<and> completed (kill st) \<and>
     concat (map handed (sockets st)) = h \<and> emitted (terminate st) = t \<and> emitted (connectSource st) = c"

lemma handed_update:
  assumes "handed (f (ws ! i)) = handed (ws ! i)"
  shows "map handed (ws[i := f (ws ! i)]) = map handed ws"
  using assms by (metis list_update_id map_update)

lemma quiet_step: "quiet h t c st \<Longrightarrow> quiet h t c (stream_step st e)"
  by (cases e)
     (auto simp: quiet_def step_defs Let_def handed_update [where f = "\<lambda>w. w\<lparr>fed := False\<rparr>"]
        handed_update [where f = "\<lambda>w. w\<lparr>socket_completed := True\<rparr>"] subject_complete_def
        split: option.splits)

interpretation closed_stream: event_system stream_step "quiet h t c" for h t c
  by unfold_locales (rule quiet_step)

lemma handed_complete_current:
  "map handed (sockets (complete_current st)) = map handed (sockets st)"
  by (auto simp: complete_current_def handed_update [where f = "\<lambda>w. w\<lparr>socket_completed := True\<rparr>"]
      split: option.splits)

lemma complete_current_simps [simp]:
  "terminate (complete_current st) = terminate st" "outgoing (complete_current st) = outgoing st"
  "connectSource (complete_current st) = connectSource st" "kill (complete_current st) = kill st"
  by (auto simp: complete_current_def split: option.splits)

lemma kill_next_simps [simp]:
  "terminate (kill_next st) = terminate st" "outgoing (kill_next st) = outgoing st"
  "connectSource (kill_next st) = connectSource st"
  "map handed (sockets (kill_next st)) = map handed (sockets st)"
  by (auto simp: kill_next_def on_finalize_def handed_update [where f = "\<lambda>w. w\<lparr>fed := False\<rparr>"]
      Let_def split: option.splits)

lemma quiet_closed:
  "quiet (concat (map handed (sockets st))) (emitted (subject_next Client (terminate st)))
     (emitted (connectSource st)) (close_stream st)"
  by (simp add: quiet_def close_stream_def Let_def handed_complete_current)

lemma backoff_default:
  assumes "1 \<le> n"
  shows "backoff default_opts n = (if n \<le> 4 then 1000 * 2 ^ nat (n - 1) else 10000)"
proof (cases "n \<le> 4")
  case True
  with assms have "n \<in> {1, 2, 3, 4}" by auto
  then show ?thesis by (auto simp: backoff_def default_opts_def)
next
  case False
  then have "4 \<le> nat (n - 1)" by simp
  then have "(2::int) ^ 4 \<le> 2 ^ nat (n - 1)" by (intro power_increasing) auto
  with False show ?thesis by (simp add: backoff_def default_opts_def)
qed

lemma jitter_bounds: "0 \<le> r \<Longrightarrow> r < 1 \<Longrightarrow> 0 \<le> jitter r \<and> jitter r < 300"
  by (auto simp: jitter_def floor_less_iff)

subsection \<open>Properties\<close>

text \<open>
  The artifact of a download URL cannot break out of its parameter: the encoded text holds
  unreserved characters and percent signs only, and different artifacts of a record have
  different URLs.
\<close>

theorem download_url_safe:
  "(\<forall>c. c \<in> set (encodeURIComponent artifact) \<longrightarrow> uri_unreserved c \<or> c = CHR ''%'') \<and>
   (getCertificateDownloadUrl base i artifact = getCertificateDownloadUrl base i other \<longleftrightarrow> artifact = other)"
  using encodeURIComponent_chars encodeURIComponent_inj by (auto simp: getCertificateDownloadUrl_def)

theorem download_url_safe_witness:
  "uri_unreserved (CHR ''6'') \<and> CHR ''6'' \<in> set (encodeURIComponent ''a&b'') \<and>
   getCertificateDownloadUrl ''https://h'' 7 ''a&b'' \<noteq> getCertificateDownloadUrl ''https://h'' 7 ''a''"
proof -
  have "CHR ''6'' \<in> set (encodeURIComponent ''a&b'')" by code_simp
  then show ?thesis
    using download_url_safe [of "''a&b''" "''https://h''" 7 "''a''"] by auto
qed

text \<open>
  C38. The delay before the n-th reconnect doubles from one second up to ten, plus less than
  0.3 seconds of jitter, for errors and for clean closes alike.
\<close>

theorem reconnect_delay_bounds:
  assumes "1 \<le> n" "0 \<le> r" "r < 1"
  shows "retry_delay default_opts n r = repeat_delay default_opts n r \<and>
    (if n \<le> 4 then 1000 * 2 ^ nat (n - 1) else 10000) \<le> retry_delay default_opts n r \<and>
    retry_delay default_opts n r < (if n \<le> 4 then 1000 * 2 ^ nat (n - 1) else 10000) + 300 \<and>
    retry_delay default_opts n r < 10300"
proof -
  have "backoff default_opts n \<le> 10000" by (simp add: backoff_def default_opts_def)
  with jitter_bounds [OF assms(2,3)] show ?thesis
    by (simp only: retry_delay_def repeat_delay_def backoff_default [OF assms(1)]) linarith
qed

theorem reconnect_delay_bounds_witness:
  "4000 \<le> retry_delay default_opts 3 (1 / 2) \<and> retry_delay default_opts 3 (1 / 2) < 4300"
  using reconnect_delay_bounds [of 3 "1 / 2"] by simp

text \<open>
  C12. A closed stream stays silent: whatever happens to it afterwards, no socket is handed
  another message, and nothing more is emitted on \<open>terminate$\<close> or \<open>connect$\<close>; closing it
  announced the client's close if it was the first close.
\<close>

theorem closed_stream_silent:
  "concat (map handed (sockets (run stream_step (close_stream st) es))) = concat (map handed (sockets st)) \<and>
   emitted (terminate (run stream_step (close_stream st) es)) =
     (if completed (terminate st) then emitted (terminate st) else emitted (terminate st) @ [Client]) \<and>
   emitted (connectSource (run stream_step (close_stream st) es)) = emitted (connectSource st)"
  using closed_stream.inv_run [OF quiet_closed [of st], of es]
  by (simp add: quiet_def subject_next_def)

text \<open>
  In production the stream's URL keeps the page's host and port and is secure exactly when
  the page is.
\<close>

theorem websocket_url_follows_page:
  assumes "protocol loc \<in> {''https:'', ''http:''}" "hostname loc \<noteq> []"
    and "\<forall>c \<in> set (hostname loc). c \<noteq> CHR '':'' \<and> c \<noteq> CHR ''[''"
    and "port loc \<noteq> default_port (protocol loc)"
  shows "toWebsocketURL (buildURL True loc base) path [] =
    Some ((if protocol loc = ''https:'' then ''wss:'' else ''ws:'') @ ''//'' @ hostname loc @
          (if port loc = [] then '''' else CHR '':'' # port loc) @ path)"
proof -
  let ?tl = "if port loc = [] then [] else CHR '':'' # port loc"
  have host: "takeWhile (\<lambda>c. c \<noteq> CHR '':'') (hostname loc @ ?tl) = hostname loc"
    using assms(3) by (subst takeWhile_append2) auto
  have br: "hd (hostname loc @ ?tl) \<noteq> CHR ''[''" using assms(2,3) by (cases "hostname loc") auto
  have h3: "take 3 (''://'' @ x) = ''://''" "drop 3 (''://'' @ x) = x" for x :: string by simp_all
  have "parse_origin (protocol loc @ ''//'' @ hostname loc @ ?tl) = Some loc'"
    if "loc' = \<lparr>protocol = protocol loc, hostname = hostname loc, port = port loc\<rparr>" for loc'
    using assms(1,4) host br that
    by (elim insertE emptyE) (simp_all add: parse_origin_def Let_def)
  then show ?thesis
    using assms(1,4)
    by (elim insertE emptyE) (simp_all add: toWebsocketURL_def buildURL_def Let_def default_port_def)
qed

theorem websocket_url_follows_page_witness:
  "toWebsocketURL (buildURL True \<lparr>protocol = ''https:'', hostname = ''dns.lan'', port = ''8443''\<rparr> '''')
     ''/rpc/HDNS/StreamLog'' [] = Some ''wss://dns.lan:8443/rpc/HDNS/StreamLog''"
  using websocket_url_follows_page [of "\<lparr>protocol = ''https:'', hostname = ''dns.lan'', port = ''8443''\<rparr>"
      "''''" "''/rpc/HDNS/StreamLog''"]
  by (simp add: default_port_def)

end
