(* ===== verification/Streams.thy ===== *)
theory Streams
  imports Api
begin

text \<open>
  The streams the service offers (\<^verbatim>\<open>global/services/api/api.service.ts\<close>): which method each
  one opens, its URL, and who is handed what is sent. At most one socket of a stream is fed at
  a time, the newest; \<open>outgoing$\<close> is a plain subject, so what is sent while there is no socket
  is kept nowhere.
\<close>

subsection \<open>The streams on offer\<close>

text \<open>\<open>Stream<TOut, TIn>\<close>: the key of the method and the two type arguments.\<close>

record stream_method =
  s_key :: string
  s_out :: message_type
  s_in :: message_type

definition streamResolveRecord :: stream_method where
  "streamResolveRecord = \<lparr>s_key = ''streamResolveRecord'', s_out = T_Resolution, s_in = T_Record\<rparr>"

definition streamAddress :: stream_method where
  "streamAddress = \<lparr>s_key = ''streamAddress'', s_out = T_Address, s_in = T_Empty\<rparr>"

text \<open>The type arguments of the body; the declared result is \<open>Stream<Line, Empty>\<close>.\<close>

definition streamLog :: stream_method where
  "streamLog = \<lparr>s_key = ''streamLog'', s_out = T_Line, s_in = T_Record\<rparr>"

definition stream_url :: "string \<Rightarrow> string \<Rightarrow> (string \<times> string option) list \<Rightarrow> string option" where
  "stream_url baseURL methodKey params =
     Option.bind (map_of HDNSDefinition_methods methodKey) (\<lambda>m. toWebsocketURL baseURL (method_path m) params)"

lemma streams_stream:
  "map_of HDNSDefinition_methods (s_key streamResolveRecord) =
     Some (server_stream ''StreamResolveRecord'' (s_in streamResolveRecord) (s_out streamResolveRecord))"
  "map_of HDNSDefinition_methods (s_key streamAddress) =
     Some (server_stream ''StreamAddress'' (s_in streamAddress) (s_out streamAddress))"
  "map_of HDNSDefinition_methods (s_key streamLog) =
     Some (server_stream ''StreamLog'' T_Empty (s_out streamLog))"
  by (simp_all add: methods_table streamResolveRecord_def streamAddress_def streamLog_def)

subsection \<open>Which socket is fed\<close>

definition idle :: "'m socket list \<Rightarrow> bool" where
  "idle ws \<longleftrightarrow> list_all (\<lambda>w. \<not> fed w) ws"

definition one_fed :: "('m, 'ev) stream \<Rightarrow> bool" where
  "one_fed st \<longleftrightarrow>
     (case currentWs st of
        None \<Rightarrow> idle (sockets st)
      | Some i \<Rightarrow> (\<exists>ws w. sockets st = ws @ [w] \<and> i = length ws \<and> idle ws \<and> (fed w \<or> completed (outgoing st))))"

definition reconnect :: "('m, 'ev) stream \<Rightarrow> ('m, 'ev) stream" where
  "reconnect st = connect_socket (teardown st)"

lemma one_fedE [consumes 1, case_names none current]:
  assumes "one_fed st"
  obtains "currentWs st = None" "idle (sockets st)"
  | ws w where "currentWs st = Some (length ws)" "sockets st = ws @ [w]" "idle ws" "fed w \<or> completed (outgoing st)"
  using assms by (auto simp: one_fed_def split: option.splits)

lemma idle_simps [simp]: "idle []" "idle (ws @ us) \<longleftrightarrow> idle ws \<and> idle us" "idle [w] \<longleftrightarrow> \<not> fed w"
  by (simp_all add: idle_def)

lemma one_fed_new [simp]: "one_fed (connect_socket new_stream)"
  by (simp add: one_fed_def connect_socket_def new_stream_def new_subject_def)

lemma one_fed_open [simp]: "one_fed (on_open st) = one_fed st"
  by (simp add: one_fed_def on_open_def split: option.split)

lemma one_fed_on_close [simp]: "one_fed (on_close ev st) = one_fed st"
  by (simp add: one_fed_def on_close_def split: option.split)

lemma sockets_observers [simp]: "sockets (on_open st) = sockets st" "sockets (on_close ev st) = sockets st"
  by (simp_all add: on_open_def on_close_def)

text \<open>What is sent reaches the current socket, if there is one, and no other.\<close>

definition hand :: "'m \<Rightarrow> 'm socket \<Rightarrow> 'm socket" where
  "hand m w = (if fed w then w\<lparr>handed := handed w @ [m]\<rparr> else w)"

lemma hand_idle [simp]: "idle ws \<Longrightarrow> map (hand m) ws = ws"
  by (rule map_idI) (auto simp: hand_def idle_def list_all_iff)

lemma sockets_send: "sockets (send m st) = (if completed (outgoing st) then sockets st else map (hand m) (sockets st))"
  by (simp add: send_def hand_def [abs_def])

lemma send_simps [simp]:
  "currentWs (send m st) = currentWs st" "kill (send m st) = kill st" "terminate (send m st) = terminate st"
  "connectSource (send m st) = connectSource st" "completed (outgoing (send m st)) = completed (outgoing st)"
  by (simp_all add: send_def subject_next_def)

lemma one_fed_send [simp]:
  assumes "one_fed st"
  shows "one_fed (send m st)"
  using assms
proof (cases rule: one_fedE)
  case none
  then show ?thesis by (simp add: one_fed_def sockets_send)
next
  case (current ws w)
  then show ?thesis by (auto simp: one_fed_def sockets_send hand_def)
qed

lemma send_lost:
  assumes "one_fed st" "currentWs st = None"
  shows "sockets (send m st) = sockets st"
  using assms by (simp add: one_fed_def sockets_send)

lemma send_reaches_current:
  assumes "one_fed st" "currentWs st \<noteq> None" "\<not> completed (outgoing st)"
  shows "map handed (sockets (send m st)) =
    butlast (map handed (sockets st)) @ [last (map handed (sockets st)) @ [m]]"
  using assms by (cases rule: one_fedE) (simp_all add: sockets_send hand_def)

lemma one_fed_teardown:
  assumes "one_fed st"
  shows "idle (sockets (teardown st))" "map handed (sockets (teardown st)) = map handed (sockets st)"
    "outgoing (teardown st) = outgoing st"
  using assms
  by (atomize (full), cases rule: one_fedE)
    (simp_all add: teardown_def on_finalize_def list_update_append)

lemma one_fed_torn [simp]: "one_fed st \<Longrightarrow> one_fed (teardown st)"
  by (simp add: one_fed_def [of "teardown st"] one_fed_teardown)

lemma one_fed_reconnect [simp]:
  assumes "one_fed st"
  shows "one_fed (reconnect st)"
  using one_fed_teardown [OF assms] by (simp add: one_fed_def reconnect_def connect_socket_def)

lemma handed_reconnect: "one_fed st \<Longrightarrow> map handed (sockets (reconnect st)) = map handed (sockets st) @ [[]]"
  by (simp add: reconnect_def connect_socket_def one_fed_teardown)

lemma one_fed_close [simp]:
  assumes "one_fed st"
  shows "one_fed (close_stream st)"
  using assms
  by (cases rule: one_fedE)
    (simp_all add: one_fed_def close_stream_def kill_next_def complete_current_def on_finalize_def Let_def
      list_update_append subject_complete_def)

text \<open>Two streams that differ only in what \<open>outgoing$\<close> has emitted hand out the same.\<close>

definition same_but_sent :: "('m, 'ev) stream \<Rightarrow> ('m, 'ev) stream \<Rightarrow> bool" where
  "same_but_sent a b \<longleftrightarrow>
     currentWs a = currentWs b \<and> sockets a = sockets b \<and> completed (outgoing a) = completed (outgoing b) \<and>
     terminate a = terminate b \<and> kill a = kill b \<and> connectSource a = connectSource b"

lemma same_but_sent_step: "same_but_sent a b \<Longrightarrow> same_but_sent (stream_step a e) (stream_step b e)"
  by (cases e)
    (auto simp: same_but_sent_def step_defs Let_def subject_complete_def split: option.splits)

lemma same_but_sent_run: "same_but_sent a b \<Longrightarrow> same_but_sent (run stream_step a es) (run stream_step b es)"
  by (induction es arbitrary: a b) (simp_all add: same_but_sent_step)

text \<open>
  C36. A message that is sent while the stream has no socket is lost: whatever happens afterwards,
  every reconnect included, each socket is handed exactly what it is handed without it, and the
  observers of the stream see the same.
\<close>

theorem unsent_message_lost:
  assumes "one_fed st" "currentWs st = None"
  shows "sockets (run stream_step (send m st) es) = sockets (run stream_step st es) \<and>
    terminate (run stream_step (send m st) es) = terminate (run stream_step st es) \<and>
    connectSource (run stream_step (send m st) es) = connectSource (run stream_step st es)"
proof -
  have "same_but_sent (send m st) st"
    using send_lost [OF assms, of m] by (simp add: same_but_sent_def send_def subject_next_def)
  then have "same_but_sent (run stream_step (send m st) es) (run stream_step st es)" by (rule same_but_sent_run)
  then show ?thesis by (simp add: same_but_sent_def)
qed

definition sample_stream :: "(string, unit) stream" where
  "sample_stream = teardown (send ''first'' (connect_socket new_stream))"

theorem unsent_message_lost_witness:
  "map handed (sockets (run stream_step (send ''second'' sample_stream) [Connect, Opened, Send ''third''])) =
     [[''first''], [''third'']]"
proof -
  have "one_fed sample_stream" unfolding sample_stream_def
    by (rule one_fed_torn, rule one_fed_send, rule one_fed_new)
  moreover have "currentWs sample_stream = None" by (simp add: sample_stream_def)
  ultimately have "sockets (run stream_step (send ''second'' sample_stream) [Connect, Opened, Send ''third'']) =
      sockets (run stream_step sample_stream [Connect, Opened, Send ''third''])"
    by (rule unsent_message_lost [THEN conjunct1])
  then show ?thesis
    by (simp add: sample_stream_def teardown_def on_finalize_def send_def connect_socket_def new_stream_def
        new_subject_def subject_next_def on_open_def)
qed

text \<open>
  Every stream of the service opens a method of the table that streams its answers and takes one
  message, with the type of its answers as declared, over its own path below the base URL; the
  streams that send a record or nothing declare so, but for the log, whose body names the type
  of records where the method takes none.
\<close>

theorem streams_well_typed:
  "(\<forall>s \<in> {streamResolveRecord, streamAddress, streamLog}.
      \<exists>m. map_of HDNSDefinition_methods (s_key s) = Some m \<and> m_responseStream m \<and> \<not> m_requestStream m \<and>
          m_responseType m = s_out s \<and>
          stream_url base (s_key s) [] = toWebsocketURL base (''/rpc/HDNS/'' @ m_name m) [] \<and>
          (m_requestType m = s_in s \<longleftrightarrow> s \<noteq> streamLog))"
  by (simp add: streams_stream stream_url_def server_stream_def unary_def method_path_def service_name_def)
    (simp add: streamResolveRecord_def streamAddress_def streamLog_def)

end
