(* ===== verification/Ui.thy ===== *)
theory Ui
  imports Api
begin

text \<open>
  What every page component has: the notification service it was given, the requests it has in
  flight, and the dialogs it opened through the service. A request is in flight from the call
  of the \<open>ApiService\<close> method to the reply that runs one of the two callbacks of
  \<open>subscribe\<close>; replies come in any order. \<open>sent\<close> is the trace of all requests made.
  Identifiers of toasts are taken from a counter, which makes them fresh, as
  \<open>crypto.randomUUID()\<close> promises.
\<close>

record ('h, 'q) ui =
  notifier :: "'h notify_state"
  uuid_count :: nat
  pending :: "'q list"
  sent :: "'q list"

definition init_ui :: "('h, 'q) ui" where
  "init_ui = \<lparr>notifier = init_notify, uuid_count = 0, pending = [], sent = []\<rparr>"

text \<open>\<open>notify.message\<close>, \<open>notify.error\<close> and \<open>notify.warning\<close>, as the components call them.\<close>

definition toast :: "string \<Rightarrow> ('h, 'q, 'z) ui_scheme \<Rightarrow> ('h, 'q, 'z) ui_scheme" where
  "toast msg s =
     s\<lparr>notifier := message_op (show_nat (uuid_count s)) msg None default_duration (notifier s),
       uuid_count := Suc (uuid_count s)\<rparr>"

definition toast_error :: "errval \<Rightarrow> string \<Rightarrow> ('h, 'q, 'z) ui_scheme \<Rightarrow> ('h, 'q, 'z) ui_scheme" where
  "toast_error err title s =
     s\<lparr>notifier := error_op (show_nat (uuid_count s)) err (Some title) default_duration (notifier s),
       uuid_count := Suc (uuid_count s)\<rparr>"

definition ask :: "'h Warning \<Rightarrow> ('h, 'q, 'z) ui_scheme \<Rightarrow> ('h, 'q, 'z) ui_scheme" where
  "ask w s = s\<lparr>notifier := warning_op w (notifier s)\<rparr>"

text \<open>Requests and replies.\<close>

definition request :: "'q \<Rightarrow> ('h, 'q, 'z) ui_scheme \<Rightarrow> ('h, 'q, 'z) ui_scheme" where
  "request q s = s\<lparr>pending := pending s @ [q], sent := sent s @ [q]\<rparr>"

definition take_reply :: "nat \<Rightarrow> ('h, 'q, 'z) ui_scheme \<Rightarrow> ('h, 'q, 'z) ui_scheme" where
  "take_reply k s = s\<lparr>pending := remove_at k (pending s)\<rparr>"

text \<open>
  The reply to the \<open>k\<close>-th request in flight. The handler is a table from request and reply to
  the callback; it is \<open>None\<close> where the reply is not one the request can have.
\<close>

definition on_reply ::
  "('q \<Rightarrow> 'r \<Rightarrow> (('h, 'q, 'z) ui_scheme \<Rightarrow> ('h, 'q, 'z) ui_scheme) option) \<Rightarrow>
   nat \<Rightarrow> 'r \<Rightarrow> ('h, 'q, 'z) ui_scheme \<Rightarrow> ('h, 'q, 'z) ui_scheme" where
  "on_reply handler k r s =
     (if k < length (pending s)
      then (case handler (pending s ! k) r of None \<Rightarrow> s | Some callback \<Rightarrow> callback (take_reply k s))
      else s)"

subsection \<open>Dialogs\<close>

definition close_dialog :: "nat \<Rightarrow> ('h, 'q, 'z) ui_scheme \<Rightarrow> ('h, 'q, 'z) ui_scheme" where
  "close_dialog d s = s\<lparr>notifier := (notifier s)\<lparr>dialogs := remove_at d (dialogs (notifier s))\<rparr>\<rparr>"

text \<open>The checkbox of a dialog: its value is the variable the closures of the caller share.\<close>

definition set_checkbox :: "nat \<Rightarrow> bool \<Rightarrow> ('h, 'q, 'z) ui_scheme \<Rightarrow> ('h, 'q, 'z) ui_scheme" where
  "set_checkbox d checked s =
     (let ds = dialogs (notifier s)
      in if d < length ds
         then (case ds ! d of
                 WarningDialog w \<Rightarrow>
                   s\<lparr>notifier := (notifier s)\<lparr>dialogs :=
                       ds[d := WarningDialog (w\<lparr>warn_checkbox :=
                                  map_option (\<lambda>(label, _). (label, checked)) (warn_checkbox w)\<rparr>)]\<rparr>\<rparr>
               | ErrorDialog _ _ \<Rightarrow> s)
         else s)"

definition checkbox_value :: "'h Warning \<Rightarrow> bool" where
  "checkbox_value w = (case warn_checkbox w of None \<Rightarrow> False | Some (_, v) \<Rightarrow> v)"

definition press_button ::
  "('h \<Rightarrow> bool \<Rightarrow> ('h, 'q, 'z) ui_scheme \<Rightarrow> ('h, 'q, 'z) ui_scheme) \<Rightarrow> nat \<Rightarrow> nat \<Rightarrow>
   ('h, 'q, 'z) ui_scheme \<Rightarrow> ('h, 'q, 'z) ui_scheme" where
  "press_button call d i s =
     (let ds = dialogs (notifier s)
      in if d < length ds
         then (case ds ! d of
                 WarningDialog w \<Rightarrow>
                   if i < length (warn_buttons w)
                   then (let (s', still_open) =
                           handleButton (\<lambda>h. call h (checkbox_value w))
                             (btn_handler (warn_buttons w ! i)) (s, True)
                         in if still_open then s' else close_dialog d s')
                   else s
               | ErrorDialog _ _ \<Rightarrow> s)
         else s)"

text \<open>The UTF-8 bytes of the two typographic characters the components print.\<close>

definition ellipsis :: string where
  "ellipsis = [char_of (0xE2 :: nat), char_of (0x80 :: nat), char_of (0xA6 :: nat)]"

definition em_dash :: string where
  "em_dash = [char_of (0xE2 :: nat), char_of (0x80 :: nat), char_of (0x94 :: nat)]"

subsection \<open>What the operations keep\<close>

lemmas ui_defs =
  toast_def toast_error_def ask_def request_def take_reply_def close_dialog_def set_checkbox_def

lemma toast_keeps [simp]:
  "pending (toast m s) = pending s" "sent (toast m s) = sent s"
  "dialogs (notifier (toast m s)) = dialogs (notifier s)"
  "pending (toast_error e t s) = pending s" "sent (toast_error e t s) = sent s"
  "dialogs (notifier (toast_error e t s)) = dialogs (notifier s)"
  by (simp_all add: toast_def toast_error_def message_op_def error_op_def addNotification_def Let_def)

lemma ask_keeps [simp]:
  "pending (ask w s) = pending s" "sent (ask w s) = sent s"
  "dialogs (notifier (ask w s)) = dialogs (notifier s) @ [WarningDialog w]"
  by (simp_all add: ask_def warning_op_def)

lemma request_keeps [simp]:
  "pending (request q s) = pending s @ [q]" "sent (request q s) = sent s @ [q]"
  "notifier (request q s) = notifier s"
  by (simp_all add: request_def)

lemma take_reply_keeps [simp]:
  "pending (take_reply k s) = remove_at k (pending s)" "sent (take_reply k s) = sent s"
  "notifier (take_reply k s) = notifier s"
  by (simp_all add: take_reply_def)

lemma close_dialog_keeps [simp]:
  "pending (close_dialog d s) = pending s" "sent (close_dialog d s) = sent s"
  "dialogs (notifier (close_dialog d s)) = remove_at d (dialogs (notifier s))"
  by (simp_all add: close_dialog_def)

lemma set_checkbox_keeps [simp]:
  "pending (set_checkbox d b s) = pending s" "sent (set_checkbox d b s) = sent s"
  by (auto simp: set_checkbox_def Let_def split: dialog.splits)

text \<open>The extension of a component is untouched by what the base record's operations do.\<close>

lemma ui_more [simp]:
  "ui.more (toast m s) = ui.more s" "ui.more (toast_error e t s) = ui.more s"
  "ui.more (ask w s) = ui.more s" "ui.more (request q s) = ui.more s"
  "ui.more (take_reply k s) = ui.more s" "ui.more (close_dialog d s) = ui.more s"
  "ui.more (set_checkbox d b s) = ui.more s"
  by (auto simp: toast_def toast_error_def ask_def request_def take_reply_def close_dialog_def
      set_checkbox_def Let_def split: dialog.splits)

text \<open>
  Case split of the two event forms: a reply either changes nothing or runs the callback of a
  request in flight, and a button either changes nothing or runs its handler, if any, and closes.
\<close>

lemma on_reply_cases:
  assumes "\<And>q f. k < length (pending s) \<Longrightarrow> pending s ! k = q \<Longrightarrow> handler q r = Some f \<Longrightarrow> P (f (take_reply k s))"
    and "P s"
  shows "P (on_reply handler k r s)"
  using assms by (auto simp: on_reply_def split: option.splits)

lemma press_button_cases:
  assumes "P s" and "P (close_dialog d s)"
    and "\<And>w h. d < length (dialogs (notifier s)) \<Longrightarrow> dialogs (notifier s) ! d = WarningDialog w \<Longrightarrow>
           i < length (warn_buttons w) \<Longrightarrow> btn_handler (warn_buttons w ! i) = Some h \<Longrightarrow>
           P (close_dialog d (call h (checkbox_value w) s))"
  shows "P (press_button call d i s)"
  using assms by (auto simp: press_button_def handleButton_def Let_def split: dialog.splits option.splits)

lemma remove_at_other: "q \<in> set (pending s) \<Longrightarrow> q \<noteq> pending s ! k \<Longrightarrow> q \<in> set (remove_at k (pending s))"
  by (rule in_set_remove_at)

end
