(* ===== verification/Client.thy ===== *)
theory Client
  imports Ui
begin

text \<open>
  What the components share with each other. They are all given the one \<open>NotifyService\<close>
  (\<^verbatim>\<open>global/services/notify/notify.service.ts\<close>), and each of their requests passes the
  loading interceptor (\<^verbatim>\<open>global/interceptors/loading.interceptor.ts\<close>). The locale
  \<open>http_client\<close> is the contract of a component towards both: a step only adds requests, at most
  takes the one that is answered off the list, and leaves the loading counter alone. A step under
  the shared service (\<open>hosted\<close>) then keeps the counter equal to the requests in flight.
\<close>

subsection \<open>The contract of a component\<close>

text \<open>What the components may do to the service: show toasts, five at most, and open dialogs.\<close>

definition calm :: "'h notify_state \<Rightarrow> 'h notify_state \<Rightarrow> bool" where
  "calm n m \<longleftrightarrow>
     loadingCount m = loadingCount n \<and> isLoading m = isLoading n \<and>
     (length (notifications n) \<le> 5 \<longrightarrow> length (notifications m) \<le> 5)"

lemma calm_refl [simp]: "calm n n"
  by (simp add: calm_def)

lemma calm_ui [simp]:
  "calm n (notifier s) \<Longrightarrow> calm n (notifier (toast m s))"
  "calm n (notifier s) \<Longrightarrow> calm n (notifier (toast_error e txt s))"
  "calm n (notifier s) \<Longrightarrow> calm n (notifier (ask w s))"
  "calm n (notifier s) \<Longrightarrow> calm n (notifier (close_dialog d s))"
  "calm n (notifier s) \<Longrightarrow> calm n (notifier (set_checkbox d b s))"
  by (auto simp: calm_def toast_def toast_error_def ask_def close_dialog_def set_checkbox_def
      message_op_def error_op_def warning_op_def addNotification_def Let_def split: dialog.splits)

text \<open>\<open>asks s t\<close>: from \<open>s\<close> to \<open>t\<close> the component has sent some requests and has been calm.\<close>

definition asks :: "('h, 'q, 'z) ui_scheme \<Rightarrow> ('h, 'q, 'z) ui_scheme \<Rightarrow> bool" where
  "asks s t \<longleftrightarrow>
     (\<exists>qs. sent t = sent s @ qs \<and> pending t = pending s @ qs) \<and> calm (notifier s) (notifier t)"

lemma asks_refl [simp, intro]: "asks s s"
  by (simp add: asks_def)

lemma asks_trans [trans]: "asks s t \<Longrightarrow> asks t u \<Longrightarrow> asks s u"
  by (auto simp: asks_def calm_def)

text \<open>The two forms of an event: a reply runs its callback, a button its handler.\<close>

lemma reply_asks:
  assumes "\<And>q f t. handler q r = Some f \<Longrightarrow> asks t (f t)"
  shows "on_reply handler k r s = s \<or> k < length (pending s) \<and> asks (take_reply k s) (on_reply handler k r s)"
  using assms by (auto simp: on_reply_def split: option.splits)

lemma button_asks:
  assumes "\<And>h b t. asks t (call h b t)"
  shows "asks s (press_button call d i s)"
proof (rule press_button_cases)
  show "asks s (close_dialog d s)" by (simp add: asks_def)
  fix w :: "'a Warning" and h
  have "asks (call h (checkbox_value w) s) (close_dialog d (call h (checkbox_value w) s))"
    by (simp add: asks_def)
  with assms show "asks s (close_dialog d (call h (checkbox_value w) s))" by (rule asks_trans)
qed simp

locale http_client =
  fixes step :: "('h, 'q, 'z) ui_scheme \<Rightarrow> 'e \<Rightarrow> ('h, 'q, 'z) ui_scheme"
    and answered :: "'e \<Rightarrow> nat option"
  assumes asks_step: "answered e = None \<Longrightarrow> asks s (step s e)"
    and answer_step: "answered e = Some k \<Longrightarrow>
      step s e = s \<or> k < length (pending s) \<and> asks (take_reply k s) (step s e)"
begin

text \<open>How many requests a step sends, and how many it is rid of.\<close>

lemma step_counts:
  obtains qs where "sent (step s e) = sent s @ qs"
    and "length (pending s) + length qs - length (pending (step s e)) \<le> 1"
    and "length (pending (step s e)) \<le> length (pending s) + length qs"
    and "loadingCount (notifier (step s e)) = loadingCount (notifier s)"
    and "isLoading (notifier (step s e)) = isLoading (notifier s)"
    and "length (notifications (notifier s)) \<le> 5 \<Longrightarrow> length (notifications (notifier (step s e))) \<le> 5"
proof (cases "answered e")
  case None
  then have "asks s (step s e)" by (rule asks_step)
  then obtain qs where "sent (step s e) = sent s @ qs" "pending (step s e) = pending s @ qs"
    by (auto simp: asks_def)
  with that \<open>asks s (step s e)\<close> show thesis by (simp add: asks_def calm_def)
next
  case (Some k)
  then consider "step s e = s" | "k < length (pending s)" "asks (take_reply k s) (step s e)"
    using answer_step by blast
  then show thesis
  proof cases
    case 1
    with that [of "[]"] show thesis by simp
  next
    case 2
    then obtain qs where "sent (step s e) = sent s @ qs" "pending (step s e) = remove_at k (pending s) @ qs"
      by (auto simp: asks_def)
    with that [of qs] 2 show thesis by (simp add: asks_def calm_def length_remove_at)
  qed
qed

text \<open>What was sent stays in the trace.\<close>

lemma sent_prefix_run: "\<exists>qs. sent (run step s es) = sent s @ qs"
proof (induction es arbitrary: s)
  case (Cons e es)
  obtain qs where "sent (step s e) = sent s @ qs" by (rule step_counts)
  with Cons [of "step s e"] show ?case by auto
qed simp

text \<open>Whatever is in flight was sent.\<close>

lemma pending_sent_step:
  assumes "set (pending s) \<subseteq> set (sent s)"
  shows "set (pending (step s e)) \<subseteq> set (sent (step s e))"
proof (cases "answered e")
  case None
  then have "asks s (step s e)" by (rule asks_step)
  with assms show ?thesis by (auto simp: asks_def)
next
  case (Some k)
  have "set (remove_at k (pending s)) \<subseteq> set (sent s)"
    using assms set_remove_at [of k "pending s"] by blast
  with assms answer_step [OF Some, of s] show ?thesis by (auto simp: asks_def)
qed

end

subsection \<open>The shared service\<close>

record service =
  svc_state :: "unit notify_state"
  svc_uuid :: nat

definition init_service :: service where
  "init_service = \<lparr>svc_state = init_notify, svc_uuid = 0\<rparr>"

text \<open>
  The component sees the service's toasts and counter; the dialogs it opened stay with it, as
  their buttons hold its closures.
\<close>

definition lend :: "service \<Rightarrow> ('h, 'q, 'z) ui_scheme \<Rightarrow> ('h, 'q, 'z) ui_scheme" where
  "lend v c =
     c\<lparr>notifier := \<lparr>notifications = notifications (svc_state v), loadingCount = loadingCount (svc_state v),
                    isLoading = isLoading (svc_state v), timers = timers (svc_state v),
                    dialogs = dialogs (notifier c)\<rparr>,
       uuid_count := svc_uuid v\<rparr>"

definition hand_back :: "('h, 'q, 'z) ui_scheme \<Rightarrow> service" where
  "hand_back c =
     \<lparr>svc_state = \<lparr>notifications = notifications (notifier c), loadingCount = loadingCount (notifier c),
                   isLoading = isLoading (notifier c), timers = timers (notifier c), dialogs = []\<rparr>,
      svc_uuid = uuid_count c\<rparr>"

text \<open>The interceptor, for the requests of one step: those sent start, the answered one ends.\<close>

definition intercept :: "nat \<Rightarrow> nat \<Rightarrow> service \<Rightarrow> service" where
  "intercept started ended v = v\<lparr>svc_state := (dismiss ^^ ended) ((loading ^^ started) (svc_state v))\<rparr>"

definition hosted ::
  "(('h, 'q, 'z) ui_scheme \<Rightarrow> 'e \<Rightarrow> ('h, 'q, 'z) ui_scheme) \<Rightarrow> 'e \<Rightarrow> service \<Rightarrow> ('h, 'q, 'z) ui_scheme \<Rightarrow>
   service \<times> ('h, 'q, 'z) ui_scheme" where
  "hosted step e v c =
     (let c1 = step (lend v c) e;
          started = length (sent c1) - length (sent c);
          ended = length (pending c) + started - length (pending c1)
      in (intercept started ended (hand_back c1), c1))"

text \<open>With \<open>n\<close> requests in flight, the counter is \<open>n\<close>, the bar is shown exactly if there are any,
  and there are at most five toasts.\<close>

definition service_ok :: "nat \<Rightarrow> service \<Rightarrow> bool" where
  "service_ok n v \<longleftrightarrow>
     loadingCount (svc_state v) = int n \<and> (isLoading (svc_state v) \<longleftrightarrow> 0 < n) \<and>
     length (notifications (svc_state v)) \<le> 5"

lemma service_ok_init: "service_ok 0 init_service"
  by (simp add: service_ok_def init_service_def init_notify_def)

lemma lend_keeps [simp]:
  "pending (lend v c) = pending c" "sent (lend v c) = sent c"
  "dialogs (notifier (lend v c)) = dialogs (notifier c)" "ui.more (lend v c) = ui.more c"
  "loadingCount (notifier (lend v c)) = loadingCount (svc_state v)"
  "isLoading (notifier (lend v c)) = isLoading (svc_state v)"
  "notifications (notifier (lend v c)) = notifications (svc_state v)"
  by (simp_all add: lend_def)

lemma started_ok: "service_ok n v \<Longrightarrow> service_ok (n + k) (v\<lparr>svc_state := (loading ^^ k) (svc_state v)\<rparr>)"
  by (induction k) (auto simp: service_ok_def loading_def)

lemma dismissed_ok: "service_ok (Suc n) v \<Longrightarrow> service_ok n (v\<lparr>svc_state := dismiss (svc_state v)\<rparr>)"
  by (auto simp: service_ok_def dismiss_def Let_def)

lemma ended_ok: "service_ok (n + k) v \<Longrightarrow> service_ok n (v\<lparr>svc_state := (dismiss ^^ k) (svc_state v)\<rparr>)"
proof (induction k arbitrary: n)
  case (Suc k)
  then have "service_ok (Suc n) (v\<lparr>svc_state := (dismiss ^^ k) (svc_state v)\<rparr>)" by simp
  from dismissed_ok [OF this] show ?case by simp
qed simp

lemma intercept_ok:
  assumes "service_ok n v" "ended \<le> n + started"
  shows "service_ok (n + started - ended) (intercept started ended v)"
proof -
  have "service_ok ((n + started - ended) + ended) (v\<lparr>svc_state := (loading ^^ started) (svc_state v)\<rparr>)"
    using started_ok [OF assms(1), of started] assms(2) by simp
  from ended_ok [OF this] show ?thesis by (simp add: intercept_def)
qed

text \<open>A component under the service that keeps an invariant of its own.\<close>

lemma hosted_component: "snd (hosted step e v c) = step (lend v c) e"
  by (simp add: hosted_def Let_def)

locale hosted_client = http_client step answered + event_system step inv
  for step :: "('h, 'q, 'z) ui_scheme \<Rightarrow> 'e \<Rightarrow> ('h, 'q, 'z) ui_scheme"
    and answered :: "'e \<Rightarrow> nat option" and inv :: "('h, 'q, 'z) ui_scheme \<Rightarrow> bool" +
  assumes inv_lend: "inv (lend v c) = inv c"
begin

lemma hosted_inv: "hosted step e v c = (v', c') \<Longrightarrow> inv c \<Longrightarrow> inv c'"
  by (auto simp: hosted_def Let_def inv_step inv_lend)

end

context http_client
begin

text \<open>The requests of the others in flight, \<open>n\<close>, stay in flight.\<close>

lemma hosted_ok:
  assumes "hosted step e v c = (v', c')" "service_ok m v" "m = n + length (pending c)"
  shows "service_ok (n + length (pending c')) v'"
proof -
  let ?s = "lend v c"
  obtain qs where s: "sent (step ?s e) = sent ?s @ qs"
      "length (pending (step ?s e)) \<le> length (pending ?s) + length qs"
    and h: "loadingCount (notifier (step ?s e)) = loadingCount (notifier ?s)"
      "isLoading (notifier (step ?s e)) = isLoading (notifier ?s)"
      "length (notifications (notifier ?s)) \<le> 5 \<Longrightarrow> length (notifications (notifier (step ?s e))) \<le> 5"
    by (rule step_counts [of ?s e]) blast
  have "service_ok (n + length (pending c)) (hand_back (step ?s e))"
    using assms(2,3) h by (simp add: service_ok_def hand_back_def)
  from intercept_ok [OF this, of "length (pending c) + length qs - length (pending (step ?s e))" "length qs"] s
  show ?thesis using assms(1) by (auto simp: hosted_def Let_def)
qed

end

end
