(* ===== verification/RecordsTable.thy ===== *)
theory RecordsTable
  imports Client
begin

text \<open>
  The records table (\<^verbatim>\<open>pages/home/sections/records-table/records-table.component.ts\<close>): its
  signals, its requests with the data their callbacks close over, the certificate poll and the
  two confirmation dialogs, and what the template shows of them.
\<close>

datatype rt_req =
    ReqAddress
  | ReqRecords "string option"
  | ReqHetzner record_msg
  | ReqResolve record_msg
  | ReqRefresh record_msg
  | ReqIssue record_msg
  | ReqPoll int nat
  | ReqDelete record_msg bool

datatype rt_reply =
    RepAddress "address_msg option"
  | RepRecords "record_msg list option"
  | RepResolutions "resolution_msg list option"
  | RepOk
  | RepErr errval

text \<open>The handlers of the dialogs' buttons.\<close>

datatype rt_handler = RenewAnyway record_msg | DeleteConfirmed record_msg

record records_table = "(rt_handler, rt_req) ui" +
  rt_records :: "record_msg list"
  searchTerm :: string
  wantedIp :: string
  hetznerIps :: "int \<rightharpoonup> string"
  resolvedIps :: "int \<rightharpoonup> string"
  loadingHetzner :: "int set"
  loadingResolved :: "int set"
  issuing :: "int set"
  poll_timers :: "(int \<times> nat) list"
  route :: "int option"

definition init_rt :: records_table where
  "init_rt = ui.extend init_ui
     \<lparr>rt_records = [], searchTerm = '''', wantedIp = '''', hetznerIps = Map.empty,
      resolvedIps = Map.empty, loadingHetzner = {}, loadingResolved = {}, issuing = {},
      poll_timers = [], route = None\<rparr>"

text \<open>The \<open>ApiService\<close> call of a request.\<close>

definition rt_call :: "rt_req \<Rightarrow> 'c call" where
  "rt_call q =
     (case q of
        ReqAddress \<Rightarrow> getAddress
      | ReqRecords txt \<Rightarrow> getRecords txt
      | ReqHetzner r \<Rightarrow> fetchHetznerRecord r
      | ReqResolve r \<Rightarrow> resolveRecord r
      | ReqRefresh r \<Rightarrow> refreshRecord_call r
      | ReqIssue r \<Rightarrow> issueCertificate_call r
      | ReqPoll _ _ \<Rightarrow> getRecords (Some '''')
      | ReqDelete r b \<Rightarrow> deleteRecord_call r b)"

subsection \<open>Purposes and labels\<close>

definition purposeLabel :: "int option \<Rightarrow> string" where
  "purposeLabel p =
     (if p = Some RECORD_PURPOSE_CERT then ''Certificate''
      else if p = Some RECORD_PURPOSE_BOTH then ''DDNS + Cert''
      else ''DDNS'')"

definition recordHasCert :: "record_msg \<Rightarrow> bool" where
  "recordHasCert r =
     (let purpose = nullish (rec_purpose r) RECORD_PURPOSE_UNSPECIFIED
      in purpose = RECORD_PURPOSE_CERT \<or> purpose = RECORD_PURPOSE_BOTH)"

definition recordDoesDdns :: "record_msg \<Rightarrow> bool" where
  "recordDoesDdns r =
     (let purpose = nullish (rec_purpose r) RECORD_PURPOSE_UNSPECIFIED
      in purpose = RECORD_PURPOSE_DDNS \<or> purpose = RECORD_PURPOSE_BOTH)"

definition certStatusClass :: "string option \<Rightarrow> string" where
  "certStatusClass status =
     (if status = Some ''valid'' then ''cert-valid''
      else if status = Some ''failed'' then ''cert-failed'' else ''cert-pending'')"

definition certStatusIcon :: "string option \<Rightarrow> string" where
  "certStatusIcon status =
     (if status = Some ''valid'' then ''verified''
      else if status = Some ''failed'' then ''error'' else ''hourglass_empty'')"

subsection \<open>Operations\<close>

definition openOverview :: "record_msg \<Rightarrow> records_table \<Rightarrow> records_table" where
  "openOverview r s = s\<lparr>route := Some (rec_id r)\<rparr>"

definition loadWantedIp :: "records_table \<Rightarrow> records_table" where
  "loadWantedIp s = request ReqAddress s"

definition load_records :: "string option \<Rightarrow> records_table \<Rightarrow> records_table" where
  "load_records txt s = request (ReqRecords txt) s"

definition rt_ngOnInit :: "records_table \<Rightarrow> records_table" where
  "rt_ngOnInit s = load_records None (loadWantedIp s)"

definition loadHetznerIp :: "record_msg \<Rightarrow> records_table \<Rightarrow> records_table" where
  "loadHetznerIp r s = request (ReqHetzner r) (s\<lparr>loadingHetzner := insert (rec_id r) (loadingHetzner s)\<rparr>)"

definition loadResolvedIp :: "record_msg \<Rightarrow> records_table \<Rightarrow> records_table" where
  "loadResolvedIp r s = request (ReqResolve r) (s\<lparr>loadingResolved := insert (rec_id r) (loadingResolved s)\<rparr>)"

fun pickResolvedAddress :: "resolution_msg list \<Rightarrow> string" where
  "pickResolvedAddress [] = ''''"
| "pickResolvedAddress (r # rs) =
     (if res_error r = '''' \<and> res_addresses r \<noteq> None \<and> the (res_addresses r) \<noteq> []
      then hd (the (res_addresses r)) else pickResolvedAddress rs)"

text \<open>\<open>clearLoading\<close> on a set signal.\<close>

definition clearLoading :: "int set \<Rightarrow> int \<Rightarrow> int set" where
  "clearLoading sig i = sig - {i}"

text \<open>The success callback of \<open>load\<close>.\<close>

definition lookup_ips :: "record_msg \<Rightarrow> records_table \<Rightarrow> records_table" where
  "lookup_ips r s = (if \<not> recordDoesDdns r then s else loadResolvedIp r (loadHetznerIp r s))"

definition on_records :: "record_msg list option \<Rightarrow> records_table \<Rightarrow> records_table" where
  "on_records res s =
     (let records = nullish res []
      in fold lookup_ips records
           (s\<lparr>rt_records := records, hetznerIps := Map.empty, resolvedIps := Map.empty\<rparr>))"

definition on_hetzner :: "record_msg \<Rightarrow> address_msg option \<Rightarrow> records_table \<Rightarrow> records_table" where
  "on_hetzner r addr s =
     s\<lparr>hetznerIps := (hetznerIps s)(rec_id r \<mapsto> pick_ip addr),
       loadingHetzner := clearLoading (loadingHetzner s) (rec_id r)\<rparr>"

definition on_resolved :: "record_msg \<Rightarrow> resolution_msg list option \<Rightarrow> records_table \<Rightarrow> records_table" where
  "on_resolved r res s =
     s\<lparr>resolvedIps := (resolvedIps s)(rec_id r \<mapsto> pickResolvedAddress (nullish res [])),
       loadingResolved := clearLoading (loadingResolved s) (rec_id r)\<rparr>"

definition refreshRecord :: "record_msg \<Rightarrow> records_table \<Rightarrow> records_table" where
  "refreshRecord r s = request (ReqRefresh r) s"

definition on_refreshed :: "records_table \<Rightarrow> records_table" where
  "on_refreshed s = load_records None (loadWantedIp (toast ''Record refreshed.'' s))"

definition host_of :: "record_msg \<Rightarrow> string" where
  "host_of r = rec_name r @ ''.'' @ rec_domain r"

definition doIssueCertificate :: "record_msg \<Rightarrow> records_table \<Rightarrow> records_table" where
  "doIssueCertificate r s =
     (let s1 = s\<lparr>issuing := insert (rec_id r) (issuing s)\<rparr>
      in request (ReqIssue r) (toast (''Issuing certificate for '' @ host_of r @ ellipsis) s1))"

definition issueCertificate :: "record_msg \<Rightarrow> records_table \<Rightarrow> records_table" where
  "issueCertificate r s =
     (if (case rec_certificate r of None \<Rightarrow> False | Some c \<Rightarrow> crt_status c = Some ''valid'')
      then ask \<lparr>warn_title = ''Certificate already valid'',
                warn_message = ''A valid certificate for '' @ host_of r @
                  '' is already active. Forcing renewal now counts against the Let's Encrypt rate limit (5 per domain per week). Are you sure you want to renew it?'',
                warn_buttons =
                  [\<lparr>btn_text = ''Cancel'', btn_color = ''accent'', btn_handler = None\<rparr>,
                   \<lparr>btn_text = ''Renew anyway'', btn_color = ''warn'', btn_handler = Some (RenewAnyway r)\<rparr>],
                warn_checkbox = None\<rparr> s
      else doIssueCertificate r s)"

definition maxAttempts :: nat where
  "maxAttempts = 20"

definition pollCertificate :: "int \<Rightarrow> nat \<Rightarrow> records_table \<Rightarrow> records_table" where
  "pollCertificate recordId attempt s =
     (if maxAttempts \<le> attempt then s
      else s\<lparr>poll_timers := poll_timers s @ [(recordId, attempt)]\<rparr>)"

definition poll_due :: "nat \<Rightarrow> records_table \<Rightarrow> records_table" where
  "poll_due k s =
     (if k < length (poll_timers s)
      then (let (recordId, attempt) = poll_timers s ! k
            in request (ReqPoll recordId attempt) (s\<lparr>poll_timers := remove_at k (poll_timers s)\<rparr>))
      else s)"

definition on_polled :: "int \<Rightarrow> nat \<Rightarrow> record_msg list option \<Rightarrow> records_table \<Rightarrow> records_table" where
  "on_polled recordId attempt res s =
     (let records = nullish res [];
          s1 = s\<lparr>rt_records := records\<rparr>;
          record = List.find (\<lambda>r. rec_id r = recordId) records;
          status = Option.bind (Option.bind record rec_certificate) crt_status
      in if status \<noteq> None \<and> status \<noteq> Some '''' \<and> status \<noteq> Some ''pending''
         then (if status = Some ''valid'' then toast ''Certificate issued.'' s1 else s1)
         else pollCertificate recordId (attempt + 1) s1)"

definition on_issued :: "record_msg \<Rightarrow> records_table \<Rightarrow> records_table" where
  "on_issued r s =
     (let s1 = s\<lparr>issuing := clearLoading (issuing s) (rec_id r)\<rparr>;
          s2 = toast (''Certificate issuance started. This may take a moment'' @ ellipsis) s1
      in pollCertificate (rec_id r) 0 (load_records None s2))"

definition delete_op :: "record_msg \<Rightarrow> records_table \<Rightarrow> records_table" where
  "delete_op r s =
     ask \<lparr>warn_title = ''Delete record'',
          warn_message = ''Delete \"'' @ host_of r @ ''\"? This cannot be undone.'',
          warn_buttons =
            [\<lparr>btn_text = ''Cancel'', btn_color = ''accent'', btn_handler = None\<rparr>,
             \<lparr>btn_text = ''Delete'', btn_color = ''warn'', btn_handler = Some (DeleteConfirmed r)\<rparr>],
          warn_checkbox = Some (''Delete record from Hetzner'', False)\<rparr> s"

definition deleteRecord :: "record_msg \<Rightarrow> bool \<Rightarrow> records_table \<Rightarrow> records_table" where
  "deleteRecord r deleteFromHetzner s = request (ReqDelete r deleteFromHetzner) s"

definition rt_run_handler :: "rt_handler \<Rightarrow> bool \<Rightarrow> records_table \<Rightarrow> records_table" where
  "rt_run_handler h checked =
     (case h of RenewAnyway r \<Rightarrow> doIssueCertificate r | DeleteConfirmed r \<Rightarrow> deleteRecord r checked)"

definition on_deleted :: "records_table \<Rightarrow> records_table" where
  "on_deleted s = load_records None (toast ''Record deleted.'' s)"

text \<open>The callbacks of \<open>subscribe\<close>, by request and reply.\<close>

fun rt_handle :: "rt_req \<Rightarrow> rt_reply \<Rightarrow> (records_table \<Rightarrow> records_table) option" where
  "rt_handle ReqAddress (RepAddress addr) = Some (\<lambda>s. s\<lparr>wantedIp := pick_ip addr\<rparr>)"
| "rt_handle ReqAddress (RepErr e) = Some (\<lambda>s. s\<lparr>wantedIp := ''''\<rparr>)"
| "rt_handle (ReqRecords _) (RepRecords res) = Some (on_records res)"
| "rt_handle (ReqRecords _) (RepErr e) = Some (toast_error e ''Failed to load records'')"
| "rt_handle (ReqHetzner r) (RepAddress addr) = Some (on_hetzner r addr)"
| "rt_handle (ReqHetzner r) (RepErr e) =
     Some (\<lambda>s. s\<lparr>loadingHetzner := clearLoading (loadingHetzner s) (rec_id r)\<rparr>)"
| "rt_handle (ReqResolve r) (RepResolutions res) = Some (on_resolved r res)"
| "rt_handle (ReqResolve r) (RepErr e) =
     Some (\<lambda>s. s\<lparr>loadingResolved := clearLoading (loadingResolved s) (rec_id r)\<rparr>)"
| "rt_handle (ReqRefresh _) RepOk = Some on_refreshed"
| "rt_handle (ReqRefresh _) (RepErr e) = Some (toast_error e ''Refresh failed'')"
| "rt_handle (ReqIssue r) RepOk = Some (on_issued r)"
| "rt_handle (ReqIssue r) (RepErr e) =
     Some (\<lambda>s. toast_error e ''Certificate issuance failed''
                 (s\<lparr>issuing := clearLoading (issuing s) (rec_id r)\<rparr>))"
| "rt_handle (ReqPoll i a) (RepRecords res) = Some (on_polled i a res)"
| "rt_handle (ReqPoll i a) (RepErr e) = Some (pollCertificate i (a + 1))"
| "rt_handle (ReqDelete _ _) RepOk = Some on_deleted"
| "rt_handle (ReqDelete _ _) (RepErr e) = Some (toast_error e ''Delete failed'')"
| "rt_handle _ _ = None"

datatype rt_event =
    RtInit
  | RtSearch string
  | RtClearSearch
  | RtRefresh record_msg
  | RtIssue record_msg
  | RtDelete record_msg
  | RtOpen record_msg
  | RtFormSaved
  | RtCheckbox nat bool
  | RtButton nat nat
  | RtDismissDialog nat
  | RtPollDue nat
  | RtReply nat rt_reply

text \<open>\<open>RtFormSaved\<close> is \<open>onSave\<close> of the record form. The methods have no guards of their own; what
  the menu offers, and when, is in \<open>TableView\<close>.\<close>

fun rt_step :: "records_table \<Rightarrow> rt_event \<Rightarrow> records_table" where
  "rt_step s RtInit = rt_ngOnInit s"
| "rt_step s (RtSearch t) = load_records (Some t) (s\<lparr>searchTerm := t\<rparr>)"
| "rt_step s RtClearSearch = load_records (Some '''') (s\<lparr>searchTerm := ''''\<rparr>)"
| "rt_step s (RtRefresh r) = refreshRecord r s"
| "rt_step s (RtIssue r) = issueCertificate r s"
| "rt_step s (RtDelete r) = delete_op r s"
| "rt_step s (RtOpen r) = openOverview r s"
| "rt_step s RtFormSaved = load_records None s"
| "rt_step s (RtCheckbox d b) = set_checkbox d b s"
| "rt_step s (RtButton d i) = press_button rt_run_handler d i s"
| "rt_step s (RtDismissDialog d) = close_dialog d s"
| "rt_step s (RtPollDue k) = poll_due k s"
| "rt_step s (RtReply k r) = on_reply rt_handle k r s"

subsection \<open>What the template shows\<close>

datatype ip_view = NoIp | IpSpinner | IpLines string "string option" "string option"

definition shown_diff :: "string option \<Rightarrow> string \<Rightarrow> string option" where
  "shown_diff ip wanted = (case ip of Some x \<Rightarrow> if x \<noteq> '''' \<and> x \<noteq> wanted then Some x else None | None \<Rightarrow> None)"

definition ip_cell :: "records_table \<Rightarrow> record_msg \<Rightarrow> ip_view" where
  "ip_cell s r =
     (if \<not> recordDoesDdns r then NoIp
      else if rec_id r \<in> loadingHetzner s \<or> rec_id r \<in> loadingResolved s then IpSpinner
      else IpLines (or_str (wantedIp s) em_dash)
             (shown_diff (hetznerIps s (rec_id r)) (wantedIp s))
             (shown_diff (resolvedIps s (rec_id r)) (wantedIp s)))"

datatype cert_view = NoCert | CertSpinner | CertShown string string "string option" | NotIssued

definition cert_cell :: "records_table \<Rightarrow> record_msg \<Rightarrow> cert_view" where
  "cert_cell s r =
     (if recordHasCert r
      then (if rec_id r \<in> issuing s then CertSpinner
            else (case rec_certificate r of
                    Some c \<Rightarrow> CertShown (certStatusClass (crt_status c)) (certStatusIcon (crt_status c)) (crt_status c)
                  | None \<Rightarrow> NotIssued))
      else NoCert)"

datatype section_view = ShowTable | ShowNoMatch | ShowNoRecords

definition table_section :: "records_table \<Rightarrow> section_view" where
  "table_section s =
     (if 0 < length (rt_records s) then ShowTable
      else if 0 < length (rt_records s) then ShowNoMatch
      else ShowNoRecords)"

subsection \<open>Invariant\<close>

lemmas rt_ops [step_defs] =
  openOverview_def loadWantedIp_def load_records_def rt_ngOnInit_def loadHetznerIp_def
  loadResolvedIp_def lookup_ips_def on_hetzner_def on_resolved_def refreshRecord_def on_refreshed_def
  doIssueCertificate_def issueCertificate_def pollCertificate_def poll_due_def on_polled_def on_issued_def
  delete_op_def deleteRecord_def rt_run_handler_def on_deleted_def clearLoading_def

datatype rt_mark = MHetzner int | MResolved int | MIssuing int

definition rt_marks :: "records_table \<Rightarrow> rt_mark set" where
  "rt_marks s = MHetzner ` loadingHetzner s \<union> MResolved ` loadingResolved s \<union> MIssuing ` issuing s"

definition rt_mark_of :: "rt_req \<Rightarrow> rt_mark option" where
  "rt_mark_of q =
     (case q of ReqHetzner r \<Rightarrow> Some (MHetzner (rec_id r))
      | ReqResolve r \<Rightarrow> Some (MResolved (rec_id r))
      | ReqIssue r \<Rightarrow> Some (MIssuing (rec_id r))
      | _ \<Rightarrow> None)"

lemma rt_mark_of_simps [simp]:
  "rt_mark_of ReqAddress = None" "rt_mark_of (ReqRecords t) = None"
  "rt_mark_of (ReqHetzner r) = Some (MHetzner (rec_id r))"
  "rt_mark_of (ReqResolve r) = Some (MResolved (rec_id r))"
  "rt_mark_of (ReqRefresh r) = None" "rt_mark_of (ReqIssue r) = Some (MIssuing (rec_id r))"
  "rt_mark_of (ReqPoll i a) = None" "rt_mark_of (ReqDelete r b) = None"
  by (simp_all add: rt_mark_of_def)

definition is_poll :: "rt_req \<Rightarrow> bool" where
  "is_poll q = (case q of ReqPoll _ _ \<Rightarrow> True | _ \<Rightarrow> False)"

definition is_issue :: "rt_req \<Rightarrow> bool" where
  "is_issue q = (case q of ReqIssue _ \<Rightarrow> True | _ \<Rightarrow> False)"

definition ddns_lookup_ok :: "rt_req \<Rightarrow> bool" where
  "ddns_lookup_ok q =
     (case q of ReqHetzner r \<Rightarrow> recordDoesDdns r | ReqResolve r \<Rightarrow> recordDoesDdns r | _ \<Rightarrow> True)"

definition polls_left :: "rt_req \<Rightarrow> nat" where
  "polls_left q = (case q of ReqPoll _ a \<Rightarrow> maxAttempts - (a + 1) | ReqIssue _ \<Rightarrow> maxAttempts | _ \<Rightarrow> 0)"

text \<open>
  The invariant with an allowance: between taking a request off the list and running its
  callback, the request's mark (in \<open>ms\<close>) has no request behind it and its share \<open>w\<close> of
  the polls is not spent yet.
\<close>

definition rt_inv_x :: "rt_mark set \<Rightarrow> nat \<Rightarrow> records_table \<Rightarrow> bool" where
  "rt_inv_x ms w s \<longleftrightarrow>
     waits (rt_marks s - ms) rt_mark_of (pending s) \<and>
     list_all ddns_lookup_ok (sent s) \<and>
     list_all (\<lambda>t. snd t < maxAttempts) (poll_timers s) \<and>
     length (filter is_poll (sent s)) + sum_list (map (\<lambda>t. maxAttempts - snd t) (poll_timers s)) +
       sum_list (map polls_left (pending s)) + w \<le> maxAttempts * length (filter is_issue (sent s))"

abbreviation rt_inv :: "records_table \<Rightarrow> bool" where
  "rt_inv \<equiv> rt_inv_x {} 0"

lemmas rt_req_kinds [simp] =
  is_poll_def is_issue_def ddns_lookup_ok_def polls_left_def

lemma rt_inv_init: "rt_inv init_rt"
  by (simp add: rt_inv_x_def init_rt_def rt_marks_def init_ui_def ui.defs)

text \<open>Requests that carry no mark and no poll weight, and fields the invariant does not read.\<close>

lemma rt_inv_request [simp]:
  assumes "rt_mark_of q = None" "\<not> is_poll q" "\<not> is_issue q" "ddns_lookup_ok q"
  shows "rt_inv_x ms w s \<Longrightarrow> rt_inv_x ms w (request q s)"
  using assms by (cases q) (auto simp: rt_inv_x_def rt_marks_def request_def intro: waits_append)

lemma rt_inv_cong:
  assumes "loadingHetzner t = loadingHetzner s" "loadingResolved t = loadingResolved s"
    "issuing t = issuing s" "poll_timers t = poll_timers s" "pending t = pending s" "sent t = sent s"
  shows "rt_inv_x ms w t \<longleftrightarrow> rt_inv_x ms w s"
  using assms by (simp add: rt_inv_x_def rt_marks_def)

lemma rt_inv_ui [simp]:
  "rt_inv_x ms w (toast m s) = rt_inv_x ms w s"
  "rt_inv_x ms w (toast_error e t s) = rt_inv_x ms w s"
  "rt_inv_x ms w (ask q s) = rt_inv_x ms w s"
  "rt_inv_x ms w (close_dialog d s) = rt_inv_x ms w s"
  "rt_inv_x ms w (set_checkbox d b s) = rt_inv_x ms w s"
  by (rule rt_inv_cong; auto simp: ui_defs Let_def split: dialog.splits)+

lemma rt_inv_fields [simp]:
  "rt_inv_x ms w (s\<lparr>wantedIp := x\<rparr>) = rt_inv_x ms w s"
  "rt_inv_x ms w (s\<lparr>searchTerm := x\<rparr>) = rt_inv_x ms w s"
  "rt_inv_x ms w (s\<lparr>route := y\<rparr>) = rt_inv_x ms w s"
  "rt_inv_x ms w (s\<lparr>rt_records := z\<rparr>) = rt_inv_x ms w s"
  "rt_inv_x ms w (s\<lparr>rt_records := z, hetznerIps := h, resolvedIps := g\<rparr>) = rt_inv_x ms w s"
  "rt_inv_x ms w (s\<lparr>hetznerIps := h, loadingHetzner := a\<rparr>) = rt_inv_x ms w (s\<lparr>loadingHetzner := a\<rparr>)"
  "rt_inv_x ms w (s\<lparr>resolvedIps := h, loadingResolved := a\<rparr>) = rt_inv_x ms w (s\<lparr>loadingResolved := a\<rparr>)"
  by (rule rt_inv_cong; simp)+

lemma rt_inv_lookups: "rt_inv_x ms w s \<Longrightarrow> rt_inv_x ms w (lookup_ips r s)"
  by (auto simp: rt_inv_x_def rt_marks_def lookup_ips_def loadHetznerIp_def loadResolvedIp_def request_def
      waits_def)

lemma rt_inv_fold_lookups: "rt_inv_x ms w s \<Longrightarrow> rt_inv_x ms w (fold lookup_ips rs s)"
  by (induction rs arbitrary: s) (simp_all add: rt_inv_lookups)

lemma rt_inv_issue: "rt_inv_x ms w s \<Longrightarrow> rt_inv_x ms w (doIssueCertificate r s)"
  by (auto simp: rt_inv_x_def rt_marks_def doIssueCertificate_def request_def toast_def Let_def waits_def)

lemma rt_inv_weaken: "rt_inv_x ms w s \<Longrightarrow> v \<le> w \<Longrightarrow> rt_inv_x ms v s"
  by (simp add: rt_inv_x_def)

lemma rt_inv_take:
  assumes "rt_inv s" "k < length (pending s)" "pending s ! k = q"
  shows "rt_inv_x (set_option (rt_mark_of q)) (polls_left q) (take_reply k s)"
  using assms waits_remove [of "rt_marks s" rt_mark_of "pending s" k]
    sum_list_remove_at [of k "pending s" polls_left]
  by (simp add: rt_inv_x_def rt_marks_def take_reply_def)

lemma rt_inv_cleared:
  "rt_inv_x {MHetzner i} w s \<Longrightarrow> rt_inv_x {} w (s\<lparr>loadingHetzner := clearLoading (loadingHetzner s) i\<rparr>)"
  "rt_inv_x {MResolved i} w s \<Longrightarrow> rt_inv_x {} w (s\<lparr>loadingResolved := clearLoading (loadingResolved s) i\<rparr>)"
  "rt_inv_x {MIssuing i} w s \<Longrightarrow> rt_inv_x {} w (s\<lparr>issuing := clearLoading (issuing s) i\<rparr>)"
  by (auto simp: rt_inv_x_def rt_marks_def clearLoading_def elim!: waits_mono)

lemma rt_inv_poll: "rt_inv_x ms (maxAttempts - a) s \<Longrightarrow> rt_inv_x ms 0 (pollCertificate i a s)"
  by (auto simp: rt_inv_x_def rt_marks_def pollCertificate_def)

lemma rt_inv_poll_due:
  assumes "rt_inv s"
  shows "rt_inv (poll_due k s)"
proof (cases "k < length (poll_timers s)")
  case True
  obtain i a where t: "poll_timers s ! k = (i, a)" by (cases "poll_timers s ! k")
  have "a < maxAttempts"
    using assms True t by (auto simp: rt_inv_x_def list_all_length)
  moreover have "list_all (\<lambda>t. snd t < maxAttempts) (remove_at k (poll_timers s))"
    using assms set_remove_at [of k "poll_timers s"] by (auto simp: rt_inv_x_def list_all_iff)
  ultimately show ?thesis
    using assms True t sum_list_remove_at [OF True, of "\<lambda>t. maxAttempts - snd t"]
    by (simp add: rt_inv_x_def rt_marks_def poll_due_def request_def waits_append) linarith
next
  case False
  with assms show ?thesis by (simp add: poll_due_def)
qed

lemma rt_inv_polled:
  assumes "rt_inv_x {} (maxAttempts - (a + 1)) s"
  shows "rt_inv (on_polled i a res s)"
  using assms rt_inv_weaken [OF assms, of 0]
  by (auto simp: on_polled_def Let_def intro!: rt_inv_poll)

lemma rt_inv_issued:
  assumes "rt_inv_x {MIssuing (rec_id r)} maxAttempts s"
  shows "rt_inv (on_issued r s)"
  using rt_inv_cleared(3) [OF assms]
  by (simp add: on_issued_def Let_def load_records_def rt_inv_poll)

lemma rt_inv_handle:
  assumes "rt_inv s" "k < length (pending s)" "pending s ! k = q" "rt_handle q r = Some f"
  shows "rt_inv (f (take_reply k s))"
  using rt_inv_take [OF assms(1-3)] assms(4) rt_inv_weaken [of _ _ "take_reply k s" 0]
  by (cases q; cases r)
    (auto simp: on_records_def on_hetzner_def on_resolved_def on_refreshed_def on_deleted_def Let_def
      load_records_def loadWantedIp_def rt_inv_fold_lookups rt_inv_cleared rt_inv_polled rt_inv_issued
      rt_inv_poll)

lemma rt_inv_step: "rt_inv s \<Longrightarrow> rt_inv (rt_step s e)"
proof (cases e)
  case (RtReply k r)
  assume "rt_inv s"
  then show ?thesis using RtReply by (auto intro: on_reply_cases rt_inv_handle)
next
  case (RtButton d i)
  assume "rt_inv s"
  then show ?thesis using RtButton
    by (auto intro!: press_button_cases [where P = rt_inv] rt_inv_issue
        simp: rt_run_handler_def deleteRecord_def split: rt_handler.splits)
qed (auto simp: rt_ngOnInit_def loadWantedIp_def load_records_def refreshRecord_def issueCertificate_def
      openOverview_def delete_op_def rt_inv_issue rt_inv_poll_due split: option.splits)

interpretation rt: quiescent_system rt_step rt_inv pending rt_marks rt_mark_of
proof unfold_locales
  show "rt_inv (rt_step s e)" if "rt_inv s" for s e
    using that by (rule rt_inv_step)
  show "\<exists>p \<in> set (pending s). rt_mark_of p = Some m" if "rt_inv s" "m \<in> rt_marks s" for s m
    using that by (simp add: rt_inv_x_def waits_def)
qed

lemma pickResolvedAddress_find:
  "pickResolvedAddress rs =
     (case List.find (\<lambda>r. res_error r = '''' \<and> (\<exists>a as. res_addresses r = Some (a # as))) rs of
        Some r \<Rightarrow> hd (the (res_addresses r)) | None \<Rightarrow> '''')"
  by (induction rs rule: pickResolvedAddress.induct) (auto simp: neq_Nil_conv)

definition lookups :: "record_msg list \<Rightarrow> rt_req list" where
  "lookups rs = concat (map (\<lambda>r. if recordDoesDdns r then [ReqHetzner r, ReqResolve r] else []) rs)"

lemma fold_lookups [simp]:
  "rt_records (fold lookup_ips rs s) = rt_records s" "searchTerm (fold lookup_ips rs s) = searchTerm s"
  "pending (fold lookup_ips rs s) = pending s @ lookups rs"
  "sent (fold lookup_ips rs s) = sent s @ lookups rs"
  by (induction rs arbitrary: s)
    (simp_all add: lookup_ips_def loadHetznerIp_def loadResolvedIp_def request_def lookups_def)

text \<open>The branch for a search without a match has the condition of the branch before it.\<close>

lemma no_match_never_shown: "table_section s \<noteq> ShowNoMatch"
  by (simp add: table_section_def)

subsection \<open>The table as a client of the services\<close>

fun rt_answered :: "rt_event \<Rightarrow> nat option" where
  "rt_answered (RtReply k r) = Some k"
| "rt_answered _ = None"

lemma notifier_lookups [simp]: "notifier (fold lookup_ips rs s) = notifier s"
  by (induction rs arbitrary: s) (simp_all add: lookup_ips_def loadHetznerIp_def loadResolvedIp_def)

lemma rt_asks_issue: "asks s (doIssueCertificate r s)"
  by (simp add: asks_def doIssueCertificate_def Let_def)

lemma rt_asks_handle: "rt_handle q r = Some f \<Longrightarrow> asks s (f s)"
  by (cases q; cases r)
    (auto simp: asks_def on_records_def on_hetzner_def on_resolved_def on_refreshed_def on_deleted_def
      on_polled_def on_issued_def pollCertificate_def Let_def load_records_def loadWantedIp_def)

interpretation rt_http: http_client rt_step rt_answered
proof unfold_locales
  show "asks s (rt_step s e)" if "rt_answered e = None" for s e
  proof (cases e)
    case (RtButton d i)
    have "asks t (rt_run_handler h b t)" for h b and t :: records_table
      by (cases h) (simp_all add: rt_run_handler_def rt_asks_issue, simp add: deleteRecord_def asks_def)
    then show ?thesis using RtButton by (simp add: button_asks)
  next
    case (RtIssue r)
    then show ?thesis by (auto simp: issueCertificate_def rt_asks_issue split: option.split) (simp add: asks_def)
  qed (use that in \<open>auto simp: asks_def rt_ngOnInit_def loadWantedIp_def load_records_def refreshRecord_def
        delete_op_def openOverview_def poll_due_def Let_def split: prod.split\<close>)
  show "rt_step s e = s \<or> k < length (pending s) \<and> asks (take_reply k s) (rt_step s e)"
    if "rt_answered e = Some k" for s e k
    by (insert that, cases e; simp) (rule reply_asks, erule rt_asks_handle)
qed

text \<open>Its invariant reads nothing of the service.\<close>

interpretation rt_hosted: hosted_client rt_step rt_answered rt_inv
  by unfold_locales (simp add: rt_inv_x_def rt_marks_def lend_def)

subsection \<open>Properties\<close>

text \<open>
  C6. No spinner is left behind: in every run, once no request is in flight, no row of the
  table shows a spinner, neither for its addresses nor for its certificate.
\<close>

theorem table_spinners_settle:
  assumes "pending (run rt_step init_rt es) = []"
  shows "ip_cell (run rt_step init_rt es) r \<noteq> IpSpinner \<and>
    cert_cell (run rt_step init_rt es) r \<noteq> CertSpinner"
  using rt.quiescent_no_marks [OF rt_inv_init assms]
  by (auto simp: rt_marks_def ip_cell_def cert_cell_def split: option.splits)

theorem table_spinners_settle_witness:
  "ip_cell (run rt_step init_rt [RtInit, RtReply 0 (RepAddress None), RtReply 0 (RepRecords None)])
     sample_record \<noteq> IpSpinner"
  using table_spinners_settle [of "[RtInit, RtReply 0 (RepAddress None), RtReply 0 (RepRecords None)]"]
  by (simp add: rt_ngOnInit_def loadWantedIp_def load_records_def on_reply_def request_def take_reply_def
      init_rt_def init_ui_def ui.defs on_records_def remove_at_def)

text \<open>
  C19. The certificate poll ends: in every run the component asks at most twenty times per
  issuance it requested, however the answers come.
\<close>

theorem poll_requests_bounded:
  "length (filter is_poll (sent (run rt_step init_rt es))) \<le>
     20 * length (filter is_issue (sent (run rt_step init_rt es)))"
  using rt.inv_run [OF rt_inv_init, of es] by (simp add: rt_inv_x_def maxAttempts_def)

text \<open>
  Addresses are looked up only for records that are updated dynamically.
\<close>

theorem lookups_only_for_ddns:
  assumes "q \<in> {ReqHetzner r, ReqResolve r}" "q \<in> set (sent (run rt_step init_rt es))"
  shows "rec_purpose r \<in> {Some RECORD_PURPOSE_DDNS, Some RECORD_PURPOSE_BOTH}"
proof -
  have "list_all ddns_lookup_ok (sent (run rt_step init_rt es))"
    using rt.inv_run [OF rt_inv_init, of es] by (simp add: rt_inv_x_def)
  with assms have "recordDoesDdns r" by (auto simp: list_all_iff)
  then show ?thesis by (cases "rec_purpose r") (auto simp: recordDoesDdns_def)
qed

theorem lookups_only_for_ddns_witness:
  "rec_purpose sample_record \<in> {Some RECORD_PURPOSE_DDNS, Some RECORD_PURPOSE_BOTH}"
  by (rule lookups_only_for_ddns [of "ReqHetzner sample_record" _
        "[RtInit, RtReply 1 (RepRecords (Some [sample_record]))]"])
    (simp_all add: rt_ngOnInit_def loadWantedIp_def load_records_def on_reply_def request_def take_reply_def
      init_rt_def init_ui_def ui.defs on_records_def remove_at_def lookup_ips_def recordDoesDdns_def
      sample_record_def loadHetznerIp_def loadResolvedIp_def)

text \<open>
  C20. A record is deleted only after a confirmation, and with the checkbox as it stands then:
  asking sends nothing, cancelling sends nothing, confirming sends one request with the value of
  the checkbox; the dialog is gone in both cases.
\<close>

theorem delete_confirmed_once:
  fixes s :: records_table
  defines "d \<equiv> length (dialogs (notifier s))"
  shows "sent (run rt_step s [RtDelete r, RtCheckbox d b]) = sent s \<and>
    sent (run rt_step s [RtDelete r, RtCheckbox d b, RtButton d 0]) = sent s \<and>
    sent (run rt_step s [RtDelete r, RtCheckbox d b, RtButton d 1]) = sent s @ [ReqDelete r b] \<and>
    sent (run rt_step s [RtDelete r, RtButton d 1]) = sent s @ [ReqDelete r False] \<and>
    dialogs (notifier (run rt_step s [RtDelete r, RtCheckbox d b, RtButton d 0])) = dialogs (notifier s) \<and>
    dialogs (notifier (run rt_step s [RtDelete r, RtCheckbox d b, RtButton d 1])) = dialogs (notifier s)"
  by (simp add: d_def delete_op_def ask_def warning_op_def set_checkbox_def press_button_def handleButton_def
      rt_run_handler_def deleteRecord_def request_def checkbox_value_def close_dialog_def)

text \<open>
  A certificate that is still valid is renewed only after a confirmation; any other one is
  requested at once.
\<close>

theorem issue_confirms_valid:
  fixes s :: records_table
  shows "sent (rt_step s (RtIssue r)) =
      sent s @ (if Option.bind (rec_certificate r) crt_status = Some ''valid'' then [] else [ReqIssue r]) \<and>
    (Option.bind (rec_certificate r) crt_status = Some ''valid'' \<longrightarrow>
      sent (run rt_step s [RtIssue r, RtButton (length (dialogs (notifier s))) 0]) = sent s \<and>
      sent (run rt_step s [RtIssue r, RtButton (length (dialogs (notifier s))) 1]) = sent s @ [ReqIssue r])"
  by (auto simp: issueCertificate_def doIssueCertificate_def press_button_def handleButton_def
      rt_run_handler_def Let_def split: option.splits)

text \<open>
  The table shows the answer that arrives last, not the answer to the last search: with two
  searches in flight whose answers arrive in the other order, it shows the records of the first
  under the term of the second.
\<close>

theorem stale_search_shown:
  "rt_records (run rt_step s [RtSearch a, RtSearch b,
      RtReply (Suc (length (pending s))) (RepRecords (Some rb)),
      RtReply (length (pending s)) (RepRecords (Some ra))]) = ra \<and>
   searchTerm (run rt_step s [RtSearch a, RtSearch b,
      RtReply (Suc (length (pending s))) (RepRecords (Some rb)),
      RtReply (length (pending s)) (RepRecords (Some ra))]) = b"
proof -
  let ?q = "ReqRecords (Some a)"
  let ?s2 = "run rt_step s [RtSearch a, RtSearch b]"
  let ?s3 = "rt_step ?s2 (RtReply (Suc (length (pending s))) (RepRecords (Some rb)))"
  have "pending ?s2 = (pending s @ [?q]) @ [ReqRecords (Some b)]" by (simp add: load_records_def request_def)
  then have s3: "?s3 = on_records (Some rb) (take_reply (Suc (length (pending s))) ?s2)"
    by (simp add: on_reply_def nth_append)
  then have "pending ?s3 = pending s @ ?q # lookups rb"
    by (simp add: on_records_def take_reply_def remove_at_def load_records_def request_def)
  moreover have "searchTerm ?s3 = b"
    using s3 by (simp add: on_records_def take_reply_def load_records_def request_def)
  ultimately show ?thesis
    by (simp add: on_reply_def nth_append on_records_def take_reply_def)
qed

end
