(* ===== verification/Overview.thy ===== *)
theory Overview
  imports RecordsTable JsNumber
begin

text \<open>
  The record overview (\<^verbatim>\<open>pages/overview/record-overview.component.ts\<close>): its signals, its
  requests, and the resolve stream it opens for a record that is updated dynamically. The
  streams it has opened are the streams of \<open>Api\<close>; \<open>ov_stream\<close>, \<open>messagesSub\<close> and
  \<open>connectedSub\<close> point into that list.
\<close>

datatype ov_req =
    OvAddress
  | OvRecords number
  | OvTasks record_msg
  | OvDetails record_msg
  | OvRun task_msg
  | OvDeleteTask int

datatype ov_reply =
    OvRepAddress "address_msg option"
  | OvRepRecords "record_msg list option"
  | OvRepTasks "task_msg list option"
  | OvRepDetails details_msg
  | OvRepResult task_result_msg
  | OvRepOk
  | OvRepErr errval

datatype ov_handler = DeleteTaskConfirmed int

text \<open>Calls of the two form drawers the page holds.\<close>

datatype ov_form = EditRecord record_msg | TaskForm int int "task_msg option"

record overview = "(ov_handler, ov_req) ui" +
  ov_record :: "record_msg option"
  loadingRecord :: bool
  currentIp :: string
  ov_tasks :: "task_msg list"
  certificateDetails :: "details_msg option"
  resolveResults :: "resolution_msg list"
  resolving :: bool
  streams :: "(record_msg, unit) stream list"
  ov_stream :: "nat option"
  messagesSub :: "nat option"
  connectedSub :: "(nat \<times> record_msg) option"
  ov_destroyed :: bool
  forms :: "ov_form list"
  windows :: "string list"

definition init_ov :: overview where
  "init_ov = ui.extend init_ui
     \<lparr>ov_record = None, loadingRecord = True, currentIp = '''', ov_tasks = [],
      certificateDetails = None, resolveResults = [], resolving = False, streams = [],
      ov_stream = None, messagesSub = None, connectedSub = None, ov_destroyed = False,
      forms = [], windows = []\<rparr>"

definition ov_call :: "ov_req \<Rightarrow> 'c call" where
  "ov_call q =
     (case q of
        OvAddress \<Rightarrow> getAddress
      | OvRecords _ \<Rightarrow> getRecords (Some '''')
      | OvTasks _ \<Rightarrow> getTasks
      | OvDetails r \<Rightarrow> getCertificateDetails r
      | OvRun t \<Rightarrow> runTask_call t
      | OvDeleteTask i \<Rightarrow> deleteTask_call i)"

subsection \<open>Labels\<close>

definition triggerLabel :: "int option \<Rightarrow> string" where
  "triggerLabel trigger =
     (if trigger = Some 1 then ''On IP update''
      else if trigger = Some 2 then ''On cert renewal''
      else if trigger = Some 3 then ''On IP & cert''
      else ''Unknown'')"

definition formatDuration :: "int \<Rightarrow> string" where
  "formatDuration durationMs =
     (if durationMs \<le> 0 then ''0s''
      else if durationMs < 1000 then show_int durationMs @ ''ms''
      else thousandths_toFixed1 (nat durationMs) @ ''s'')"

definition statusClass :: "string option \<Rightarrow> string" where
  "statusClass status =
     (if status = Some ''valid'' \<or> status = Some ''success'' then ''status-ok''
      else if status = Some ''failed'' then ''status-err'' else ''status-warn'')"

definition statusIcon :: "string option \<Rightarrow> string" where
  "statusIcon status =
     (if status = Some ''valid'' \<or> status = Some ''success'' then ''verified''
      else if status = Some ''failed'' then ''error'' else ''hourglass_empty'')"

definition ov_recordHasCert :: "record_msg \<Rightarrow> bool" where
  "ov_recordHasCert r =
     (let purpose = nullish (rec_purpose r) RECORD_PURPOSE_UNSPECIFIED
      in purpose = RECORD_PURPOSE_CERT \<or> purpose = RECORD_PURPOSE_BOTH)"

definition ov_recordDoesDdns :: "record_msg \<Rightarrow> bool" where
  "ov_recordDoesDdns r =
     (let purpose = nullish (rec_purpose r) RECORD_PURPOSE_UNSPECIFIED
      in purpose = RECORD_PURPOSE_DDNS \<or> purpose = RECORD_PURPOSE_BOTH)"

definition taskMatchesRecordPurpose :: "task_msg \<Rightarrow> record_msg \<Rightarrow> bool" where
  "taskMatchesRecordPurpose t r =
     (let purpose = nullish (rec_purpose r) RECORD_PURPOSE_UNSPECIFIED
      in if purpose = RECORD_PURPOSE_DDNS then task_triggerOn t = Some TASK_TRIGGER_IP
         else if purpose = RECORD_PURPOSE_CERT then task_triggerOn t = Some TASK_TRIGGER_CERT
         else True)"

subsection \<open>The resolve stream\<close>

definition on_stream ::
  "nat \<Rightarrow> ((record_msg, unit) stream \<Rightarrow> (record_msg, unit) stream) \<Rightarrow> overview \<Rightarrow> overview" where
  "on_stream i f s = (if i < length (streams s) then s\<lparr>streams := (streams s)[i := f (streams s ! i)]\<rparr> else s)"

definition stopResolve :: "overview \<Rightarrow> overview" where
  "stopResolve s =
     (let s1 = (case messagesSub s of None \<Rightarrow> s | Some i \<Rightarrow> on_stream i teardown s);
          s2 = s1\<lparr>messagesSub := None, connectedSub := None\<rparr>;
          s3 = (case ov_stream s2 of None \<Rightarrow> s2 | Some i \<Rightarrow> on_stream i close_stream s2)
      in s3\<lparr>ov_stream := None, resolving := False\<rparr>)"

definition startResolve :: "overview \<Rightarrow> overview" where
  "startResolve s =
     (case ov_record s of
        None \<Rightarrow> s
      | Some r \<Rightarrow>
          if \<not> ov_recordDoesDdns r then s
          else (let s1 = stopResolve s;
                    n = length (streams s1);
                    s2 = s1\<lparr>resolveResults := [], resolving := True, streams := streams s1 @ [new_stream],
                            ov_stream := Some n, connectedSub := Some (n, r)\<rparr>
                in on_stream n connect_socket (s2\<lparr>messagesSub := Some n\<rparr>)))"

text \<open>What the subscribed stream reports: the socket opens, a message, an error, a close, and a
  reconnect, which finalizes the socket and makes a new one.\<close>

definition resolve_opened :: "overview \<Rightarrow> overview" where
  "resolve_opened s =
     (case messagesSub s of
        None \<Rightarrow> s
      | Some i \<Rightarrow>
          (let s1 = on_stream i on_open s
           in case (connectedSub s1, ov_stream s1) of
                (Some (_, r), Some j) \<Rightarrow> on_stream j (send r) s1
              | _ \<Rightarrow> s1))"

definition resolve_message :: "resolution_msg \<Rightarrow> overview \<Rightarrow> overview" where
  "resolve_message msg s =
     (if messagesSub s = None then s
      else s\<lparr>resolveResults := filter (\<lambda>r. res_server r \<noteq> res_server msg) (resolveResults s) @ [msg]\<rparr>)"

definition resolve_error :: "string \<Rightarrow> overview \<Rightarrow> overview" where
  "resolve_error err s =
     (if messagesSub s = None then s
      else stopResolve (toast_error (EStr err) ''Resolve stream error'' s))"

definition resolve_closed :: "overview \<Rightarrow> overview" where
  "resolve_closed s = (case messagesSub s of None \<Rightarrow> s | Some i \<Rightarrow> on_stream i (on_close ()) s)"

definition resolve_reconnect :: "overview \<Rightarrow> overview" where
  "resolve_reconnect s =
     (case messagesSub s of None \<Rightarrow> s | Some i \<Rightarrow> on_stream i (connect_socket \<circ> teardown) s)"

subsection \<open>Operations\<close>

definition loadCurrentIp :: "overview \<Rightarrow> overview" where
  "loadCurrentIp s = request OvAddress s"

definition loadRecord :: "number \<Rightarrow> overview \<Rightarrow> overview" where
  "loadRecord recordId s = request (OvRecords recordId) (s\<lparr>loadingRecord := True\<rparr>)"

definition valid_record_id :: "number \<Rightarrow> bool" where
  "valid_record_id n \<longleftrightarrow> finite_num n \<and> \<not> num_le n (num 0)"

text \<open>\<open>param\<close> is the route's \<open>recordId\<close>; \<open>Number(null)\<close> is zero.\<close>

definition ov_ngOnInit :: "string option \<Rightarrow> overview \<Rightarrow> overview" where
  "ov_ngOnInit param s =
     (let s1 = loadCurrentIp s;
          recordId = (case param of None \<Rightarrow> num 0 | Some p \<Rightarrow> toNumber p)
      in if \<not> valid_record_id recordId
         then toast_error (EStr ''Invalid record id'') ''Overview'' (s1\<lparr>loadingRecord := False\<rparr>)
         else loadRecord recordId s1)"

definition ov_ngOnDestroy :: "overview \<Rightarrow> overview" where
  "ov_ngOnDestroy s = (stopResolve s)\<lparr>ov_destroyed := True\<rparr>"

definition openEditDrawer :: "overview \<Rightarrow> overview" where
  "openEditDrawer s = (case ov_record s of None \<Rightarrow> s | Some r \<Rightarrow> s\<lparr>forms := forms s @ [EditRecord r]\<rparr>)"

definition reloadRecord :: "overview \<Rightarrow> overview" where
  "reloadRecord s = (case ov_record s of None \<Rightarrow> s | Some r \<Rightarrow> loadRecord (num (rec_id r)) s)"

definition loadTasksAndCertificate :: "overview \<Rightarrow> overview" where
  "loadTasksAndCertificate s =
     (case ov_record s of None \<Rightarrow> s | Some r \<Rightarrow> request (OvDetails r) (request (OvTasks r) s))"

definition on_record_list :: "number \<Rightarrow> record_msg list option \<Rightarrow> overview \<Rightarrow> overview" where
  "on_record_list recordId res s =
     (let found = List.find (\<lambda>r. num (rec_id r) = recordId) (nullish res []);
          s1 = s\<lparr>ov_record := found, loadingRecord := False\<rparr>
      in case found of
           None \<Rightarrow> s1
         | Some r \<Rightarrow> (let s2 = loadTasksAndCertificate s1
                      in if ov_recordDoesDdns r then startResolve s2 else s2))"

definition on_tasks :: "record_msg \<Rightarrow> task_msg list option \<Rightarrow> overview \<Rightarrow> overview" where
  "on_tasks r res s =
     s\<lparr>ov_tasks := filter (\<lambda>t. task_recordId t = rec_id r \<and> taskMatchesRecordPurpose t r) (nullish res [])\<rparr>"

definition addTask :: "overview \<Rightarrow> overview" where
  "addTask s =
     (case ov_record s of
        None \<Rightarrow> s
      | Some r \<Rightarrow> s\<lparr>forms := forms s @
          [TaskForm (rec_id r) (nullish (rec_purpose r) RECORD_PURPOSE_UNSPECIFIED) None]\<rparr>)"

definition editTask :: "task_msg \<Rightarrow> overview \<Rightarrow> overview" where
  "editTask t s =
     (case ov_record s of
        None \<Rightarrow> s
      | Some r \<Rightarrow> s\<lparr>forms := forms s @
          [TaskForm (rec_id r) (nullish (rec_purpose r) RECORD_PURPOSE_UNSPECIFIED) (Some t)]\<rparr>)"

definition runTask :: "task_msg \<Rightarrow> overview \<Rightarrow> overview" where
  "runTask t s = request (OvRun t) s"

definition on_run :: "task_result_msg \<Rightarrow> overview \<Rightarrow> overview" where
  "on_run res s =
     loadTasksAndCertificate
       (if tres_error res \<noteq> ''''
        then toast_error (EStr (tres_error res))
               (''Run failed ('' @ or_str (tres_status res) ''no response'' @ '')'') s
        else toast (''Run succeeded: '' @ tres_status res) s)"

definition removeTask :: "task_msg \<Rightarrow> overview \<Rightarrow> overview" where
  "removeTask t s =
     ask \<lparr>warn_title = ''Delete task'',
          warn_message = ''Delete task \"'' @ task_name t @ ''\"? This cannot be undone.'',
          warn_buttons =
            [\<lparr>btn_text = ''Cancel'', btn_color = ''accent'', btn_handler = None\<rparr>,
             \<lparr>btn_text = ''Delete'', btn_color = ''warn'', btn_handler = Some (DeleteTaskConfirmed (task_id t))\<rparr>],
          warn_checkbox = None\<rparr> s"

definition deleteTask :: "int \<Rightarrow> overview \<Rightarrow> overview" where
  "deleteTask taskId s = request (OvDeleteTask taskId) s"

definition ov_run_handler :: "ov_handler \<Rightarrow> bool \<Rightarrow> overview \<Rightarrow> overview" where
  "ov_run_handler h checked = (case h of DeleteTaskConfirmed i \<Rightarrow> deleteTask i)"

definition on_task_deleted :: "overview \<Rightarrow> overview" where
  "on_task_deleted s = loadTasksAndCertificate (toast ''Task deleted.'' s)"

definition download :: "string \<Rightarrow> string \<Rightarrow> overview \<Rightarrow> overview" where
  "download baseURL artifact s =
     (case ov_record s of
        None \<Rightarrow> s
      | Some r \<Rightarrow> s\<lparr>windows := windows s @ [getCertificateDownloadUrl baseURL (rec_id r) artifact]\<rparr>)"

fun ov_handle :: "ov_req \<Rightarrow> ov_reply \<Rightarrow> (overview \<Rightarrow> overview) option" where
  "ov_handle OvAddress (OvRepAddress addr) = Some (\<lambda>s. s\<lparr>currentIp := pick_ip addr\<rparr>)"
| "ov_handle OvAddress (OvRepErr e) = Some (\<lambda>s. s\<lparr>currentIp := ''''\<rparr>)"
| "ov_handle (OvRecords n) (OvRepRecords res) = Some (on_record_list n res)"
| "ov_handle (OvRecords n) (OvRepErr e) =
     Some (\<lambda>s. toast_error e ''Failed to load record'' (s\<lparr>loadingRecord := False\<rparr>))"
| "ov_handle (OvTasks r) (OvRepTasks res) = Some (on_tasks r res)"
| "ov_handle (OvTasks r) (OvRepErr e) = Some (toast_error e ''Failed to load tasks'')"
| "ov_handle (OvDetails r) (OvRepDetails d) = Some (\<lambda>s. s\<lparr>certificateDetails := Some d\<rparr>)"
| "ov_handle (OvDetails r) (OvRepErr e) = Some (toast_error e ''Failed to load certificate details'')"
| "ov_handle (OvRun t) (OvRepResult res) = Some (on_run res)"
| "ov_handle (OvRun t) (OvRepErr e) = Some (toast_error e ''Run failed'')"
| "ov_handle (OvDeleteTask i) OvRepOk = Some on_task_deleted"
| "ov_handle (OvDeleteTask i) (OvRepErr e) = Some (toast_error e ''Delete failed'')"
| "ov_handle _ _ = None"

datatype ov_event =
    OvInit "string option"
  | OvDestroy
  | OvEdit
  | OvRecordSaved
  | OvTaskSaved
  | OvAddTask
  | OvEditTask task_msg
  | OvRunTask task_msg
  | OvRemoveTask task_msg
  | OvButton nat nat
  | OvDownload string string
  | OvReply nat ov_reply
  | OvOpened
  | OvMessage resolution_msg
  | OvError string
  | OvClosed
  | OvReconnect

text \<open>The user reaches the page's controls only while the page is there; replies and the stream
  come whenever they come.\<close>

definition while_alive :: "(overview \<Rightarrow> overview) \<Rightarrow> overview \<Rightarrow> overview" where
  "while_alive f s = (if ov_destroyed s then s else f s)"

fun ov_step :: "overview \<Rightarrow> ov_event \<Rightarrow> overview" where
  "ov_step s (OvInit param) = while_alive (ov_ngOnInit param) s"
| "ov_step s OvDestroy = while_alive ov_ngOnDestroy s"
| "ov_step s OvEdit = while_alive openEditDrawer s"
| "ov_step s OvRecordSaved = while_alive reloadRecord s"
| "ov_step s OvTaskSaved = while_alive loadTasksAndCertificate s"
| "ov_step s OvAddTask = while_alive addTask s"
| "ov_step s (OvEditTask t) = while_alive (editTask t) s"
| "ov_step s (OvRunTask t) = while_alive (runTask t) s"
| "ov_step s (OvRemoveTask t) = while_alive (removeTask t) s"
| "ov_step s (OvButton d i) = press_button ov_run_handler d i s"
| "ov_step s (OvDownload b a) = while_alive (download b a) s"
| "ov_step s (OvReply k r) = on_reply ov_handle k r s"
| "ov_step s OvOpened = resolve_opened s"
| "ov_step s (OvMessage m) = resolve_message m s"
| "ov_step s (OvError e) = resolve_error e s"
| "ov_step s OvClosed = resolve_closed s"
| "ov_step s OvReconnect = resolve_reconnect s"

subsection \<open>Invariant\<close>

lemma on_stream_simps [simp]:
  "length (streams (on_stream i f s)) = length (streams s)"
  "ov_stream (on_stream i f s) = ov_stream s" "messagesSub (on_stream i f s) = messagesSub s"
  "connectedSub (on_stream i f s) = connectedSub s" "resolving (on_stream i f s) = resolving s"
  "ov_destroyed (on_stream i f s) = ov_destroyed s" "resolveResults (on_stream i f s) = resolveResults s"
  "pending (on_stream i f s) = pending s" "ov_record (on_stream i f s) = ov_record s"
  "loadingRecord (on_stream i f s) = loadingRecord s" "ov_tasks (on_stream i f s) = ov_tasks s"
  "sent (on_stream i f s) = sent s"
  by (simp_all add: on_stream_def)

lemma streams_on_stream:
  "streams (on_stream i f s) =
     (if i < length (streams s) then (streams s)[i := f (streams s ! i)] else streams s)"
  by (simp add: on_stream_def)

text \<open>A stream other than the page's own is shut.\<close>

definition ov_inv :: "overview \<Rightarrow> bool" where
  "ov_inv s \<longleftrightarrow>
     messagesSub s = ov_stream s \<and> map_option fst (connectedSub s) = ov_stream s \<and>
     (\<forall>i. ov_stream s = Some i \<longrightarrow> i < length (streams s) \<and> \<not> completed (kill (streams s ! i))) \<and>
     (\<forall>i < length (streams s). ov_stream s \<noteq> Some i \<longrightarrow> shut (streams s ! i)) \<and>
     (resolving s \<longleftrightarrow> ov_stream s \<noteq> None) \<and>
     distinct (map res_server (resolveResults s))"

lemma ov_inv_cong:
  assumes "messagesSub t = messagesSub s" "ov_stream t = ov_stream s" "connectedSub t = connectedSub s"
    "streams t = streams s" "resolving t = resolving s" "resolveResults t = resolveResults s"
  shows "ov_inv t = ov_inv s"
  using assms by (simp add: ov_inv_def)

lemma ov_inv_ui [simp]:
  "ov_inv (toast m s) = ov_inv s" "ov_inv (toast_error e t s) = ov_inv s" "ov_inv (ask w s) = ov_inv s"
  "ov_inv (close_dialog d s) = ov_inv s" "ov_inv (request q s) = ov_inv s" "ov_inv (take_reply k s) = ov_inv s"
  by (rule ov_inv_cong; simp add: ui_defs)+

lemma ov_inv_fields [simp]:
  "ov_inv (s\<lparr>ov_record := a\<rparr>) = ov_inv s" "ov_inv (s\<lparr>loadingRecord := b\<rparr>) = ov_inv s"
  "ov_inv (s\<lparr>currentIp := c\<rparr>) = ov_inv s" "ov_inv (s\<lparr>ov_tasks := d\<rparr>) = ov_inv s"
  "ov_inv (s\<lparr>certificateDetails := e\<rparr>) = ov_inv s" "ov_inv (s\<lparr>ov_destroyed := f\<rparr>) = ov_inv s"
  "ov_inv (s\<lparr>forms := g\<rparr>) = ov_inv s" "ov_inv (s\<lparr>windows := h\<rparr>) = ov_inv s"
  by (rule ov_inv_cong; simp)+

lemma ov_inv_init: "ov_inv init_ov"
  by (simp add: ov_inv_def init_ov_def ui.defs init_ui_def)

lemma ov_inv_stop:
  assumes "ov_inv s"
  shows "ov_inv (stopResolve s)" "ov_stream (stopResolve s) = None"
    "length (streams (stopResolve s)) = length (streams s)"
  using assms
  by (auto simp: stopResolve_def Let_def ov_inv_def streams_on_stream nth_list_update shut_closed
      split: option.splits)

lemma stop_keeps [simp]:
  "ov_record (stopResolve s) = ov_record s" "pending (stopResolve s) = pending s"
  "ov_destroyed (stopResolve s) = ov_destroyed s" "sent (stopResolve s) = sent s"
  "resolveResults (stopResolve s) = resolveResults s" "ov_tasks (stopResolve s) = ov_tasks s"
  by (auto simp: stopResolve_def Let_def split: option.splits)

lemma ov_inv_start: "ov_inv s \<Longrightarrow> ov_inv (startResolve s)"
  using ov_inv_stop [of s]
  by (auto simp: startResolve_def Let_def ov_inv_def streams_on_stream nth_list_update nth_append
      connect_socket_def new_stream_def new_subject_def shut_def less_Suc_eq split: option.splits)

lemma ov_inv_stream:
  assumes "ov_inv s" "ov_stream s = Some i" "\<And>st. completed (kill (f st)) = completed (kill st)"
  shows "ov_inv (on_stream i f s)"
  using assms by (auto simp: ov_inv_def streams_on_stream nth_list_update)

lemma ov_inv_opened: "ov_inv s \<Longrightarrow> ov_inv (resolve_opened s)"
  by (auto simp: resolve_opened_def ov_inv_def on_open_def send_def streams_on_stream nth_list_update
     split: option.splits if_splits)

lemma ov_inv_message: "ov_inv s \<Longrightarrow> ov_inv (resolve_message m s)"
  by (auto simp: resolve_message_def ov_inv_def distinct_map_filter)

lemma ov_inv_error: "ov_inv s \<Longrightarrow> ov_inv (resolve_error e s)"
  by (simp add: resolve_error_def ov_inv_stop)

lemma ov_inv_closed: "ov_inv s \<Longrightarrow> ov_inv (resolve_closed s)"
  by (auto simp: resolve_closed_def on_close_def ov_inv_def streams_on_stream nth_list_update
     split: option.splits)

lemma ov_inv_reconnect: "ov_inv s \<Longrightarrow> ov_inv (resolve_reconnect s)"
  by (auto simp: resolve_reconnect_def connect_socket_def ov_inv_def streams_on_stream nth_list_update
     split: option.splits)

lemma ov_inv_tasks: "ov_inv s \<Longrightarrow> ov_inv (loadTasksAndCertificate s)"
  by (simp add: loadTasksAndCertificate_def split: option.splits)

lemma ov_inv_handle: "ov_inv s \<Longrightarrow> ov_handle q r = Some f \<Longrightarrow> ov_inv (f (take_reply k s))"
  by (cases q; cases r)
    (auto simp: on_record_list_def on_tasks_def on_run_def on_task_deleted_def Let_def ov_inv_start ov_inv_tasks
      split: option.splits)

lemma ov_inv_step: "ov_inv s \<Longrightarrow> ov_inv (ov_step s e)"
proof (cases e)
  case (OvReply k r)
  assume "ov_inv s"
  then show ?thesis using OvReply by (auto intro: on_reply_cases ov_inv_handle)
next
  case (OvButton d i)
  assume "ov_inv s"
  then show ?thesis using OvButton
    by (auto intro!: press_button_cases [where P = ov_inv] simp: ov_run_handler_def deleteTask_def
        split: ov_handler.splits)
qed (auto simp: while_alive_def ov_ngOnInit_def ov_ngOnDestroy_def openEditDrawer_def reloadRecord_def
      addTask_def editTask_def runTask_def removeTask_def download_def loadCurrentIp_def loadRecord_def
      ov_inv_stop ov_inv_tasks ov_inv_opened ov_inv_message ov_inv_error ov_inv_closed ov_inv_reconnect
      Let_def split: option.splits)

interpretation ov: event_system ov_step ov_inv
  by unfold_locales (rule ov_inv_step)

subsection \<open>After the page is gone\<close>

text \<open>Once it is destroyed with no record request in flight, the page opens no stream again.\<close>

definition is_record_request :: "ov_req \<Rightarrow> bool" where
  "is_record_request q = (case q of OvRecords _ \<Rightarrow> True | _ \<Rightarrow> False)"

definition ov_quiet :: "overview \<Rightarrow> bool" where
  "ov_quiet s \<longleftrightarrow> ov_inv s \<and> ov_destroyed s \<and> ov_stream s = None \<and> list_all (\<lambda>q. \<not> is_record_request q) (pending s)"

lemma ov_quiet_cong:
  assumes "ov_inv t = ov_inv s" "ov_destroyed t = ov_destroyed s" "ov_stream t = ov_stream s" "pending t = pending s"
  shows "ov_quiet t = ov_quiet s"
  using assms by (simp add: ov_quiet_def)

lemma ov_fields_ui [simp]:
  "ov_destroyed (toast m s) = ov_destroyed s" "ov_stream (toast m s) = ov_stream s" "ov_record (toast m s) = ov_record s"
  "ov_destroyed (toast_error e t s) = ov_destroyed s" "ov_stream (toast_error e t s) = ov_stream s" "ov_record (toast_error e t s) = ov_record s"
  "ov_destroyed (ask w s) = ov_destroyed s" "ov_stream (ask w s) = ov_stream s" "ov_record (ask w s) = ov_record s"
  "ov_destroyed (request q s) = ov_destroyed s" "ov_stream (request q s) = ov_stream s" "ov_record (request q s) = ov_record s"
  "ov_destroyed (take_reply k s) = ov_destroyed s" "ov_stream (take_reply k s) = ov_stream s" "ov_record (take_reply k s) = ov_record s"
  "ov_destroyed (close_dialog d s) = ov_destroyed s" "ov_stream (close_dialog d s) = ov_stream s" "ov_record (close_dialog d s) = ov_record s"
  by (simp_all add: ui_defs)

lemma ov_quiet_fields [simp]:
  "ov_quiet (s\<lparr>currentIp := c\<rparr>) = ov_quiet s" "ov_quiet (s\<lparr>ov_tasks := d\<rparr>) = ov_quiet s"
  "ov_quiet (s\<lparr>certificateDetails := e\<rparr>) = ov_quiet s"
  by (rule ov_quiet_cong; simp)+

lemma ov_quiet_ui [simp]:
  "ov_quiet (toast m s) = ov_quiet s" "ov_quiet (toast_error e t s) = ov_quiet s"
  "ov_quiet (close_dialog d s) = ov_quiet s"
  by (rule ov_quiet_cong; simp)+

lemma ov_quiet_take: "ov_quiet s \<Longrightarrow> ov_quiet (take_reply k s)"
  using set_remove_at [of k "pending s"] by (auto simp: ov_quiet_def list_all_iff)

lemma ov_quiet_request: "ov_quiet s \<Longrightarrow> \<not> is_record_request q \<Longrightarrow> ov_quiet (request q s)"
  by (simp add: ov_quiet_def)

lemma ov_quiet_tasks: "ov_quiet s \<Longrightarrow> ov_quiet (loadTasksAndCertificate s)"
  by (auto simp: loadTasksAndCertificate_def ov_quiet_request is_record_request_def split: option.splits)

lemma ov_quiet_handle:
  assumes "ov_quiet s" "\<not> is_record_request q" "ov_handle q r = Some f"
  shows "ov_quiet (f (take_reply k s))"
proof -
  have "ov_quiet (take_reply k s)" using assms(1) by (rule ov_quiet_take)
  then show ?thesis
    using assms(2,3)
    by (cases q; cases r)
      (auto simp: is_record_request_def on_tasks_def on_run_def on_task_deleted_def Let_def ov_quiet_tasks)
qed

lemma ov_quiet_step: "ov_quiet s \<Longrightarrow> ov_quiet (ov_step s e)"
proof (cases e)
  case (OvReply k r)
  assume q: "ov_quiet s"
  then have "\<not> is_record_request (pending s ! k)" if "k < length (pending s)"
    using that by (auto simp: ov_quiet_def list_all_length)
  with q show ?thesis using OvReply by (auto intro: on_reply_cases ov_quiet_handle)
next
  case (OvButton d i)
  assume "ov_quiet s"
  then show ?thesis using OvButton
    by (auto intro!: press_button_cases [where P = ov_quiet] ov_quiet_request
        simp: ov_run_handler_def deleteTask_def is_record_request_def split: ov_handler.splits)
qed (auto simp: ov_quiet_def ov_inv_def while_alive_def resolve_opened_def resolve_message_def
    resolve_error_def resolve_closed_def resolve_reconnect_def)

interpretation ov_gone: event_system ov_step ov_quiet
  by unfold_locales (rule ov_quiet_step)

lemma ov_quiet_all_shut: "ov_quiet s \<Longrightarrow> list_all shut (streams s)"
  by (auto simp: ov_quiet_def ov_inv_def list_all_length)

lemma ov_reachable_inv: "ov_inv (run ov_step init_ov es)"
  by (rule ov.inv_run [OF ov_inv_init])

lemma ov_alive_loaded:
  assumes "0 < i"
  shows "run ov_step init_ov [OvInit (Some (show_int i)), OvReply 1 (OvRepRecords res)] =
    on_record_list (num i) res (take_reply 1 (loadRecord (num i) (loadCurrentIp init_ov)))"
proof -
  have "toNumber (show_int i) = num i" using assms by (simp add: show_int_def)
  moreover have "valid_record_id (num i)"
    using assms by (simp add: valid_record_id_def num_le_num)
  ultimately show ?thesis
    by (simp add: while_alive_def ov_ngOnInit_def Let_def on_reply_def loadRecord_def loadCurrentIp_def
        request_def init_ov_def init_ui_def ui.defs)
qed

lemma record_list_keeps [simp]:
  "ov_record (loadTasksAndCertificate s) = ov_record s"
  "ov_record (startResolve s) = ov_record s"
  by (auto simp: loadTasksAndCertificate_def startResolve_def Let_def split: option.splits)

subsection \<open>The stream stays\<close>

lemma destroyed_tasks [simp]: "ov_destroyed (loadTasksAndCertificate s) = ov_destroyed s"
  by (simp add: loadTasksAndCertificate_def split: option.split)

lemma destroyed_start [simp]: "ov_destroyed (startResolve s) = ov_destroyed s"
  by (simp add: startResolve_def Let_def split: option.split)

lemma destroyed_handle: "ov_handle q r = Some f \<Longrightarrow> ov_destroyed (f s) = ov_destroyed s"
  by (erule ov_handle.elims; hypsubst?)
    (simp_all add: on_record_list_def on_tasks_def on_run_def on_task_deleted_def Let_def split: option.split)

lemma destroyed_step: "e \<noteq> OvDestroy \<Longrightarrow> ov_destroyed (ov_step s e) = ov_destroyed s"
proof (cases e)
  case (OvReply k r)
  have "ov_destroyed (on_reply ov_handle k r s) = ov_destroyed s"
    by (rule on_reply_cases) (simp_all add: destroyed_handle)
  then show ?thesis using OvReply by simp
next
  case (OvButton d i)
  have h: "ov_destroyed (ov_run_handler h b t) = ov_destroyed t" for h b t
    by (cases h) (simp add: ov_run_handler_def deleteTask_def)
  have "ov_destroyed (press_button ov_run_handler d i s) = ov_destroyed s"
    by (rule press_button_cases) (simp_all add: h)
  then show ?thesis using OvButton by simp
qed (auto simp: while_alive_def ov_ngOnInit_def openEditDrawer_def reloadRecord_def addTask_def editTask_def
      runTask_def removeTask_def download_def loadCurrentIp_def loadRecord_def resolve_opened_def resolve_message_def
      resolve_error_def resolve_closed_def resolve_reconnect_def Let_def split: option.split)

text \<open>A destroyed page stays so: \<open>ngOnDestroy\<close> does not come again.\<close>

lemma destroyed_stays: "ov_destroyed s \<Longrightarrow> ov_destroyed (ov_step s e)"
  using destroyed_step [of e s] by (cases "e = OvDestroy") (simp_all add: while_alive_def)

text \<open>The page has a stream, with a socket.\<close>

definition streaming :: "overview \<Rightarrow> bool" where
  "streaming s \<longleftrightarrow> ov_inv s \<and> (\<exists>j. ov_stream s = Some j \<and> currentWs (streams s ! j) \<noteq> None)"

lemma streaming_cong:
  assumes "ov_inv t = ov_inv s" "ov_stream t = ov_stream s" "streams t = streams s"
  shows "streaming t = streaming s"
  using assms by (simp add: streaming_def)

lemma streams_ui [simp]:
  "streams (toast m s) = streams s" "streams (toast_error e x s) = streams s" "streams (ask w s) = streams s"
  "streams (request q s) = streams s" "streams (take_reply k s) = streams s" "streams (close_dialog d s) = streams s"
  by (simp_all add: ui_defs)

lemma streaming_keeps [simp]:
  "streaming (toast m s) = streaming s" "streaming (toast_error e x s) = streaming s"
  "streaming (ask w s) = streaming s" "streaming (request q s) = streaming s"
  "streaming (take_reply k s) = streaming s" "streaming (close_dialog d s) = streaming s"
  "streaming (s\<lparr>ov_record := a\<rparr>) = streaming s" "streaming (s\<lparr>loadingRecord := b\<rparr>) = streaming s"
  "streaming (s\<lparr>ov_record := a, loadingRecord := b\<rparr>) = streaming s"
  "streaming (s\<lparr>currentIp := c\<rparr>) = streaming s" "streaming (s\<lparr>ov_tasks := ts\<rparr>) = streaming s"
  "streaming (s\<lparr>certificateDetails := d'\<rparr>) = streaming s" "streaming (s\<lparr>forms := g\<rparr>) = streaming s"
  "streaming (s\<lparr>windows := h\<rparr>) = streaming s"
  by (rule streaming_cong; simp)+

lemma streaming_tasks [simp]: "streaming (loadTasksAndCertificate s) = streaming s"
  by (simp add: loadTasksAndCertificate_def split: option.split)

lemma streaming_start:
  assumes "ov_inv s" "ov_record s = Some r" "ov_recordDoesDdns r"
  shows "streaming (startResolve s)"
  using ov_inv_start [OF assms(1)] assms(2,3)
  by (simp add: streaming_def startResolve_def Let_def streams_on_stream connect_socket_def)

lemma streaming_started: "streaming s \<Longrightarrow> streaming (startResolve s)"
proof -
  assume s: "streaming s"
  then have "ov_inv s" by (simp add: streaming_def)
  with s streaming_start show ?thesis
    by (cases "ov_record s") (auto simp: startResolve_def split: if_splits)
qed

lemma streaming_events:
  assumes "streaming s"
  shows "streaming (resolve_opened s)" "streaming (resolve_message m s)" "streaming (resolve_closed s)"
    "streaming (resolve_reconnect s)"
proof -
  obtain j where j: "ov_inv s" "ov_stream s = Some j" "messagesSub s = Some j" "j < length (streams s)"
    "currentWs (streams s ! j) \<noteq> None"
    using assms by (auto simp: streaming_def ov_inv_def)
  show "streaming (resolve_opened s)" "streaming (resolve_message m s)" "streaming (resolve_closed s)"
    "streaming (resolve_reconnect s)"
    using j ov_inv_opened [OF j(1)] ov_inv_message [OF j(1)] ov_inv_closed [OF j(1)] ov_inv_reconnect [OF j(1)]
    by (simp_all add: streaming_def resolve_opened_def resolve_message_def resolve_closed_def resolve_reconnect_def
        streams_on_stream on_open_def on_close_def send_def connect_socket_def Let_def split: option.split)
qed

lemma streaming_handle:
  "ov_handle q r = Some f \<Longrightarrow> streaming s \<Longrightarrow> streaming (f (take_reply k s))"
  by (cases q; cases r)
    (auto simp: on_record_list_def on_tasks_def on_run_def on_task_deleted_def Let_def streaming_started split: option.split)

definition ends_stream :: "ov_event \<Rightarrow> bool" where
  "ends_stream e \<longleftrightarrow> (case e of OvError x \<Rightarrow> True | OvDestroy \<Rightarrow> True | _ \<Rightarrow> False)"

lemma streaming_step:
  assumes "streaming s" "\<not> ends_stream e \<or> e = OvDestroy \<and> ov_destroyed s"
  shows "streaming (ov_step s e)"
proof (cases e)
  case (OvReply k r)
  have "streaming (on_reply ov_handle k r s)"
    by (rule on_reply_cases) (use assms(1) streaming_handle in auto)
  then show ?thesis using OvReply by simp
next
  case (OvButton d i)
  have h: "streaming (ov_run_handler h b t) = streaming t" for h b t
    by (cases h) (simp add: ov_run_handler_def deleteTask_def)
  have "streaming (press_button ov_run_handler d i s)"
    by (rule press_button_cases) (simp_all add: h assms(1))
  then show ?thesis using OvButton by simp
qed (use assms streaming_events in \<open>auto simp: ends_stream_def while_alive_def ov_ngOnInit_def openEditDrawer_def
      reloadRecord_def addTask_def editTask_def runTask_def removeTask_def download_def loadCurrentIp_def
      loadRecord_def Let_def split: option.split\<close>)

interpretation streaming: guarded_system ov_step streaming "\<lambda>e. \<not> ends_stream e"
  by unfold_locales (simp add: streaming_step)

definition is_stream_error :: "ov_event \<Rightarrow> bool" where
  "is_stream_error e \<longleftrightarrow> (case e of OvError x \<Rightarrow> True | _ \<Rightarrow> False)"

interpretation left_streaming: guarded_system ov_step "\<lambda>s. ov_destroyed s \<and> streaming s" "\<lambda>e. \<not> is_stream_error e"
proof
  fix s e assume "ov_destroyed s \<and> streaming s" "\<not> is_stream_error e"
  then show "ov_destroyed (ov_step s e) \<and> streaming (ov_step s e)"
    using destroyed_stays [of s e] streaming_step [of s e]
    by (cases e) (auto simp: ends_stream_def is_stream_error_def)
qed

text \<open>In every run a current stream has a socket.\<close>

definition socket_kept :: "overview \<Rightarrow> bool" where
  "socket_kept s \<longleftrightarrow> ov_inv s \<and> (ov_stream s \<noteq> None \<longrightarrow> streaming s)"

lemma socket_kept_cong:
  assumes "ov_inv t = ov_inv s" "ov_stream t = ov_stream s" "streams t = streams s"
  shows "socket_kept t = socket_kept s"
  using assms streaming_cong [OF assms] by (simp add: socket_kept_def)

lemma socket_kept_keeps [simp]:
  "socket_kept (toast m s) = socket_kept s" "socket_kept (toast_error e x s) = socket_kept s"
  "socket_kept (ask w s) = socket_kept s" "socket_kept (request q s) = socket_kept s"
  "socket_kept (take_reply k s) = socket_kept s" "socket_kept (close_dialog d s) = socket_kept s"
  "socket_kept (s\<lparr>ov_record := a\<rparr>) = socket_kept s" "socket_kept (s\<lparr>loadingRecord := b\<rparr>) = socket_kept s"
  "socket_kept (s\<lparr>ov_record := a, loadingRecord := b\<rparr>) = socket_kept s"
  "socket_kept (s\<lparr>currentIp := c\<rparr>) = socket_kept s" "socket_kept (s\<lparr>ov_tasks := ts\<rparr>) = socket_kept s"
  "socket_kept (s\<lparr>certificateDetails := d'\<rparr>) = socket_kept s" "socket_kept (s\<lparr>forms := g\<rparr>) = socket_kept s"
  "socket_kept (s\<lparr>windows := h\<rparr>) = socket_kept s" "socket_kept (s\<lparr>ov_destroyed := b\<rparr>) = socket_kept s"
  by (rule socket_kept_cong; simp)+

lemma socket_kept_tasks [simp]: "socket_kept (loadTasksAndCertificate s) = socket_kept s"
  by (simp add: loadTasksAndCertificate_def split: option.split)

lemma socket_kept_stop: "socket_kept s \<Longrightarrow> socket_kept (stopResolve s)"
  by (simp add: socket_kept_def ov_inv_stop)

lemma socket_kept_start: "socket_kept s \<Longrightarrow> socket_kept (startResolve s)"
proof (cases "\<exists>r. ov_record s = Some r \<and> ov_recordDoesDdns r")
  case True
  assume "socket_kept s"
  with True streaming_start show ?thesis by (auto simp: socket_kept_def ov_inv_start)
next
  case False
  assume "socket_kept s"
  moreover from False have "startResolve s = s" by (auto simp: startResolve_def split: option.split)
  ultimately show ?thesis by simp
qed

lemma socket_kept_events:
  assumes "socket_kept s"
  shows "socket_kept (resolve_opened s)" "socket_kept (resolve_message m s)" "socket_kept (resolve_closed s)"
    "socket_kept (resolve_reconnect s)" "socket_kept (resolve_error e s)"
proof -
  have none: "messagesSub s = None" if "\<not> streaming s" using assms that by (auto simp: socket_kept_def ov_inv_def)
  have live: "socket_kept t" if "streaming t" for t using that by (simp add: socket_kept_def) (simp add: streaming_def)
  show "socket_kept (resolve_opened s)" "socket_kept (resolve_message m s)" "socket_kept (resolve_closed s)"
    "socket_kept (resolve_reconnect s)"
    using assms live streaming_events [of s] none
    by (cases "streaming s"; simp add: resolve_opened_def resolve_message_def resolve_closed_def resolve_reconnect_def)+
  show "socket_kept (resolve_error e s)" using assms by (simp add: resolve_error_def socket_kept_stop)
qed

lemma socket_kept_handle: "ov_handle q r = Some f \<Longrightarrow> socket_kept s \<Longrightarrow> socket_kept (f (take_reply k s))"
  by (cases q; cases r)
    (auto simp: on_record_list_def on_tasks_def on_run_def on_task_deleted_def Let_def socket_kept_start split: option.split)

lemma socket_kept_step:
  assumes "socket_kept s"
  shows "socket_kept (ov_step s e)"
proof (cases e)
  case (OvReply k r)
  have "socket_kept (on_reply ov_handle k r s)"
    by (rule on_reply_cases) (use assms socket_kept_handle in auto)
  then show ?thesis using OvReply by simp
next
  case (OvButton d i)
  have h: "socket_kept (ov_run_handler h b t) = socket_kept t" for h b t
    by (cases h) (simp add: ov_run_handler_def deleteTask_def)
  have "socket_kept (press_button ov_run_handler d i s)"
    by (rule press_button_cases) (simp_all add: h assms)
  then show ?thesis using OvButton by simp
qed (use assms socket_kept_events in \<open>auto simp: while_alive_def ov_ngOnInit_def ov_ngOnDestroy_def openEditDrawer_def
      reloadRecord_def addTask_def editTask_def runTask_def removeTask_def download_def loadCurrentIp_def
      loadRecord_def Let_def socket_kept_stop split: option.split\<close>)

interpretation sockets: event_system ov_step socket_kept
  by unfold_locales (rule socket_kept_step)

lemma reachable_socket: "ov_stream (run ov_step init_ov es) = Some j \<Longrightarrow> streaming (run ov_step init_ov es)"
proof -
  have "socket_kept init_ov" by (simp add: socket_kept_def ov_inv_init) (simp add: init_ov_def ui.defs)
  from sockets.inv_run [OF this] show "ov_stream (run ov_step init_ov es) = Some j \<Longrightarrow> ?thesis" by (simp add: socket_kept_def)
qed

lemma streaming_shows:
  "streaming s \<Longrightarrow> resolving s \<and> (\<exists>j. ov_stream s = Some j \<and> \<not> shut (streams s ! j) \<and> currentWs (streams s ! j) \<noteq> None)"
  by (auto simp: streaming_def ov_inv_def shut_def)

lemma record_answered:
  assumes "k < length (pending s)" "pending s ! k = OvRecords n"
  shows "ov_step s (OvReply k (OvRepRecords res)) = on_record_list n res (take_reply k s)"
  using assms by (simp add: on_reply_def)

subsection \<open>The page as a client of the services\<close>

fun ov_answered :: "ov_event \<Rightarrow> nat option" where
  "ov_answered (OvReply k r) = Some k"
| "ov_answered _ = None"

lemma notifier_streams [simp]:
  "notifier (on_stream i f s) = notifier s" "notifier (stopResolve s) = notifier s"
  "notifier (startResolve s) = notifier s" "sent (startResolve s) = sent s" "pending (startResolve s) = pending s"
  by (simp_all add: on_stream_def stopResolve_def startResolve_def Let_def split: option.split)

lemma ov_asks_tasks: "asks s t \<Longrightarrow> asks s (loadTasksAndCertificate t)"
  by (auto simp: asks_def loadTasksAndCertificate_def split: option.split)

lemma ov_asks_start: "asks s t \<Longrightarrow> asks s (startResolve t)"
  by (simp add: asks_def)

lemma ov_asks_handle: "ov_handle q r = Some f \<Longrightarrow> asks s (f s)"
  by (cases q; cases r)
    (auto simp: on_record_list_def on_run_def on_task_deleted_def Let_def
      intro!: ov_asks_tasks ov_asks_start split: option.split,
     auto simp: asks_def on_tasks_def)

interpretation ov_http: http_client ov_step ov_answered
proof unfold_locales
  show "asks s (ov_step s e)" if "ov_answered e = None" for s e
  proof (cases e)
    case (OvButton d i)
    have "asks t (ov_run_handler h b t)" for h b and t :: overview
      by (cases h) (simp add: ov_run_handler_def deleteTask_def asks_def)
    then show ?thesis using OvButton by (simp add: button_asks)
  next
    case OvTaskSaved
    then show ?thesis by (simp add: while_alive_def ov_asks_tasks)
  qed (use that in \<open>auto simp: asks_def while_alive_def ov_ngOnInit_def ov_ngOnDestroy_def loadCurrentIp_def
        loadRecord_def openEditDrawer_def reloadRecord_def addTask_def editTask_def runTask_def removeTask_def
        download_def resolve_opened_def resolve_message_def resolve_error_def resolve_closed_def
        resolve_reconnect_def Let_def split: option.split\<close>)
  show "ov_step s e = s \<or> k < length (pending s) \<and> asks (take_reply k s) (ov_step s e)"
    if "ov_answered e = Some k" for s e k
    by (insert that, cases e; simp) (rule reply_asks, erule ov_asks_handle)
qed

text \<open>Its invariant reads nothing of the service.\<close>

interpretation ov_hosted: hosted_client ov_step ov_answered ov_inv
  by unfold_locales (simp add: ov_inv_def lend_def)

subsection \<open>Properties\<close>

text \<open>
  C5. The page keeps at most one resolve stream: in every run each stream it opened is shut
  (closed by the client, no socket) unless it is the current one, the page says it is resolving
  exactly while it has one, and each name server has one result.
\<close>

theorem one_resolve_stream:
  "list_all (\<lambda>i. ov_stream (run ov_step init_ov es) = Some i \<or> shut (streams (run ov_step init_ov es) ! i))
     [0..<length (streams (run ov_step init_ov es))] \<and>
   (resolving (run ov_step init_ov es) \<longleftrightarrow> ov_stream (run ov_step init_ov es) \<noteq> None) \<and>
   distinct (map res_server (resolveResults (run ov_step init_ov es)))"
  using ov_reachable_inv [of es] by (auto simp: ov_inv_def list_all_iff)

text \<open>
  A page left with no record request in flight leaves nothing behind: whatever arrives
  afterwards, all its streams are and stay shut.
\<close>

theorem destroyed_page_shut:
  assumes "\<not> ov_destroyed (run ov_step init_ov es)"
    and "list_all (\<lambda>q. \<not> is_record_request q) (pending (run ov_step init_ov es))"
  shows "list_all shut (streams (run ov_step init_ov (es @ OvDestroy # fs)))"
proof -
  have "ov_quiet (ov_step (run ov_step init_ov es) OvDestroy)"
    using assms ov_inv_stop [OF ov_reachable_inv [of es]]
    by (simp add: ov_quiet_def while_alive_def ov_ngOnDestroy_def)
  then show ?thesis
    using ov_quiet_all_shut [OF ov_gone.inv_run] by simp
qed

theorem destroyed_page_shut_witness:
  "list_all shut (streams (run ov_step init_ov
     ([OvInit (Some (show_int 7)), OvReply 1 (OvRepRecords (Some [sample_record]))] @ OvDestroy # [OvReconnect])))"
proof (rule destroyed_page_shut)
  show "\<not> ov_destroyed (run ov_step init_ov [OvInit (Some (show_int 7)), OvReply 1 (OvRepRecords (Some [sample_record]))])"
    by (subst ov_alive_loaded) (simp_all add: on_record_list_def Let_def sample_record_def loadRecord_def
        loadCurrentIp_def request_def take_reply_def init_ov_def init_ui_def ui.defs loadTasksAndCertificate_def
        startResolve_def ov_recordDoesDdns_def stopResolve_def on_stream_def)
  show "list_all (\<lambda>q. \<not> is_record_request q) (pending (run ov_step init_ov
      [OvInit (Some (show_int 7)), OvReply 1 (OvRepRecords (Some [sample_record]))]))"
    by (subst ov_alive_loaded) (simp_all add: on_record_list_def Let_def sample_record_def loadRecord_def
        loadCurrentIp_def request_def take_reply_def init_ov_def init_ui_def ui.defs loadTasksAndCertificate_def
        startResolve_def ov_recordDoesDdns_def stopResolve_def on_stream_def remove_at_def is_record_request_def)
qed





text \<open>
  The overview a row of the table navigates to shows that row's record, when the server
  still lists it.
\<close>

theorem overview_shows_opened_record:
  assumes "0 < rec_id r" "List.find (\<lambda>x. rec_id x = rec_id r) rs = Some r"
  shows "ov_record (run ov_step init_ov
      [OvInit (map_option show_int (route (openOverview r t))), OvReply 1 (OvRepRecords (Some rs))]) = Some r"
proof -
  have "map_option show_int (route (openOverview r t)) = Some (show_int (rec_id r))"
    by (simp add: openOverview_def)
  with assms(2) show ?thesis
    by (simp only: ov_alive_loaded [OF assms(1)]) (simp add: on_record_list_def Let_def)
qed

theorem overview_shows_opened_record_witness:
  "ov_record (run ov_step init_ov
      [OvInit (map_option show_int (route (openOverview sample_record init_rt))),
       OvReply 1 (OvRepRecords (Some [sample_record]))]) = Some sample_record"
  by (rule overview_shows_opened_record) (simp_all add: sample_record_def)

text \<open>
  A duration of a second or more is printed as the tenth of a second nearest to it, in spite
  of the binary division, except possibly on a tie.
\<close>

theorem formatDuration_nearest:
  assumes "1000 \<le> d" "d < 2 ^ 53" "d mod 100 \<noteq> 50"
  shows "formatDuration d =
    show_nat ((nat d + 50) div 100 div 10) @ CHR ''.'' # show_nat ((nat d + 50) div 100 mod 10) @ ''s''"
proof -
  have "nat d < 2 ^ 53" using assms(2) by simp
  moreover have "nat d mod 100 \<noteq> 50"
  proof
    assume "nat d mod 100 = 50"
    then have "int (nat d mod 100) = 50" by simp
    with assms show False by (simp add: zmod_int)
  qed
  ultimately show ?thesis
    using assms(1) by (simp add: formatDuration_def thousandths_toFixed1_def thousandths_tenths_nearest Let_def)
qed

theorem formatDuration_nearest_witness:
  "formatDuration 61249 = ''61.2s''"
  by (subst formatDuration_nearest) (simp, simp, simp, simp, code_simp)


end
