(* ===== verification/OverviewView.thy ===== *)
theory OverviewView
  imports Overview
begin

text \<open>
  What the record overview shows (the template of
  \<^verbatim>\<open>pages/overview/record-overview.component.ts\<close>): the header, the sections and their rows as
  values, with the buttons as the events they raise. The format of a date is the argument
  \<open>date\<close> (Angular's pipe, with the pattern and the value). A click reaches the page only
  through a button that is shown and not disabled, which is what the runs of this theory are.
\<close>

subsection \<open>The rows\<close>

record resolve_row =
  rr_has_error :: bool
  rr_has_success :: bool
  rr_server :: string
  rr_response :: "string option"
  rr_addresses :: "string list option"
  rr_error :: "string option"
  rr_pending :: bool

definition has_addresses :: "resolution_msg \<Rightarrow> bool" where
  "has_addresses r = (case res_addresses r of None \<Rightarrow> False | Some xs \<Rightarrow> length xs \<noteq> 0)"

definition resolve_row_of :: "resolution_msg \<Rightarrow> resolve_row" where
  "resolve_row_of r =
     \<lparr>rr_has_error = (res_error r \<noteq> ''''),
      rr_has_success = (\<not> res_error r \<noteq> '''' \<and> has_addresses r),
      rr_server = res_server r,
      rr_response = (if res_responseTime r \<noteq> 0 then Some (show_int (res_responseTime r) @ ''ms'') else None),
      rr_addresses = (if has_addresses r \<and> \<not> res_error r \<noteq> '''' then res_addresses r else None),
      rr_error = (if res_error r \<noteq> '''' then Some (res_error r) else None),
      rr_pending = (\<not> res_error r \<noteq> '''' \<and> \<not> has_addresses r)\<rparr>"

datatype resolve_view = WaitingForResults | ResolveRows "resolve_row list"

definition resolve_section :: "overview \<Rightarrow> resolve_view" where
  "resolve_section s =
     (if length (resolveResults s) = 0 then WaitingForResults
      else ResolveRows (map resolve_row_of (resolveResults s)))"

text \<open>The certificate: badge, fields and the download buttons, each enabled or not.\<close>

record cert_badge =
  cb_class :: string
  cb_icon :: string
  cb_text :: string

record cert_fields =
  cv_domains :: string
  cv_serial :: string
  cv_validUntil :: string
  cv_lastError :: "string option"

record download_button =
  db_label :: string
  db_tooltip :: string
  db_click :: "ov_event option"

record cert_section =
  cs_badge :: "cert_badge option"
  cs_fields :: "cert_fields option"
  cs_downloads :: "download_button list option"

definition cert_badge_of :: "certificate_msg \<Rightarrow> cert_badge" where
  "cert_badge_of c =
     \<lparr>cb_class = statusClass (crt_status c), cb_icon = statusIcon (crt_status c),
      cb_text = nullish (crt_status c) ''''\<rparr>"

definition cert_fields_of :: "(string \<Rightarrow> int \<Rightarrow> string) \<Rightarrow> certificate_msg \<Rightarrow> cert_fields" where
  "cert_fields_of date c =
     \<lparr>cv_domains = or_str (crt_domains c) em_dash,
      cv_serial = or_str (crt_serial c) em_dash,
      cv_validUntil = (if crt_notAfter c \<noteq> 0 then date ''dd.MM.yyyy HH:mm'' (crt_notAfter c) else em_dash),
      cv_lastError = (if crt_lastError c \<noteq> '''' then Some (crt_lastError c) else None)\<rparr>"

definition download_button_of :: "string \<Rightarrow> artifact_msg \<Rightarrow> download_button" where
  "download_button_of base a =
     \<lparr>db_label = art_label a,
      db_tooltip = (if art_available a then '''' else ''Artifact is not available yet''),
      db_click = (if \<not> art_available a then None else Some (OvDownload base (art_key a)))\<rparr>"

definition cert_section_of :: "(string \<Rightarrow> int \<Rightarrow> string) \<Rightarrow> string \<Rightarrow> overview \<Rightarrow> cert_section" where
  "cert_section_of date base s =
     (let shown = Option.bind (certificateDetails s) det_certificate
      in \<lparr>cs_badge = map_option cert_badge_of shown,
          cs_fields = map_option (cert_fields_of date) shown,
          cs_downloads = map_option (\<lambda>d. map (download_button_of base) (det_artifacts d)) (certificateDetails s)\<rparr>)"

text \<open>A task with its three buttons; what is printed of its last run, if it has run.\<close>

record task_row =
  tr_name :: string
  tr_trigger :: string
  tr_request :: string
  tr_lastRun :: "(string \<times> string option \<times> string option) option"
  tr_run :: ov_event
  tr_edit :: ov_event
  tr_delete :: ov_event

definition shown_text :: "string \<Rightarrow> string option" where
  "shown_text x = (if x \<noteq> '''' then Some x else None)"

definition task_row_of :: "(string \<Rightarrow> int \<Rightarrow> string) \<Rightarrow> task_msg \<Rightarrow> task_row" where
  "task_row_of date t =
     \<lparr>tr_name = task_name t,
      tr_trigger = triggerLabel (task_triggerOn t),
      tr_request = task_method t @ '' '' @ task_url t,
      tr_lastRun =
        (if task_lastRun t \<noteq> 0
         then Some (date ''dd.MM.yyyy HH:mm'' (task_lastRun t), shown_text (task_lastStatus t), shown_text (task_lastError t))
         else None),
      tr_run = OvRunTask t, tr_edit = OvEditTask t, tr_delete = OvRemoveTask t\<rparr>"

text \<open>A row of either history.\<close>

record history_row =
  hr_title :: string
  hr_ok :: bool
  hr_failed :: bool
  hr_status :: string
  hr_started :: string
  hr_duration :: "string option"
  hr_error :: "string option"

definition task_run_row :: "(string \<Rightarrow> int \<Rightarrow> string) \<Rightarrow> task_run_msg \<Rightarrow> history_row" where
  "task_run_row date r =
     \<lparr>hr_title = or_str (run_taskName r) (''Task #'' @ show_int (run_taskId r)),
      hr_ok = (run_status r = ''success''), hr_failed = (run_status r = ''failed''), hr_status = run_status r,
      hr_started = date ''dd.MM.yyyy HH:mm:ss'' (run_startedAt r),
      hr_duration = (if run_durationMs r \<noteq> 0 then Some (formatDuration (run_durationMs r)) else None),
      hr_error = shown_text (run_error r)\<rparr>"

definition job_row :: "(string \<Rightarrow> int \<Rightarrow> string) \<Rightarrow> job_msg \<Rightarrow> history_row" where
  "job_row date j =
     \<lparr>hr_title = job_source j,
      hr_ok = (job_status j = ''success''), hr_failed = (job_status j = ''failed''), hr_status = job_status j,
      hr_started = date ''dd.MM.yyyy HH:mm:ss'' (job_startedAt j),
      hr_duration = (if job_durationMs j \<noteq> 0 then Some (formatDuration (job_durationMs j)) else None),
      hr_error = shown_text (job_error j)\<rparr>"

subsection \<open>The page\<close>

text \<open>An empty list of rows stands for the text that says there are none.\<close>

record page_sections =
  ps_resolve :: "resolve_view option"
  ps_certificate :: "cert_section option"
  ps_addTask :: ov_event
  ps_tasks :: "task_row list"
  ps_runs :: "history_row list"
  ps_jobs :: "history_row list option"

datatype page_body = LoadingRecord | RecordNotFound | Sections page_sections

record page_view =
  pv_title :: string
  pv_subtitle :: string
  pv_edit :: "ov_event option"
  pv_body :: page_body

definition details_rows :: "('r \<Rightarrow> history_row) \<Rightarrow> (details_msg \<Rightarrow> 'r list) \<Rightarrow> overview \<Rightarrow> history_row list" where
  "details_rows row rows s =
     (case certificateDetails s of None \<Rightarrow> [] | Some d \<Rightarrow> if length (rows d) = 0 then [] else map row (rows d))"

definition page_sections_of ::
  "(string \<Rightarrow> int \<Rightarrow> string) \<Rightarrow> string \<Rightarrow> record_msg \<Rightarrow> overview \<Rightarrow> page_sections" where
  "page_sections_of date base r s =
     \<lparr>ps_resolve = (if ov_recordDoesDdns r then Some (resolve_section s) else None),
      ps_certificate = (if ov_recordHasCert r then Some (cert_section_of date base s) else None),
      ps_addTask = OvAddTask,
      ps_tasks = (if length (ov_tasks s) = 0 then [] else map (task_row_of date) (ov_tasks s)),
      ps_runs = details_rows (task_run_row date) det_taskRuns s,
      ps_jobs = (if ov_recordHasCert r then Some (details_rows (job_row date) det_issuanceJobs s) else None)\<rparr>"

definition page_view_of :: "(string \<Rightarrow> int \<Rightarrow> string) \<Rightarrow> string \<Rightarrow> overview \<Rightarrow> page_view" where
  "page_view_of date base s =
     \<lparr>pv_title = (case ov_record s of Some r \<Rightarrow> rec_name r @ ''.'' @ rec_domain r | None \<Rightarrow> ''Record Overview''),
      pv_subtitle = ''Current IP: '' @ or_str (currentIp s) em_dash,
      pv_edit = map_option (\<lambda>_. OvEdit) (ov_record s),
      pv_body =
        (if loadingRecord s then LoadingRecord
         else (case ov_record s of None \<Rightarrow> RecordNotFound | Some r \<Rightarrow> Sections (page_sections_of date base r s)))\<rparr>"

subsection \<open>What can be clicked\<close>

definition section_buttons :: "page_sections \<Rightarrow> ov_event list" where
  "section_buttons ps =
     (case Option.bind (ps_certificate ps) cs_downloads of
        None \<Rightarrow> []
      | Some ds \<Rightarrow> concat (map (\<lambda>d. case db_click d of None \<Rightarrow> [] | Some e \<Rightarrow> [e]) ds)) @
     ps_addTask ps # concat (map (\<lambda>t. [tr_run t, tr_edit t, tr_delete t]) (ps_tasks ps))"

definition page_buttons :: "page_view \<Rightarrow> ov_event list" where
  "page_buttons v =
     (case pv_edit v of None \<Rightarrow> [] | Some e \<Rightarrow> [e]) @
     (case pv_body v of Sections ps \<Rightarrow> section_buttons ps | _ \<Rightarrow> [])"

fun is_click :: "ov_event \<Rightarrow> bool" where
  "is_click OvEdit = True"
| "is_click OvAddTask = True"
| "is_click (OvEditTask t) = True"
| "is_click (OvRunTask t) = True"
| "is_click (OvRemoveTask t) = True"
| "is_click (OvDownload base a) = True"
| "is_click _ = False"

definition page_step :: "(string \<Rightarrow> int \<Rightarrow> string) \<Rightarrow> string \<Rightarrow> overview \<Rightarrow> ov_event \<Rightarrow> overview" where
  "page_step date base s e =
     (if is_click e \<and> e \<notin> set (page_buttons (page_view_of date base s)) then s else ov_step s e)"

subsection \<open>Whose tasks and artifacts the page acts on\<close>

text \<open>
  What the server has told the page: the identifiers of the tasks of a record, and the keys of
  the artifacts that are available.
\<close>

fun told_tasks :: "number \<Rightarrow> ov_event \<Rightarrow> int list" where
  "told_tasks n (OvReply k (OvRepTasks (Some ts))) = map task_id (filter (\<lambda>t. num (task_recordId t) = n) ts)"
| "told_tasks n _ = []"

fun told_artifacts :: "ov_event \<Rightarrow> string list" where
  "told_artifacts (OvReply k (OvRepDetails d)) = map art_key (filter art_available (det_artifacts d))"
| "told_artifacts _ = []"

fun is_init :: "ov_event \<Rightarrow> bool" where
  "is_init (OvInit param) = True"
| "is_init _ = False"

text \<open>The page acts on the record \<open>n\<close> alone, on tasks in \<open>ids\<close> and on artifacts in \<open>keys\<close>.\<close>

definition own_task :: "number \<Rightarrow> int set \<Rightarrow> task_msg \<Rightarrow> bool" where
  "own_task n ids t \<longleftrightarrow> num (task_recordId t) = n \<and> task_id t \<in> ids"

fun own_request :: "number \<Rightarrow> int set \<Rightarrow> ov_req \<Rightarrow> bool" where
  "own_request n ids OvAddress = True"
| "own_request n ids (OvRecords m) = (m = n)"
| "own_request n ids (OvTasks r) = (num (rec_id r) = n)"
| "own_request n ids (OvDetails r) = (num (rec_id r) = n)"
| "own_request n ids (OvRun t) = own_task n ids t"
| "own_request n ids (OvDeleteTask i) = (i \<in> ids)"

fun own_form :: "number \<Rightarrow> int set \<Rightarrow> ov_form \<Rightarrow> bool" where
  "own_form n ids (EditRecord r) = (num (rec_id r) = n)"
| "own_form n ids (TaskForm i p t) = (num i = n \<and> pred_option (own_task n ids) t)"

fun own_handler :: "int set \<Rightarrow> ov_handler option \<Rightarrow> bool" where
  "own_handler ids (Some (DeleteTaskConfirmed i)) = (i \<in> ids)"
| "own_handler ids None = True"

fun own_dialog :: "int set \<Rightarrow> ov_handler dialog \<Rightarrow> bool" where
  "own_dialog ids (WarningDialog w) = list_all (\<lambda>b. own_handler ids (btn_handler b)) (warn_buttons w)"
| "own_dialog ids (ErrorDialog a b) = True"

definition own_window :: "number \<Rightarrow> string set \<Rightarrow> string \<Rightarrow> string \<Rightarrow> bool" where
  "own_window n keys base u \<longleftrightarrow> (\<exists>i a. u = getCertificateDownloadUrl base i a \<and> num i = n \<and> a \<in> keys)"

definition own_page :: "string \<Rightarrow> number \<Rightarrow> int set \<Rightarrow> string set \<Rightarrow> overview \<Rightarrow> bool" where
  "own_page base n ids keys s \<longleftrightarrow>
     list_all (own_request n ids) (sent s) \<and> list_all (own_request n ids) (pending s) \<and>
     list_all (own_dialog ids) (dialogs (notifier s)) \<and>
     pred_option (\<lambda>r. num (rec_id r) = n) (ov_record s) \<and>
     list_all (own_task n ids) (ov_tasks s) \<and>
     pred_option (\<lambda>d. list_all (\<lambda>a. art_available a \<longrightarrow> art_key a \<in> keys) (det_artifacts d)) (certificateDetails s) \<and>
     list_all (own_form n ids) (forms s) \<and>
     list_all (own_window n keys base) (windows s)"

definition told_ok :: "number \<Rightarrow> int set \<Rightarrow> string set \<Rightarrow> ov_event \<Rightarrow> bool" where
  "told_ok n ids keys e \<longleftrightarrow> \<not> is_init e \<and> set (told_tasks n e) \<subseteq> ids \<and> set (told_artifacts e) \<subseteq> keys"

definition same_page :: "overview \<Rightarrow> overview \<Rightarrow> bool" where
  "same_page s t \<longleftrightarrow>
     sent s = sent t \<and> pending s = pending t \<and> dialogs (notifier s) = dialogs (notifier t) \<and>
     ov_record s = ov_record t \<and> ov_tasks s = ov_tasks t \<and> certificateDetails s = certificateDetails t \<and>
     forms s = forms t \<and> windows s = windows t"

lemma own_page_cong: "same_page s t \<Longrightarrow> own_page base n ids keys s \<longleftrightarrow> own_page base n ids keys t"
  by (simp add: same_page_def own_page_def)

lemma same_on_stream: "same_page (on_stream i f s) s"
  by (simp add: same_page_def on_stream_def)

lemma same_trans: "same_page s t \<Longrightarrow> same_page t u \<Longrightarrow> same_page s u"
  by (simp add: same_page_def)

lemma same_stop: "same_page (stopResolve s) s"
  by (auto simp: same_page_def stopResolve_def Let_def on_stream_def split: option.split)

lemma same_start: "same_page (startResolve s) s"
  using same_stop [of s]
  by (auto simp: same_page_def startResolve_def Let_def on_stream_def split: option.split)

lemma same_stream_events:
  "same_page (resolve_opened s) s" "same_page (resolve_message m s) s" "same_page (resolve_closed s) s"
  "same_page (resolve_reconnect s) s" "same_page (toast msg s) s" "same_page (toast_error e txt s) s"
  "same_page (s\<lparr>loadingRecord := b\<rparr>) s" "same_page (s\<lparr>currentIp := c\<rparr>) s" "same_page (s\<lparr>ov_destroyed := b\<rparr>) s"
  by (auto simp: same_page_def resolve_opened_def resolve_message_def resolve_closed_def resolve_reconnect_def
      on_stream_def toast_def toast_error_def message_op_def error_op_def addNotification_def Let_def
      split: option.splits)

lemma same_error: "same_page (resolve_error e s) s"
  using same_trans [OF same_stop same_stream_events(6)] by (simp add: resolve_error_def) (simp add: same_page_def)

lemmas own_keeps [simp] =
  own_page_cong [OF same_on_stream] own_page_cong [OF same_stop] own_page_cong [OF same_start]
  own_page_cong [OF same_stream_events(1)] own_page_cong [OF same_stream_events(2)]
  own_page_cong [OF same_stream_events(3)] own_page_cong [OF same_stream_events(4)]
  own_page_cong [OF same_stream_events(5)] own_page_cong [OF same_stream_events(6)]
  own_page_cong [OF same_stream_events(7)] own_page_cong [OF same_stream_events(8)]
  own_page_cong [OF same_stream_events(9)] own_page_cong [OF same_error]

lemma own_request_more:
  "own_page base n ids keys s \<Longrightarrow> own_request n ids q \<Longrightarrow> own_page base n ids keys (request q s)"
  by (simp add: own_page_def request_def)

lemma own_take: "own_page base n ids keys s \<Longrightarrow> own_page base n ids keys (take_reply k s)"
  using set_remove_at [of k "pending s"] by (auto simp: own_page_def take_reply_def list_all_iff)

lemma own_load: "own_page base n ids keys s \<Longrightarrow> own_page base n ids keys (loadTasksAndCertificate s)"
  by (auto simp: loadTasksAndCertificate_def intro!: own_request_more split: option.split)
    (simp_all add: own_page_def)

lemma own_record:
  assumes "own_page base n ids keys s" "pred_option (\<lambda>r. num (rec_id r) = n) v"
  shows "own_page base n ids keys (s\<lparr>ov_record := v, loadingRecord := b\<rparr>)"
  using assms by (simp add: own_page_def)

lemma own_record_list:
  assumes "own_page base n ids keys s"
  shows "own_page base n ids keys (on_record_list n res s)"
proof -
  let ?found = "List.find (\<lambda>r. num (rec_id r) = n) (nullish res [])"
  have "pred_option (\<lambda>r. num (rec_id r) = n) ?found"
    by (auto simp: pred_option_def find_Some_iff)
  with assms have "own_page base n ids keys (s\<lparr>ov_record := ?found, loadingRecord := False\<rparr>)"
    by (rule own_record)
  moreover from this have "own_page base n ids keys (loadTasksAndCertificate (s\<lparr>ov_record := ?found, loadingRecord := False\<rparr>))"
    by (rule own_load)
  ultimately show ?thesis
    by (cases ?found) (simp_all add: on_record_list_def Let_def del: own_keeps(10))
qed

lemma own_tasks:
  assumes "own_page base n ids keys s" "num (rec_id r) = n"
    and "set (map task_id (filter (\<lambda>t. num (task_recordId t) = n) (nullish res []))) \<subseteq> ids"
  shows "own_page base n ids keys (on_tasks r res s)"
  using assms by (auto simp: own_page_def on_tasks_def own_task_def list_all_iff)

lemma own_details:
  assumes "own_page base n ids keys s" "set (map art_key (filter art_available (det_artifacts d))) \<subseteq> keys"
  shows "own_page base n ids keys (s\<lparr>certificateDetails := Some d\<rparr>)"
  using assms by (auto simp: own_page_def list_all_iff)

lemma own_handle:
  assumes "own_page base n ids keys s" "own_request n ids q" "ov_handle q r = Some f"
    and "told_ok n ids keys (OvReply k r)"
  shows "own_page base n ids keys (f (take_reply k s))"
proof -
  have own: "own_page base n ids keys (take_reply k s)" using assms(1) by (rule own_take)
  show ?thesis
  proof (cases "\<exists>rec res. q = OvTasks rec \<and> r = OvRepTasks res")
    case True
    then obtain rec res where q: "q = OvTasks rec" "r = OvRepTasks res" by blast
    with assms(4) have "set (map task_id (filter (\<lambda>t. num (task_recordId t) = n) (nullish res []))) \<subseteq> ids"
      by (cases res) (simp_all add: told_ok_def)
    with own_tasks [OF own] q assms(2,3) show ?thesis by auto
  next
    case False
    with own assms(2-4) show ?thesis
      by (cases q; cases r)
        (auto simp: own_record_list own_details told_ok_def on_run_def on_task_deleted_def own_load)
  qed
qed

lemma buttons_sound:
  assumes "e \<in> set (page_buttons (page_view_of date base s))"
  shows "e = OvEdit \<or> e = OvAddTask \<or>
    (\<exists>t \<in> set (ov_tasks s). e = OvRunTask t \<or> e = OvEditTask t \<or> e = OvRemoveTask t) \<or>
    (\<exists>d. certificateDetails s = Some d \<and> (\<exists>a \<in> set (det_artifacts d). art_available a \<and> e = OvDownload base (art_key a)))"
  using assms
  by (cases "certificateDetails s")
    (auto simp: page_buttons_def page_view_of_def page_sections_of_def section_buttons_def cert_section_of_def
      task_row_of_def download_button_of_def Let_def split: option.splits if_splits page_body.splits)

lemma own_page_tasks: "own_page base n ids keys s \<Longrightarrow> t \<in> set (ov_tasks s) \<Longrightarrow> own_task n ids t"
  by (simp add: own_page_def list_all_iff)

lemma own_page_record: "own_page base n ids keys s \<Longrightarrow> ov_record s = Some r \<Longrightarrow> num (rec_id r) = n"
  by (simp add: own_page_def)

lemma own_page_artifact:
  "own_page base n ids keys s \<Longrightarrow> certificateDetails s = Some d \<Longrightarrow> a \<in> set (det_artifacts d) \<Longrightarrow>
   art_available a \<Longrightarrow> art_key a \<in> keys"
  by (simp add: own_page_def list_all_iff)

lemma own_more:
  assumes "own_page base n ids keys s"
  shows "own_form n ids f \<Longrightarrow> own_page base n ids keys (s\<lparr>forms := forms s @ [f]\<rparr>)"
    and "own_window n keys base u \<Longrightarrow> own_page base n ids keys (s\<lparr>windows := windows s @ [u]\<rparr>)"
    and "own_dialog ids (WarningDialog w) \<Longrightarrow> own_page base n ids keys (ask w s)"
  using assms by (simp_all add: own_page_def) (simp add: ask_def)

lemma own_click:
  assumes own: "own_page base n ids keys s" and e: "e \<in> set (page_buttons (page_view_of date base s))"
  shows "own_page base n ids keys (ov_step s e)"
proof -
  from buttons_sound [OF e] show ?thesis
  proof (elim disjE bexE exE conjE)
    assume "e = OvEdit"
    then show ?thesis using own own_page_record [OF own]
      by (auto simp: while_alive_def openEditDrawer_def intro!: own_more split: option.split)
  next
    assume "e = OvAddTask"
    then show ?thesis using own own_page_record [OF own]
      by (auto simp: while_alive_def addTask_def intro!: own_more split: option.split)
  next
    fix t assume t: "t \<in> set (ov_tasks s)" "e = OvRunTask t"
    then show ?thesis using own own_page_tasks [OF own t(1)]
      by (simp add: while_alive_def runTask_def own_request_more)
  next
    fix t assume t: "t \<in> set (ov_tasks s)" "e = OvEditTask t"
    then show ?thesis using own own_page_record [OF own] own_page_tasks [OF own t(1)]
      by (auto simp: while_alive_def editTask_def intro!: own_more split: option.split)
  next
    fix t assume t: "t \<in> set (ov_tasks s)" "e = OvRemoveTask t"
    then show ?thesis using own own_page_tasks [OF own t(1)]
      by (simp add: while_alive_def removeTask_def own_more own_task_def)
  next
    fix d a assume a: "certificateDetails s = Some d" "a \<in> set (det_artifacts d)" "art_available a"
      "e = OvDownload base (art_key a)"
    have "own_window n keys base (getCertificateDownloadUrl base (rec_id r) (art_key a))" if "ov_record s = Some r" for r
      using own_page_record [OF own that] own_page_artifact [OF own a(1-3)] unfolding own_window_def by blast
    then show ?thesis using own a(4)
      by (auto simp: while_alive_def download_def intro!: own_more split: option.split)
  qed
qed

lemma own_close: "own_page base n ids keys s \<Longrightarrow> own_page base n ids keys (close_dialog d s)"
  using set_remove_at [of d "dialogs (notifier s)"] by (auto simp: own_page_def close_dialog_def list_all_iff)

lemma own_button:
  assumes own: "own_page base n ids keys s"
  shows "own_page base n ids keys (press_button ov_run_handler d i s)"
proof (rule press_button_cases [OF own own_close [OF own]])
  fix w h
  assume w: "d < length (dialogs (notifier s))" "dialogs (notifier s) ! d = WarningDialog w"
    "i < length (warn_buttons w)" "btn_handler (warn_buttons w ! i) = Some h"
  then have "own_dialog ids (WarningDialog w)" using own by (auto simp: own_page_def list_all_length)
  with w(3,4) have "own_handler ids (Some h)" by (auto simp: list_all_length)
  then have "own_page base n ids keys (ov_run_handler h (checkbox_value w) s)"
    using own by (cases h) (simp add: ov_run_handler_def deleteTask_def own_request_more)
  then show "own_page base n ids keys (close_dialog d (ov_run_handler h (checkbox_value w) s))"
    by (rule own_close)
qed

lemma own_reply:
  assumes "own_page base n ids keys s" "told_ok n ids keys (OvReply k r)"
  shows "own_page base n ids keys (on_reply ov_handle k r s)"
  using assms(1)
proof (rule on_reply_cases [rotated])
  fix q f assume "k < length (pending s)" "pending s ! k = q" "ov_handle q r = Some f"
  moreover from this have "own_request n ids q" using assms(1) by (auto simp: own_page_def list_all_length)
  ultimately show "own_page base n ids keys (f (take_reply k s))"
    using own_handle [OF assms(1) _ _ assms(2)] by blast
qed

lemma own_reload: "own_page base n ids keys s \<Longrightarrow> own_page base n ids keys (reloadRecord s)"
  using own_page_record [of base n ids keys s]
  by (simp add: reloadRecord_def loadRecord_def own_request_more split: option.split)

lemma own_step:
  assumes "own_page base n ids keys s" "told_ok n ids keys e"
  shows "own_page base n ids keys (page_step date base s e)"
  using assms own_click [of base n ids keys s e date]
  by (cases e)
    (simp_all add: page_step_def while_alive_def own_button own_reply own_reload own_load ov_ngOnDestroy_def,
     simp_all add: told_ok_def)

interpretation page: guarded_system "page_step date base" "own_page base n ids keys" "told_ok n ids keys"
  for date base n ids keys
  by unfold_locales (rule own_step)

lemma own_opened: "own_page base (toNumber p) ids keys (ov_step init_ov (OvInit (Some p)))"
  by (simp add: while_alive_def ov_ngOnInit_def Let_def loadCurrentIp_def loadRecord_def own_request_more)
    (simp add: own_page_def init_ov_def init_ui_def init_notify_def ui.defs request_def)

text \<open>A resolve row shows its addresses, its error or that there are none: one of the three.\<close>

lemma resolve_row_one:
  "(rr_addresses (resolve_row_of r) \<noteq> None) = rr_has_success (resolve_row_of r)"
  "(rr_error (resolve_row_of r) \<noteq> None) = rr_has_error (resolve_row_of r)"
  "rr_pending (resolve_row_of r) = (\<not> rr_has_success (resolve_row_of r) \<and> \<not> rr_has_error (resolve_row_of r))"
  "\<not> (rr_has_success (resolve_row_of r) \<and> rr_has_error (resolve_row_of r))"
  by (auto simp: resolve_row_of_def has_addresses_def split: option.splits)

subsection \<open>The page as a client of the services\<close>

interpretation page_http: http_client "page_step date base" ov_answered for date base
  by unfold_locales (auto simp: page_step_def ov_http.asks_step dest: ov_http.answer_step)

lemma own_lend: "own_page base n ids keys (lend v s) \<longleftrightarrow> own_page base n ids keys s"
  by (rule own_page_cong) (simp add: same_page_def lend_def)

text \<open>The page between its opening and its end: \<open>ngOnInit\<close> does not come again.\<close>

definition open_page_step :: "(string \<Rightarrow> int \<Rightarrow> string) \<Rightarrow> string \<Rightarrow> overview \<Rightarrow> ov_event \<Rightarrow> overview" where
  "open_page_step date base s e = (if is_init e then s else page_step date base s e)"

definition own_open :: "string \<Rightarrow> number \<Rightarrow> overview \<Rightarrow> bool" where
  "own_open base n s \<longleftrightarrow> ov_inv s \<and> own_page base n UNIV UNIV s"

lemma own_open_step: "own_open base n s \<Longrightarrow> own_open base n (open_page_step date base s e)"
  using own_step [of base n UNIV UNIV s e date]
  by (simp add: own_open_def open_page_step_def told_ok_def) (simp add: page_step_def ov_inv_step)

interpretation open_page: hosted_client "open_page_step date base" ov_answered "own_open base n" for date base n
proof unfold_locales
  show "asks s (open_page_step date base s e)" if "ov_answered e = None" for s e
    using that by (simp add: open_page_step_def page_http.asks_step)
  show "open_page_step date base s e = s \<or>
      k < length (pending s) \<and> asks (take_reply k s) (open_page_step date base s e)" if "ov_answered e = Some k" for s e k
    using page_http.answer_step [OF that, of date base s] by (simp add: open_page_step_def)
  show "own_open base n (open_page_step date base s e)" if "own_open base n s" for s e
    using that by (rule own_open_step)
  show "own_open base n (lend v c) = own_open base n c" for v c
    by (simp add: own_open_def own_lend ov_hosted.inv_lend)
qed

subsection \<open>Properties\<close>

text \<open>
  C30. The page of a record acts on that record alone: in every run in which the user clicks only
  what the page shows, whatever the server answers and in whatever order, each request is for
  the record of the route, each task that is run, edited or deleted is one the server listed
  for it, each form is opened for it, and each download is of an artifact of it that the server
  said is available.
\<close>

theorem page_acts_on_own_record:
  assumes "list_all (\<lambda>e. \<not> is_init e) es"
  shows "let s = run (page_step date base) (ov_step init_ov (OvInit (Some p))) es;
             ids = set (concat (map (told_tasks (toNumber p)) es));
             keys = set (concat (map told_artifacts es))
         in list_all (own_request (toNumber p) ids) (sent s) \<and>
            list_all (own_form (toNumber p) ids) (forms s) \<and>
            list_all (own_window (toNumber p) keys base) (windows s)"
proof -
  let ?n = "toNumber p"
  let ?ids = "set (concat (map (told_tasks ?n) es))"
  let ?keys = "set (concat (map told_artifacts es))"
  have "list_all (told_ok ?n ?ids ?keys) es"
    using assms by (auto simp: list_all_iff told_ok_def)
  then have "own_page base ?n ?ids ?keys (run (page_step date base) (ov_step init_ov (OvInit (Some p))) es)"
    by (rule page.inv_guarded_run [OF own_opened])
  then show ?thesis by (simp only: own_page_def Let_def simp_thms)
qed

definition sample_ov_task :: task_msg where
  "sample_ov_task =
     \<lparr>task_id = 3, task_createdAt = 0, task_updatedAt = 0, task_recordId = 7, task_name = ''hook'',
      task_triggerOn = Some 1, task_method = ''POST'', task_url = ''https://h'', task_headers = '''',
      task_body = None, task_enabled = True, task_lastRun = 0, task_lastStatus = '''', task_lastError = '''',
      task_includeCertificate = None, task_certificateFormat = ''''\<rparr>"

definition sample_visit :: "ov_event list" where
  "sample_visit =
     [OvReply 1 (OvRepRecords (Some [sample_record])),
      OvReply 1 (OvRepTasks (Some [sample_ov_task, sample_ov_task\<lparr>task_id := 4, task_recordId := 8\<rparr>])),
      OvRunTask sample_ov_task, OvRunTask (sample_ov_task\<lparr>task_id := 4, task_recordId := 8\<rparr>)]"

lemma sample_visit_sent:
  "sent (run (page_step (\<lambda>f d. '''') ''https://h'') (ov_step init_ov (OvInit (Some ''7''))) sample_visit) =
     [OvAddress, OvRecords (num 7), OvTasks sample_record, OvDetails sample_record, OvRun sample_ov_task]"
  by code_simp

theorem page_acts_on_own_record_witness:
  "list_all (own_request (toNumber ''7'') {3})
     [OvAddress, OvRecords (num 7), OvTasks sample_record, OvDetails sample_record, OvRun sample_ov_task]"
proof -
  have "list_all (\<lambda>e. \<not> is_init e) sample_visit" by (simp add: sample_visit_def)
  from page_acts_on_own_record [OF this, of "\<lambda>f d. ''''" "''https://h''" "''7''"]
  have "list_all (own_request (toNumber ''7'') (set (concat (map (told_tasks (toNumber ''7'')) sample_visit))))
      (sent (run (page_step (\<lambda>f d. '''') ''https://h'') (ov_step init_ov (OvInit (Some ''7''))) sample_visit))"
    unfolding Let_def by (rule conjunct1)
  moreover have "concat (map (told_tasks (toNumber ''7'')) sample_visit) = [3]" by code_simp
  ultimately show ?thesis by (simp only: sample_visit_sent set_simps)
qed

end
