(* ===== verification/Forms.thy ===== *)
theory Forms
  imports Client Drawer JsValue
begin

text \<open>
  What the form drawers share. The validators are Angular's, so they are an argument of the
  forms: a record of functions from a control's value to whether it is valid, with their
  documented behaviour as the locale \<open>angular_validators\<close>. The drawer of a form is the
  component of \<open>Drawer\<close> with the width and the breakpoints of its template.
\<close>

record validators =
  v_required :: "jsval \<Rightarrow> bool"
  v_min :: "int \<Rightarrow> jsval \<Rightarrow> bool"
  v_max :: "int \<Rightarrow> jsval \<Rightarrow> bool"
  v_pattern :: "(string \<Rightarrow> bool) \<Rightarrow> jsval \<Rightarrow> bool"
  v_email :: "jsval \<Rightarrow> bool"

text \<open>
  \<open>required\<close> rejects \<open>null\<close>, \<open>undefined\<close>, the empty text and the empty array; the other
  validators accept the empty value, and otherwise compare the number or run the expression's
  \<open>test\<close> on the text. Of \<open>email\<close> only the former is used.
\<close>

locale angular_validators =
  fixes V :: validators
  assumes required_iff: "v_required V x \<longleftrightarrow> x \<notin> {JUndef, JNull, JStr [], JArr []}"
    and min_null: "v_min V n JNull"
    and min_number: "v_min V n (JNum (num k)) \<longleftrightarrow> n \<le> k"
    and max_null: "v_max V n JNull"
    and max_number: "v_max V n (JNum (num k)) \<longleftrightarrow> k \<le> n"
    and pattern_text: "v_pattern V test (JStr s) \<longleftrightarrow> s = [] \<or> test s"
    and email_empty: "v_email V (JStr [])"
begin

lemma required_text [simp]: "v_required V (JStr s) \<longleftrightarrow> s \<noteq> []"
  by (auto simp: required_iff)

lemma required_number [simp]: "v_required V (JNum n)"
  by (simp add: required_iff)

lemma required_null [simp]: "\<not> v_required V JNull"
  by (simp add: required_iff)

end

text \<open>An instance: the checks written out.\<close>

definition plain_validators :: validators where
  "plain_validators =
     \<lparr>v_required = (\<lambda>x. x \<notin> {JUndef, JNull, JStr [], JArr []}),
      v_min = (\<lambda>n x. case x of JNum k \<Rightarrow> num_le (num n) k | _ \<Rightarrow> True),
      v_max = (\<lambda>n x. case x of JNum k \<Rightarrow> num_le k (num n) | _ \<Rightarrow> True),
      v_pattern = (\<lambda>test x. case x of JStr s \<Rightarrow> s = [] \<or> test s | _ \<Rightarrow> True),
      v_email = (\<lambda>x. case x of JStr s \<Rightarrow> s = [] \<or> CHR ''@'' \<in> set s | _ \<Rightarrow> True)\<rparr>"

interpretation plain: angular_validators plain_validators
  by unfold_locales (auto simp: plain_validators_def)

text \<open>The value of a number control: a number, or \<open>null\<close> when the field is empty.\<close>

definition number_value :: "int option \<Rightarrow> jsval" where
  "number_value x = (case x of None \<Rightarrow> JNull | Some n \<Rightarrow> JNum (num n))"

lemma number_value_simps [simp]:
  "number_value None = JNull" "number_value (Some n) = JNum (num n)"
  by (simp_all add: number_value_def)

definition form_breakpoints :: "DrawerBreakpoint list" where
  "form_breakpoints =
     [\<lparr>maxWidth = 768, bp_width = 100\<rparr>, \<lparr>maxWidth = 1200, bp_width = 80\<rparr>, \<lparr>maxWidth = 1600, bp_width = 60\<rparr>]"

definition form_drawer :: drawer where
  "form_drawer = init_drawer\<lparr>width := 45, breakpoints := form_breakpoints\<rparr>"

lemma canonical_put: "canonical xs \<Longrightarrow> canonical (put k v xs)"
proof (induction xs)
  case (Cons p xs)
  obtain k' v' where p: "p = (k', v')" by force
  have trans: "key_before a c" if "key_before a b" "key_before b c" for a b c
    using that by (auto simp: key_before_def split: option.splits)
  have irr: "\<not> key_before a b" if "key_before b a" for a b
    using that by (auto simp: key_before_def split: option.splits)
  have c: "canonical xs" and h: "\<And>x. x \<in> fst ` set xs \<Longrightarrow> k' \<noteq> x \<and> \<not> key_before x k'"
    using Cons.prems p by (auto simp: canonical_def)
  show ?case
  proof (cases "k = k'")
    case True
    then show ?thesis using Cons.prems p by (simp add: canonical_def)
  next
    case ne: False
    show ?thesis
    proof (cases "key_before k k'")
      case True
      moreover have "k \<noteq> x \<and> \<not> key_before x k" if "x \<in> fst ` set xs" for x
        using h [OF that] True trans by blast
      ultimately show ?thesis
        using Cons.prems p ne irr by (auto simp: canonical_def)
    next
      case False
      have "\<forall>x \<in> fst ` set (put k v xs). k' \<noteq> x \<and> \<not> key_before x k'"
        using h ne False by (auto simp only: keys_put)
      with Cons.IH [OF c] ne False p show ?thesis by (auto simp: canonical_def)
    qed
  qed
qed (simp add: canonical_def)

end
