(* ===== verification/TaskForm.thy ===== *)
theory TaskForm
  imports Forms Overview
begin

text \<open>
  The task form (\<^verbatim>\<open>pages/home/drawers/task-form/task-form-drawer.component.ts\<close>): the form's
  controls, the trigger options a record's purpose allows, the header rows with their validator
  and their serialization, and the payload \<open>save\<close> sends.
\<close>

definition HTTP_METHODS :: "string list" where
  "HTTP_METHODS = [''GET'', ''POST'', ''PUT'', ''PATCH'', ''DELETE'']"

definition CERTIFICATE_FORMATS :: "string list" where
  "CERTIFICATE_FORMATS = [''pem'', ''pkcs12'']"

definition TRIGGER_OPTIONS :: "(int \<times> string) list" where
  "TRIGGER_OPTIONS =
     [(TASK_TRIGGER_IP, ''IP update''), (TASK_TRIGGER_CERT, ''Certificate renewal''),
      (TASK_TRIGGER_BOTH, ''IP update & Certificate renewal'')]"

record HeaderRow =
  row_key :: string
  row_value :: string

datatype tf_req = TfUpsert task_msg

datatype tf_reply = TfOk | TfErr errval

record task_form = "(unit, tf_req) ui" +
  tf_recordId :: int
  recordPurpose :: int
  triggerOptions :: "(int \<times> string) list"
  tf_task :: "task_msg option"
  tf_saving :: bool
  f_name :: string
  f_triggerOn :: "int option"
  f_method :: string
  f_url :: string
  f_headers :: "HeaderRow list"
  f_body :: string
  f_includeCertificate :: bool
  f_certificateFormat :: string
  f_enabled :: bool
  tf_drawer :: drawer
  tf_onSave :: nat

subsection \<open>Header rows\<close>

definition createHeaderRow :: "string \<Rightarrow> string \<Rightarrow> HeaderRow" where
  "createHeaderRow k v = \<lparr>row_key = k, row_value = v\<rparr>"

definition addHeaderRow :: "string \<Rightarrow> string \<Rightarrow> task_form \<Rightarrow> task_form" where
  "addHeaderRow k v s = s\<lparr>f_headers := f_headers s @ [createHeaderRow k v]\<rparr>"

definition removeHeaderRow :: "nat \<Rightarrow> task_form \<Rightarrow> task_form" where
  "removeHeaderRow i s =
     (let s1 = s\<lparr>f_headers := remove_at i (f_headers s)\<rparr>
      in if length (f_headers s1) = 0 then addHeaderRow '''' '''' s1 else s1)"

definition resetHeaderRows :: "task_form \<Rightarrow> task_form" where
  "resetHeaderRows s = addHeaderRow '''' '''' (s\<lparr>f_headers := []\<rparr>)"

text \<open>The loop of the validator: the keys seen, and the two flags.\<close>

fun check_rows :: "HeaderRow list \<Rightarrow> string list \<Rightarrow> bool \<Rightarrow> bool \<Rightarrow> bool \<times> bool" where
  "check_rows [] usedKeys hasIncomplete hasDuplicate = (hasIncomplete, hasDuplicate)"
| "check_rows (row # rows) usedKeys hasIncomplete hasDuplicate =
     (let key = trim (row_key row); val = trim (row_value row)
      in if key = [] \<and> val = [] then check_rows rows usedKeys hasIncomplete hasDuplicate
         else if key = [] \<or> val = [] then check_rows rows usedKeys True hasDuplicate
         else (let normalized = toLowerCase key
               in check_rows rows (normalized # usedKeys) hasIncomplete
                    (hasDuplicate \<or> normalized \<in> set usedKeys)))"

text \<open>\<open>Some (incomplete, duplicate)\<close> is the error object with the keys that are set.\<close>

definition validateHeaderRows :: "HeaderRow list \<Rightarrow> (bool \<times> bool) option" where
  "validateHeaderRows rows =
     (case check_rows rows [] False False of
        (hasIncomplete, hasDuplicate) \<Rightarrow>
          if \<not> hasIncomplete \<and> \<not> hasDuplicate then None else Some (hasIncomplete, hasDuplicate))"

fun collect_headers :: "HeaderRow list \<Rightarrow> (string \<times> jsval) list \<Rightarrow> (string \<times> jsval) list" where
  "collect_headers [] headers = headers"
| "collect_headers (row # rows) headers =
     (let key = trim (row_key row); val = trim (row_value row)
      in if key = [] \<and> val = [] then collect_headers rows headers
         else if key = [] \<or> val = [] then collect_headers rows headers
         else collect_headers rows (assign key (JStr val) headers))"

definition serializeHeaders :: "HeaderRow list \<Rightarrow> string" where
  "serializeHeaders rows =
     (let headers = collect_headers rows []
      in if length headers \<noteq> 0 then nullish (stringify (JObj headers)) '''' else '''')"

subsection \<open>Triggers\<close>

definition isAllowedTrigger :: "int \<Rightarrow> bool" where
  "isAllowedTrigger t \<longleftrightarrow> t = TASK_TRIGGER_IP \<or> t = TASK_TRIGGER_CERT \<or> t = TASK_TRIGGER_BOTH"

definition triggerSupportsCertificate :: "int \<Rightarrow> bool" where
  "triggerSupportsCertificate t \<longleftrightarrow> t = TASK_TRIGGER_CERT \<or> t = TASK_TRIGGER_BOTH"

definition getTriggerOptionsForRecord :: "int \<Rightarrow> (int \<times> string) list" where
  "getTriggerOptionsForRecord purpose =
     (if purpose = RECORD_PURPOSE_DDNS then filter (\<lambda>opt. fst opt = TASK_TRIGGER_IP) TRIGGER_OPTIONS
      else if purpose = RECORD_PURPOSE_CERT then filter (\<lambda>opt. fst opt = TASK_TRIGGER_CERT) TRIGGER_OPTIONS
      else TRIGGER_OPTIONS)"

definition normalizeTrigger :: "(int \<times> string) list \<Rightarrow> int \<Rightarrow> int" where
  "normalizeTrigger options t =
     (let allowed = map fst options
      in if isAllowedTrigger t \<and> t \<in> set allowed then t
         else (case allowed of [] \<Rightarrow> TASK_TRIGGER_IP | a # _ \<Rightarrow> a))"

definition supportsCertificatePayload :: "task_form \<Rightarrow> bool" where
  "supportsCertificatePayload s =
     triggerSupportsCertificate (nullish (f_triggerOn s) TASK_TRIGGER_UNSPECIFIED)"

definition applyTriggerConstraints :: "task_form \<Rightarrow> task_form" where
  "applyTriggerConstraints s =
     (let triggerOn = normalizeTrigger (triggerOptions s) (nullish (f_triggerOn s) TASK_TRIGGER_IP);
          s1 = (if f_triggerOn s \<noteq> Some triggerOn then s\<lparr>f_triggerOn := Some triggerOn\<rparr> else s)
      in if \<not> triggerSupportsCertificate triggerOn then s1\<lparr>f_includeCertificate := False\<rparr> else s1)"

subsection \<open>Opening\<close>

definition init_tf :: task_form where
  "init_tf = ui.extend init_ui
     \<lparr>tf_recordId = 0, recordPurpose = RECORD_PURPOSE_UNSPECIFIED, triggerOptions = TRIGGER_OPTIONS,
      tf_task = None, tf_saving = False, f_name = '''', f_triggerOn = Some 1, f_method = ''POST'',
      f_url = '''', f_headers = [createHeaderRow '''' ''''], f_body = '''', f_includeCertificate = False,
      f_certificateFormat = ''pem'', f_enabled = True, tf_drawer = form_drawer, tf_onSave = 0\<rparr>"

text \<open>\<open>w\<close> is the window's width, which opening the drawer reads.\<close>

definition openForRecord :: "int \<Rightarrow> int \<Rightarrow> int \<Rightarrow> task_msg option \<Rightarrow> task_form \<Rightarrow> task_form" where
  "openForRecord w recordId purpose task s =
     (let s1 = s\<lparr>tf_recordId := recordId, recordPurpose := purpose,
                 triggerOptions := getTriggerOptionsForRecord purpose, tf_task := task\<rparr>;
          s2 = (case task of
                  Some t \<Rightarrow>
                    (let triggerOn = normalizeTrigger (triggerOptions s1) (nullish (task_triggerOn t) TASK_TRIGGER_IP)
                     in s1\<lparr>f_name := task_name t, f_triggerOn := Some triggerOn,
                           f_method := or_str (task_method t) ''POST'', f_url := task_url t,
                           f_body := nullish (task_body t) '''',
                           f_includeCertificate :=
                             (if triggerSupportsCertificate triggerOn
                              then nullish (task_includeCertificate t) False else False),
                           f_certificateFormat := or_str (task_certificateFormat t) ''pem'',
                           f_enabled := task_enabled t\<rparr>)
                | None \<Rightarrow>
                    (let triggerOn = normalizeTrigger (triggerOptions s1) TASK_TRIGGER_IP
                     in s1\<lparr>f_name := '''', f_triggerOn := Some triggerOn, f_method := ''POST'', f_url := '''',
                           f_body := '''', f_includeCertificate := False, f_certificateFormat := ''pem'',
                           f_enabled := True\<rparr>));
          s3 = resetHeaderRows (applyTriggerConstraints s2)
      in s3\<lparr>tf_drawer := open_op w (tf_drawer s3)\<rparr>)"

definition open_task :: "int \<Rightarrow> int \<Rightarrow> task_msg option \<Rightarrow> task_form \<Rightarrow> task_form" where
  "open_task w recordId task s = openForRecord w recordId RECORD_PURPOSE_UNSPECIFIED task s"

subsection \<open>Saving\<close>

text \<open>\<open>/^https?:\/\/.+/i\<close>, anchored at the start.\<close>

definition ci :: "char \<Rightarrow> re" where
  "ci c = Cls (\<lambda>x. lower_char x = c)"

definition url_pattern :: re where
  "url_pattern =
     Seq [ci (CHR ''h''), ci (CHR ''t''), ci (CHR ''t''), ci (CHR ''p''), Maybe (ci (CHR ''s'')),
          ci (CHR '':''), ci (CHR ''/''), ci (CHR ''/''), Plus (\<lambda>c. \<not> is_line_end c)]"

definition tf_valid :: "validators \<Rightarrow> task_form \<Rightarrow> bool" where
  "tf_valid V s \<longleftrightarrow>
     v_required V (JStr (f_name s)) \<and> v_required V (number_value (f_triggerOn s)) \<and>
     v_required V (JStr (f_method s)) \<and>
     v_required V (JStr (f_url s)) \<and> v_pattern V (test_here url_pattern) (JStr (f_url s)) \<and>
     validateHeaderRows (f_headers s) = None"

definition new_task :: task_msg where
  "new_task =
     \<lparr>task_id = 0, task_createdAt = 0, task_updatedAt = 0, task_recordId = 0, task_name = '''',
      task_triggerOn = None, task_method = '''', task_url = '''', task_headers = '''', task_body = None,
      task_enabled = False, task_lastRun = 0, task_lastStatus = '''', task_lastError = '''',
      task_includeCertificate = None, task_certificateFormat = ''''\<rparr>"

definition buildPayload :: "task_form \<Rightarrow> task_msg" where
  "buildPayload s =
     (let triggerOn = normalizeTrigger (triggerOptions s) (nullish (f_triggerOn s) TASK_TRIGGER_IP);
          includeCertificate = (if triggerSupportsCertificate triggerOn then f_includeCertificate s else False)
      in (nullish (tf_task s) new_task)
           \<lparr>task_recordId := tf_recordId s, task_name := f_name s, task_triggerOn := Some triggerOn,
            task_method := f_method s, task_url := f_url s, task_headers := serializeHeaders (f_headers s),
            task_body := Some (f_body s), task_includeCertificate := Some includeCertificate,
            task_certificateFormat := f_certificateFormat s, task_enabled := f_enabled s\<rparr>)"

definition save_task :: "validators \<Rightarrow> task_form \<Rightarrow> task_form" where
  "save_task V s =
     (if \<not> tf_valid V s then s else request (TfUpsert (buildPayload s)) (s\<lparr>tf_saving := True\<rparr>))"

definition on_task_saved :: "task_form \<Rightarrow> task_form" where
  "on_task_saved s =
     (let s1 = toast ''Task saved.'' (s\<lparr>tf_saving := False\<rparr>)
      in s1\<lparr>tf_onSave := Suc (tf_onSave s1), tf_drawer := close_op (tf_drawer s1)\<rparr>)"

definition on_task_save_failed :: "errval \<Rightarrow> task_form \<Rightarrow> task_form" where
  "on_task_save_failed e s = toast_error e ''Save failed'' (s\<lparr>tf_saving := False\<rparr>)"

fun tf_handle :: "tf_req \<Rightarrow> tf_reply \<Rightarrow> (task_form \<Rightarrow> task_form) option" where
  "tf_handle (TfUpsert _) TfOk = Some on_task_saved"
| "tf_handle (TfUpsert _) (TfErr e) = Some (on_task_save_failed e)"

datatype tf_event =
    TfOpen int int int "task_msg option"
  | TfName string
  | TfTrigger int
  | TfMethod string
  | TfUrl string
  | TfKey nat string
  | TfValue nat string
  | TfAddRow
  | TfRemoveRow nat
  | TfBody string
  | TfInclude bool
  | TfFormat string
  | TfEnabled bool
  | TfSave
  | TfCancel
  | TfCloseDue
  | TfReply nat tf_reply

text \<open>The selects offer the listed options only, and the save button is disabled while the form
  is invalid or saving.\<close>

fun tf_step :: "validators \<Rightarrow> task_form \<Rightarrow> tf_event \<Rightarrow> task_form" where
  "tf_step V s (TfOpen w i p t) = openForRecord w i p t s"
| "tf_step V s (TfName x) = s\<lparr>f_name := x\<rparr>"
| "tf_step V s (TfTrigger t) = (if t \<in> fst ` set (triggerOptions s) then s\<lparr>f_triggerOn := Some t\<rparr> else s)"
| "tf_step V s (TfMethod m) = (if m \<in> set HTTP_METHODS then s\<lparr>f_method := m\<rparr> else s)"
| "tf_step V s (TfUrl x) = s\<lparr>f_url := x\<rparr>"
| "tf_step V s (TfKey i x) =
     (if i < length (f_headers s) then s\<lparr>f_headers := (f_headers s)[i := (f_headers s ! i)\<lparr>row_key := x\<rparr>]\<rparr> else s)"
| "tf_step V s (TfValue i x) =
     (if i < length (f_headers s) then s\<lparr>f_headers := (f_headers s)[i := (f_headers s ! i)\<lparr>row_value := x\<rparr>]\<rparr> else s)"
| "tf_step V s TfAddRow = addHeaderRow '''' '''' s"
| "tf_step V s (TfRemoveRow i) = removeHeaderRow i s"
| "tf_step V s (TfBody x) = s\<lparr>f_body := x\<rparr>"
| "tf_step V s (TfInclude b) = (if supportsCertificatePayload s then s\<lparr>f_includeCertificate := b\<rparr> else s)"
| "tf_step V s (TfFormat x) =
     (if supportsCertificatePayload s \<and> f_includeCertificate s \<and> x \<in> set CERTIFICATE_FORMATS
      then s\<lparr>f_certificateFormat := x\<rparr> else s)"
| "tf_step V s (TfEnabled b) = s\<lparr>f_enabled := b\<rparr>"
| "tf_step V s TfSave = (if \<not> tf_valid V s \<or> tf_saving s then s else save_task V s)"
| "tf_step V s TfCancel = s\<lparr>tf_drawer := close_op (tf_drawer s)\<rparr>"
| "tf_step V s TfCloseDue = s\<lparr>tf_drawer := close_due (tf_drawer s)\<rparr>"
| "tf_step V s (TfReply k r) = on_reply tf_handle k r s"

subsection \<open>Header rows\<close>

definition header_complete :: "HeaderRow \<Rightarrow> bool" where
  "header_complete r \<longleftrightarrow> trim (row_key r) \<noteq> [] \<and> trim (row_value r) \<noteq> []"

definition header_blank :: "HeaderRow \<Rightarrow> bool" where
  "header_blank r \<longleftrightarrow> trim (row_key r) = [] \<and> trim (row_value r) = []"

definition header_key :: "HeaderRow \<Rightarrow> string" where
  "header_key r = trim (row_key r)"

lemma check_rows_result:
  "check_rows rows used inc dup =
     (inc \<or> (\<exists>r \<in> set rows. \<not> header_complete r \<and> \<not> header_blank r),
      dup \<or> \<not> distinct (map (toLowerCase \<circ> header_key) (filter header_complete rows)) \<or>
        (\<exists>r \<in> set rows. header_complete r \<and> toLowerCase (header_key r) \<in> set used))"
proof (induction rows arbitrary: used inc dup)
  case (Cons r rows)
  consider "header_blank r" "\<not> header_complete r" | "header_complete r" "\<not> header_blank r"
    | "\<not> header_complete r" "\<not> header_blank r"
    by (auto simp: header_complete_def header_blank_def)
  then show ?case
  proof cases
    case 1
    with Cons show ?thesis by (simp add: header_blank_def)
  next
    case 2
    then have "check_rows (r # rows) used inc dup =
        check_rows rows (toLowerCase (header_key r) # used) inc (dup \<or> toLowerCase (header_key r) \<in> set used)"
      by (simp add: header_complete_def header_key_def Let_def)
    with 2 Cons show ?thesis by (auto simp: image_iff)
  next
    case 3
    then have "check_rows (r # rows) used inc dup = check_rows rows used True dup"
      by (auto simp: header_complete_def header_blank_def Let_def)
    with 3 Cons show ?thesis by auto
  qed
qed simp

lemma validateHeaderRows_None:
  "validateHeaderRows rows = None \<longleftrightarrow>
     (\<forall>r \<in> set rows. header_complete r \<or> header_blank r) \<and>
     distinct (map (toLowerCase \<circ> header_key) (filter header_complete rows))"
  by (auto simp: validateHeaderRows_def check_rows_result)

definition header_pairs :: "HeaderRow list \<Rightarrow> (string \<times> jsval) list" where
  "header_pairs rows = map (\<lambda>r. (header_key r, JStr (trim (row_value r)))) (filter header_complete rows)"

lemma collect_headers_fold:
  "collect_headers rows hs = foldl (\<lambda>h (k, v). assign k v h) hs (header_pairs rows)"
  by (induction rows arbitrary: hs)
    (auto simp: Let_def header_pairs_def header_key_def header_complete_def)

lemma map_of_assigns:
  "map_of (foldl (\<lambda>h (k, v). assign k v h) hs ps) k =
     (if k = ''__proto__'' then map_of hs k else (map_of hs ++ map_of (rev ps)) k)"
  by (induction ps arbitrary: hs)
    (auto simp: assign_def map_add_def split: option.splits)

lemma canonical_assigns: "canonical hs \<Longrightarrow> canonical (foldl (\<lambda>h (k, v). assign k v h) hs ps)"
  by (induction ps arbitrary: hs) (auto simp: assign_def canonical_put)

lemma canonical_Nil: "canonical []"
  by (simp add: canonical_def)

lemma set_put: "set (put k v xs) \<subseteq> insert (k, v) (set xs)"
  by (induction k v xs rule: put.induct) (auto split: if_splits)

lemma assigns_values:
  "snd ` set (foldl (\<lambda>h (k, v). assign k v h) hs ps) \<subseteq> snd ` set hs \<union> snd ` set ps"
proof (induction ps arbitrary: hs)
  case (Cons p ps)
  obtain k v where p: "p = (k, v)" by force
  have "snd ` set (assign k v hs) \<subseteq> insert v (snd ` set hs)"
    using image_mono [OF set_put [of k v hs], of snd] by (auto simp: assign_def)
  with Cons [of "assign k v hs"] p show ?case by (simp add: subset_iff) blast
qed simp

lemma json_ok_headers: "json_ok (JObj (collect_headers rows []))"
proof -
  let ?h = "collect_headers rows []"
  have "snd ` set ?h \<subseteq> snd ` set (header_pairs rows)"
    using assigns_values [of "[]" "header_pairs rows"] by (simp add: collect_headers_fold)
  then have "list_all (\<lambda>p. json_ok (snd p)) ?h"
    by (force simp: list_all_iff header_pairs_def)
  moreover have "canonical ?h"
    by (simp add: collect_headers_fold canonical_assigns canonical_Nil)
  ultimately show ?thesis by simp
qed

lemma headers_lookup:
  assumes "validateHeaderRows rows = None"
  shows "map_of (collect_headers rows []) k =
    (if k = ''__proto__'' then None
     else map_option (\<lambda>r. JStr (trim (row_value r))) (List.find (\<lambda>r. header_complete r \<and> header_key r = k) rows))"
proof (cases "k = ''__proto__''")
  case True
  then show ?thesis by (simp add: collect_headers_fold map_of_assigns)
next
  case False
  have "distinct (map header_key (filter header_complete rows))"
    using assms(1) distinct_map [of toLowerCase "map header_key (filter header_complete rows)"]
    by (simp add: validateHeaderRows_None o_def)
  then have d: "distinct (map fst (rev (header_pairs rows)))"
    by (simp add: header_pairs_def rev_map [symmetric] o_def)
  have m: "map_of (collect_headers rows []) k = map_of (rev (header_pairs rows)) k"
    using False by (simp add: collect_headers_fold map_of_assigns)
  show ?thesis
  proof (cases "List.find (\<lambda>r. header_complete r \<and> header_key r = k) rows")
    case None
    then have "map_of (rev (header_pairs rows)) k = None"
      by (auto simp: map_of_eq_None_iff header_pairs_def find_None_iff)
    with None False m show ?thesis by simp
  next
    case (Some r)
    then have "(k, JStr (trim (row_value r))) \<in> set (rev (header_pairs rows))"
      by (auto simp: header_pairs_def dest!: find_Some_iff_first)
    with d m Some False show ?thesis by (simp add: map_of_eq_Some_iff)
  qed
qed

lemma headers_empty:
  assumes "validateHeaderRows rows = None"
  shows "collect_headers rows [] = [] \<longleftrightarrow> \<not> (\<exists>r \<in> set rows. header_complete r \<and> header_key r \<noteq> ''__proto__'')"
proof
  assume e: "collect_headers rows [] = []"
  show "\<not> (\<exists>r \<in> set rows. header_complete r \<and> header_key r \<noteq> ''__proto__'')"
  proof
    assume "\<exists>r \<in> set rows. header_complete r \<and> header_key r \<noteq> ''__proto__''"
    then obtain r where "r \<in> set rows" "header_complete r" "header_key r \<noteq> ''__proto__''" by blast
    moreover have "List.find (\<lambda>q. header_complete q \<and> header_key q = header_key r) rows = None"
      using headers_lookup [OF assms, of "header_key r"] e calculation(3) by simp
    ultimately show False by (auto simp: find_None_iff)
  qed
next
  assume n: "\<not> (\<exists>r \<in> set rows. header_complete r \<and> header_key r \<noteq> ''__proto__'')"
  have "map_of (collect_headers rows []) k = None" for k
    using headers_lookup [OF assms, of k] n by (auto simp: find_None_iff)
  then have "\<forall>k. k \<notin> fst ` set (collect_headers rows [])" by (simp only: map_of_eq_None_iff [symmetric] simp_thms)
  then have "fst ` set (collect_headers rows []) = {}" by (simp only: not_ex [symmetric] ex_in_conv not_not)
  then show "collect_headers rows [] = []" by simp
qed

lemma serialized_headers_parse:
  assumes "collect_headers rows [] \<noteq> []"
  shows "json_parse (serializeHeaders rows) = Some (JObj (collect_headers rows []))"
proof -
  obtain t where t: "stringify (JObj (collect_headers rows [])) = Some t"
    using stringify_ok [OF json_ok_headers] by blast
  with assms show ?thesis
    using json_roundtrip [OF json_ok_headers t] by (simp add: serializeHeaders_def)
qed

subsection \<open>Triggers and the form's invariant\<close>

lemma normalizeTrigger_offered:
  "normalizeTrigger (getTriggerOptionsForRecord p) t \<in> fst ` set (getTriggerOptionsForRecord p)"
  by (auto simp: normalizeTrigger_def getTriggerOptionsForRecord_def TRIGGER_OPTIONS_def Let_def)

lemma normalizeTrigger_id:
  "t \<in> fst ` set (getTriggerOptionsForRecord p) \<Longrightarrow> normalizeTrigger (getTriggerOptionsForRecord p) t = t"
  by (auto simp: normalizeTrigger_def getTriggerOptionsForRecord_def TRIGGER_OPTIONS_def isAllowedTrigger_def
      Let_def split: if_splits)

definition tf_sound :: "task_msg \<Rightarrow> bool" where
  "tf_sound t \<longleftrightarrow>
     (\<exists>tr \<in> {TASK_TRIGGER_IP, TASK_TRIGGER_CERT, TASK_TRIGGER_BOTH}.
        task_triggerOn t = Some tr \<and>
        (task_includeCertificate t = Some True \<longrightarrow> triggerSupportsCertificate tr))"

definition trigger_offered :: "int \<Rightarrow> int option \<Rightarrow> bool" where
  "trigger_offered p tr \<longleftrightarrow> (case tr of None \<Rightarrow> False | Some t \<Rightarrow> t \<in> fst ` set (getTriggerOptionsForRecord p))"

lemma trigger_offered_Some [simp]:
  "trigger_offered p (Some t) \<longleftrightarrow> t \<in> fst ` set (getTriggerOptionsForRecord p)"
  by (simp add: trigger_offered_def)

definition tf_inv :: "task_form \<Rightarrow> bool" where
  "tf_inv s \<longleftrightarrow>
     f_headers s \<noteq> [] \<and>
     triggerOptions s = getTriggerOptionsForRecord (recordPurpose s) \<and>
     trigger_offered (recordPurpose s) (f_triggerOn s) \<and>
     length (pending s) = (if tf_saving s then 1 else 0)"

lemma tf_inv_init: "tf_inv init_tf"
  by (simp add: tf_inv_def init_tf_def init_ui_def ui.defs getTriggerOptionsForRecord_def TRIGGER_OPTIONS_def)

lemma tf_inv_open: "tf_inv s \<Longrightarrow> tf_inv (openForRecord w i p t s)"
  using normalizeTrigger_offered [of p]
  by (auto simp: tf_inv_def openForRecord_def applyTriggerConstraints_def resetHeaderRows_def addHeaderRow_def
      Let_def split: option.splits)

lemma tf_inv_handle:
  assumes "tf_inv s" "k < length (pending s)" "tf_handle q r = Some f"
  shows "tf_inv (f (take_reply k s))"
  using assms
  by (cases q; cases r)
    (auto simp: tf_inv_def on_task_saved_def on_task_save_failed_def ui_defs Let_def remove_at_def split: if_splits)

lemma tf_inv_step: "tf_inv s \<Longrightarrow> tf_inv (tf_step V s e)"
proof (cases e)
  case (TfReply k r)
  assume "tf_inv s"
  then show ?thesis using TfReply by (auto intro: on_reply_cases tf_inv_handle)
next
  case (TfOpen w i p t)
  assume "tf_inv s"
  then show ?thesis using TfOpen by (simp add: tf_inv_open)
qed (auto simp: tf_inv_def addHeaderRow_def removeHeaderRow_def save_task_def request_def Let_def)

interpretation tf: quiescent_system "tf_step V" tf_inv pending "\<lambda>s. if tf_saving s then {()} else {}" "\<lambda>_. Some ()"
  for V
proof unfold_locales
  show "tf_inv (tf_step V s e)" if "tf_inv s" for s e
    using that by (rule tf_inv_step)
  show "\<exists>p \<in> set (pending s). Some () = Some m" if "tf_inv s" "m \<in> (if tf_saving s then {()} else {})" for s m
    using that by (cases "tf_saving s"; cases "pending s") (auto simp: tf_inv_def)
qed

subsection \<open>The form as a client of the services\<close>

fun tf_answered :: "tf_event \<Rightarrow> nat option" where
  "tf_answered (TfReply k r) = Some k"
| "tf_answered _ = None"

lemma tf_asks_handle: "tf_handle q r = Some f \<Longrightarrow> asks s (f s)"
  by (cases q; cases r) (auto simp: asks_def on_task_saved_def on_task_save_failed_def Let_def)

lemma tf_open_keeps [simp]:
  "sent (resetHeaderRows s) = sent s" "pending (resetHeaderRows s) = pending s" "notifier (resetHeaderRows s) = notifier s"
  "sent (applyTriggerConstraints s) = sent s" "pending (applyTriggerConstraints s) = pending s"
  "notifier (applyTriggerConstraints s) = notifier s"
  by (simp_all add: resetHeaderRows_def addHeaderRow_def applyTriggerConstraints_def Let_def)

lemma tf_asks_open: "asks s (openForRecord w i p t s)"
  by (cases t) (simp_all only: asks_def openForRecord_def Let_def option.case tf_open_keeps ui.simps task_form.simps, simp_all)

interpretation tf_http: http_client "tf_step V" tf_answered for V
proof unfold_locales
  show "asks s (tf_step V s e)" if "tf_answered e = None" for s e
    using that by (cases e) (simp_all add: tf_asks_open, simp_all add: asks_def addHeaderRow_def removeHeaderRow_def
        save_task_def Let_def)
  show "tf_step V s e = s \<or> k < length (pending s) \<and> asks (take_reply k s) (tf_step V s e)"
    if "tf_answered e = Some k" for s e k
    by (insert that, cases e; simp) (rule reply_asks, erule tf_asks_handle)
qed

text \<open>Its invariant reads nothing of the service.\<close>

interpretation tf_hosted: hosted_client "tf_step V" tf_answered tf_inv for V
  by unfold_locales (simp add: tf_inv_def lend_def)

subsection \<open>Properties\<close>

text \<open>
  The validator of the header rows accepts exactly the rows where each is complete or blank
  and the keys of the complete ones differ in more than case and outer white space.
\<close>

theorem header_rows_accepted:
  "validateHeaderRows rows = None \<longleftrightarrow>
     list_all (\<lambda>r. header_complete r \<or> header_blank r) rows \<and>
     distinct (map (\<lambda>r. toLowerCase (trim (row_key r))) (filter header_complete rows))"
  by (simp add: validateHeaderRows_None list_all_iff o_def header_key_def)

text \<open>
  C4. The headers of a valid form, from its rows to the text that is saved and back: every complete row but
  one survives, under its trimmed key with its trimmed value, and nothing else is there. The
  one that is lost is a row with the key \<open>__proto__\<close>, which the form accepts: the assignment
  to that property stores nothing. When no row is left, the text is empty.
\<close>

theorem headers_roundtrip:
  assumes "validateHeaderRows rows = None"
  shows "if \<exists>r \<in> set rows. header_complete r \<and> trim (row_key r) \<noteq> ''__proto__''
    then \<exists>kvs. json_parse (serializeHeaders rows) = Some (JObj kvs) \<and>
      (\<forall>k. map_of kvs k =
        (if k = ''__proto__'' then None
         else map_option (\<lambda>r. JStr (trim (row_value r)))
                (List.find (\<lambda>r. header_complete r \<and> trim (row_key r) = k) rows)))
    else serializeHeaders rows = ''''"
proof (cases "collect_headers rows [] = []")
  case True
  with headers_empty [OF assms] have "\<not> (\<exists>r \<in> set rows. header_complete r \<and> trim (row_key r) \<noteq> ''__proto__'')"
    by (simp add: header_key_def)
  moreover have "serializeHeaders rows = ''''" using True by (simp add: serializeHeaders_def)
  ultimately show ?thesis by (simp only: if_False)
next
  case False
  with headers_empty [OF assms] have "\<exists>r \<in> set rows. header_complete r \<and> trim (row_key r) \<noteq> ''__proto__''"
    by (simp add: header_key_def)
  moreover have "\<forall>k. map_of (collect_headers rows []) k =
      (if k = ''__proto__'' then None
       else map_option (\<lambda>r. JStr (trim (row_value r)))
              (List.find (\<lambda>r. header_complete r \<and> trim (row_key r) = k) rows))"
    using headers_lookup [OF assms] by (simp add: header_key_def)
  ultimately show ?thesis using serialized_headers_parse [OF False] by (simp only: if_True) blast
qed

theorem headers_roundtrip_witness:
  "(\<exists>kvs. json_parse (serializeHeaders
       [createHeaderRow ''Accept'' '' text/plain '', createHeaderRow '''' '' '', createHeaderRow ''__proto__'' ''x'']) =
     Some (JObj kvs) \<and> map_of kvs ''Accept'' = Some (JStr ''text/plain'') \<and> map_of kvs ''__proto__'' = None)"
proof -
  let ?rows = "[createHeaderRow ''Accept'' '' text/plain '', createHeaderRow '''' '' '', createHeaderRow ''__proto__'' ''x'']"
  have v: "validateHeaderRows ?rows = None" by code_simp
  have t: "trim '' text/plain '' = ''text/plain''" "trim ''Accept'' = ''Accept''" by code_simp+
  then have "\<exists>r \<in> set ?rows. header_complete r \<and> trim (row_key r) \<noteq> ''__proto__''"
    by (simp add: createHeaderRow_def header_complete_def)
  with headers_roundtrip [OF v] obtain kvs where k: "json_parse (serializeHeaders ?rows) = Some (JObj kvs)"
    "\<And>k. map_of kvs k =
        (if k = ''__proto__'' then None
         else map_option (\<lambda>r. JStr (trim (row_value r)))
                (List.find (\<lambda>r. header_complete r \<and> trim (row_key r) = k) ?rows))"
    by (auto simp only: if_True)
  have "map_of kvs ''Accept'' = Some (JStr ''text/plain'')"
    using k(2) [of "''Accept''"] t by (simp add: createHeaderRow_def header_complete_def)
  with k(1) k(2) [of "''__proto__''"] show ?thesis by auto
qed

text \<open>
  C14. A task the form saves is one the overview lists: in every run the payload belongs to the
  record the form was opened for, and its trigger matches the record's purpose.
\<close>

theorem saved_task_listed:
  assumes "nullish (rec_purpose r) RECORD_PURPOSE_UNSPECIFIED = recordPurpose (run (tf_step V) init_tf es)"
  shows "taskMatchesRecordPurpose (buildPayload (run (tf_step V) init_tf es)) r \<and>
    task_recordId (buildPayload (run (tf_step V) init_tf es)) = tf_recordId (run (tf_step V) init_tf es) \<and>
    tf_sound (buildPayload (run (tf_step V) init_tf es))"
proof -
  let ?s = "run (tf_step V) init_tf es"
  have inv: "tf_inv ?s" using tf.inv_run [OF tf_inv_init] .
  then obtain t where t: "f_triggerOn ?s = Some t" "t \<in> fst ` set (getTriggerOptionsForRecord (recordPurpose ?s))"
    by (cases "f_triggerOn ?s") (auto simp: tf_inv_def trigger_offered_def)
  then have "normalizeTrigger (triggerOptions ?s) (nullish (f_triggerOn ?s) TASK_TRIGGER_IP) = t"
    using inv normalizeTrigger_id by (simp add: tf_inv_def)
  then have p: "task_triggerOn (buildPayload ?s) = Some t"
    "task_includeCertificate (buildPayload ?s) = Some (triggerSupportsCertificate t \<and> f_includeCertificate ?s)"
    "task_recordId (buildPayload ?s) = tf_recordId ?s"
    by (simp_all add: buildPayload_def Let_def)
  have "t \<in> {TASK_TRIGGER_IP, TASK_TRIGGER_CERT, TASK_TRIGGER_BOTH}"
    "recordPurpose ?s = RECORD_PURPOSE_DDNS \<Longrightarrow> t = TASK_TRIGGER_IP"
    "recordPurpose ?s = RECORD_PURPOSE_CERT \<Longrightarrow> t = TASK_TRIGGER_CERT"
    using t(2) by (auto simp: getTriggerOptionsForRecord_def TRIGGER_OPTIONS_def split: if_splits)
  then show ?thesis
    using p assms by (auto simp: taskMatchesRecordPurpose_def tf_sound_def)
qed

theorem saved_task_listed_witness:
  "taskMatchesRecordPurpose (buildPayload (run (tf_step plain_validators) init_tf
     [TfOpen 1000 7 RECORD_PURPOSE_DDNS None])) sample_record"
  using saved_task_listed [of sample_record plain_validators "[TfOpen 1000 7 RECORD_PURPOSE_DDNS None]"]
  by (simp add: sample_record_def openForRecord_def applyTriggerConstraints_def resetHeaderRows_def
      addHeaderRow_def Let_def)

text \<open>
  The form is never submitted twice: in every run it is saving exactly while its one request
  is in flight.
\<close>

theorem save_in_flight_once:
  "length (pending (run (tf_step V) init_tf es)) = (if tf_saving (run (tf_step V) init_tf es) then 1 else 0)"
  using tf.inv_run [OF tf_inv_init, of V es] by (simp add: tf_inv_def)

text \<open>
  Saving sends the payload once, and only when the form has a name, a URL that starts with
  http or https and accepted header rows, whatever else the validators do.
\<close>

theorem save_sends_valid_payload:
  assumes "angular_validators V" "sent (tf_step V s TfSave) \<noteq> sent s"
  shows "sent (tf_step V s TfSave) = sent s @ [TfUpsert (buildPayload s)] \<and>
    f_name s \<noteq> '''' \<and> test_here url_pattern (f_url s) \<and> validateHeaderRows (f_headers s) = None \<and> \<not> tf_saving s"
proof -
  have v: "tf_valid V s" "\<not> tf_saving s" using assms(2) by (auto split: if_splits)
  then have "f_name s \<noteq> []" "f_url s \<noteq> []" "test_here url_pattern (f_url s)"
    "validateHeaderRows (f_headers s) = None"
    unfolding tf_valid_def angular_validators.pattern_text [OF assms(1)]
      angular_validators.required_text [OF assms(1)] by blast+
  with v show ?thesis by (simp add: save_task_def)
qed

abbreviation filled_form :: task_form where
  "filled_form \<equiv> init_tf\<lparr>f_name := ''hook'', f_url := ''https://h/x''\<rparr>"

theorem save_sends_valid_payload_witness:
  "sent (tf_step plain_validators filled_form TfSave) = [TfUpsert (buildPayload filled_form)]"
proof -
  have "validateHeaderRows (f_headers filled_form) = None" by code_simp
  moreover have "test_here url_pattern ''https://h/x''" by code_simp
  ultimately have "sent (tf_step plain_validators filled_form TfSave) \<noteq> sent filled_form"
    by (simp add: tf_valid_def plain.pattern_text save_task_def init_tf_def init_ui_def ui.defs)
  note save_sends_valid_payload [OF plain.angular_validators_axioms this]
  moreover have "sent filled_form = []" by (simp add: init_tf_def init_ui_def ui.defs)
  ultimately show ?thesis by (simp only: append_Nil)
qed

text \<open>
  Editing a task without touching the form changes nothing but the headers: the payload is
  the task itself, with empty headers, which the server takes as no change.
\<close>

theorem edit_without_change:
  assumes "task_triggerOn t = Some tr" "tr \<in> fst ` set (getTriggerOptionsForRecord p)"
    and "task_method t \<noteq> ''''" "task_certificateFormat t \<noteq> ''''" "task_body t = Some b"
    and "task_includeCertificate t = Some inc" "inc \<longrightarrow> triggerSupportsCertificate tr"
  shows "buildPayload (openForRecord w i p (Some t) s) = t\<lparr>task_recordId := i, task_headers := ''''\<rparr>"
proof -
  have h: "serializeHeaders [createHeaderRow '''' ''''] = ''''" by code_simp
  show ?thesis
    using assms h normalizeTrigger_id [OF assms(2)]
    by (cases t) (auto simp: buildPayload_def openForRecord_def applyTriggerConstraints_def resetHeaderRows_def
        addHeaderRow_def or_str_def Let_def)
qed

theorem edit_without_change_witness:
  "buildPayload (openForRecord 1000 7 RECORD_PURPOSE_BOTH (Some (new_task\<lparr>task_id := 4, task_triggerOn := Some 2,
       task_method := ''PUT'', task_certificateFormat := ''pem'', task_body := Some ''x'',
       task_includeCertificate := Some True\<rparr>)) init_tf) =
     new_task\<lparr>task_id := 4, task_recordId := 7, task_triggerOn := Some 2, task_method := ''PUT'',
       task_certificateFormat := ''pem'', task_body := Some ''x'', task_includeCertificate := Some True\<rparr>"
  by (subst edit_without_change [where tr = 2 and b = "''x''" and inc = True])
    (simp_all add: getTriggerOptionsForRecord_def TRIGGER_OPTIONS_def triggerSupportsCertificate_def new_task_def)

end
