(* ===== verification/RecordForm.thy ===== *)
theory RecordForm
  imports Forms
begin

text \<open>
  The record form (\<^verbatim>\<open>pages/home/drawers/record-form/record-form-drawer.component.ts\<close>): a token
  group, a zone group and a details group, the zones loaded for the token, the timers that move
  the stepper on, and the payload \<open>save\<close> sends.

  \<open>prepareForm\<close> replaces the token group when it edits a record, and the constructor subscribed
  to the first group only, so the token groups are a list: the first is the one subscribed to,
  \<open>token_cur\<close> is the one on the page. A timer is a handle with its callback; \<open>debounce\<close> is
  the value \<open>debounceTime\<close> holds back and \<open>last_token\<close>, \<open>last_token_status\<close> and
  \<open>last_zone_status\<close> are what \<open>distinctUntilChanged\<close> compares with. \<open>stepper_next\<close> is the
  library's \<open>stepper.next()\<close> on the selected index.
\<close>

datatype step = TokenStep | ZoneStep

record token_group =
  tg_token :: string
  tg_required :: bool

datatype rf_timer =
    AdvanceTimer step nat
  | PrepareEdit int string
  | PrepareAdd

datatype rf_req = RfZones int string | RfUpsert record_msg

datatype rf_reply = RfRepZones "zone_msg list option" | RfRepOk | RfRepErr errval

record record_form = "(unit, rf_req) ui" +
  rf_record :: "record_msg option"
  zones :: "zone_msg list"
  zonesLoading :: bool
  rf_saving :: bool
  autoAdvanceSuspended :: bool
  tokenAdvanceTimer :: "nat option"
  zoneAdvanceTimer :: "nat option"
  rf_timers :: "(nat \<times> rf_timer) list"
  next_timer :: nat
  token_groups :: "token_group list"
  token_cur :: nat
  zone_value :: "int option"
  d_name :: string
  d_ttl :: "int option"
  d_purpose :: "int option"
  d_includeWildcard :: bool
  d_acmeEmail :: string
  selectedIndex :: "nat option"
  debounce :: "string option"
  last_token :: "string option"
  last_token_status :: "bool option"
  last_zone_status :: "bool option"
  subscribed :: bool
  rf_drawer :: drawer
  rf_onSave :: nat

definition autoAdvanceDelayMs :: nat where
  "autoAdvanceDelayMs = 350"

definition init_rf :: record_form where
  "init_rf = ui.extend init_ui
     \<lparr>rf_record = None, zones = [], zonesLoading = False, rf_saving = False, autoAdvanceSuspended = False,
      tokenAdvanceTimer = None, zoneAdvanceTimer = None, rf_timers = [], next_timer = 0,
      token_groups = [\<lparr>tg_token = '''', tg_required = True\<rparr>], token_cur = 0, zone_value = Some 0,
      d_name = '''', d_ttl = Some 60, d_purpose = Some RECORD_PURPOSE_DDNS, d_includeWildcard = False,
      d_acmeEmail = '''', selectedIndex = Some 0, debounce = None, last_token = None,
      last_token_status = None, last_zone_status = None, subscribed = True, rf_drawer = form_drawer,
      rf_onSave = 0\<rparr>"

definition rf_call :: "rf_req \<Rightarrow> 'c call" where
  "rf_call q = (case q of RfZones i token \<Rightarrow> getZones i (Some token) | RfUpsert r \<Rightarrow> upsertRecord r)"

subsection \<open>Validity of the groups\<close>

definition token_group_at :: "nat \<Rightarrow> record_form \<Rightarrow> token_group" where
  "token_group_at g s = (if g < length (token_groups s) then token_groups s ! g else \<lparr>tg_token = '''', tg_required = True\<rparr>)"

definition token_valid :: "validators \<Rightarrow> token_group \<Rightarrow> bool" where
  "token_valid V g \<longleftrightarrow> (tg_required g \<longrightarrow> v_required V (JStr (tg_token g)))"

definition zone_valid :: "validators \<Rightarrow> record_form \<Rightarrow> bool" where
  "zone_valid V s \<longleftrightarrow> v_required V (number_value (zone_value s)) \<and> v_min V 1 (number_value (zone_value s))"

definition details_valid :: "validators \<Rightarrow> record_form \<Rightarrow> bool" where
  "details_valid V s \<longleftrightarrow>
     v_required V (JStr (d_name s)) \<and>
     v_required V (number_value (d_ttl s)) \<and> v_min V 1 (number_value (d_ttl s)) \<and>
     v_required V (number_value (d_purpose s))"

definition group_valid :: "validators \<Rightarrow> step \<Rightarrow> nat \<Rightarrow> record_form \<Rightarrow> bool" where
  "group_valid V st g s =
     (case st of TokenStep \<Rightarrow> token_valid V (token_group_at g s) | ZoneStep \<Rightarrow> zone_valid V s)"

definition expectedIndex :: "step \<Rightarrow> nat" where
  "expectedIndex st = (case st of TokenStep \<Rightarrow> 0 | ZoneStep \<Rightarrow> 1)"

subsection \<open>Timers\<close>

definition setTimeout :: "rf_timer \<Rightarrow> record_form \<Rightarrow> record_form" where
  "setTimeout t s = s\<lparr>rf_timers := rf_timers s @ [(next_timer s, t)], next_timer := Suc (next_timer s)\<rparr>"

definition clearTimeout :: "nat \<Rightarrow> record_form \<Rightarrow> record_form" where
  "clearTimeout h s = s\<lparr>rf_timers := filter (\<lambda>t. fst t \<noteq> h) (rf_timers s)\<rparr>"

definition clearAdvanceTimer :: "step \<Rightarrow> record_form \<Rightarrow> record_form" where
  "clearAdvanceTimer st s =
     (case (case st of TokenStep \<Rightarrow> tokenAdvanceTimer s | ZoneStep \<Rightarrow> zoneAdvanceTimer s) of
        None \<Rightarrow> s
      | Some timer \<Rightarrow>
          (let s1 = clearTimeout timer s
           in case st of TokenStep \<Rightarrow> s1\<lparr>tokenAdvanceTimer := None\<rparr>
              | ZoneStep \<Rightarrow> s1\<lparr>zoneAdvanceTimer := None\<rparr>))"

definition clearAdvanceTimers :: "record_form \<Rightarrow> record_form" where
  "clearAdvanceTimers s = clearAdvanceTimer ZoneStep (clearAdvanceTimer TokenStep s)"

definition scheduleStepAdvance :: "validators \<Rightarrow> step \<Rightarrow> record_form \<Rightarrow> record_form" where
  "scheduleStepAdvance V st s =
     (if autoAdvanceSuspended s \<or> selectedIndex s = None then s
      else (let g = token_cur s; s1 = clearAdvanceTimer st s
            in if selectedIndex s1 \<noteq> Some (expectedIndex st) \<or> \<not> group_valid V st g s1 then s1
               else (let h = next_timer s1; s2 = setTimeout (AdvanceTimer st g) s1
                     in case st of TokenStep \<Rightarrow> s2\<lparr>tokenAdvanceTimer := Some h\<rparr>
                        | ZoneStep \<Rightarrow> s2\<lparr>zoneAdvanceTimer := Some h\<rparr>)))"

definition advance_due :: "validators \<Rightarrow> (nat \<Rightarrow> nat) \<Rightarrow> step \<Rightarrow> nat \<Rightarrow> record_form \<Rightarrow> record_form" where
  "advance_due V stepper_next st g s =
     (if autoAdvanceSuspended s \<or> selectedIndex s \<noteq> Some (expectedIndex st) \<or> \<not> group_valid V st g s then s
      else s\<lparr>selectedIndex := map_option stepper_next (selectedIndex s)\<rparr>)"

subsection \<open>Zones\<close>

text \<open>The status stream of the zone group, after every value it is given.\<close>

definition zone_status_changed :: "validators \<Rightarrow> record_form \<Rightarrow> record_form" where
  "zone_status_changed V s =
     (if \<not> subscribed s \<or> last_zone_status s = Some (zone_valid V s) then s
      else scheduleStepAdvance V ZoneStep (s\<lparr>last_zone_status := Some (zone_valid V s)\<rparr>))"

definition set_zone :: "validators \<Rightarrow> int \<Rightarrow> record_form \<Rightarrow> record_form" where
  "set_zone V z s = zone_status_changed V (s\<lparr>zone_value := Some z\<rparr>)"

definition loadZones :: "string \<Rightarrow> record_form \<Rightarrow> record_form" where
  "loadZones token s =
     request (RfZones (case rf_record s of None \<Rightarrow> 0 | Some r \<Rightarrow> rec_id r) token) (s\<lparr>zonesLoading := True\<rparr>)"

definition on_zones :: "validators \<Rightarrow> zone_msg list option \<Rightarrow> record_form \<Rightarrow> record_form" where
  "on_zones V res s =
     (let s1 = s\<lparr>zones := nullish res []\<rparr>;
          s2 = (if \<not> (\<exists>z \<in> set (zones s1). Some (zone_id z) = zone_value s1) then set_zone V 0 s1 else s1)
      in s2\<lparr>zonesLoading := False\<rparr>)"

definition on_zones_failed :: "validators \<Rightarrow> errval \<Rightarrow> record_form \<Rightarrow> record_form" where
  "on_zones_failed V e s =
     toast_error e ''Failed to load zones'' ((set_zone V 0 (s\<lparr>zones := []\<rparr>))\<lparr>zonesLoading := False\<rparr>)"

subsection \<open>The token group\<close>

text \<open>A value set on the token group \<open>g\<close>: the first group's streams have subscribers.\<close>

definition set_token :: "validators \<Rightarrow> string \<Rightarrow> record_form \<Rightarrow> record_form" where
  "set_token V token s =
     (let g = token_cur s;
          s1 = s\<lparr>token_groups := (token_groups s)[g := (token_group_at g s)\<lparr>tg_token := token\<rparr>]\<rparr>;
          ok = token_valid V (token_group_at g s1)
      in if g \<noteq> 0 \<or> \<not> subscribed s then s1
         else (let s2 = s1\<lparr>debounce := Some token\<rparr>
               in if last_token_status s2 = Some ok then s2
                  else scheduleStepAdvance V TokenStep (s2\<lparr>last_token_status := Some ok\<rparr>)))"

definition debounce_due :: "validators \<Rightarrow> record_form \<Rightarrow> record_form" where
  "debounce_due V s =
     (case debounce s of
        None \<Rightarrow> s
      | Some token \<Rightarrow>
          (let s1 = s\<lparr>debounce := None\<rparr>
           in if last_token s1 = Some token then s1
              else (let s2 = s1\<lparr>last_token := Some token\<rparr>;
                        editing = (case rf_record s2 of None \<Rightarrow> False | Some r \<Rightarrow> rec_id r \<noteq> 0)
                    in if editing \<or> token \<noteq> '''' then loadZones token s2
                       else set_zone V 0 ((clearAdvanceTimer TokenStep s2)\<lparr>zones := []\<rparr>))))"

subsection \<open>Opening\<close>

definition prepareForm :: "validators \<Rightarrow> record_msg option \<Rightarrow> record_form \<Rightarrow> record_form" where
  "prepareForm V rcd s =
     (let s1 = clearAdvanceTimers (s\<lparr>autoAdvanceSuspended := True\<rparr>)
      in case rcd of
           Some r \<Rightarrow>
             (let s2 = s1\<lparr>token_groups := token_groups s1 @ [\<lparr>tg_token = '''', tg_required = False\<rparr>],
                          token_cur := length (token_groups s1)\<rparr>;
                  s3 = set_zone V (rec_zoneId r) s2;
                  s4 = s3\<lparr>d_name := rec_name r, d_ttl := Some (rec_ttl r),
                          d_purpose := Some (nullish (rec_purpose r) RECORD_PURPOSE_DDNS),
                          d_includeWildcard := nullish (rec_includeWildcard r) False,
                          d_acmeEmail := nullish (rec_acmeEmail r) ''''\<rparr>
              in setTimeout (PrepareEdit (rec_id r) (rec_token r)) s4)
         | None \<Rightarrow>
             (let s2 = set_zone V 0 (set_token V '''' s1);
                  s3 = s2\<lparr>d_name := '''', d_ttl := Some 60, d_purpose := Some RECORD_PURPOSE_DDNS,
                          d_includeWildcard := False, d_acmeEmail := '''', zones := []\<rparr>
              in setTimeout PrepareAdd s3))"

definition open_record :: "validators \<Rightarrow> int \<Rightarrow> record_msg option \<Rightarrow> record_form \<Rightarrow> record_form" where
  "open_record V w rcd s =
     (let s1 = prepareForm V rcd (s\<lparr>rf_record := rcd\<rparr>) in s1\<lparr>rf_drawer := open_op w (rf_drawer s1)\<rparr>)"

definition timer_callback :: "validators \<Rightarrow> (nat \<Rightarrow> nat) \<Rightarrow> rf_timer \<Rightarrow> record_form \<Rightarrow> record_form" where
  "timer_callback V stepper_next t s =
     (case t of
        AdvanceTimer st g \<Rightarrow> advance_due V stepper_next st g s
      | PrepareEdit i token \<Rightarrow>
          (let s1 = (if i \<noteq> 0 \<or> token \<noteq> '''' then loadZones token s else s)
           in s1\<lparr>selectedIndex := map_option (\<lambda>_. 2) (selectedIndex s1), autoAdvanceSuspended := False\<rparr>)
      | PrepareAdd \<Rightarrow> s\<lparr>selectedIndex := map_option (\<lambda>_. 0) (selectedIndex s), autoAdvanceSuspended := False\<rparr>)"

definition timer_due :: "validators \<Rightarrow> (nat \<Rightarrow> nat) \<Rightarrow> nat \<Rightarrow> record_form \<Rightarrow> record_form" where
  "timer_due V stepper_next h s =
     (case map_of (rf_timers s) h of
        None \<Rightarrow> s
      | Some t \<Rightarrow> timer_callback V stepper_next t (clearTimeout h s))"

definition ngOnDestroy_rf :: "record_form \<Rightarrow> record_form" where
  "ngOnDestroy_rf s = (clearAdvanceTimers s)\<lparr>subscribed := False, debounce := None\<rparr>"

subsection \<open>Saving\<close>

definition rf_valid :: "validators \<Rightarrow> record_form \<Rightarrow> bool" where
  "rf_valid V s \<longleftrightarrow> token_valid V (token_group_at (token_cur s) s) \<and> zone_valid V s \<and> details_valid V s"

text \<open>The base of a new record's payload. The source also puts a property \<open>lastRefresh: 0\<close> there,
  which the message \<open>Record\<close> does not have: the record type has no place for it, and neither
  codec nor components read it.\<close>

definition new_record :: record_msg where
  "new_record =
     \<lparr>rec_id = 0, rec_createdAt = 0, rec_updatedAt = 0, rec_token = '''', rec_zoneId = 0, rec_domain = '''',
      rec_name = '''', rec_ttl = 0, rec_addressId = 0, rec_address = None,
      rec_purpose = Some RECORD_PURPOSE_UNSPECIFIED, rec_includeWildcard = Some False,
      rec_certificate = None, rec_acmeEmail = None\<rparr>"

text \<open>\<open>zones.find(\<dots>)?.name?.trim() ?? record?.domain?.trim() ?? ''\<close>.\<close>

definition chosen_domain :: "record_form \<Rightarrow> string" where
  "chosen_domain s =
     nullish (map_option trim (Option.bind (List.find (\<lambda>z. Some (zone_id z) = zone_value s) (zones s)) zone_name))
       (nullish (map_option (\<lambda>r. trim (rec_domain r)) (rf_record s)) '''')"

definition record_payload :: "record_form \<Rightarrow> record_msg" where
  "record_payload s =
     (let purpose = nullish (d_purpose s) RECORD_PURPOSE_UNSPECIFIED;
          includeWildcard = (if purpose = RECORD_PURPOSE_UNSPECIFIED then False else d_includeWildcard s);
          acmeEmail = (if purpose = RECORD_PURPOSE_DDNS then '''' else trim (d_acmeEmail s))
      in (nullish (rf_record s) new_record)
           \<lparr>rec_token := tg_token (token_group_at (token_cur s) s), rec_zoneId := nullish (zone_value s) 0,
            rec_domain := chosen_domain s, rec_name := d_name s, rec_ttl := nullish (d_ttl s) 0,
            rec_purpose := Some purpose, rec_includeWildcard := Some includeWildcard,
            rec_acmeEmail := Some acmeEmail\<rparr>)"

definition save_record :: "validators \<Rightarrow> record_form \<Rightarrow> record_form" where
  "save_record V s =
     (if \<not> rf_valid V s then s
      else if chosen_domain s = '''' then
        toast_error (EStr ''Select a valid zone before saving.'') ''Save failed'' s
      else request (RfUpsert (record_payload s)) (s\<lparr>rf_saving := True\<rparr>))"

definition on_record_saved :: "record_form \<Rightarrow> record_form" where
  "on_record_saved s =
     (let s1 = toast ''Record saved.'' (s\<lparr>rf_onSave := Suc (rf_onSave s), rf_saving := False\<rparr>)
      in s1\<lparr>rf_drawer := close_op (rf_drawer s1)\<rparr>)"

definition on_record_save_failed :: "errval \<Rightarrow> record_form \<Rightarrow> record_form" where
  "on_record_save_failed e s = toast_error e ''Save failed'' (s\<lparr>rf_saving := False\<rparr>)"

fun rf_handle :: "validators \<Rightarrow> rf_req \<Rightarrow> rf_reply \<Rightarrow> (record_form \<Rightarrow> record_form) option" where
  "rf_handle V (RfZones _ _) (RfRepZones res) = Some (on_zones V res)"
| "rf_handle V (RfZones _ _) (RfRepErr e) = Some (on_zones_failed V e)"
| "rf_handle V (RfUpsert _) RfRepOk = Some on_record_saved"
| "rf_handle V (RfUpsert _) (RfRepErr e) = Some (on_record_save_failed e)"
| "rf_handle V _ _ = None"

datatype rf_event =
    RfOpen int "record_msg option"
  | RfToken string
  | RfZone int
  | RfName string
  | RfTtl "int option"
  | RfPurpose int
  | RfWildcard bool
  | RfAcme string
  | RfStep nat
  | RfSave
  | RfCancel
  | RfCloseDue
  | RfTimerDue nat
  | RfDebounceDue
  | RfReply nat rf_reply
  | RfDestroy

text \<open>The fields the template hides for a purpose, and the selects' options, are the guards.\<close>

fun rf_step :: "validators \<Rightarrow> (nat \<Rightarrow> nat) \<Rightarrow> record_form \<Rightarrow> rf_event \<Rightarrow> record_form" where
  "rf_step V nx s (RfOpen w r) = open_record V w r s"
| "rf_step V nx s (RfToken x) = set_token V x s"
| "rf_step V nx s (RfZone z) = (if z \<in> zone_id ` set (zones s) then set_zone V z s else s)"
| "rf_step V nx s (RfName x) = s\<lparr>d_name := x\<rparr>"
| "rf_step V nx s (RfTtl x) = (if d_purpose s \<noteq> Some 2 then s\<lparr>d_ttl := x\<rparr> else s)"
| "rf_step V nx s (RfPurpose p) = (if p \<in> {1, 2, 3} then s\<lparr>d_purpose := Some p\<rparr> else s)"
| "rf_step V nx s (RfWildcard b) = (if d_purpose s \<noteq> Some 1 then s\<lparr>d_includeWildcard := b\<rparr> else s)"
| "rf_step V nx s (RfAcme x) = (if d_purpose s \<noteq> Some 1 then s\<lparr>d_acmeEmail := x\<rparr> else s)"
| "rf_step V nx s (RfStep i) = s\<lparr>selectedIndex := map_option (\<lambda>_. i) (selectedIndex s)\<rparr>"
| "rf_step V nx s RfSave = (if \<not> rf_valid V s \<or> rf_saving s then s else save_record V s)"
| "rf_step V nx s RfCancel = s\<lparr>rf_drawer := close_op (rf_drawer s)\<rparr>"
| "rf_step V nx s RfCloseDue = s\<lparr>rf_drawer := close_due (rf_drawer s)\<rparr>"
| "rf_step V nx s (RfTimerDue h) = timer_due V nx h s"
| "rf_step V nx s RfDebounceDue = debounce_due V s"
| "rf_step V nx s (RfReply k r) = on_reply (rf_handle V) k r s"
| "rf_step V nx s RfDestroy = ngOnDestroy_rf s"

subsection \<open>Invariant\<close>

lemma timers_keep [simp]:
  "pending (setTimeout t s) = pending s" "sent (setTimeout t s) = sent s"
  "rf_saving (setTimeout t s) = rf_saving s" "zonesLoading (setTimeout t s) = zonesLoading s"
  "pending (clearTimeout h s) = pending s" "sent (clearTimeout h s) = sent s"
  "rf_saving (clearTimeout h s) = rf_saving s" "zonesLoading (clearTimeout h s) = zonesLoading s"
  by (simp_all add: setTimeout_def clearTimeout_def)

lemma clearAdvanceTimer_keeps [simp]:
  "pending (clearAdvanceTimer st s) = pending s" "sent (clearAdvanceTimer st s) = sent s"
  "rf_saving (clearAdvanceTimer st s) = rf_saving s" "zonesLoading (clearAdvanceTimer st s) = zonesLoading s"
  by (auto simp: clearAdvanceTimer_def Let_def split: step.splits option.splits)

lemma scheduleStepAdvance_keeps [simp]:
  "pending (scheduleStepAdvance V st s) = pending s" "sent (scheduleStepAdvance V st s) = sent s"
  "rf_saving (scheduleStepAdvance V st s) = rf_saving s"
  "zonesLoading (scheduleStepAdvance V st s) = zonesLoading s"
  by (auto simp: scheduleStepAdvance_def Let_def split: step.splits)

lemma set_zone_keeps [simp]:
  "pending (set_zone V z s) = pending s" "sent (set_zone V z s) = sent s"
  "rf_saving (set_zone V z s) = rf_saving s" "zonesLoading (set_zone V z s) = zonesLoading s"
  by (simp_all add: set_zone_def zone_status_changed_def)

lemma set_token_keeps [simp]:
  "pending (set_token V x s) = pending s" "sent (set_token V x s) = sent s"
  "rf_saving (set_token V x s) = rf_saving s" "zonesLoading (set_token V x s) = zonesLoading s"
  by (simp_all add: set_token_def Let_def)

lemma prepareForm_keeps [simp]:
  "pending (prepareForm V r s) = pending s" "sent (prepareForm V r s) = sent s"
  "rf_saving (prepareForm V r s) = rf_saving s" "zonesLoading (prepareForm V r s) = zonesLoading s"
  by (auto simp: prepareForm_def clearAdvanceTimers_def Let_def split: option.splits)

datatype rf_mark = SavingMark | ZonesMark

definition rf_marks :: "record_form \<Rightarrow> rf_mark set" where
  "rf_marks s = (if rf_saving s then {SavingMark} else {}) \<union> (if zonesLoading s then {ZonesMark} else {})"

definition rf_mark_of :: "rf_req \<Rightarrow> rf_mark option" where
  "rf_mark_of q = Some (case q of RfZones _ _ \<Rightarrow> ZonesMark | RfUpsert _ \<Rightarrow> SavingMark)"

definition is_upsert :: "rf_req \<Rightarrow> bool" where
  "is_upsert q = (case q of RfUpsert _ \<Rightarrow> True | _ \<Rightarrow> False)"

definition rf_inv :: "record_form \<Rightarrow> bool" where
  "rf_inv s \<longleftrightarrow>
     length (filter is_upsert (pending s)) = (if rf_saving s then 1 else 0) \<and>
     (zonesLoading s \<longrightarrow> (\<exists>q \<in> set (pending s). \<not> is_upsert q))"

lemma rf_inv_cong:
  assumes "pending t = pending s" "rf_saving t = rf_saving s" "zonesLoading t = zonesLoading s"
  shows "rf_inv t = rf_inv s"
  using assms by (simp add: rf_inv_def)

lemma rf_inv_init: "rf_inv init_rf"
  by (simp add: rf_inv_def init_rf_def init_ui_def ui.defs)

lemma rf_inv_loadZones: "rf_inv s \<Longrightarrow> rf_inv (loadZones token s)"
  by (auto simp: rf_inv_def loadZones_def request_def is_upsert_def)

lemma rf_inv_debounce: "rf_inv s \<Longrightarrow> rf_inv (debounce_due V s)"
  by (auto simp: debounce_due_def Let_def split: option.splits
      intro!: rf_inv_loadZones intro: rf_inv_cong [THEN iffD1, rotated 3])

lemma rf_inv_callback: "rf_inv s \<Longrightarrow> rf_inv (timer_callback V nx t s)"
proof (cases t)
  case (PrepareEdit i token)
  assume s: "rf_inv s"
  have "rf_inv (if i \<noteq> 0 \<or> token \<noteq> '''' then loadZones token s else s)"
    using s rf_inv_loadZones by auto
  then show ?thesis using PrepareEdit by (auto simp: timer_callback_def rf_inv_def Let_def)
qed (auto simp: timer_callback_def rf_inv_def advance_due_def)

lemma length_filter_remove_at:
  assumes "k < length xs"
  shows "length (filter P xs) = (if P (xs ! k) then 1 else 0) + length (filter P (remove_at k xs))"
proof -
  have "xs = take k xs @ xs ! k # drop (Suc k) xs" using assms by (rule id_take_nth_drop)
  then have "filter P xs = filter P (take k xs @ xs ! k # drop (Suc k) xs)" by simp
  then show ?thesis by (simp add: remove_at_def)
qed

lemma rf_inv_handle:
  assumes "rf_inv s" "k < length (pending s)" "pending s ! k = q" "rf_handle V q r = Some f"
  shows "rf_inv (f (take_reply k s))"
proof -
  have "length (filter is_upsert (pending s)) =
      (if is_upsert q then 1 else 0) + length (filter is_upsert (remove_at k (pending s)))"
    using length_filter_remove_at [OF assms(2), of is_upsert] assms(3) by simp
  moreover have "\<exists>p \<in> set (remove_at k (pending s)). \<not> is_upsert p" if "is_upsert q" "zonesLoading s"
    using assms(1,3) that in_set_remove_at [of _ "pending s" k] by (auto simp: rf_inv_def)
  ultimately show ?thesis
    using assms(1,4)
    by (cases q; cases r)
      (auto simp: rf_inv_def is_upsert_def on_zones_def on_zones_failed_def on_record_saved_def
        on_record_save_failed_def toast_def toast_error_def take_reply_def Let_def split: if_splits)
qed

lemma rf_inv_step: "rf_inv s \<Longrightarrow> rf_inv (rf_step V nx s e)"
proof (cases e)
  case (RfReply k r)
  assume "rf_inv s"
  then show ?thesis using RfReply by (auto intro: on_reply_cases rf_inv_handle)
next
  case RfDebounceDue
  assume "rf_inv s"
  then show ?thesis using RfDebounceDue by (simp add: rf_inv_debounce)
next
  case (RfTimerDue h)
  assume "rf_inv s"
  then have "rf_inv (clearTimeout h s)" by (simp add: rf_inv_def)
  with \<open>rf_inv s\<close> show ?thesis using RfTimerDue by (auto simp: timer_due_def rf_inv_callback split: option.splits)
qed (auto simp: rf_inv_def open_record_def save_record_def request_def toast_error_def is_upsert_def Let_def
    ngOnDestroy_rf_def clearAdvanceTimers_def)

interpretation rf: quiescent_system "rf_step V nx" rf_inv pending rf_marks rf_mark_of for V nx
proof unfold_locales
  show "rf_inv (rf_step V nx s e)" if "rf_inv s" for s e
    using that by (rule rf_inv_step)
  show "\<exists>p \<in> set (pending s). rf_mark_of p = Some m" if "rf_inv s" "m \<in> rf_marks s" for s m
  proof -
    have "\<exists>p \<in> set (pending s). is_upsert p" if "rf_saving s"
      using \<open>rf_inv s\<close> that by (metis rf_inv_def filter_False list.size(3) zero_neq_one)
    with that show ?thesis
      by (auto simp: rf_inv_def rf_marks_def rf_mark_of_def is_upsert_def split: if_splits rf_req.splits) 
  qed
qed

lemma zone_valid_iff:
  assumes "angular_validators V"
  shows "zone_valid V s \<longleftrightarrow> (\<exists>z. zone_value s = Some z \<and> 1 \<le> z)"
  by (cases "zone_value s")
    (simp_all add: zone_valid_def angular_validators.required_null [OF assms]
      angular_validators.required_number [OF assms] angular_validators.min_number [OF assms])

lemma details_valid_iff:
  assumes "angular_validators V"
  shows "details_valid V s \<longleftrightarrow>
    d_name s \<noteq> '''' \<and> (\<exists>ttl. d_ttl s = Some ttl \<and> 1 \<le> ttl) \<and> d_purpose s \<noteq> None"
  by (cases "d_ttl s"; cases "d_purpose s")
    (simp_all add: details_valid_def angular_validators.required_null [OF assms]
      angular_validators.required_number [OF assms] angular_validators.min_number [OF assms]
      angular_validators.required_text [OF assms])

subsection \<open>The form as a client of the services\<close>

fun rf_answered :: "rf_event \<Rightarrow> nat option" where
  "rf_answered (RfReply k r) = Some k"
| "rf_answered _ = None"

lemma notifier_timers [simp]:
  "notifier (clearTimeout h s) = notifier s" "notifier (setTimeout t s) = notifier s"
  by (simp_all add: clearTimeout_def setTimeout_def)

lemma notifier_advance [simp]:
  "notifier (clearAdvanceTimer st s) = notifier s" "notifier (clearAdvanceTimers s) = notifier s"
  by (simp_all add: clearAdvanceTimer_def clearAdvanceTimers_def Let_def split: step.split option.split)

lemma notifier_schedule [simp]: "notifier (scheduleStepAdvance V st s) = notifier s"
  by (simp add: scheduleStepAdvance_def Let_def split: step.split)

lemma notifier_groups [simp]:
  "notifier (set_zone V z s) = notifier s" "notifier (set_token V x s) = notifier s"
  by (simp_all add: set_zone_def zone_status_changed_def set_token_def Let_def)

lemma notifier_prepare [simp]: "notifier (prepareForm V r s) = notifier s"
  by (simp add: prepareForm_def Let_def split: option.split)

lemma rf_asks_handle: "rf_handle V q r = Some f \<Longrightarrow> asks s (f s)"
  by (cases q; cases r)
    (auto simp: asks_def on_zones_def on_zones_failed_def on_record_saved_def on_record_save_failed_def Let_def)

lemma rf_asks_callback: "asks s t \<Longrightarrow> asks s (timer_callback V nx x t)"
  by (auto simp: asks_def timer_callback_def advance_due_def loadZones_def Let_def split: rf_timer.split)

interpretation rf_http: http_client "rf_step V nx" rf_answered for V nx
proof unfold_locales
  show "asks s (rf_step V nx s e)" if "rf_answered e = None" for s e
  proof (cases e)
    case (RfTimerDue h)
    have "asks s (clearTimeout h s)" by (simp add: asks_def clearTimeout_def)
    then show ?thesis using RfTimerDue by (simp add: timer_due_def rf_asks_callback split: option.split)
  next
    case RfDebounceDue
    then show ?thesis
      by (simp add: asks_def debounce_due_def loadZones_def Let_def split: option.split)
  next
    case RfSave
    then show ?thesis by (simp add: asks_def save_record_def)
  qed (use that in \<open>simp_all add: asks_def open_record_def ngOnDestroy_rf_def clearAdvanceTimers_def Let_def\<close>)
  show "rf_step V nx s e = s \<or> k < length (pending s) \<and> asks (take_reply k s) (rf_step V nx s e)"
    if "rf_answered e = Some k" for s e k
    by (insert that, cases e; simp) (rule reply_asks, erule rf_asks_handle)
qed

text \<open>Its invariant reads nothing of the service.\<close>

interpretation rf_hosted: hosted_client "rf_step V nx" rf_answered rf_inv for V nx
  by unfold_locales (simp add: rf_inv_def lend_def)

subsection \<open>Properties\<close>

text \<open>
  C15. The record form settles and never submits twice: in every run it is saving exactly while
  its one save request is in flight, and it shows no loading hint once nothing is in flight.
\<close>

theorem record_form_settles:
  "length (filter is_upsert (pending (run (rf_step V nx) init_rf es))) =
     (if rf_saving (run (rf_step V nx) init_rf es) then 1 else 0) \<and>
   (pending (run (rf_step V nx) init_rf es) = [] \<longrightarrow> \<not> zonesLoading (run (rf_step V nx) init_rf es))"
  using rf.inv_run [OF rf_inv_init, of V nx es] rf.quiescent_no_marks [OF rf_inv_init, of V nx es]
  by (auto simp: rf_inv_def rf_marks_def)

theorem record_form_settles_witness:
  "\<not> zonesLoading (run (rf_step plain_validators Suc) init_rf
     [RfOpen 1000 (Some sample_record), RfTimerDue 0, RfReply 0 (RfRepErr EFalsy)])"
proof -
  have "pending (run (rf_step plain_validators Suc) init_rf
      [RfOpen 1000 (Some sample_record), RfTimerDue 0, RfReply 0 (RfRepErr EFalsy)]) = []"
    by code_simp
  with record_form_settles [of plain_validators Suc
      "[RfOpen 1000 (Some sample_record), RfTimerDue 0, RfReply 0 (RfRepErr EFalsy)]"]
  show ?thesis by blast
qed

text \<open>
  C39. A record is sent only when it is complete: with a name, a zone, a time to live of at least
  one second and a domain, under the identifier of the record that is edited, or zero for a new
  one.
\<close>

theorem save_sends_complete_record:
  assumes "angular_validators V" "sent (rf_step V nx s RfSave) \<noteq> sent s"
  shows "sent (rf_step V nx s RfSave) = sent s @ [RfUpsert (record_payload s)] \<and>
    rec_name (record_payload s) \<noteq> '''' \<and> 1 \<le> rec_zoneId (record_payload s) \<and>
    1 \<le> rec_ttl (record_payload s) \<and> rec_domain (record_payload s) \<noteq> '''' \<and>
    rec_id (record_payload s) = (case rf_record s of None \<Rightarrow> 0 | Some r \<Rightarrow> rec_id r) \<and> \<not> rf_saving s"
proof -
  have v: "rf_valid V s" "\<not> rf_saving s" using assms(2) by (auto split: if_splits)
  moreover have "chosen_domain s \<noteq> ''''"
    using assms(2) v by (auto simp: save_record_def)
  moreover have "\<exists>z. zone_value s = Some z \<and> 1 \<le> z" "d_name s \<noteq> ''''" "\<exists>ttl. d_ttl s = Some ttl \<and> 1 \<le> ttl"
    using v(1) zone_valid_iff [OF assms(1)] details_valid_iff [OF assms(1)] by (auto simp: rf_valid_def)
  ultimately show ?thesis
    by (auto simp: save_record_def record_payload_def Let_def new_record_def split: option.splits)
qed

theorem save_sends_complete_record_witness:
  "let s = init_rf\<lparr>token_groups := [\<lparr>tg_token = ''k'', tg_required = True\<rparr>], d_name := ''www'',
       zone_value := Some 3, zones := [\<lparr>zone_id = 3, zone_name = Some '' example.org ''\<rparr>]\<rparr>
   in sent (rf_step plain_validators Suc s RfSave) = [RfUpsert (record_payload s)] \<and>
      rec_domain (record_payload s) \<noteq> ''''"
proof -
  let ?s = "init_rf\<lparr>token_groups := [\<lparr>tg_token = ''k'', tg_required = True\<rparr>], d_name := ''www'',
       zone_value := Some 3, zones := [\<lparr>zone_id = 3, zone_name = Some '' example.org ''\<rparr>]\<rparr>"
  have e: "sent ?s = []" by (simp add: init_rf_def init_ui_def ui.defs)
  have "length (sent (rf_step plain_validators Suc ?s RfSave)) = 1" by code_simp
  then have "sent (rf_step plain_validators Suc ?s RfSave) \<noteq> sent ?s"
    by (metis e list.size(3) zero_neq_one)
  from save_sends_complete_record [OF plain.angular_validators_axioms this] e
  show ?thesis by (simp only: append_Nil Let_def simp_thms)
qed

text \<open>
  Once a record has been edited, the form for a new record is dead: the token typed into it
  loads no zones and is not required any more, while a fresh form requires it and loads them.
\<close>

theorem add_after_edit_dead:
  "(let s = run (rf_step plain_validators Suc) init_rf
        [RfOpen 1000 (Some sample_record), RfTimerDue 0, RfOpen 1000 None, RfTimerDue 1,
         RfToken ''secret'', RfDebounceDue]
    in sent s = [RfZones 7 ''t''] \<and> zones s = [] \<and> \<not> tg_required (token_group_at (token_cur s) s)) \<and>
   (let s = run (rf_step plain_validators Suc) init_rf
        [RfOpen 1000 None, RfTimerDue 0, RfToken ''secret'', RfDebounceDue]
    in sent s = [RfZones 0 ''secret''] \<and> tg_required (token_group_at (token_cur s) s))"
  by code_simp

text \<open>
  A record that is turned into a dynamic one keeps the wildcard it had as a certificate
  record, although the form hides it and clears the account's address.
\<close>

theorem ddns_keeps_wildcard:
  assumes "rec_includeWildcard r = Some True"
  shows "let p = record_payload (run (rf_step V nx) init_rf [RfOpen w (Some r), RfPurpose 1]) in
    rec_purpose p = Some RECORD_PURPOSE_DDNS \<and> rec_includeWildcard p = Some True \<and> rec_acmeEmail p = Some ''''"
  using assms by (simp add: record_payload_def open_record_def prepareForm_def setTimeout_def Let_def)

theorem ddns_keeps_wildcard_witness:
  "rec_includeWildcard (record_payload (run (rf_step plain_validators Suc) init_rf
     [RfOpen 1000 (Some (sample_record\<lparr>rec_includeWildcard := Some True\<rparr>)), RfPurpose 1])) = Some True"
  using ddns_keeps_wildcard [of "sample_record\<lparr>rec_includeWildcard := Some True\<rparr>" plain_validators Suc 1000]
  by (simp add: Let_def)

subsection \<open>A field that is hidden and required\<close>

text \<open>The events that show the time to live again: another purpose, or opening the form anew.\<close>

fun reveals_ttl :: "rf_event \<Rightarrow> bool" where
  "reveals_ttl (RfPurpose p) = True"
| "reveals_ttl (RfOpen w r) = True"
| "reveals_ttl _ = False"

definition ttl_locked :: "rf_req list \<Rightarrow> record_form \<Rightarrow> bool" where
  "ttl_locked c s \<longleftrightarrow> d_purpose s = Some 2 \<and> d_ttl s = None \<and> filter is_upsert (sent s) = c"

lemma ttl_locked_cong:
  "d_purpose t = d_purpose s \<Longrightarrow> d_ttl t = d_ttl s \<Longrightarrow> filter is_upsert (sent t) = filter is_upsert (sent s) \<Longrightarrow>
   ttl_locked c t = ttl_locked c s"
  by (simp add: ttl_locked_def)

lemma details_kept:
  "d_purpose (clearAdvanceTimer st s) = d_purpose s" "d_ttl (clearAdvanceTimer st s) = d_ttl s"
  "sent (clearAdvanceTimer st s) = sent s"
  "d_purpose (scheduleStepAdvance V st s) = d_purpose s" "d_ttl (scheduleStepAdvance V st s) = d_ttl s"
  "sent (scheduleStepAdvance V st s) = sent s"
  by (simp_all add: clearAdvanceTimer_def scheduleStepAdvance_def clearTimeout_def setTimeout_def Let_def
      split: step.split option.split)

lemma details_kept2:
  "d_purpose (set_zone V z s) = d_purpose s" "d_ttl (set_zone V z s) = d_ttl s" "sent (set_zone V z s) = sent s"
  "d_purpose (set_token V x s) = d_purpose s" "d_ttl (set_token V x s) = d_ttl s" "sent (set_token V x s) = sent s"
  by (simp_all add: set_zone_def zone_status_changed_def set_token_def details_kept Let_def)

lemma locked_ops [simp]:
  "ttl_locked c (set_zone V z s) = ttl_locked c s" "ttl_locked c (set_token V x s) = ttl_locked c s"
  "ttl_locked c (loadZones x s) = ttl_locked c s" "ttl_locked c (take_reply k s) = ttl_locked c s"
  "ttl_locked c (toast m s) = ttl_locked c s" "ttl_locked c (toast_error e txt s) = ttl_locked c s"
  "ttl_locked c (clearAdvanceTimer st s) = ttl_locked c s" "ttl_locked c (clearAdvanceTimers s) = ttl_locked c s"
  "ttl_locked c (clearTimeout h s) = ttl_locked c s"
  by (rule ttl_locked_cong;
      simp add: details_kept details_kept2 loadZones_def request_def take_reply_def
        is_upsert_def clearAdvanceTimers_def clearTimeout_def toast_def toast_error_def; fail)+

lemma locked_fields [simp]:
  "ttl_locked c (s\<lparr>zones := zs\<rparr>) = ttl_locked c s" "ttl_locked c (s\<lparr>zonesLoading := b\<rparr>) = ttl_locked c s"
  "ttl_locked c (s\<lparr>rf_saving := b\<rparr>) = ttl_locked c s" "ttl_locked c (s\<lparr>selectedIndex := i\<rparr>) = ttl_locked c s"
  "ttl_locked c (s\<lparr>autoAdvanceSuspended := b\<rparr>) = ttl_locked c s" "ttl_locked c (s\<lparr>debounce := d\<rparr>) = ttl_locked c s"
  "ttl_locked c (s\<lparr>last_token := t\<rparr>) = ttl_locked c s" "ttl_locked c (s\<lparr>subscribed := b\<rparr>) = ttl_locked c s"
  "ttl_locked c (s\<lparr>rf_drawer := w\<rparr>) = ttl_locked c s" "ttl_locked c (s\<lparr>rf_onSave := n\<rparr>) = ttl_locked c s"
  "ttl_locked c (s\<lparr>d_name := x\<rparr>) = ttl_locked c s" "ttl_locked c (s\<lparr>d_includeWildcard := b\<rparr>) = ttl_locked c s"
  "ttl_locked c (s\<lparr>d_acmeEmail := x\<rparr>) = ttl_locked c s"
  by (rule ttl_locked_cong; simp; fail)+

lemma ttl_locked_timer: "ttl_locked c (timer_callback V nx t s) = ttl_locked c s"
  by (auto simp: timer_callback_def advance_due_def Let_def split: rf_timer.split)

lemma ttl_locked_handle: "rf_handle V q r = Some f \<Longrightarrow> ttl_locked c (f (take_reply k s)) = ttl_locked c s"
  by (cases q; cases r)
    (auto simp: on_zones_def on_zones_failed_def on_record_saved_def on_record_save_failed_def Let_def
      split: if_splits)

lemma ttl_locked_invalid:
  assumes "angular_validators V" "ttl_locked c s"
  shows "\<not> rf_valid V s"
  using assms(2) details_valid_iff [OF assms(1), of s] by (simp add: rf_valid_def ttl_locked_def)

lemma ttl_locked_step:
  assumes "angular_validators V" "ttl_locked c s" "\<not> reveals_ttl e"
  shows "ttl_locked c (rf_step V nx s e)"
proof (cases e)
  case (RfReply k r)
  then show ?thesis using assms(2)
    by (auto intro!: on_reply_cases [where P = "ttl_locked c"] simp: ttl_locked_handle)
qed (use assms ttl_locked_invalid [OF assms(1,2)] in \<open>auto simp: timer_due_def ttl_locked_timer debounce_due_def
      ngOnDestroy_rf_def Let_def split: option.split\<close>, simp_all add: ttl_locked_def)

text \<open>
  C40. A certificate record whose time to live was cleared cannot be saved: the template hides the
  field, its validator still requires it, so that, whatever is done to the form short of another
  purpose or opening it anew, no record is sent; and the form gets there from a fresh start with
  every field it shows filled in.
\<close>

theorem hidden_ttl_locks_form:
  assumes "angular_validators V" "d_purpose s = Some 2" "d_ttl s = None" "list_all (\<lambda>e. \<not> reveals_ttl e) es"
  shows "filter is_upsert (sent (run (rf_step V nx) s es)) = filter is_upsert (sent s) \<and>
    \<not> rf_valid V (run (rf_step V nx) s es)"
proof -
  let ?c = "filter is_upsert (sent s)"
  have "guarded_system (rf_step V nx) (ttl_locked ?c) (\<lambda>e. \<not> reveals_ttl e)"
    by unfold_locales (rule ttl_locked_step [OF assms(1)])
  moreover have "ttl_locked ?c s" using assms(2,3) by (simp add: ttl_locked_def)
  ultimately have "ttl_locked ?c (run (rf_step V nx) s es)"
    using assms(4) by (rule guarded_system.inv_guarded_run)
  then show ?thesis using ttl_locked_invalid [OF assms(1)] by (auto simp: ttl_locked_def)
qed

definition hidden_ttl_events :: "rf_event list" where
  "hidden_ttl_events =
     [RfOpen 1000 None, RfTimerDue 0, RfToken ''secret'', RfDebounceDue,
      RfReply 0 (RfRepZones (Some [\<lparr>zone_id = 3, zone_name = Some ''example.org''\<rparr>])), RfZone 3,
      RfName ''www'', RfTtl None, RfPurpose 2]"

theorem hidden_ttl_locks_form_witness:
  "filter is_upsert (sent (run (rf_step plain_validators Suc)
     (run (rf_step plain_validators Suc) init_rf hidden_ttl_events) [RfSave, RfName ''mail'', RfSave])) = []"
proof -
  let ?s = "run (rf_step plain_validators Suc) init_rf hidden_ttl_events"
  have "d_purpose ?s = Some 2" "d_ttl ?s = None" "filter is_upsert (sent ?s) = []"
    by code_simp+
  with hidden_ttl_locks_form [OF plain.angular_validators_axioms, of ?s "[RfSave, RfName ''mail'', RfSave]" Suc]
  show ?thesis by simp
qed

text \<open>The fields that are shown in the state of the witness are all valid.\<close>

lemma hidden_ttl_shown_valid:
  "let s = run (rf_step plain_validators Suc) init_rf hidden_ttl_events
   in token_valid plain_validators (token_group_at (token_cur s) s) \<and> zone_valid plain_validators s \<and>
      d_name s = ''www'' \<and> chosen_domain s = ''example.org'' \<and>
      rf_valid plain_validators (s\<lparr>d_ttl := Some 60\<rparr>)"
  by code_simp

end
