(* ===== verification/ConfigForm.thy ===== *)
theory ConfigForm
  imports Forms "HOL-Library.Multiset"
begin

text \<open>
  The settings drawer (\<^verbatim>\<open>pages/home/drawers/config/config-drawer.component.ts\<close>). A
  \<open>configuration\<close> is the message with every field an option: a field the server left out, or
  a control without a value. The library's \<open>moveItemInArray\<close> is an argument, with its
  documented behaviour as the locale \<open>array_move\<close>.
\<close>

record configuration =
  cfg_logLevel :: "int option"
  cfg_refreshCron :: "string option"
  cfg_dnsServers :: "string list option"
  cfg_ipv4Resolvers :: "string list option"
  cfg_ipv6Resolvers :: "string list option"
  cfg_ipv4ResolverAgreementThreshold :: "number option"
  cfg_ipv6ResolverAgreementThreshold :: "number option"
  cfg_ipv4ResolverMinResponses :: "int option"
  cfg_ipv6ResolverMinResponses :: "int option"
  cfg_notificationsEnabled :: "bool option"
  cfg_notificationsOnSuccess :: "bool option"
  cfg_notificationsCooldownMinutes :: "int option"
  cfg_notificationsSubjectPrefix :: "string option"
  cfg_notificationsRecipients :: "string list option"
  cfg_acmeEnabled :: "bool option"
  cfg_acmeEmail :: "string option"
  cfg_acmeStaging :: "bool option"
  cfg_acmeRenewBeforeDays :: "int option"

definition LOG_LEVELS :: "(int \<times> string) list" where
  "LOG_LEVELS = [(-1, ''Trace''), (0, ''Debug''), (1, ''Info''), (2, ''Warning''), (3, ''Error'')]"

text \<open>The lists of the form, which the four array operations take by name.\<close>

datatype array_field = DnsServers | Ipv4Resolvers | Ipv6Resolvers | NotificationsRecipients

fun field_value :: "array_field \<Rightarrow> configuration \<Rightarrow> string list option" where
  "field_value DnsServers c = cfg_dnsServers c"
| "field_value Ipv4Resolvers c = cfg_ipv4Resolvers c"
| "field_value Ipv6Resolvers c = cfg_ipv6Resolvers c"
| "field_value NotificationsRecipients c = cfg_notificationsRecipients c"

fun set_field :: "array_field \<Rightarrow> string list \<Rightarrow> configuration \<Rightarrow> configuration" where
  "set_field DnsServers xs c = c\<lparr>cfg_dnsServers := Some xs\<rparr>"
| "set_field Ipv4Resolvers xs c = c\<lparr>cfg_ipv4Resolvers := Some xs\<rparr>"
| "set_field Ipv6Resolvers xs c = c\<lparr>cfg_ipv6Resolvers := Some xs\<rparr>"
| "set_field NotificationsRecipients xs c = c\<lparr>cfg_notificationsRecipients := Some xs\<rparr>"

datatype cf_req = CfGet | CfUpdate configuration

datatype cf_reply = CfRepConfig configuration | CfRepOk | CfRepErr errval

record config_form = "(unit, cf_req) ui" +
  cf_loading :: bool
  cf_saving :: bool
  cf_form :: configuration
  cf_drawer :: drawer

definition initial_form :: configuration where
  "initial_form =
     \<lparr>cfg_logLevel = Some 0, cfg_refreshCron = Some '''', cfg_dnsServers = Some [],
      cfg_ipv4Resolvers = Some [], cfg_ipv6Resolvers = Some [],
      cfg_ipv4ResolverAgreementThreshold = Some (dec 5 (-1)), cfg_ipv6ResolverAgreementThreshold = Some (dec 5 (-1)),
      cfg_ipv4ResolverMinResponses = Some 1, cfg_ipv6ResolverMinResponses = Some 1,
      cfg_notificationsEnabled = Some False, cfg_notificationsOnSuccess = Some False,
      cfg_notificationsCooldownMinutes = Some 60, cfg_notificationsSubjectPrefix = Some ''[hdns]'',
      cfg_notificationsRecipients = Some [], cfg_acmeEnabled = Some False, cfg_acmeEmail = Some '''',
      cfg_acmeStaging = Some True, cfg_acmeRenewBeforeDays = Some 30\<rparr>"

definition init_cf :: config_form where
  "init_cf = ui.extend init_ui
     \<lparr>cf_loading = True, cf_saving = False, cf_form = initial_form, cf_drawer = form_drawer\<rparr>"

definition cf_call :: "cf_req \<Rightarrow> configuration call" where
  "cf_call q = (case q of CfGet \<Rightarrow> getConfig | CfUpdate c \<Rightarrow> updateConfig c)"

subsection \<open>The lists\<close>

definition addToArray :: "array_field \<Rightarrow> string \<Rightarrow> config_form \<Rightarrow> config_form" where
  "addToArray field val s =
     (let trimmed = trim val
      in if trimmed = '''' then s
         else (let current = nullish (field_value field (cf_form s)) []
               in s\<lparr>cf_form := set_field field (current @ [trimmed]) (cf_form s)\<rparr>))"

text \<open>\<open>/^[^\s@]+@[^\s@]+\.[^\s@]+$/\<close>, anchored at the start.\<close>

definition mail_char :: "char \<Rightarrow> bool" where
  "mail_char c \<longleftrightarrow> \<not> is_ws c \<and> c \<noteq> CHR ''@''"

definition email_pattern :: re where
  "email_pattern =
     Seq [Plus mail_char, Cls (\<lambda>c. c = CHR ''@''), Plus mail_char, Cls (\<lambda>c. c = CHR ''.''),
          Plus mail_char, AtEnd]"

definition addRecipient :: "string \<Rightarrow> config_form \<Rightarrow> config_form" where
  "addRecipient val s =
     (let trimmed = trim val
      in if trimmed = '''' then s
         else if \<not> test_here email_pattern trimmed then toast_error EFalsy ''Invalid email address'' s
         else addToArray NotificationsRecipients trimmed s)"

definition removeFromArray :: "array_field \<Rightarrow> nat \<Rightarrow> config_form \<Rightarrow> config_form" where
  "removeFromArray field index s =
     (let current = nullish (field_value field (cf_form s)) []
      in s\<lparr>cf_form := set_field field (remove_at index current) (cf_form s)\<rparr>)"

definition onDrop ::
  "(string list \<Rightarrow> nat \<Rightarrow> nat \<Rightarrow> string list) \<Rightarrow> array_field \<Rightarrow> nat \<Rightarrow> nat \<Rightarrow> config_form \<Rightarrow> config_form" where
  "onDrop moveItemInArray field previousIndex currentIndex s =
     (if previousIndex = currentIndex then s
      else (let current = nullish (field_value field (cf_form s)) []
            in s\<lparr>cf_form := set_field field (moveItemInArray current previousIndex currentIndex) (cf_form s)\<rparr>))"

subsection \<open>Loading and saving\<close>

definition open_config :: "int \<Rightarrow> config_form \<Rightarrow> config_form" where
  "open_config w s =
     (let s1 = s\<lparr>cf_loading := True\<rparr>
      in request CfGet (s1\<lparr>cf_drawer := open_op w (cf_drawer s1)\<rparr>))"

definition patch_config :: "configuration \<Rightarrow> configuration" where
  "patch_config cfg =
     cfg\<lparr>cfg_logLevel := Some (nullish (cfg_logLevel cfg) 0),
         cfg_dnsServers := Some (nullish (cfg_dnsServers cfg) []),
         cfg_ipv4Resolvers := Some (nullish (cfg_ipv4Resolvers cfg) []),
         cfg_ipv6Resolvers := Some (nullish (cfg_ipv6Resolvers cfg) []),
         cfg_ipv4ResolverAgreementThreshold := Some (nullish (cfg_ipv4ResolverAgreementThreshold cfg) (dec 5 (-1))),
         cfg_ipv6ResolverAgreementThreshold := Some (nullish (cfg_ipv6ResolverAgreementThreshold cfg) (dec 5 (-1))),
         cfg_ipv4ResolverMinResponses := Some (nullish (cfg_ipv4ResolverMinResponses cfg) 1),
         cfg_ipv6ResolverMinResponses := Some (nullish (cfg_ipv6ResolverMinResponses cfg) 1),
         cfg_notificationsEnabled := Some (nullish (cfg_notificationsEnabled cfg) False),
         cfg_notificationsOnSuccess := Some (nullish (cfg_notificationsOnSuccess cfg) False),
         cfg_notificationsCooldownMinutes := Some (nullish (cfg_notificationsCooldownMinutes cfg) 60),
         cfg_notificationsSubjectPrefix := Some (nullish (cfg_notificationsSubjectPrefix cfg) ''[hdns]''),
         cfg_notificationsRecipients := Some (nullish (cfg_notificationsRecipients cfg) []),
         cfg_acmeEnabled := Some (nullish (cfg_acmeEnabled cfg) False),
         cfg_acmeEmail := Some (nullish (cfg_acmeEmail cfg) ''''),
         cfg_acmeStaging := Some (nullish (cfg_acmeStaging cfg) True),
         cfg_acmeRenewBeforeDays := Some (nullish (cfg_acmeRenewBeforeDays cfg) 30)\<rparr>"

definition on_config :: "configuration \<Rightarrow> config_form \<Rightarrow> config_form" where
  "on_config cfg s = s\<lparr>cf_loading := False, cf_form := patch_config cfg\<rparr>"

definition on_config_failed :: "errval \<Rightarrow> config_form \<Rightarrow> config_form" where
  "on_config_failed e s = toast_error e ''Failed to load config'' (s\<lparr>cf_loading := False\<rparr>)"

definition config_payload :: "configuration \<Rightarrow> configuration" where
  "config_payload v =
     \<lparr>cfg_logLevel = Some (nullish (cfg_logLevel v) 0),
      cfg_refreshCron = Some (nullish (cfg_refreshCron v) ''''),
      cfg_dnsServers = Some (nullish (cfg_dnsServers v) []),
      cfg_ipv4Resolvers = Some (nullish (cfg_ipv4Resolvers v) []),
      cfg_ipv6Resolvers = Some (nullish (cfg_ipv6Resolvers v) []),
      cfg_ipv4ResolverAgreementThreshold = Some (nullish (cfg_ipv4ResolverAgreementThreshold v) (dec 5 (-1))),
      cfg_ipv6ResolverAgreementThreshold = Some (nullish (cfg_ipv6ResolverAgreementThreshold v) (dec 5 (-1))),
      cfg_ipv4ResolverMinResponses = Some (nullish (cfg_ipv4ResolverMinResponses v) 1),
      cfg_ipv6ResolverMinResponses = Some (nullish (cfg_ipv6ResolverMinResponses v) 1),
      cfg_notificationsEnabled = Some (nullish (cfg_notificationsEnabled v) False),
      cfg_notificationsOnSuccess = Some (nullish (cfg_notificationsOnSuccess v) False),
      cfg_notificationsCooldownMinutes = Some (nullish (cfg_notificationsCooldownMinutes v) 0),
      cfg_notificationsSubjectPrefix = Some (nullish (cfg_notificationsSubjectPrefix v) ''''),
      cfg_notificationsRecipients = Some (nullish (cfg_notificationsRecipients v) []),
      cfg_acmeEnabled = Some (nullish (cfg_acmeEnabled v) False),
      cfg_acmeEmail = Some (nullish (cfg_acmeEmail v) ''''),
      cfg_acmeStaging = Some (nullish (cfg_acmeStaging v) True),
      cfg_acmeRenewBeforeDays = Some (nullish (cfg_acmeRenewBeforeDays v) 30)\<rparr>"

definition save_config :: "config_form \<Rightarrow> config_form" where
  "save_config s = request (CfUpdate (config_payload (cf_form s))) (s\<lparr>cf_saving := True\<rparr>)"

definition on_config_saved :: "config_form \<Rightarrow> config_form" where
  "on_config_saved s =
     (let s1 = toast ''Configuration saved.'' (s\<lparr>cf_saving := False\<rparr>)
      in s1\<lparr>cf_drawer := close_op (cf_drawer s1)\<rparr>)"

definition on_config_save_failed :: "errval \<Rightarrow> config_form \<Rightarrow> config_form" where
  "on_config_save_failed e s = toast_error e ''Save failed'' (s\<lparr>cf_saving := False\<rparr>)"

text \<open>The form's validators; \<open>webPort\<close> and the paths have no field and keep their initial
  values, which are valid.\<close>

definition real_value :: "number option \<Rightarrow> jsval" where
  "real_value x = (case x of None \<Rightarrow> JNull | Some n \<Rightarrow> JNum n)"

definition cf_valid :: "validators \<Rightarrow> configuration \<Rightarrow> bool" where
  "cf_valid V c \<longleftrightarrow>
     v_required V (number_value (Some 443)) \<and> v_min V 1 (number_value (Some 443)) \<and>
     v_min V 0 (number_value (cfg_notificationsCooldownMinutes c)) \<and>
     v_email V (case cfg_acmeEmail c of None \<Rightarrow> JNull | Some e \<Rightarrow> JStr e) \<and>
     v_min V 1 (number_value (cfg_acmeRenewBeforeDays c)) \<and>
     v_min V 0 (real_value (cfg_ipv4ResolverAgreementThreshold c)) \<and>
     v_max V 1 (real_value (cfg_ipv4ResolverAgreementThreshold c)) \<and>
     v_min V 0 (real_value (cfg_ipv6ResolverAgreementThreshold c)) \<and>
     v_max V 1 (real_value (cfg_ipv6ResolverAgreementThreshold c)) \<and>
     v_min V 1 (number_value (cfg_ipv4ResolverMinResponses c)) \<and>
     v_min V 1 (number_value (cfg_ipv6ResolverMinResponses c))"

fun cf_handle :: "cf_req \<Rightarrow> cf_reply \<Rightarrow> (config_form \<Rightarrow> config_form) option" where
  "cf_handle CfGet (CfRepConfig cfg) = Some (on_config cfg)"
| "cf_handle CfGet (CfRepErr e) = Some (on_config_failed e)"
| "cf_handle (CfUpdate _) CfRepOk = Some on_config_saved"
| "cf_handle (CfUpdate _) (CfRepErr e) = Some (on_config_save_failed e)"
| "cf_handle _ _ = None"

datatype cf_event =
    CfOpen int
  | CfAdd array_field string
  | CfRecipient string
  | CfRemove array_field nat
  | CfDrop array_field nat nat
  | CfEdit configuration
  | CfSave
  | CfCancel
  | CfCloseDue
  | CfReply nat cf_reply

text \<open>\<open>CfEdit c\<close>: the user sets the plain controls to those of \<open>c\<close>. While the drawer loads,
  it shows a hint in place of the form, and the save button is enabled.\<close>

definition edit_controls :: "configuration \<Rightarrow> configuration \<Rightarrow> configuration" where
  "edit_controls c f =
     c\<lparr>cfg_dnsServers := cfg_dnsServers f, cfg_ipv4Resolvers := cfg_ipv4Resolvers f,
       cfg_ipv6Resolvers := cfg_ipv6Resolvers f, cfg_notificationsRecipients := cfg_notificationsRecipients f\<rparr>"

fun cf_step ::
  "validators \<Rightarrow> (string list \<Rightarrow> nat \<Rightarrow> nat \<Rightarrow> string list) \<Rightarrow> config_form \<Rightarrow> cf_event \<Rightarrow> config_form" where
  "cf_step V mv s (CfOpen w) = open_config w s"
| "cf_step V mv s (CfAdd f x) = (if cf_loading s \<or> f = NotificationsRecipients then s else addToArray f x s)"
| "cf_step V mv s (CfRecipient x) = (if cf_loading s then s else addRecipient x s)"
| "cf_step V mv s (CfRemove f i) = (if cf_loading s then s else removeFromArray f i s)"
| "cf_step V mv s (CfDrop f i j) = (if cf_loading s then s else onDrop mv f i j s)"
| "cf_step V mv s (CfEdit c) = (if cf_loading s then s else s\<lparr>cf_form := edit_controls c (cf_form s)\<rparr>)"
| "cf_step V mv s CfSave = (if \<not> cf_valid V (cf_form s) \<or> cf_saving s then s else save_config s)"
| "cf_step V mv s CfCancel = s\<lparr>cf_drawer := close_op (cf_drawer s)\<rparr>"
| "cf_step V mv s CfCloseDue = s\<lparr>cf_drawer := close_due (cf_drawer s)\<rparr>"
| "cf_step V mv s (CfReply k r) = on_reply cf_handle k r s"

subsection \<open>The library's move\<close>

locale array_move =
  fixes mv :: "'a list \<Rightarrow> nat \<Rightarrow> nat \<Rightarrow> 'a list"
  assumes move_inside: "i < length xs \<Longrightarrow> j < length xs \<Longrightarrow>
    mv xs i j = (let ys = remove_at i xs in take j ys @ xs ! i # drop j ys)"
begin

lemma mset_move:
  assumes "i < length xs" "j < length xs"
  shows "mset (mv xs i j) = mset xs"
proof -
  have "mset (take j ys @ drop j ys) = mset ys" for ys :: "'a list" by simp
  then have t: "mset (take j ys) + mset (drop j ys) = mset ys" for ys :: "'a list" by (simp del: append_take_drop_id)
  have "xs = take i xs @ xs ! i # drop (Suc i) xs" using assms(1) by (rule id_take_nth_drop)
  then have "mset xs = mset (take i xs @ xs ! i # drop (Suc i) xs)" by simp
  then have "mset xs = add_mset (xs ! i) (mset (remove_at i xs))" by (simp add: remove_at_def)
  then show ?thesis using t [of "remove_at i xs"] by (simp add: move_inside [OF assms] Let_def)
qed

lemma move_places:
  assumes "i < length xs" "j < length xs"
  shows "mv xs i j ! j = xs ! i"
  using assms by (simp add: move_inside Let_def nth_append length_remove_at)

end

definition move_item :: "'a list \<Rightarrow> nat \<Rightarrow> nat \<Rightarrow> 'a list" where
  "move_item xs i j = (let ys = remove_at i xs in take j ys @ xs ! i # drop j ys)"

interpretation plain_move: array_move move_item
  by unfold_locales (simp add: move_item_def)

subsection \<open>Facts\<close>

lemma field_set [simp]: "field_value f (set_field f xs c) = Some xs"
  by (cases f) simp_all

lemma field_set_other [simp]: "f \<noteq> g \<Longrightarrow> field_value g (set_field f xs c) = field_value g c"
  by (cases f; cases g) simp_all

lemma seq_matches_iff:
  "matches_seq (Plus P # rs) (s, caps) \<noteq> [] \<longleftrightarrow>
     (\<exists>p r. p \<noteq> [] \<and> s = p @ r \<and> (\<forall>c \<in> set p. P c) \<and> matches_seq rs (r, caps) \<noteq> [])"
  "matches_seq (Cls Q # rs) (s, caps) \<noteq> [] \<longleftrightarrow> (\<exists>c r. s = c # r \<and> Q c \<and> matches_seq rs (r, caps) \<noteq> [])"
  by (auto simp: in_plus_rests_iff split: list.splits if_splits) blast

lemma email_pattern_iff:
  "test_here email_pattern s \<longleftrightarrow>
     (\<exists>user host tld. s = user @ ''@'' @ host @ ''.'' @ tld \<and> user \<noteq> [] \<and> host \<noteq> [] \<and> tld \<noteq> [] \<and>
        list_all mail_char user \<and> list_all mail_char host \<and> list_all mail_char tld)"
proof -
  have e: "matches_seq [AtEnd] (r, caps) \<noteq> [] \<longleftrightarrow> r = []" for r caps by simp
  have "test_here email_pattern s \<longleftrightarrow>
      (\<exists>p r. p \<noteq> [] \<and> s = p @ r \<and> (\<forall>c \<in> set p. mail_char c) \<and>
        (\<exists>c r'. r = c # r' \<and> c = CHR ''@'' \<and>
          (\<exists>q u. q \<noteq> [] \<and> r' = q @ u \<and> (\<forall>c \<in> set q. mail_char c) \<and>
            (\<exists>c v. u = c # v \<and> c = CHR ''.'' \<and>
              (\<exists>t w. t \<noteq> [] \<and> v = t @ w \<and> (\<forall>c \<in> set t. mail_char c) \<and> w = [])))))"
    by (simp only: test_here_def match_here_None_iff email_pattern_def matches.simps seq_matches_iff e not_not
        flip: not_None_eq)
  also have "\<dots> \<longleftrightarrow>
     (\<exists>user host tld. s = user @ ''@'' @ host @ ''.'' @ tld \<and> user \<noteq> [] \<and> host \<noteq> [] \<and> tld \<noteq> [] \<and>
        list_all mail_char user \<and> list_all mail_char host \<and> list_all mail_char tld)"
    unfolding list_all_iff by (simp, blast)
  finally show ?thesis .
qed

definition cf_inv :: "config_form \<Rightarrow> bool" where
  "cf_inv s \<longleftrightarrow> (cf_saving s \<longrightarrow> (\<exists>c. CfUpdate c \<in> set (pending s)))"

lemma cf_inv_handle:
  assumes "cf_inv s" "k < length (pending s)" "pending s ! k = q" "cf_handle q r = Some f"
  shows "cf_inv (f (take_reply k s))"
proof -
  have "\<exists>c. CfUpdate c \<in> set (remove_at k (pending s))" if "q = CfGet" "cf_saving s"
    using assms(1,3) that in_set_remove_at [of _ "pending s" k] by (force simp: cf_inv_def)
  with assms show ?thesis
    by (cases q; cases r)
      (auto simp: cf_inv_def on_config_def on_config_failed_def on_config_saved_def on_config_save_failed_def
        ui_defs Let_def)
qed

lemma cf_inv_step: "cf_inv s \<Longrightarrow> cf_inv (cf_step V mv s e)"
proof (cases e)
  case (CfReply k r)
  assume "cf_inv s"
  then show ?thesis using CfReply by (auto intro: on_reply_cases cf_inv_handle)
qed (auto simp: cf_inv_def open_config_def save_config_def addToArray_def addRecipient_def removeFromArray_def
    onDrop_def ui_defs Let_def)

interpretation cf: quiescent_system "cf_step V mv" cf_inv pending "\<lambda>s. if cf_saving s then {()} else {}"
  "\<lambda>q. case q of CfUpdate _ \<Rightarrow> Some () | CfGet \<Rightarrow> None" for V mv
proof unfold_locales
  show "cf_inv (cf_step V mv s e)" if "cf_inv s" for s e
    using that by (rule cf_inv_step)
  show "\<exists>p \<in> set (pending s). (case p of CfUpdate _ \<Rightarrow> Some () | CfGet \<Rightarrow> None) = Some m"
    if "cf_inv s" "m \<in> (if cf_saving s then {()} else {})" for s m
    using that by (force simp: cf_inv_def split: if_splits)
qed

subsection \<open>The drawer as a client of the services\<close>

fun cf_answered :: "cf_event \<Rightarrow> nat option" where
  "cf_answered (CfReply k r) = Some k"
| "cf_answered _ = None"

lemma cf_asks_handle: "cf_handle q r = Some f \<Longrightarrow> asks s (f s)"
  by (cases q; cases r)
    (auto simp: asks_def on_config_def on_config_failed_def on_config_saved_def on_config_save_failed_def Let_def)

interpretation cf_http: http_client "cf_step V mv" cf_answered for V mv
proof unfold_locales
  show "asks s (cf_step V mv s e)" if "cf_answered e = None" for s e
    using that by (cases e) (auto simp: asks_def open_config_def save_config_def addToArray_def addRecipient_def
        removeFromArray_def onDrop_def Let_def)
  show "cf_step V mv s e = s \<or> k < length (pending s) \<and> asks (take_reply k s) (cf_step V mv s e)"
    if "cf_answered e = Some k" for s e k
    by (insert that, cases e; simp) (rule reply_asks, erule cf_asks_handle)
qed

text \<open>Its invariant reads nothing of the service.\<close>

interpretation cf_hosted: hosted_client "cf_step V mv" cf_answered cf_inv for V mv
  by unfold_locales (simp add: cf_inv_def lend_def)

subsection \<open>Properties\<close>

text \<open>
  Settings that are loaded and saved untouched come back as they were: the payload is the
  configuration the server sent, with the form's defaults for what it left out.
\<close>

theorem config_roundtrip:
  "config_payload (patch_config cfg) =
     (patch_config cfg)\<lparr>cfg_refreshCron := Some (nullish (cfg_refreshCron cfg) '''')\<rparr> \<and>
   config_payload (config_payload cfg) = config_payload cfg \<and>
   patch_config (config_payload cfg) = config_payload cfg"
  by (cases cfg) (simp add: config_payload_def patch_config_def)

text \<open>
  The settings can be overwritten with the form's defaults: when loading them fails, and
  also while they are loading, saving is possible and sends the defaults, empty lists included.
\<close>

theorem save_without_load_sends_defaults:
  assumes "cf_valid V initial_form"
  shows "sent (run (cf_step V mv) init_cf [CfOpen w, CfReply 0 (CfRepErr e), CfSave]) =
      [CfGet, CfUpdate initial_form] \<and>
    sent (run (cf_step V mv) init_cf [CfOpen w, CfSave]) = [CfGet, CfUpdate initial_form]"
proof -
  have "config_payload initial_form = initial_form" by (simp add: config_payload_def initial_form_def)
  with assms show ?thesis
    by (simp add: open_config_def on_reply_def on_config_failed_def save_config_def ui_defs init_cf_def
        init_ui_def ui.defs Let_def)
qed

theorem save_without_load_sends_defaults_witness:
  "sent (run (cf_step plain_validators move_item) init_cf [CfOpen 1000, CfSave]) = [CfGet, CfUpdate initial_form]"
proof -
  have "cf_valid plain_validators initial_form" by code_simp
  then show ?thesis using save_without_load_sends_defaults by blast
qed

text \<open>
  Reordering a list by dragging loses and invents nothing: the list keeps its entries, the
  dragged one is where it was dropped, and no other list changes.
\<close>

theorem drop_reorders:
  assumes "array_move mv" "field_value f (cf_form s) = Some xs" "i < length xs" "j < length xs"
  shows "\<exists>ys. field_value f (cf_form (onDrop mv f i j s)) = Some ys \<and> mset ys = mset xs \<and> ys ! j = xs ! i \<and>
    (\<forall>g. g \<noteq> f \<longrightarrow> field_value g (cf_form (onDrop mv f i j s)) = field_value g (cf_form s))"
  using assms array_move.mset_move [OF assms(1,3,4)] array_move.move_places [OF assms(1,3,4)]
  by (cases "i = j") (simp_all add: onDrop_def)

theorem drop_reorders_witness:
  "\<exists>ys. field_value DnsServers (cf_form (onDrop move_item DnsServers 0 2
      (init_cf\<lparr>cf_form := initial_form\<lparr>cfg_dnsServers := Some [''a'', ''b'', ''c'']\<rparr>\<rparr>))) = Some ys \<and> ys ! 2 = ''a''"
  using drop_reorders [OF plain_move.array_move_axioms, of DnsServers
      "init_cf\<lparr>cf_form := initial_form\<lparr>cfg_dnsServers := Some [''a'', ''b'', ''c'']\<rparr>\<rparr>" "[''a'', ''b'', ''c'']" 0 2]
  by auto

text \<open>
  A recipient is added exactly when its trimmed text is of the form user, at, host, dot,
  domain, with no white space and no second at sign; otherwise the list is left alone.
\<close>

theorem recipient_added_iff:
  "nullish (cfg_notificationsRecipients (cf_form (addRecipient x s))) [] =
     nullish (cfg_notificationsRecipients (cf_form s)) [] @
     (if \<exists>user host tld. trim x = user @ ''@'' @ host @ ''.'' @ tld \<and> user \<noteq> [] \<and> host \<noteq> [] \<and> tld \<noteq> [] \<and>
           list_all mail_char user \<and> list_all mail_char host \<and> list_all mail_char tld
      then [trim x] else [])"
  unfolding email_pattern_iff [symmetric]
  by (auto simp: addRecipient_def addToArray_def toast_error_def Let_def email_pattern_iff)

end
