(* ===== verification/ConfigView.thy ===== *)
theory ConfigView
  imports ConfigForm
begin

text \<open>
  What the settings drawer shows (the template of
  \<^verbatim>\<open>pages/home/drawers/config/config-drawer.component.ts\<close>): its controls, each with the name it
  is bound to and the constraints its input declares, the four lists with the events their
  buttons raise, and the save button. The lemmas say that the constraints the template declares
  are the validators of the form, that every value that is saved is shown, and that a row's
  buttons act on that row.
\<close>

subsection \<open>The controls\<close>

datatype control_kind =
    SelectOf "(int \<times> string) list"
  | TextInput string
  | EmailInput string
  | NumberInput "int option" "int option" "string option"
  | Toggle

text \<open>The label, the \<open>formControlName\<close> and the input; a number's minimum, maximum and step.\<close>

record field_control =
  fc_label :: string
  fc_name :: string
  fc_kind :: control_kind

definition general_controls :: "field_control list" where
  "general_controls =
     [\<lparr>fc_label = ''Log Level'', fc_name = ''logLevel'', fc_kind = SelectOf LOG_LEVELS\<rparr>,
      \<lparr>fc_label = ''Refresh Cron'', fc_name = ''refreshCron'', fc_kind = TextInput ''e.g. @every 5m''\<rparr>]"

definition resolver_controls :: "field_control list" where
  "resolver_controls =
     [\<lparr>fc_label = ''IPv4 Resolver Agreement Threshold'', fc_name = ''ipv4ResolverAgreementThreshold'',
       fc_kind = NumberInput (Some 0) (Some 1) (Some ''0.01'')\<rparr>,
      \<lparr>fc_label = ''IPv6 Resolver Agreement Threshold'', fc_name = ''ipv6ResolverAgreementThreshold'',
       fc_kind = NumberInput (Some 0) (Some 1) (Some ''0.01'')\<rparr>,
      \<lparr>fc_label = ''IPv4 Resolver Minimum Responses'', fc_name = ''ipv4ResolverMinResponses'',
       fc_kind = NumberInput (Some 1) None None\<rparr>,
      \<lparr>fc_label = ''IPv6 Resolver Minimum Responses'', fc_name = ''ipv6ResolverMinResponses'',
       fc_kind = NumberInput (Some 1) None None\<rparr>]"

definition notification_controls :: "field_control list" where
  "notification_controls =
     [\<lparr>fc_label = ''Enable email notifications on failure'', fc_name = ''notificationsEnabled'', fc_kind = Toggle\<rparr>,
      \<lparr>fc_label = ''Also notify when records are updated successfully'', fc_name = ''notificationsOnSuccess'',
       fc_kind = Toggle\<rparr>,
      \<lparr>fc_label = ''Cooldown (minutes)'', fc_name = ''notificationsCooldownMinutes'',
       fc_kind = NumberInput (Some 0) None None\<rparr>,
      \<lparr>fc_label = ''Subject prefix'', fc_name = ''notificationsSubjectPrefix'', fc_kind = TextInput ''[hdns]''\<rparr>]"

definition acme_controls :: "field_control list" where
  "acme_controls =
     [\<lparr>fc_label = ''Enable ACME certificate issuance'', fc_name = ''acmeEnabled'', fc_kind = Toggle\<rparr>,
      \<lparr>fc_label = ''Account email'', fc_name = ''acmeEmail'', fc_kind = EmailInput ''you@example.com''\<rparr>,
      \<lparr>fc_label = ''Use staging environment (for testing)'', fc_name = ''acmeStaging'', fc_kind = Toggle\<rparr>,
      \<lparr>fc_label = ''Renew before expiry (days)'', fc_name = ''acmeRenewBeforeDays'',
       fc_kind = NumberInput (Some 1) None None\<rparr>]"

definition config_controls :: "field_control list" where
  "config_controls = general_controls @ resolver_controls @ notification_controls @ acme_controls"

lemmas control_lists =
  config_controls_def general_controls_def resolver_controls_def notification_controls_def acme_controls_def

subsection \<open>The lists\<close>

record list_row =
  lr_index :: nat
  lr_value :: string
  lr_remove :: cf_event

datatype list_body = ListEmpty string | ListRows "list_row list"

record list_section =
  ls_label :: string
  ls_count :: nat
  ls_placeholder :: string
  ls_add :: "string \<Rightarrow> cf_event"
  ls_body :: list_body

definition list_rows :: "array_field \<Rightarrow> string list \<Rightarrow> list_row list" where
  "list_rows f xs = map (\<lambda>i. \<lparr>lr_index = i + 1, lr_value = xs ! i, lr_remove = CfRemove f i\<rparr>) [0..<length xs]"

definition list_body_of :: "string \<Rightarrow> array_field \<Rightarrow> configuration \<Rightarrow> list_body" where
  "list_body_of none f c =
     (let xs = nullish (field_value f c) [] in if length xs = 0 then ListEmpty none else ListRows (list_rows f xs))"

definition dns_section :: "configuration \<Rightarrow> list_section" where
  "dns_section c =
     \<lparr>ls_label = ''DNS Servers'', ls_count = length (nullish (cfg_dnsServers c) []),
      ls_placeholder = ''Add server address'', ls_add = CfAdd DnsServers,
      ls_body = list_body_of ''No DNS servers configured.'' DnsServers c\<rparr>"

definition ipv4_section :: "configuration \<Rightarrow> list_section" where
  "ipv4_section c =
     \<lparr>ls_label = ''IPv4 Resolvers'', ls_count = length (nullish (cfg_ipv4Resolvers c) []),
      ls_placeholder = ''Add IPv4 resolver'', ls_add = CfAdd Ipv4Resolvers,
      ls_body = list_body_of ''No IPv4 resolvers configured.'' Ipv4Resolvers c\<rparr>"

definition ipv6_section :: "configuration \<Rightarrow> list_section" where
  "ipv6_section c =
     \<lparr>ls_label = ''IPv6 Resolvers'', ls_count = length (nullish (cfg_ipv6Resolvers c) []),
      ls_placeholder = ''Add IPv6 resolver'', ls_add = CfAdd Ipv6Resolvers,
      ls_body = list_body_of ''No IPv6 resolvers configured.'' Ipv6Resolvers c\<rparr>"

definition recipients_section :: "configuration \<Rightarrow> list_section" where
  "recipients_section c =
     \<lparr>ls_label = ''Recipients'', ls_count = length (nullish (cfg_notificationsRecipients c) []),
      ls_placeholder = ''name@example.com'', ls_add = CfRecipient,
      ls_body = list_body_of ''No recipients configured.'' NotificationsRecipients c\<rparr>"

subsection \<open>The drawer\<close>

datatype config_body = LoadingConfiguration | ConfigShown "field_control list" "list_section list"

definition config_body_of :: "config_form \<Rightarrow> config_body" where
  "config_body_of s =
     (if cf_loading s then LoadingConfiguration
      else ConfigShown config_controls
             [dns_section (cf_form s), ipv4_section (cf_form s), ipv6_section (cf_form s), recipients_section (cf_form s)])"

definition save_disabled :: "validators \<Rightarrow> config_form \<Rightarrow> bool" where
  "save_disabled V s \<longleftrightarrow> \<not> cf_valid V (cf_form s) \<or> cf_saving s"

definition save_label :: "config_form \<Rightarrow> string" where
  "save_label s = (if cf_saving s then ''Saving'' @ ellipsis else ''Save'')"

subsection \<open>Facts\<close>

text \<open>The value of the control of that name.\<close>

definition bool_value :: "bool option \<Rightarrow> jsval" where
  "bool_value b = (case b of None \<Rightarrow> JNull | Some x \<Rightarrow> JBool x)"

definition text_value :: "string option \<Rightarrow> jsval" where
  "text_value t = (case t of None \<Rightarrow> JNull | Some x \<Rightarrow> JStr x)"

definition control_values :: "configuration \<Rightarrow> (string \<times> jsval) list" where
  "control_values c =
     [(''logLevel'', number_value (cfg_logLevel c)),
      (''refreshCron'', text_value (cfg_refreshCron c)),
      (''ipv4ResolverAgreementThreshold'', real_value (cfg_ipv4ResolverAgreementThreshold c)),
      (''ipv6ResolverAgreementThreshold'', real_value (cfg_ipv6ResolverAgreementThreshold c)),
      (''ipv4ResolverMinResponses'', number_value (cfg_ipv4ResolverMinResponses c)),
      (''ipv6ResolverMinResponses'', number_value (cfg_ipv6ResolverMinResponses c)),
      (''notificationsEnabled'', bool_value (cfg_notificationsEnabled c)),
      (''notificationsOnSuccess'', bool_value (cfg_notificationsOnSuccess c)),
      (''notificationsCooldownMinutes'', number_value (cfg_notificationsCooldownMinutes c)),
      (''notificationsSubjectPrefix'', text_value (cfg_notificationsSubjectPrefix c)),
      (''acmeEnabled'', bool_value (cfg_acmeEnabled c)),
      (''acmeEmail'', text_value (cfg_acmeEmail c)),
      (''acmeStaging'', bool_value (cfg_acmeStaging c)),
      (''acmeRenewBeforeDays'', number_value (cfg_acmeRenewBeforeDays c))]"

definition control_value :: "configuration \<Rightarrow> string \<Rightarrow> jsval" where
  "control_value c name = (case map_of (control_values c) name of None \<Rightarrow> JUndef | Some v \<Rightarrow> v)"

lemma control_value_simps [simp]:
  "control_value c ''logLevel'' = number_value (cfg_logLevel c)"
  "control_value c ''refreshCron'' = text_value (cfg_refreshCron c)"
  "control_value c ''ipv4ResolverAgreementThreshold'' = real_value (cfg_ipv4ResolverAgreementThreshold c)"
  "control_value c ''ipv6ResolverAgreementThreshold'' = real_value (cfg_ipv6ResolverAgreementThreshold c)"
  "control_value c ''ipv4ResolverMinResponses'' = number_value (cfg_ipv4ResolverMinResponses c)"
  "control_value c ''ipv6ResolverMinResponses'' = number_value (cfg_ipv6ResolverMinResponses c)"
  "control_value c ''notificationsEnabled'' = bool_value (cfg_notificationsEnabled c)"
  "control_value c ''notificationsOnSuccess'' = bool_value (cfg_notificationsOnSuccess c)"
  "control_value c ''notificationsCooldownMinutes'' = number_value (cfg_notificationsCooldownMinutes c)"
  "control_value c ''notificationsSubjectPrefix'' = text_value (cfg_notificationsSubjectPrefix c)"
  "control_value c ''acmeEnabled'' = bool_value (cfg_acmeEnabled c)"
  "control_value c ''acmeEmail'' = text_value (cfg_acmeEmail c)"
  "control_value c ''acmeStaging'' = bool_value (cfg_acmeStaging c)"
  "control_value c ''acmeRenewBeforeDays'' = number_value (cfg_acmeRenewBeforeDays c)"
  by (simp_all add: control_value_def control_values_def)

text \<open>What the input of a control declares about its value.\<close>

definition declared_ok :: "validators \<Rightarrow> control_kind \<Rightarrow> jsval \<Rightarrow> bool" where
  "declared_ok V k v =
     (case k of
        NumberInput mn mx step \<Rightarrow>
          (case mn of None \<Rightarrow> True | Some n \<Rightarrow> v_min V n v) \<and> (case mx of None \<Rightarrow> True | Some n \<Rightarrow> v_max V n v)
      | EmailInput hint \<Rightarrow> v_email V v
      | _ \<Rightarrow> True)"

lemma value_inj:
  "number_value a = number_value b \<longleftrightarrow> a = b" "real_value x = real_value y \<longleftrightarrow> x = y"
  "bool_value p = bool_value q \<longleftrightarrow> p = q" "text_value s = text_value t \<longleftrightarrow> s = t"
  by (auto simp: number_value_def real_value_def bool_value_def text_value_def split: option.splits)

lemma rows_values: "map lr_value (list_rows f xs) = xs"
  by (simp add: list_rows_def o_def map_nth)

lemma rows_remove:
  assumes "\<not> cf_loading s" "i < length (nullish (field_value f (cf_form s)) [])"
  shows "nullish (field_value f (cf_form (cf_step V mv s (lr_remove (list_rows f (nullish (field_value f (cf_form s)) []) ! i))))) [] =
    remove_at i (nullish (field_value f (cf_form s)) [])"
  using assms by (simp add: list_rows_def removeFromArray_def Let_def)

lemma save_button: "save_disabled V s \<Longrightarrow> cf_step V mv s CfSave = s"
  "\<not> save_disabled V s \<Longrightarrow> cf_step V mv s CfSave = save_config s"
  by (auto simp: save_disabled_def)

lemma list_body_values:
  assumes "list_body_of none f c = list_body_of none f d"
  shows "nullish (field_value f c) [] = nullish (field_value f d) []"
proof -
  let ?xs = "nullish (field_value f c) []" and ?ys = "nullish (field_value f d) []"
  from assms have "?xs = [] \<and> ?ys = [] \<or> list_rows f ?xs = list_rows f ?ys"
    by (simp add: list_body_of_def Let_def split: if_splits)
  then show ?thesis by (elim disjE) (simp, metis rows_values)
qed

lemma valid_declared:
  assumes "angular_validators V"
  shows "cf_valid V c \<longleftrightarrow> list_all (\<lambda>f. declared_ok V (fc_kind f) (control_value c (fc_name f))) config_controls"
proof -
  have "v_required V (number_value (Some 443)) \<and> v_min V 1 (number_value (Some 443))"
    by (simp add: angular_validators.required_number [OF assms] angular_validators.min_number [OF assms])
  then have "cf_valid V c \<longleftrightarrow>
     v_min V 0 (number_value (cfg_notificationsCooldownMinutes c)) \<and> v_email V (text_value (cfg_acmeEmail c)) \<and>
     v_min V 1 (number_value (cfg_acmeRenewBeforeDays c)) \<and>
     v_min V 0 (real_value (cfg_ipv4ResolverAgreementThreshold c)) \<and>
     v_max V 1 (real_value (cfg_ipv4ResolverAgreementThreshold c)) \<and>
     v_min V 0 (real_value (cfg_ipv6ResolverAgreementThreshold c)) \<and>
     v_max V 1 (real_value (cfg_ipv6ResolverAgreementThreshold c)) \<and>
     v_min V 1 (number_value (cfg_ipv4ResolverMinResponses c)) \<and>
     v_min V 1 (number_value (cfg_ipv6ResolverMinResponses c))"
    by (simp only: cf_valid_def text_value_def simp_thms)
  then show ?thesis by (simp add: control_lists declared_ok_def) blast
qed

lemma shown_is_saved:
  assumes "list_all (\<lambda>f. control_value c (fc_name f) = control_value d (fc_name f)) config_controls"
    and "list_all (\<lambda>view. ls_body (view c) = ls_body (view d)) [dns_section, ipv4_section, ipv6_section, recipients_section]"
  shows "config_payload c = config_payload d"
proof -
  have bodies:
    "list_body_of ''No DNS servers configured.'' DnsServers c = list_body_of ''No DNS servers configured.'' DnsServers d"
    "list_body_of ''No IPv4 resolvers configured.'' Ipv4Resolvers c =
     list_body_of ''No IPv4 resolvers configured.'' Ipv4Resolvers d"
    "list_body_of ''No IPv6 resolvers configured.'' Ipv6Resolvers c =
     list_body_of ''No IPv6 resolvers configured.'' Ipv6Resolvers d"
    "list_body_of ''No recipients configured.'' NotificationsRecipients c =
     list_body_of ''No recipients configured.'' NotificationsRecipients d"
    using assms(2) by (simp_all add: dns_section_def ipv4_section_def ipv6_section_def recipients_section_def)
  note lists = bodies [THEN list_body_values]
  from assms(1) lists show ?thesis
    by (simp add: control_lists value_inj config_payload_def)
qed

subsection \<open>Properties\<close>

text \<open>
  C37. The drawer's template and its form agree: the form is valid exactly when every value meets
  the constraints its input declares (the number of minimum responses from one, thresholds
  between zero and one, and so on), no two controls are bound to one name, and two forms that
  show the same values and the same lists are saved as the same configuration.
\<close>

theorem template_matches_form:
  assumes "angular_validators V"
  shows "(cf_valid V c \<longleftrightarrow> list_all (\<lambda>f. declared_ok V (fc_kind f) (control_value c (fc_name f))) config_controls) \<and>
    distinct (map fc_name config_controls) \<and>
    (list_all (\<lambda>f. control_value c (fc_name f) = control_value d (fc_name f)) config_controls \<and>
     list_all (\<lambda>view. ls_body (view c) = ls_body (view d)) [dns_section, ipv4_section, ipv6_section, recipients_section]
     \<longrightarrow> config_payload c = config_payload d)"
proof (intro conjI impI)
  show "cf_valid V c \<longleftrightarrow> list_all (\<lambda>f. declared_ok V (fc_kind f) (control_value c (fc_name f))) config_controls"
    by (rule valid_declared [OF assms])
  show "distinct (map fc_name config_controls)" by (simp add: control_lists)
qed (elim conjE, rule shown_is_saved)

theorem template_matches_form_witness:
  "\<not> cf_valid plain_validators (initial_form\<lparr>cfg_ipv6ResolverMinResponses := Some 0\<rparr>) \<and>
   cf_valid plain_validators initial_form"
proof -
  have V: "angular_validators plain_validators" by (rule plain.angular_validators_axioms)
  show ?thesis
    unfolding template_matches_form [OF V, THEN conjunct1]
    by (simp add: control_lists declared_ok_def initial_form_def
        plain_validators_def number_value_def real_value_def text_value_def num_le_num) code_simp
qed

end
