(* ===== verification/LogDrawer.thy ===== *)
theory LogDrawer
  imports Forms Streams
begin

text \<open>
  The log drawer (\<^verbatim>\<open>pages/home/drawers/log/log-drawer.component.ts\<close>): parsing of a log line and
  the stream it shows. Two locale-dependent library functions are arguments: \<open>clock\<close> is
  \<open>toLocaleTimeString\<close> of the date a text denotes, \<open>None\<close> when it denotes none, and
  \<open>localeCompare\<close> is the comparison of the keys, a total order by the locale \<open>comparison\<close>.
\<close>

record LogField =
  field_key :: string
  field_text :: string

record LogViewLine =
  isJson :: bool
  log_level :: string
  log_levelClass :: string
  log_time :: string
  log_message :: string
  knownFields :: "LogField list"
  extraFields :: "LogField list"
  log_raw :: string

subsection \<open>Parsing a line\<close>

definition levelClass :: "string \<Rightarrow> string" where
  "levelClass level =
     (let l = toLowerCase level
      in if l = ''trace'' then ''level-trace''
         else if l = ''debug'' then ''level-debug''
         else if l = ''info'' then ''level-info''
         else if l = ''warn'' \<or> l = ''warning'' then ''level-warning''
         else if l = ''error'' \<or> l = ''fatal'' \<or> l = ''panic'' then ''level-error''
         else ''level-debug'')"

definition bool_toString :: "bool \<Rightarrow> string" where
  "bool_toString b = (if b then ''true'' else ''false'')"

fun readString :: "jsval \<Rightarrow> string" where
  "readString (JStr s) = s"
| "readString (JNum n) = number_toString n"
| "readString (JBool b) = bool_toString b"
| "readString _ = ''''"

text \<open>\<open>JSON.stringify\<close> does not throw on a parsed value; it gives no text for \<open>undefined\<close> only,
  which a parsed value is not.\<close>

fun formatValue :: "jsval \<Rightarrow> string" where
  "formatValue JNull = ''null''"
| "formatValue (JStr s) = s"
| "formatValue (JNum n) = number_toString n"
| "formatValue (JBool b) = bool_toString b"
| "formatValue v = nullish (stringify v) ''undefined''"

definition formatTime :: "(string \<Rightarrow> string option) \<Rightarrow> string \<Rightarrow> string" where
  "formatTime clock val =
     (if val = '''' then ''Unknown time''
      else (case clock val of None \<Rightarrow> val | Some text \<Rightarrow> text))"

definition knownFieldOrder :: "string list" where
  "knownFieldOrder = [''caller'', ''package'', ''remote'', ''method'', ''duration'']"

definition log_field :: "(string \<times> jsval) list \<Rightarrow> string \<Rightarrow> LogField" where
  "log_field data key = \<lparr>field_key = key, field_text = formatValue (get (JObj data) key)\<rparr>"

definition parseLogLine ::
  "(string \<Rightarrow> string option) \<Rightarrow> (string \<Rightarrow> string \<Rightarrow> int) \<Rightarrow> string \<Rightarrow> LogViewLine" where
  "parseLogLine clock localeCompare rawLine =
     (case json_parse rawLine of
        Some (JObj parsedData) \<Rightarrow>
          (let levelRaw = or_str (readString (get (JObj parsedData) ''level'')) ''unknown'';
               timeRaw = readString (get (JObj parsedData) ''time'');
               message = or_str (readString (get (JObj parsedData) ''message'')) ''(no message)'';
               known = map (log_field parsedData)
                         (filter (\<lambda>key. key \<in> set (map fst parsedData)) knownFieldOrder);
               consumedKeys = [''time'', ''level'', ''message''] @ knownFieldOrder;
               extra = map (log_field parsedData)
                         (sort_by localeCompare
                           (filter (\<lambda>key. key \<notin> set consumedKeys) (map fst parsedData)))
           in \<lparr>isJson = True, log_level = toUpperCase levelRaw, log_levelClass = levelClass levelRaw,
               log_time = formatTime clock timeRaw, log_message = message, knownFields = known,
               extraFields = extra, log_raw = rawLine\<rparr>)
      | _ \<Rightarrow>
          \<lparr>isJson = False, log_level = ''RAW'', log_levelClass = ''level-error'',
           log_time = formatTime clock '''', log_message = ''Unable to parse log line JSON'',
           knownFields = [], extraFields = [], log_raw = rawLine\<rparr>)"

subsection \<open>The drawer\<close>

record log_drawer = "(unit, unit) ui" +
  log_lines :: "LogViewLine list"
  ld_streams :: "(unit, unit) stream list"
  ld_stream :: "nat option"
  ld_sub :: "nat option"
  ld_drawer :: drawer

definition maxLines :: nat where
  "maxLines = 800"

definition init_ld :: log_drawer where
  "init_ld = ui.extend init_ui
     \<lparr>log_lines = [], ld_streams = [], ld_stream = None, ld_sub = None,
      ld_drawer = init_drawer\<lparr>width := 60, breakpoints := form_breakpoints\<rparr>\<rparr>"

definition on_log_stream ::
  "nat \<Rightarrow> ((unit, unit) stream \<Rightarrow> (unit, unit) stream) \<Rightarrow> log_drawer \<Rightarrow> log_drawer" where
  "on_log_stream i f s =
     (if i < length (ld_streams s) then s\<lparr>ld_streams := (ld_streams s)[i := f (ld_streams s ! i)]\<rparr> else s)"

definition cleanupStream :: "log_drawer \<Rightarrow> log_drawer" where
  "cleanupStream s =
     (let s1 = (case ld_sub s of
                  None \<Rightarrow> s
                | Some i \<Rightarrow> (on_log_stream i teardown s)\<lparr>ld_sub := None\<rparr>)
      in case ld_stream s1 of
           None \<Rightarrow> s1
         | Some i \<Rightarrow> (on_log_stream i close_stream s1)\<lparr>ld_stream := None\<rparr>)"

definition open_log :: "int \<Rightarrow> log_drawer \<Rightarrow> log_drawer" where
  "open_log w s =
     (let s1 = s\<lparr>log_lines := []\<rparr>;
          s2 = cleanupStream (s1\<lparr>ld_drawer := open_op w (ld_drawer s1)\<rparr>);
          n = length (ld_streams s2);
          s3 = s2\<lparr>ld_streams := ld_streams s2 @ [new_stream], ld_stream := Some n, ld_sub := Some n\<rparr>
      in on_log_stream n (send ()) (on_log_stream n connect_socket s3))"

definition close_log :: "log_drawer \<Rightarrow> log_drawer" where
  "close_log s = cleanupStream (s\<lparr>ld_drawer := close_op (ld_drawer s), log_lines := []\<rparr>)"

definition log_entry ::
  "(string \<Rightarrow> string option) \<Rightarrow> (string \<Rightarrow> string \<Rightarrow> int) \<Rightarrow> string option \<Rightarrow> log_drawer \<Rightarrow> log_drawer" where
  "log_entry clock lc entry s =
     (if ld_sub s = None then s
      else s\<lparr>log_lines := take maxLines (parseLogLine clock lc (nullish entry '''') # log_lines s)\<rparr>)"

text \<open>An error ends the subscription; the drawer keeps the stream until it is closed or opened again.\<close>

definition log_stream_error :: "string \<Rightarrow> log_drawer \<Rightarrow> log_drawer" where
  "log_stream_error err s =
     (case ld_sub s of
        None \<Rightarrow> s
      | Some i \<Rightarrow>
          (let s1 = toast_error (EStr ''Failed to stream log'') err (on_log_stream i teardown s)
           in s1\<lparr>ld_sub := None, ld_drawer := close_op (ld_drawer s1)\<rparr>))"

definition log_reconnect :: "log_drawer \<Rightarrow> log_drawer" where
  "log_reconnect s =
     (case ld_sub s of None \<Rightarrow> s | Some i \<Rightarrow> on_log_stream i reconnect s)"

definition log_opened :: "log_drawer \<Rightarrow> log_drawer" where
  "log_opened s = (case ld_sub s of None \<Rightarrow> s | Some i \<Rightarrow> on_log_stream i on_open s)"

datatype ld_event =
    LdOpen int
  | LdGesture
  | LdCloseDue
  | LdClose
  | LdEntry "string option"
  | LdError string
  | LdOpened
  | LdReconnect
  | LdDestroy

text \<open>A click beside the drawer or Escape is answered with \<open>drawer.close()\<close>.\<close>

fun ld_step ::
  "(string \<Rightarrow> string option) \<Rightarrow> (string \<Rightarrow> string \<Rightarrow> int) \<Rightarrow> log_drawer \<Rightarrow> ld_event \<Rightarrow> log_drawer" where
  "ld_step clock lc s (LdOpen w) = open_log w s"
| "ld_step clock lc s LdGesture = s\<lparr>ld_drawer := dismiss_gesture (ld_drawer s)\<rparr>"
| "ld_step clock lc s LdCloseDue = s\<lparr>ld_drawer := close_due (ld_drawer s)\<rparr>"
| "ld_step clock lc s LdClose = close_log s"
| "ld_step clock lc s (LdEntry l) = log_entry clock lc l s"
| "ld_step clock lc s (LdError e) = log_stream_error e s"
| "ld_step clock lc s LdOpened = log_opened s"
| "ld_step clock lc s LdReconnect = log_reconnect s"
| "ld_step clock lc s LdDestroy = cleanupStream s"

subsection \<open>Facts\<close>

lemma canonical_distinct: "canonical kvs \<Longrightarrow> distinct (map fst kvs)"
  by (induction kvs) (auto simp: canonical_def)

lemma field_keys [simp]: "map field_key (map (log_field data) ks) = ks"
  by (simp add: log_field_def o_def)

lemma parse_object:
  assumes "json_ok (JObj kvs)" "stringify (JObj kvs) = Some t"
  shows "isJson (parseLogLine clock lc t)"
    and "log_raw (parseLogLine clock lc t) = t"
    and "map field_key (knownFields (parseLogLine clock lc t)) = filter (\<lambda>k. k \<in> fst ` set kvs) knownFieldOrder"
    and "map field_key (extraFields (parseLogLine clock lc t)) =
      sort_by lc (filter (\<lambda>k. k \<notin> set ([''time'', ''level'', ''message''] @ knownFieldOrder)) (map fst kvs))"
    and "log_message (parseLogLine clock lc t) = or_str (readString (get (JObj kvs) ''message'')) ''(no message)''"
    and "\<forall>f \<in> set (knownFields (parseLogLine clock lc t) @ extraFields (parseLogLine clock lc t)).
      field_text f = formatValue (get (JObj kvs) (field_key f))"
  using json_roundtrip [OF assms] by (auto simp: parseLogLine_def Let_def log_field_def o_def)

definition ld_inv :: "log_drawer \<Rightarrow> bool" where
  "ld_inv s \<longleftrightarrow>
     length (log_lines s) \<le> maxLines \<and>
     (ld_sub s = ld_stream s \<or>
      ld_sub s = None \<and> pred_option (\<lambda>i. currentWs (ld_streams s ! i) = None) (ld_stream s)) \<and>
     (\<forall>i. ld_stream s = Some i \<longrightarrow> i < length (ld_streams s)) \<and>
     (\<forall>i < length (ld_streams s). ld_stream s \<noteq> Some i \<longrightarrow> shut (ld_streams s ! i))"

lemma ld_inv_init: "ld_inv init_ld"
  by (simp add: ld_inv_def init_ld_def init_ui_def ui.defs)

lemma on_log_stream_keeps [simp]:
  "log_lines (on_log_stream i f s) = log_lines s" "ld_stream (on_log_stream i f s) = ld_stream s"
  "ld_sub (on_log_stream i f s) = ld_sub s" "ld_drawer (on_log_stream i f s) = ld_drawer s"
  "ld_streams (on_log_stream i f s) =
     (if i < length (ld_streams s) then (ld_streams s)[i := f (ld_streams s ! i)] else ld_streams s)"
  by (simp_all add: on_log_stream_def)

lemma ld_inv_cleanup:
  assumes "ld_inv s"
  shows "ld_inv (cleanupStream s)" "ld_stream (cleanupStream s) = None" "ld_sub (cleanupStream s) = None"
    "log_lines (cleanupStream s) = log_lines s"
  using assms
  by (auto simp: cleanupStream_def Let_def ld_inv_def nth_list_update shut_closed split: option.splits)

lemma ld_inv_open: "ld_inv s \<Longrightarrow> ld_inv (open_log w s)"
  using ld_inv_cleanup [of "s\<lparr>log_lines := [], ld_drawer := open_op w (ld_drawer s)\<rparr>"]
  by (auto simp: open_log_def Let_def ld_inv_def nth_list_update nth_append)

lemma ld_inv_step: "ld_inv s \<Longrightarrow> ld_inv (ld_step clock lc s e)"
proof (cases e)
  case (LdOpen w)
  assume "ld_inv s"
  then show ?thesis using LdOpen by (simp add: ld_inv_open)
next
  case LdClose
  assume "ld_inv s"
  then have "ld_inv (s\<lparr>ld_drawer := close_op (ld_drawer s), log_lines := []\<rparr>)" by (simp add: ld_inv_def)
  then show ?thesis using LdClose by (simp add: close_log_def ld_inv_cleanup)
next
  case LdDestroy
  assume "ld_inv s"
  then show ?thesis using LdDestroy by (simp add: ld_inv_cleanup)
next
  case (LdError x)
  assume s: "ld_inv s"
  show ?thesis
  proof (cases "ld_sub s")
    case None
    with s LdError show ?thesis by (simp add: log_stream_error_def)
  next
    case (Some i)
    with s have "ld_stream s = Some i" by (auto simp: ld_inv_def)
    with s Some LdError show ?thesis
      by (auto simp: ld_inv_def log_stream_error_def toast_error_def Let_def nth_list_update)
  qed
qed (auto simp: ld_inv_def log_entry_def log_stream_error_def log_reconnect_def log_opened_def toast_error_def Let_def
    nth_list_update split: option.splits)

interpretation ld: event_system "ld_step clock lc" ld_inv for clock lc
  by unfold_locales (rule ld_inv_step)

subsection \<open>The drawer as a client of the services\<close>

lemma notifier_log_stream [simp]:
  "notifier (on_log_stream i f s) = notifier s" "notifier (cleanupStream s) = notifier s"
  "sent (on_log_stream i f s) = sent s" "pending (on_log_stream i f s) = pending s"
  "sent (cleanupStream s) = sent s" "pending (cleanupStream s) = pending s"
  by (simp_all add: on_log_stream_def cleanupStream_def Let_def split: option.split)

interpretation ld_http: http_client "ld_step clock lc" "\<lambda>_. None" for clock lc
  by unfold_locales
    (case_tac e, auto simp: asks_def open_log_def close_log_def log_entry_def log_stream_error_def log_reconnect_def
        log_opened_def Let_def split: option.split)

text \<open>Its invariant reads nothing of the service.\<close>

interpretation ld_hosted: hosted_client "ld_step clock lc" "\<lambda>_. None" ld_inv for clock lc
  by unfold_locales (simp add: ld_inv_def lend_def)

subsection \<open>Properties\<close>

text \<open>
  A structured log line loses nothing: the line of an object shows each of its properties
  once, apart from time, level and message, with the known ones first in their fixed order and
  the others sorted, each with the text of its value; and it keeps the raw text.
\<close>

theorem log_line_complete:
  assumes "comparison lc" "json_ok (JObj kvs)" "stringify (JObj kvs) = Some t"
  shows "isJson (parseLogLine clock lc t) \<and> log_raw (parseLogLine clock lc t) = t \<and>
    field_key ` set (knownFields (parseLogLine clock lc t) @ extraFields (parseLogLine clock lc t)) =
      fst ` set kvs - {''time'', ''level'', ''message''} \<and>
    distinct (map field_key (knownFields (parseLogLine clock lc t) @ extraFields (parseLogLine clock lc t))) \<and>
    sorted_wrt (\<lambda>a b. lc (field_key a) (field_key b) \<le> 0) (extraFields (parseLogLine clock lc t)) \<and>
    list_all (\<lambda>f. field_text f = formatValue (get (JObj kvs) (field_key f)))
      (knownFields (parseLogLine clock lc t) @ extraFields (parseLogLine clock lc t))"
proof -
  let ?p = "parseLogLine clock lc t"
  note parse_object [OF assms(2,3), of clock lc]
  note p = this
  let ?c = "set ([''time'', ''level'', ''message''] @ knownFieldOrder)"
  have d: "distinct (map fst kvs)" using assms(2) by (simp add: canonical_distinct)
  have k: "field_key ` set (knownFields ?p) = {k \<in> fst ` set kvs. k \<in> set knownFieldOrder}"
    using arg_cong [OF p(3), of set] by auto
  have e: "field_key ` set (extraFields ?p) = {k \<in> fst ` set kvs. k \<notin> ?c}"
    using arg_cong [OF p(4), of set] by (auto simp del: set_append)
  have o: "distinct knownFieldOrder" "set knownFieldOrder \<inter> {''time'', ''level'', ''message''} = {}"
    by (simp_all add: knownFieldOrder_def)
  have "field_key ` set (knownFields ?p @ extraFields ?p) = fst ` set kvs - {''time'', ''level'', ''message''}"
    unfolding set_append image_Un k e using o(2) by auto
  moreover have "distinct (map field_key (knownFields ?p @ extraFields ?p))"
  proof -
    have "distinct (map field_key (knownFields ?p))" using p(3) o(1) by simp
    moreover have "distinct (map field_key (extraFields ?p))" using p(4) d by simp
    moreover have "field_key ` set (knownFields ?p) \<inter> field_key ` set (extraFields ?p) = {}"
      unfolding k e by auto
    ultimately show ?thesis by simp
  qed
  moreover have "sorted_wrt (\<lambda>a b. lc a b \<le> 0) (map field_key (extraFields ?p))"
    unfolding p(4) by (rule comparison.sorted_sort_by [OF assms(1)])
  moreover have "list_all (\<lambda>f. field_text f = formatValue (get (JObj kvs) (field_key f)))
      (knownFields ?p @ extraFields ?p)"
    using p(6) unfolding list_all_iff .
  ultimately show ?thesis using p(1,2) by (simp only: sorted_wrt_map simp_thms)
qed

definition by_length :: "string \<Rightarrow> string \<Rightarrow> int" where
  "by_length a b = int (length a) - int (length b)"

theorem log_line_complete_witness:
  "field_key ` set (knownFields (parseLogLine (\<lambda>_. None) by_length ''{\"level\":\"info\",\"zone\":\"a\",\"method\":\"GET\"}'') @
      extraFields (parseLogLine (\<lambda>_. None) by_length ''{\"level\":\"info\",\"zone\":\"a\",\"method\":\"GET\"}'')) =
     {''zone'', ''method''}"
proof -
  let ?kvs = "[(''level'', JStr ''info''), (''zone'', JStr ''a''), (''method'', JStr ''GET'')]"
  have "comparison by_length" by unfold_locales (auto simp: by_length_def)
  moreover have "json_ok (JObj ?kvs)" by code_simp
  moreover have "stringify (JObj ?kvs) = Some ''{\"level\":\"info\",\"zone\":\"a\",\"method\":\"GET\"}''" by code_simp
  ultimately show ?thesis using log_line_complete [of by_length ?kvs _ "\<lambda>_. None"] by auto
qed

subsection \<open>What the drawer shows, specified\<close>

text \<open>
  The specification keeps every line received since the log was opened, and whether the drawer
  listens. The drawer is a window of \<open>maxLines\<close> lines on it, newest first.
\<close>

record log_spec =
  listening :: bool
  received :: "string list"

fun spec_step :: "log_spec \<Rightarrow> ld_event \<Rightarrow> log_spec" where
  "spec_step s (LdOpen w) = \<lparr>listening = True, received = []\<rparr>"
| "spec_step s (LdEntry l) = (if listening s then s\<lparr>received := received s @ [nullish l '''']\<rparr> else s)"
| "spec_step s LdClose = \<lparr>listening = False, received = []\<rparr>"
| "spec_step s LdDestroy = s\<lparr>listening := False\<rparr>"
| "spec_step s (LdError x) = s\<lparr>listening := False\<rparr>"
| "spec_step s e = s"

definition log_window ::
  "(string \<Rightarrow> string option) \<Rightarrow> (string \<Rightarrow> string \<Rightarrow> int) \<Rightarrow> log_drawer \<Rightarrow> log_spec \<Rightarrow> bool" where
  "log_window clock lc s a \<longleftrightarrow>
     (ld_sub s \<noteq> None \<longleftrightarrow> listening a) \<and>
     log_lines s = take maxLines (map (parseLogLine clock lc) (rev (received a)))"

lemma take_Cons_take: "take n (x # take n xs) = take n (x # xs)"
  by (cases n) (simp_all add: min_def)

lemma cleanup_view [simp]: "log_lines (cleanupStream s) = log_lines s" "ld_sub (cleanupStream s) = None"
  by (simp_all add: cleanupStream_def Let_def on_log_stream_def split: option.split)

lemma log_window_step: "log_window clock lc s a \<Longrightarrow> log_window clock lc (ld_step clock lc s e) (spec_step a e)"
proof (cases e)
  case (LdEntry l)
  moreover assume "log_window clock lc s a"
  ultimately show ?thesis by (auto simp: log_window_def log_entry_def take_Cons_take)
qed (auto simp: log_window_def open_log_def close_log_def log_stream_error_def log_reconnect_def log_opened_def on_log_stream_def
       Let_def toast_error_def split: option.splits)

text \<open>
  C13. The log drawer refines its specification: in every run it shows the newest 800 of the lines
  received since the log was opened, each parsed, newest first.
\<close>

theorem log_refines:
  "log_lines (run (ld_step clock lc) init_ld es) =
     take maxLines (map (parseLogLine clock lc) (rev (received (run spec_step \<lparr>listening = False, received = []\<rparr> es))))"
proof -
  have "log_window clock lc (run (ld_step clock lc) s es) (run spec_step a es)" if "log_window clock lc s a" for s a
    using that by (induction es arbitrary: s a) (simp_all add: log_window_step)
  moreover have "log_window clock lc init_ld \<lparr>listening = False, received = []\<rparr>"
    by (simp add: log_window_def init_ld_def ui.defs)
  ultimately show ?thesis by (auto simp: log_window_def)
qed

text \<open>
  The log stays bounded and has one stream: in every run at most 800 lines are kept and
  every stream the drawer opened but the current one is shut.
\<close>

theorem log_bounded:
  "length (log_lines (run (ld_step clock lc) init_ld es)) \<le> 800 \<and>
   list_all (\<lambda>i. ld_stream (run (ld_step clock lc) init_ld es) = Some i \<or>
       shut (ld_streams (run (ld_step clock lc) init_ld es) ! i))
     [0..<length (ld_streams (run (ld_step clock lc) init_ld es))]"
  using ld.inv_run [OF ld_inv_init, of clock lc es] by (auto simp: ld_inv_def maxLines_def list_all_iff)

text \<open>
  A log drawer that is dismissed keeps its stream: with the drawer closed, the socket is
  still there and lines still come in.
\<close>

theorem dismissed_log_keeps_stream:
  "let s = run (ld_step clock lc) init_ld [LdOpen w, LdGesture, LdCloseDue, LdEntry l]
   in \<not> isOpen (ld_drawer s) \<and> \<not> shut (ld_streams s ! 0) \<and> currentWs (ld_streams s ! 0) = Some 0 \<and>
      length (log_lines s) = 1"
  by (simp add: open_log_def cleanupStream_def log_entry_def init_ld_def init_ui_def ui.defs Let_def
      dismiss_gesture_def close_op_def close_due_def open_op_def create_def init_drawer_def isOpen_def
      on_log_stream_def connect_socket_def new_stream_def new_subject_def send_def shut_def maxLines_def
      subject_next_def)

subsection \<open>What the server is asked\<close>

lemma handed_close: "map handed (sockets (close_stream st)) = map handed (sockets st)"
  by (simp add: close_stream_def Let_def handed_complete_current)

definition asked_once :: "(unit, unit) stream \<Rightarrow> bool" where
  "asked_once st \<longleftrightarrow> one_fed st \<and> (\<exists>k. map handed (sockets st) = [()] # replicate k [])"

lemma asked_once_new: "asked_once (send () (connect_socket new_stream))"
proof -
  have "map handed (sockets (send () (connect_socket new_stream))) = [()] # replicate 0 []"
    by (simp add: send_def connect_socket_def new_stream_def new_subject_def)
  then show ?thesis unfolding asked_once_def by (intro conjI exI) (rule one_fed_send, rule one_fed_new)
qed

lemma asked_once_same:
  "asked_once st \<Longrightarrow> one_fed st' \<Longrightarrow> map handed (sockets st') = map handed (sockets st) \<Longrightarrow> asked_once st'"
  by (simp add: asked_once_def)

lemma asked_once_steps:
  assumes "asked_once st"
  shows "asked_once (teardown st)" "asked_once (close_stream st)" "asked_once (on_open st)" "asked_once (reconnect st)"
proof -
  have fed: "one_fed st" using assms by (simp add: asked_once_def)
  show "asked_once (teardown st)" "asked_once (close_stream st)" "asked_once (on_open st)"
    by (rule asked_once_same [OF assms]; simp add: fed one_fed_teardown handed_close)+
  obtain k where "map handed (sockets st) = [()] # replicate k []" using assms by (auto simp: asked_once_def)
  then have "map handed (sockets (reconnect st)) = [()] # replicate (Suc k) []"
    by (simp add: handed_reconnect fed replicate_append_same)
  then show "asked_once (reconnect st)" unfolding asked_once_def
    by (intro conjI exI) (rule one_fed_reconnect [OF fed])
qed

lemma asked_once_on:
  assumes "list_all asked_once (ld_streams s)" "\<And>st. asked_once st \<Longrightarrow> asked_once (f st)"
  shows "list_all asked_once (ld_streams (on_log_stream i f s))"
  using assms by (auto simp: list_all_length nth_list_update)

lemma asked_once_cleanup:
  "list_all asked_once (ld_streams s) \<Longrightarrow> list_all asked_once (ld_streams (cleanupStream s))"
  by (auto simp: cleanupStream_def Let_def list_all_length nth_list_update asked_once_steps split: option.split)

lemma asked_once_open:
  assumes "list_all asked_once (ld_streams s)"
  shows "list_all asked_once (ld_streams (open_log w s))"
  using asked_once_cleanup [of "s\<lparr>log_lines := [], ld_drawer := open_op w (ld_drawer s)\<rparr>"] assms asked_once_new
  by (simp add: open_log_def Let_def nth_append list_update_append)

lemma asked_once_step:
  assumes "list_all asked_once (ld_streams s)"
  shows "list_all asked_once (ld_streams (ld_step clock lc s e))"
  using assms
  by (cases e)
    (simp_all add: asked_once_open asked_once_cleanup close_log_def log_entry_def log_stream_error_def
      log_opened_def log_reconnect_def toast_error_def Let_def asked_once_on asked_once_steps
      del: on_log_stream_keeps(5) split: option.split)

interpretation ld_asked: event_system "ld_step clock lc" "\<lambda>s. list_all asked_once (ld_streams s)" for clock lc
  by unfold_locales (rule asked_once_step)

text \<open>
  C31. The log asks the server on its first socket only: in every run, each stream the drawer has
  opened handed the request to its first socket, and nothing to any socket it reconnected with,
  also when that socket has opened.
\<close>

theorem log_asks_once:
  "\<forall>st \<in> set (ld_streams (run (ld_step clock lc) init_ld es)).
     \<exists>k. map handed (sockets st) = [()] # replicate k []"
proof -
  have "list_all asked_once (ld_streams init_ld)" by (simp add: init_ld_def ui.defs)
  then have "list_all asked_once (ld_streams (run (ld_step clock lc) init_ld es))" by (rule ld_asked.inv_run)
  then show ?thesis by (auto simp: list_all_iff asked_once_def)
qed

theorem log_asks_once_witness:
  "map handed (sockets (ld_streams (run (ld_step (\<lambda>_. None) by_length) init_ld [LdOpen 1200, LdOpened, LdReconnect, LdOpened]) ! 0)) =
     [[()], []]"
proof -
  let ?ss = "ld_streams (run (ld_step (\<lambda>_. None) by_length) init_ld [LdOpen 1200, LdOpened, LdReconnect, LdOpened])"
  have l: "length ?ss = 1" "length (sockets (?ss ! 0)) = 2"
    by (simp_all add: open_log_def cleanupStream_def log_opened_def log_reconnect_def init_ld_def init_ui_def ui.defs
        Let_def on_log_stream_def connect_socket_def new_stream_def new_subject_def send_def on_open_def
        subject_next_def reconnect_def teardown_def on_finalize_def)
  then have "?ss ! 0 \<in> set ?ss" by simp
  from bspec [OF log_asks_once this] obtain k where k: "map handed (sockets (?ss ! 0)) = [()] # replicate k []" ..
  then have "k = 1" using l(2) by (metis length_Cons length_map length_replicate Suc_1 old.nat.inject One_nat_def)
  with k show ?thesis by simp
qed

end
