(* ===== verification/Address.thy ===== *)
theory Address
  imports Forms Streams
begin

text \<open>
  The parts that show the address: the card
  (\<^verbatim>\<open>pages/home/sections/address-card/address-card.component.ts\<close>), the history drawer
  (\<^verbatim>\<open>pages/home/drawers/address-history/address-history-drawer.component.ts\<close>), the shell
  (\<^verbatim>\<open>app.ts\<close>) with its own address stream, and the progress bar's overlay
  (\<^verbatim>\<open>components/loading/loading.component.ts\<close>).
\<close>

subsection \<open>The card\<close>

datatype ac_req = AcRefresh

datatype ac_reply = AcOk | AcErr errval

text \<open>\<open>ac_subscribed\<close>: \<open>ngOnInit\<close>'s three subscriptions are there; \<open>toSignal\<close>'s one lasts until
  the stream ends.\<close>

record address_card = "(unit, ac_req) ui" +
  ac_stream :: "(unit, unit) stream"
  ac_address :: "address_msg option"
  refreshing :: bool
  connected :: bool
  ac_subscribed :: bool
  ac_ended :: bool

definition init_ac :: address_card where
  "init_ac = ui.extend init_ui
     \<lparr>ac_stream = connect_socket new_stream, ac_address = None, refreshing = False, connected = False,
      ac_subscribed = False, ac_ended = False\<rparr>"

definition ac_ngOnInit :: "address_card \<Rightarrow> address_card" where
  "ac_ngOnInit s = s\<lparr>ac_subscribed := True\<rparr>"

definition ac_opened :: "address_card \<Rightarrow> address_card" where
  "ac_opened s =
     (let s1 = s\<lparr>ac_stream := on_open (ac_stream s)\<rparr>
      in if ac_subscribed s1 \<and> \<not> completed (connectSource (ac_stream s1))
         then s1\<lparr>connected := True, ac_stream := send () (ac_stream s1)\<rparr> else s1)"

definition ac_closed :: "address_card \<Rightarrow> address_card" where
  "ac_closed s =
     (let s1 = s\<lparr>ac_stream := on_close () (ac_stream s)\<rparr>
      in if ac_subscribed s1 \<and> \<not> completed (terminate (ac_stream s1)) then s1\<lparr>connected := False\<rparr> else s1)"

definition ac_message :: "address_msg \<Rightarrow> address_card \<Rightarrow> address_card" where
  "ac_message a s = (if ac_ended s then s else s\<lparr>ac_address := Some a\<rparr>)"

definition ac_error :: "string \<Rightarrow> address_card \<Rightarrow> address_card" where
  "ac_error err s =
     (if ac_ended s then s
      else (let s1 = s\<lparr>ac_ended := True, ac_stream := teardown (ac_stream s)\<rparr>
            in if ac_subscribed s1 then toast_error (EStr err) ''Address stream error'' (s1\<lparr>connected := False\<rparr>)
               else s1))"

text \<open>After a delay the service connects again: the old socket is finalized, a new one made.\<close>

definition ac_reconnect :: "address_card \<Rightarrow> address_card" where
  "ac_reconnect s = (if ac_ended s then s else s\<lparr>ac_stream := reconnect (ac_stream s)\<rparr>)"

definition ac_ngOnDestroy :: "address_card \<Rightarrow> address_card" where
  "ac_ngOnDestroy s = s\<lparr>ac_subscribed := False, ac_ended := True, ac_stream := close_stream (ac_stream s)\<rparr>"

definition ac_refresh :: "address_card \<Rightarrow> address_card" where
  "ac_refresh s = request AcRefresh (s\<lparr>refreshing := True\<rparr>)"

definition on_ac_refreshed :: "address_card \<Rightarrow> address_card" where
  "on_ac_refreshed s = (toast ''Address refreshed successfully.'' s)\<lparr>refreshing := False\<rparr>"

definition on_ac_refresh_failed :: "errval \<Rightarrow> address_card \<Rightarrow> address_card" where
  "on_ac_refresh_failed e s = (toast_error e ''Refresh failed'' s)\<lparr>refreshing := False\<rparr>"

fun ac_handle :: "ac_req \<Rightarrow> ac_reply \<Rightarrow> (address_card \<Rightarrow> address_card) option" where
  "ac_handle AcRefresh AcOk = Some on_ac_refreshed"
| "ac_handle AcRefresh (AcErr e) = Some (on_ac_refresh_failed e)"

datatype ac_event =
    AcInit
  | AcOpened
  | AcClosed
  | AcMessage address_msg
  | AcError string
  | AcReconnect
  | AcClick
  | AcReply nat ac_reply
  | AcDestroy

text \<open>The button is disabled while refreshing.\<close>

fun ac_step :: "address_card \<Rightarrow> ac_event \<Rightarrow> address_card" where
  "ac_step s AcInit = ac_ngOnInit s"
| "ac_step s AcOpened = ac_opened s"
| "ac_step s AcClosed = ac_closed s"
| "ac_step s (AcMessage a) = ac_message a s"
| "ac_step s (AcError e) = ac_error e s"
| "ac_step s AcReconnect = ac_reconnect s"
| "ac_step s AcClick = (if refreshing s then s else ac_refresh s)"
| "ac_step s (AcReply k r) = on_reply ac_handle k r s"
| "ac_step s AcDestroy = ac_ngOnDestroy s"

definition ac_inv :: "address_card \<Rightarrow> bool" where
  "ac_inv s \<longleftrightarrow> length (pending s) = (if refreshing s then 1 else 0)"

lemma ac_inv_handle:
  assumes "ac_inv s" "k < length (pending s)" "ac_handle q r = Some f"
  shows "ac_inv (f (take_reply k s))"
  using assms
  by (cases q; cases r)
    (auto simp: ac_inv_def on_ac_refreshed_def on_ac_refresh_failed_def ui_defs remove_at_def split: if_splits)

lemma ac_inv_step: "ac_inv s \<Longrightarrow> ac_inv (ac_step s e)"
proof (cases e)
  case (AcReply k r)
  assume "ac_inv s"
  then show ?thesis using AcReply by (auto intro: on_reply_cases ac_inv_handle)
qed (auto simp: ac_inv_def ac_ngOnInit_def ac_opened_def ac_closed_def ac_message_def ac_error_def
    ac_reconnect_def ac_ngOnDestroy_def ac_refresh_def ui_defs Let_def)

interpretation ac: quiescent_system ac_step ac_inv pending "\<lambda>s. if refreshing s then {()} else {}" "\<lambda>_. Some ()"
proof unfold_locales
  show "ac_inv (ac_step s e)" if "ac_inv s" for s e
    using that by (rule ac_inv_step)
  show "\<exists>p \<in> set (pending s). Some () = Some m" if "ac_inv s" "m \<in> (if refreshing s then {()} else {})" for s m
    using that by (cases "refreshing s"; cases "pending s") (auto simp: ac_inv_def)
qed

lemma refresh_settles: "refreshing (run ac_step init_ac es) \<longleftrightarrow> pending (run ac_step init_ac es) \<noteq> []"
proof -
  have "ac_inv init_ac" by (simp add: ac_inv_def init_ac_def init_ui_def ui.defs)
  then have "ac_inv (run ac_step init_ac es)" by (rule ac.inv_run)
  then show ?thesis by (auto simp: ac_inv_def split: if_splits)
qed

text \<open>While the card listens, its stream has a current socket and its subjects are open.\<close>

definition live :: "('m, 'ev) stream \<Rightarrow> bool" where
  "live st \<longleftrightarrow> one_fed st \<and> currentWs st \<noteq> None \<and> \<not> completed (outgoing st) \<and> \<not> completed (connectSource st)"

lemma live_new: "live (connect_socket new_stream)"
  by (simp add: live_def) (simp add: connect_socket_def new_stream_def new_subject_def)

lemma live_steps [simp]:
  "live st \<Longrightarrow> live (on_open st)" "live st \<Longrightarrow> live (on_close ev st)" "live st \<Longrightarrow> live (send m st)"
  "live st \<Longrightarrow> live (reconnect st)"
  by (simp_all add: live_def one_fed_teardown)
    (simp_all add: on_open_def on_close_def reconnect_def connect_socket_def teardown_def on_finalize_def
      split: option.split)

text \<open>The socket of a live stream opens after a reconnect, and its observer sends \<open>m\<close>.\<close>

lemma reconnect_handed:
  assumes "live st"
  shows "map handed (sockets (send m (on_open (reconnect st)))) = map handed (sockets st) @ [[m]]"
proof -
  have "live (on_open (reconnect st))" using assms by simp
  then show ?thesis
    using send_reaches_current [of "on_open (reconnect st)" m] assms
    by (simp add: live_def handed_reconnect)
qed

definition ac_live :: "address_card \<Rightarrow> bool" where
  "ac_live s \<longleftrightarrow> ac_ended s \<or> live (ac_stream s)"

lemma ac_live_step: "ac_live s \<Longrightarrow> ac_live (ac_step s e)"
  by (cases e)
    (auto simp: ac_live_def ac_ngOnInit_def ac_opened_def ac_closed_def ac_message_def ac_error_def ac_reconnect_def
      ac_ngOnDestroy_def ac_refresh_def on_ac_refreshed_def on_ac_refresh_failed_def ui_defs Let_def on_reply_def
      elim!: ac_handle.elims split: option.splits)

interpretation ac_stream: event_system ac_step ac_live
  by unfold_locales (rule ac_live_step)

text \<open>What the badge of the card shows.\<close>

definition card_badge :: "address_card \<Rightarrow> string" where
  "card_badge s = (if connected s then ''Live'' else ''Offline'')"

text \<open>
  C35. The card survives a lost connection: after every run in which it still listens, a reconnect
  whose socket opens asks the server again, on the new socket and on no other, and the badge
  shows the card live.
\<close>

theorem card_asks_again:
  assumes "s = run ac_step init_ac es" "ac_subscribed s" "\<not> ac_ended s"
  shows "map handed (sockets (ac_stream (run ac_step s [AcReconnect, AcOpened]))) =
      map handed (sockets (ac_stream s)) @ [[()]] \<and>
    card_badge (run ac_step s [AcReconnect, AcOpened]) = ''Live''"
proof -
  have "ac_live init_ac" by (simp add: ac_live_def init_ac_def ui.defs live_new)
  then have "ac_live s" unfolding assms(1) by (rule ac_stream.inv_run)
  with assms(3) have l: "live (ac_stream s)" by (simp add: ac_live_def)
  then have "live (on_open (reconnect (ac_stream s)))" by simp
  then have "\<not> completed (connectSource (on_open (reconnect (ac_stream s))))" by (simp only: live_def simp_thms)
  then show ?thesis
    using assms(2,3) reconnect_handed [OF l, of "()"]
    by (simp add: ac_reconnect_def ac_opened_def Let_def card_badge_def)
qed

theorem card_asks_again_witness:
  "map handed (sockets (ac_stream (run ac_step init_ac [AcInit, AcOpened, AcClosed, AcReconnect, AcOpened]))) =
     [[()], [()]]"
  using card_asks_again [of "run ac_step init_ac [AcInit, AcOpened, AcClosed]" "[AcInit, AcOpened, AcClosed]"]
  by (simp add: init_ac_def ui.defs ac_ngOnInit_def ac_opened_def ac_closed_def Let_def on_open_def on_close_def
      connect_socket_def new_stream_def new_subject_def send_def subject_next_def)

subsection \<open>The card as a client of the services\<close>

fun ac_answered :: "ac_event \<Rightarrow> nat option" where
  "ac_answered (AcReply k r) = Some k"
| "ac_answered _ = None"

lemma ac_asks_handle: "ac_handle q r = Some f \<Longrightarrow> asks s (f s)"
  by (cases q; cases r) (auto simp: asks_def on_ac_refreshed_def on_ac_refresh_failed_def)

interpretation ac_http: http_client ac_step ac_answered
proof unfold_locales
  show "asks s (ac_step s e)" if "ac_answered e = None" for s e
    using that by (cases e) (auto simp: asks_def ac_ngOnInit_def ac_opened_def ac_closed_def ac_message_def
        ac_error_def ac_reconnect_def ac_ngOnDestroy_def ac_refresh_def Let_def)
  show "ac_step s e = s \<or> k < length (pending s) \<and> asks (take_reply k s) (ac_step s e)"
    if "ac_answered e = Some k" for s e k
    by (insert that, cases e; simp) (rule reply_asks, erule ac_asks_handle)
qed

text \<open>Its invariant reads nothing of the service.\<close>

interpretation ac_hosted: hosted_client ac_step ac_answered ac_inv
  by unfold_locales (simp add: ac_inv_def lend_def)

subsection \<open>The history\<close>

datatype ah_req = AhHistory

datatype ah_reply = AhAddresses "address_msg list option" | AhErr errval

record address_history = "(unit, ah_req) ui" +
  ah_addresses :: "address_msg list"
  ah_loading :: bool
  ah_drawer :: drawer

definition init_ah :: address_history where
  "init_ah = ui.extend init_ui
     \<lparr>ah_addresses = [], ah_loading = True, ah_drawer = init_drawer\<lparr>width := 40, breakpoints := form_breakpoints\<rparr>\<rparr>"

definition open_history :: "int \<Rightarrow> address_history \<Rightarrow> address_history" where
  "open_history w s = request AhHistory (s\<lparr>ah_drawer := open_op w (ah_drawer s)\<rparr>)"

definition on_history :: "address_msg list option \<Rightarrow> address_history \<Rightarrow> address_history" where
  "on_history res s = s\<lparr>ah_addresses := nullish res [], ah_loading := False\<rparr>"

definition on_history_failed :: "errval \<Rightarrow> address_history \<Rightarrow> address_history" where
  "on_history_failed e s = toast_error e ''Failed to load history'' (s\<lparr>ah_loading := False\<rparr>)"

fun ah_handle :: "ah_req \<Rightarrow> ah_reply \<Rightarrow> (address_history \<Rightarrow> address_history) option" where
  "ah_handle AhHistory (AhAddresses res) = Some (on_history res)"
| "ah_handle AhHistory (AhErr e) = Some (on_history_failed e)"

datatype ah_event = AhOpen int | AhCancel | AhCloseDue | AhReply nat ah_reply

text \<open>\<open>AhCancel\<close>: the close button, or the drawer's \<open>closed\<close> output.\<close>

fun ah_step :: "address_history \<Rightarrow> ah_event \<Rightarrow> address_history" where
  "ah_step s (AhOpen w) = open_history w s"
| "ah_step s AhCancel = s\<lparr>ah_drawer := close_op (ah_drawer s)\<rparr>"
| "ah_step s AhCloseDue = s\<lparr>ah_drawer := close_due (ah_drawer s)\<rparr>"
| "ah_step s (AhReply k r) = on_reply ah_handle k r s"

fun ah_answered :: "ah_event \<Rightarrow> nat option" where
  "ah_answered (AhReply k r) = Some k"
| "ah_answered _ = None"

lemma ah_asks_handle: "ah_handle q r = Some f \<Longrightarrow> asks s (f s)"
  by (cases q; cases r) (auto simp: asks_def on_history_def on_history_failed_def)

interpretation ah_http: http_client ah_step ah_answered
proof unfold_locales
  show "asks s (ah_step s e)" if "ah_answered e = None" for s e
    using that by (cases e) (auto simp: asks_def open_history_def)
  show "ah_step s e = s \<or> k < length (pending s) \<and> asks (take_reply k s) (ah_step s e)"
    if "ah_answered e = Some k" for s e k
    by (insert that, cases e; simp) (rule reply_asks, erule ah_asks_handle)
qed

subsection \<open>The shell\<close>

record app =
  app_stream :: "(unit, unit) stream"
  currentAddress :: "address_msg option"
  app_connectedSub :: bool
  app_container :: bool

definition init_app :: app where
  "init_app = \<lparr>app_stream = connect_socket new_stream, currentAddress = None, app_connectedSub = True,
               app_container = False\<rparr>"

definition app_ngOnInit :: "app \<Rightarrow> app" where
  "app_ngOnInit s = s\<lparr>app_container := True\<rparr>"

definition app_opened :: "app \<Rightarrow> app" where
  "app_opened s =
     (let s1 = s\<lparr>app_stream := on_open (app_stream s)\<rparr>
      in if app_connectedSub s1 \<and> \<not> completed (connectSource (app_stream s1))
         then s1\<lparr>app_stream := send () (app_stream s1)\<rparr> else s1)"

definition app_ngOnDestroy :: "app \<Rightarrow> app" where
  "app_ngOnDestroy s =
     (let s1 = s\<lparr>app_connectedSub := False, app_stream := close_stream (app_stream s)\<rparr>
      in if app_container s1 then s1\<lparr>app_container := False\<rparr> else s1)"

text \<open>\<open>toSignal\<close> holds the last message; closing the stream ends it.\<close>

definition app_message :: "address_msg \<Rightarrow> app \<Rightarrow> app" where
  "app_message a s = (if completed (kill (app_stream s)) then s else s\<lparr>currentAddress := Some a\<rparr>)"

definition app_reconnect :: "app \<Rightarrow> app" where
  "app_reconnect s = (if completed (kill (app_stream s)) then s else s\<lparr>app_stream := reconnect (app_stream s)\<rparr>)"

datatype app_event = AppInit | AppOpened | AppMessage address_msg | AppReconnect | AppDestroy

fun app_step :: "app \<Rightarrow> app_event \<Rightarrow> app" where
  "app_step s AppInit = app_ngOnInit s"
| "app_step s AppOpened = app_opened s"
| "app_step s (AppMessage a) = app_message a s"
| "app_step s AppReconnect = app_reconnect s"
| "app_step s AppDestroy = app_ngOnDestroy s"

definition app_live :: "app \<Rightarrow> bool" where
  "app_live s \<longleftrightarrow> (if completed (kill (app_stream s)) then \<not> app_connectedSub s
                   else app_connectedSub s \<and> live (app_stream s))"

lemma kill_steps [simp]:
  "kill (on_open st) = kill st" "kill (reconnect st) = kill st" "completed (kill (close_stream st))"
  by (simp_all add: on_open_def reconnect_def connect_socket_def close_stream_def Let_def)

lemma app_live_step: "app_live s \<Longrightarrow> app_live (app_step s e)"
  by (cases e)
    (auto simp: app_live_def app_ngOnInit_def app_opened_def app_message_def app_reconnect_def app_ngOnDestroy_def Let_def)

interpretation app: event_system app_step app_live
  by unfold_locales (rule app_live_step)

text \<open>The shell asks again too: until it is destroyed, each socket that opens is handed the request.\<close>

lemma app_asks_again:
  assumes "s = run app_step init_app es" "app_connectedSub s"
  shows "map handed (sockets (app_stream (run app_step s [AppReconnect, AppOpened]))) =
    map handed (sockets (app_stream s)) @ [[()]]"
proof -
  have "app_live init_app"
    using live_new by (simp add: app_live_def init_app_def) (simp add: connect_socket_def new_stream_def new_subject_def)
  then have "app_live s" unfolding assms(1) by (rule app.inv_run)
  with assms(2) have l: "live (app_stream s)" "\<not> completed (kill (app_stream s))"
    by (auto simp: app_live_def split: if_splits)
  then have "live (on_open (reconnect (app_stream s)))" by simp
  then have "\<not> completed (connectSource (on_open (reconnect (app_stream s))))" by (simp only: live_def simp_thms)
  then show ?thesis
    using assms(2) l reconnect_handed [OF l(1), of "()"] by (simp add: app_reconnect_def app_opened_def Let_def)
qed

text \<open>After the shell is destroyed nothing it sent can follow: its stream hands out nothing more.\<close>

lemma app_destroyed_silent:
  "concat (map handed (sockets (run stream_step (app_stream (app_ngOnDestroy s)) es))) =
     concat (map handed (sockets (app_stream s)))"
  using closed_stream.inv_run [OF quiet_closed [of "app_stream s"], of es]
  by (simp add: app_ngOnDestroy_def Let_def quiet_def)

subsection \<open>The progress bar\<close>

text \<open>The effect runs with every change of \<open>isLoading\<close>.\<close>

definition show_progress :: "bool \<Rightarrow> bool" where
  "show_progress attached = (if \<not> attached then True else attached)"

definition hide_progress :: "bool \<Rightarrow> bool" where
  "hide_progress attached = (if attached then False else attached)"

definition loading_effect :: "bool \<Rightarrow> bool \<Rightarrow> bool" where
  "loading_effect is_loading attached = (if is_loading then show_progress attached else hide_progress attached)"

lemma loading_effect_follows: "loading_effect b attached = b"
  by (simp add: loading_effect_def show_progress_def hide_progress_def)

end
