(* ===== verification/NotifyView.thy ===== *)
theory NotifyView
  imports Address
begin

text \<open>
  What the notification components and the address components show: the templates of
  \<^verbatim>\<open>components/notification-toast\<close>, \<^verbatim>\<open>components/notification-container\<close>,
  \<^verbatim>\<open>components/warning-dialog\<close>, \<^verbatim>\<open>components/error\<close>, of the address card and of the history
  drawer, as values that hold the texts and, for each button, the event it raises. The format of
  a date is the argument \<open>date\<close>.
\<close>

subsection \<open>Toasts\<close>

definition falsy_error :: "errval \<Rightarrow> bool" where
  "falsy_error e \<longleftrightarrow> e = EFalsy \<or> e = EStr []"

record 'h toast_view =
  tv_error :: bool
  tv_icon :: string
  tv_title :: "string option"
  tv_message :: string
  tv_detail :: "'h notify_event option"
  tv_dismiss :: "'h notify_event"

definition toast_view_of :: "NotificationItem \<Rightarrow> 'h toast_view" where
  "toast_view_of item =
     \<lparr>tv_error = (item_kind item = ErrorKind),
      tv_icon = (if item_kind item = ErrorKind then ''error'' else ''info''),
      tv_title = (if nullish (item_title item) '''' \<noteq> '''' then item_title item else None),
      tv_message = item_message item,
      tv_detail = (if item_kind item = ErrorKind \<and> \<not> falsy_error (item_rawError item) then Some (Detail item) else None),
      tv_dismiss = DismissOne (item_id item)\<rparr>"

record 'h container_view =
  cv_toasts :: "'h toast_view list"
  cv_dismissAll :: "(string \<times> 'h notify_event) option"

definition container_view_of :: "'h notify_state \<Rightarrow> 'h container_view" where
  "container_view_of s =
     \<lparr>cv_toasts = map toast_view_of (notifications s),
      cv_dismissAll =
        (if dismiss_all_visible s
         then Some (''Dismiss all '' @ show_nat (length (notifications s)) @ '' notifications'', DismissEvery)
         else None)\<rparr>"

subsection \<open>Dialogs\<close>

record button_view =
  bv_text :: string
  bv_destructive :: bool
  bv_primary :: bool

record warning_view =
  wv_title :: string
  wv_message :: string
  wv_checkbox :: "(string \<times> bool) option"
  wv_buttons :: "button_view list"

definition warning_view_of :: "'h Warning \<Rightarrow> warning_view" where
  "warning_view_of w =
     \<lparr>wv_title = warn_title w, wv_message = warn_message w, wv_checkbox = warn_checkbox w,
      wv_buttons = map (\<lambda>b. \<lparr>bv_text = btn_text b, bv_destructive = (btn_color b = ''warn''),
                             bv_primary = (btn_color b = ''primary'')\<rparr>) (warn_buttons w)\<rparr>"

text \<open>The error dialog shows nothing without a message; an object is printed by its \<open>toString\<close>.\<close>

definition error_text :: "errval \<Rightarrow> string" where
  "error_text e = (case e of EStr x \<Rightarrow> x | EFalsy \<Rightarrow> '''' | EObject \<Rightarrow> ''[object Object]'')"

definition error_view_of :: "errval option \<times> string option \<Rightarrow> (string \<times> string) option" where
  "error_view_of inputs =
     (case fst inputs of
        None \<Rightarrow> None
      | Some m \<Rightarrow> if falsy_error m then None else Some (nullish (snd inputs) ''Error'', error_text m))"

fun dialog_error :: "'h dialog \<Rightarrow> (string \<times> string) option" where
  "dialog_error (ErrorDialog m t) = error_view_of (error_init (Some (m, t)) (None, None))"
| "dialog_error (WarningDialog w) = None"

subsection \<open>The address card and the history\<close>

record address_rows =
  av_ipv4 :: string
  av_ipv6 :: "string option"
  av_updated :: "string option"

datatype card_body = Connecting | AddressShown address_rows

definition some_text :: "string option \<Rightarrow> string option" where
  "some_text t = (if nullish t '''' \<noteq> '''' then t else None)"

definition card_body_of :: "(string \<Rightarrow> int \<Rightarrow> string) \<Rightarrow> address_card \<Rightarrow> card_body" where
  "card_body_of date s =
     (case ac_address s of
        None \<Rightarrow> Connecting
      | Some a \<Rightarrow> AddressShown
          \<lparr>av_ipv4 = or_str (nullish (adr_ipv4 a) '''') em_dash,
           av_ipv6 = some_text (adr_ipv6 a),
           av_updated = (if adr_updatedAt a \<noteq> 0 then Some (date ''dd.MM.yyyy HH:mm'' (adr_updatedAt a)) else None)\<rparr>)"

text \<open>The card with its badge (its text and, when offline, its hint) and its two buttons.\<close>

datatype card_action = CardClick ac_event | OpenHistory

record card_view =
  av_badge :: "string \<times> string option"
  av_refresh :: "card_action option"
  av_history :: card_action
  av_body :: card_body

definition card_view_of :: "(string \<Rightarrow> int \<Rightarrow> string) \<Rightarrow> address_card \<Rightarrow> card_view" where
  "card_view_of date s =
     \<lparr>av_badge =
        (card_badge s,
         if connected s then None else Some (''Address stream disconnected. Reconnecting'' @ ellipsis)),
      av_refresh = (if refreshing s then None else Some (CardClick AcClick)),
      av_history = OpenHistory,
      av_body = card_body_of date s\<rparr>"

text \<open>The shell: the address in the toolbar, the progress bar below it, and its two buttons.\<close>

datatype shell_action = OpenLog | OpenSettings

record shell_view =
  sv_address :: "string option"
  sv_bar :: bool
  sv_buttons :: "(string \<times> shell_action) list"

definition shell_view_of :: "bool \<Rightarrow> app \<Rightarrow> shell_view" where
  "shell_view_of is_loading s =
     \<lparr>sv_address =
        map_option (\<lambda>a. or_str (nullish (adr_ipv4 a) '''') (nullish (adr_ipv6 a) '''')) (currentAddress s),
      sv_bar = is_loading,
      sv_buttons = [(''Logs'', OpenLog), (''Settings'', OpenSettings)]\<rparr>"

record history_view_row =
  hv_date :: string
  hv_current :: bool
  hv_ipv4 :: "string option"
  hv_ipv6 :: "string option"

datatype history_body = LoadingHistory | NoHistory | HistoryRows "history_view_row list"

definition history_body_of :: "(string \<Rightarrow> int \<Rightarrow> string) \<Rightarrow> address_history \<Rightarrow> history_body" where
  "history_body_of date s =
     (if ah_loading s then LoadingHistory
      else if length (ah_addresses s) = 0 then NoHistory
      else HistoryRows (map (\<lambda>a. \<lparr>hv_date = date ''dd.MM.yyyy HH:mm'' (adr_updatedAt a), hv_current = adr_current a,
                                   hv_ipv4 = some_text (adr_ipv4 a), hv_ipv6 = some_text (adr_ipv6 a)\<rparr>)
                          (ah_addresses s)))"

subsection \<open>Facts\<close>

text \<open>
  A toast's buttons do what they offer: dismissing leaves no toast of that identifier and keeps
  the others, and the detail button, where it is shown, opens a dialog that shows the error
  under the toast's title and changes no toast.
\<close>

lemma toast_dismiss:
  "notifications (svc (notify_step y (tv_dismiss (toast_view_of item)))) =
     filter (\<lambda>n. item_id n \<noteq> item_id item) (notifications (svc y))"
  by (simp add: toast_view_of_def dismissNotification_def)

lemma toast_detail:
  assumes "tv_detail (toast_view_of item) = Some e"
  shows "notifications (svc (notify_step y e)) = notifications (svc y)"
    and "\<exists>d. dialogs (svc (notify_step y e)) = dialogs (svc y) @ [d] \<and>
      dialog_error d = Some (nullish (item_title item) ''Error'', error_text (item_rawError item))"
  using assms
  by (auto simp: toast_view_of_def falsy_error_def showDetail_def presentErrorDetailModal_def error_view_of_def
      error_init_def split: if_splits option.split)

text \<open>An error that is not an empty text is offered in detail, and an information never is.\<close>

lemma error_toast_offers_detail:
  "notifications (error_op i e t default_duration init_notify) = [n] \<Longrightarrow>
   tv_detail (toast_view_of n) \<noteq> None \<longleftrightarrow> \<not> falsy_error e"
  "notifications (message_op i m t default_duration init_notify) = [n] \<Longrightarrow> tv_detail (toast_view_of n) = None"
  by (auto simp: error_op_def message_op_def addNotification_def toast_view_of_def init_notify_def Let_def split: if_splits)

lemma dismiss_all_clears:
  "cv_dismissAll (container_view_of (svc y)) = Some (txt, e) \<Longrightarrow> notifications (svc (notify_step y e)) = []"
  by (simp add: container_view_of_def dismissAll_def split: if_splits)

text \<open>The card's refresh is offered exactly while no refresh is in flight, and clicking sends one.\<close>

lemma refresh_offered:
  "av_refresh (card_view_of date (run ac_step init_ac es)) =
     (if pending (run ac_step init_ac es) = [] then Some (CardClick AcClick) else None)"
  by (simp add: card_view_of_def refresh_settles)

text \<open>The toolbar shows the address the card shows, once both have had the same message.\<close>

lemma toolbar_agrees:
  assumes "\<not> ac_ended c" "\<not> completed (kill (app_stream s))" "nullish (adr_ipv4 a) '''' \<noteq> ''''"
  shows "sv_address (shell_view_of b (app_message a s)) = Some (nullish (adr_ipv4 a) '''')"
    and "\<exists>rows. av_body (card_view_of date (ac_message a c)) = AddressShown rows \<and> av_ipv4 rows = nullish (adr_ipv4 a) ''''"
  using assms
  by (simp_all add: shell_view_of_def app_message_def card_view_of_def card_body_of_def ac_message_def or_str_def)

text \<open>The progress of the history: it shows rows as soon as an answer with addresses is there.\<close>

lemma history_shown:
  "as \<noteq> [] \<Longrightarrow> \<exists>rows. history_body_of date (on_history (Some as) s) = HistoryRows rows \<and> length rows = length as"
  by (simp add: history_body_of_def on_history_def)

end
