(* ===== verification/LogView.thy ===== *)
theory LogView
  imports LogDrawer
begin

text \<open>
  What the log drawer shows (the template of
  \<^verbatim>\<open>pages/home/drawers/log/log-drawer.component.ts\<close>): for each line the time, the level with
  its class, the message and the details with their keys, as texts.
\<close>

record log_row =
  lr_malformed :: bool
  lr_time :: string
  lr_class :: string
  lr_level :: string
  lr_message :: string
  lr_details :: "(string \<times> string) list"

definition log_details :: "LogField list \<Rightarrow> (string \<times> string) list" where
  "log_details fs = map (\<lambda>f. (field_key f @ ''='', field_text f)) fs"

definition log_row_of :: "LogViewLine \<Rightarrow> log_row" where
  "log_row_of line =
     \<lparr>lr_malformed = (\<not> isJson line),
      lr_time = ''['' @ log_time line @ '']'',
      lr_class = ''log-level '' @ log_levelClass line,
      lr_level = log_level line,
      lr_message = log_message line,
      lr_details = log_details (knownFields line) @ log_details (extraFields line) @
        (if \<not> isJson line then [(''raw='', log_raw line)] else [])\<rparr>"

definition log_view_of :: "log_drawer \<Rightarrow> log_row list" where
  "log_view_of s = map log_row_of (log_lines s)"

text \<open>A line that is no JSON object is shown with its raw text and nothing else.\<close>

lemma raw_line_shown:
  assumes "\<nexists>kvs. json_parse t = Some (JObj kvs)"
  shows "lr_malformed (log_row_of (parseLogLine clock lc t))"
    and "lr_details (log_row_of (parseLogLine clock lc t)) = [(''raw='', t)]"
  using assms by (auto simp: log_row_of_def log_details_def parseLogLine_def split: option.splits jsval.splits)

text \<open>The line of an object shows each of its other properties, with its key and the text of its
  value, and not the raw text.\<close>

lemma object_line_shown:
  assumes "json_ok (JObj kvs)" "stringify (JObj kvs) = Some t"
  shows "\<not> lr_malformed (log_row_of (parseLogLine clock lc t))"
    and "set (lr_details (log_row_of (parseLogLine clock lc t))) =
      (\<lambda>k. (k @ ''='', formatValue (get (JObj kvs) k))) ` (fst ` set kvs - {''time'', ''level'', ''message''})"
proof -
  let ?p = "parseLogLine clock lc t"
  note p = parse_object [OF assms, of clock lc]
  show "\<not> lr_malformed (log_row_of ?p)" using p(1) by (simp add: log_row_of_def)
  let ?c = "set ([''time'', ''level'', ''message''] @ knownFieldOrder)"
  have k: "field_key ` set (knownFields ?p) = {k \<in> fst ` set kvs. k \<in> set knownFieldOrder}"
    using arg_cong [OF p(3), of set] by auto
  have e: "field_key ` set (extraFields ?p) = {k \<in> fst ` set kvs. k \<notin> ?c}"
    using arg_cong [OF p(4), of set] by (auto simp del: set_append)
  have o: "set knownFieldOrder \<inter> {''time'', ''level'', ''message''} = {}" by (simp add: knownFieldOrder_def)
  have keys: "field_key ` (set (knownFields ?p) \<union> set (extraFields ?p)) = fst ` set kvs - {''time'', ''level'', ''message''}"
    unfolding image_Un k e using o by auto
  have "set (lr_details (log_row_of ?p)) =
      (\<lambda>f. (field_key f @ ''='', field_text f)) ` (set (knownFields ?p) \<union> set (extraFields ?p))"
    using p(1) by (simp add: log_row_of_def log_details_def image_Un)
  also have "\<dots> = (\<lambda>f. (field_key f @ ''='', formatValue (get (JObj kvs) (field_key f)))) `
      (set (knownFields ?p) \<union> set (extraFields ?p))"
    using p(6) by (intro image_cong) auto
  also have "\<dots> = (\<lambda>k. (k @ ''='', formatValue (get (JObj kvs) k))) `
      (field_key ` (set (knownFields ?p) \<union> set (extraFields ?p)))"
    by (simp add: image_image)
  finally show "set (lr_details (log_row_of ?p)) =
      (\<lambda>k. (k @ ''='', formatValue (get (JObj kvs) k))) ` (fst ` set kvs - {''time'', ''level'', ''message''})"
    unfolding keys .
qed

end
