(* ===== verification/TableView.thy ===== *)
theory TableView
  imports RecordsTable
begin

text \<open>
  What the records table shows (the template of
  \<^verbatim>\<open>pages/home/sections/records-table/records-table.component.ts\<close>): the header, the cells of
  a row, the menu of a row and the texts of an empty table, as values; each enabled button is the
  action it raises, an event of the table or the record drawer that is opened.
\<close>

datatype table_action = TableAct rt_event | OpenForm "record_msg option"

record menu_item =
  mi_icon :: string
  mi_text :: string
  mi_class :: string
  mi_click :: "table_action option"

definition primary_item :: "string \<Rightarrow> string \<Rightarrow> table_action \<Rightarrow> menu_item" where
  "primary_item icon txt a = \<lparr>mi_icon = icon, mi_text = txt, mi_class = ''primary-item'', mi_click = Some a\<rparr>"

definition row_menu :: "records_table \<Rightarrow> record_msg \<Rightarrow> menu_item list" where
  "row_menu s r =
     [primary_item ''dashboard'' ''Overview'' (TableAct (RtOpen r)),
      primary_item ''edit'' ''Edit'' (OpenForm (Some r))] @
     (if recordDoesDdns r then [primary_item ''refresh'' ''Refresh'' (TableAct (RtRefresh r))] else []) @
     (if recordHasCert r
      then [\<lparr>mi_icon = ''verified'', mi_text = ''Issue cert'', mi_class = ''primary-item'',
             mi_click = (if rec_id r \<in> issuing s then None else Some (TableAct (RtIssue r)))\<rparr>]
      else []) @
     [\<lparr>mi_icon = ''delete'', mi_text = ''Delete'', mi_class = ''danger-item'', mi_click = Some (TableAct (RtDelete r))\<rparr>]"

record cert_notes =
  cn_hint :: string
  cn_expiry :: "string option"

definition cert_notes_of :: "(string \<Rightarrow> int \<Rightarrow> string) \<Rightarrow> records_table \<Rightarrow> record_msg \<Rightarrow> cert_notes option" where
  "cert_notes_of date s r =
     (if recordHasCert r \<and> rec_id r \<notin> issuing s
      then map_option (\<lambda>c. \<lparr>cn_hint = crt_lastError c,
             cn_expiry = (if crt_notAfter c \<noteq> 0 then Some (date ''dd.MM.yyyy'' (crt_notAfter c)) else None)\<rparr>)
             (rec_certificate r)
      else None)"

record table_row =
  tw_name :: string
  tw_domain :: string
  tw_purpose :: string
  tw_ip :: ip_view
  tw_cert :: cert_view
  tw_notes :: "cert_notes option"
  tw_updated :: string
  tw_ttl :: string
  tw_menu :: "menu_item list"
  tw_open :: table_action

definition table_row_of :: "(string \<Rightarrow> int \<Rightarrow> string) \<Rightarrow> records_table \<Rightarrow> record_msg \<Rightarrow> table_row" where
  "table_row_of date s r =
     \<lparr>tw_name = rec_name r, tw_domain = rec_domain r, tw_purpose = purposeLabel (rec_purpose r),
      tw_ip = ip_cell s r, tw_cert = cert_cell s r, tw_notes = cert_notes_of date s r,
      tw_updated = (if rec_updatedAt r \<noteq> 0 then date ''dd.MM.yyyy HH:mm'' (rec_updatedAt r) else em_dash),
      tw_ttl = show_int (rec_ttl r) @ ''s'', tw_menu = row_menu s r, tw_open = TableAct (RtOpen r)\<rparr>"

definition columns :: "string list" where
  "columns = [''name'', ''domain'', ''purpose'', ''ip'', ''certificate'', ''updatedAt'', ''ttl'', ''actions'']"

fun column_title :: "string \<Rightarrow> string" where
  "column_title c =
     (if c = ''name'' then ''Name'' else if c = ''domain'' then ''Domain'' else if c = ''purpose'' then ''Purpose''
      else if c = ''ip'' then ''IP'' else if c = ''certificate'' then ''Certificate''
      else if c = ''updatedAt'' then ''Last Updated'' else if c = ''ttl'' then ''TTL'' else '''')"

datatype table_body = Rows "string list" "table_row list" | EmptyText string string

definition table_body_of :: "(string \<Rightarrow> int \<Rightarrow> string) \<Rightarrow> records_table \<Rightarrow> table_body" where
  "table_body_of date s =
     (case table_section s of
        ShowTable \<Rightarrow> Rows (map column_title columns) (map (table_row_of date s) (rt_records s))
      | ShowNoMatch \<Rightarrow> EmptyText ''search_off'' (''No records match \"'' @ searchTerm s @ ''\".'')
      | ShowNoRecords \<Rightarrow> EmptyText ''dns'' ''No records yet. Add your first DNS record to get started.'')"

record table_view =
  tv_count :: "nat option"
  tv_search :: string
  tv_clear :: "table_action option"
  tv_add :: table_action
  tv_body :: table_body

definition table_view_of :: "(string \<Rightarrow> int \<Rightarrow> string) \<Rightarrow> records_table \<Rightarrow> table_view" where
  "table_view_of date s =
     \<lparr>tv_count = (if length (rt_records s) \<noteq> 0 then Some (length (rt_records s)) else None),
      tv_search = searchTerm s,
      tv_clear = (if searchTerm s \<noteq> '''' then Some (TableAct RtClearSearch) else None),
      tv_add = OpenForm None,
      tv_body = table_body_of date s\<rparr>"

subsection \<open>What can be clicked\<close>

definition row_actions :: "table_row \<Rightarrow> table_action list" where
  "row_actions w = tw_open w # List.map_filter mi_click (tw_menu w)"

definition table_actions :: "table_view \<Rightarrow> table_action list" where
  "table_actions v =
     (case tv_clear v of None \<Rightarrow> [] | Some a \<Rightarrow> [a]) @ tv_add v #
     (case tv_body v of Rows cs ws \<Rightarrow> concat (map row_actions ws) | EmptyText i t \<Rightarrow> [])"

text \<open>The text \<open>No records match\<close> is unreachable, so the three cases of the body are two.\<close>

lemma table_body_cases:
  "table_body_of date s =
     (if rt_records s = [] then EmptyText ''dns'' ''No records yet. Add your first DNS record to get started.''
      else Rows (map column_title columns) (map (table_row_of date s) (rt_records s)))"
  by (simp add: table_body_of_def table_section_def)

lemma set_row_actions:
  "set (row_actions (table_row_of date s r)) =
     {TableAct (RtOpen r), OpenForm (Some r), TableAct (RtDelete r)} \<union>
     (if recordDoesDdns r then {TableAct (RtRefresh r)} else {}) \<union>
     (if recordHasCert r \<and> rec_id r \<notin> issuing s then {TableAct (RtIssue r)} else {})"
  by (auto simp: row_actions_def table_row_of_def row_menu_def primary_item_def List.map_filter_def)

lemma set_table_actions:
  "set (table_actions (table_view_of date s)) =
     (if searchTerm s \<noteq> '''' then {TableAct RtClearSearch} else {}) \<union> {OpenForm None} \<union>
     (\<Union>r \<in> set (rt_records s). set (row_actions (table_row_of date s r)))"
  by (auto simp: table_actions_def table_view_of_def table_body_cases)

lemma offered_iff:
  "TableAct e \<in> set (table_actions (table_view_of date s)) \<longleftrightarrow>
     (case e of
        RtOpen r \<Rightarrow> r \<in> set (rt_records s)
      | RtDelete r \<Rightarrow> r \<in> set (rt_records s)
      | RtRefresh r \<Rightarrow> r \<in> set (rt_records s) \<and> recordDoesDdns r
      | RtIssue r \<Rightarrow> r \<in> set (rt_records s) \<and> recordHasCert r \<and> rec_id r \<notin> issuing s
      | RtClearSearch \<Rightarrow> searchTerm s \<noteq> ''''
      | _ \<Rightarrow> False)"
  by (cases e) (auto simp: set_table_actions set_row_actions split: if_splits)

lemma offered_form_iff:
  "OpenForm m \<in> set (table_actions (table_view_of date s)) \<longleftrightarrow> pred_option (\<lambda>r. r \<in> set (rt_records s)) m"
  by (cases m) (auto simp: set_table_actions set_row_actions split: if_splits)

subsection \<open>Clicking what is shown\<close>

text \<open>The events that are clicks on the table, and the table under a user who clicks what it shows.\<close>

fun is_table_click :: "rt_event \<Rightarrow> bool" where
  "is_table_click (RtRefresh r) = True"
| "is_table_click (RtIssue r) = True"
| "is_table_click (RtDelete r) = True"
| "is_table_click (RtOpen r) = True"
| "is_table_click RtClearSearch = True"
| "is_table_click _ = False"

definition table_page_step :: "(string \<Rightarrow> int \<Rightarrow> string) \<Rightarrow> records_table \<Rightarrow> rt_event \<Rightarrow> records_table" where
  "table_page_step date s e =
     (if is_table_click e \<and> TableAct e \<notin> set (table_actions (table_view_of date s)) then s else rt_step s e)"

text \<open>The records the server has listed, and the requests that fit them.\<close>

fun told_records :: "rt_event \<Rightarrow> record_msg list" where
  "told_records (RtReply k (RepRecords (Some rs))) = rs"
| "told_records _ = []"

fun fits :: "record_msg set \<Rightarrow> rt_req \<Rightarrow> bool" where
  "fits R (ReqHetzner r) = (r \<in> R \<and> recordDoesDdns r)"
| "fits R (ReqResolve r) = (r \<in> R \<and> recordDoesDdns r)"
| "fits R (ReqRefresh r) = (r \<in> R \<and> recordDoesDdns r)"
| "fits R (ReqIssue r) = (r \<in> R \<and> recordHasCert r)"
| "fits R (ReqPoll i a) = (\<exists>r \<in> R. rec_id r = i \<and> recordHasCert r)"
| "fits R (ReqDelete r b) = (r \<in> R)"
| "fits R _ = True"

fun fits_handler :: "record_msg set \<Rightarrow> rt_handler option \<Rightarrow> bool" where
  "fits_handler R (Some (RenewAnyway r)) = fits R (ReqIssue r)"
| "fits_handler R (Some (DeleteConfirmed r)) = fits R (ReqDelete r True)"
| "fits_handler R None = True"

fun fits_dialog :: "record_msg set \<Rightarrow> rt_handler dialog \<Rightarrow> bool" where
  "fits_dialog R (WarningDialog w) = list_all (\<lambda>b. fits_handler R (btn_handler b)) (warn_buttons w)"
| "fits_dialog R (ErrorDialog a b) = True"

definition acts_on :: "record_msg set \<Rightarrow> records_table \<Rightarrow> bool" where
  "acts_on R s \<longleftrightarrow>
     list_all (fits R) (sent s) \<and> list_all (fits R) (pending s) \<and> list_all (fits_dialog R) (dialogs (notifier s)) \<and>
     set (rt_records s) \<subseteq> R \<and> list_all (\<lambda>(i, a). fits R (ReqPoll i a)) (poll_timers s) \<and>
     pred_option (\<lambda>i. i \<in> rec_id ` R) (route s)"

lemma acts_on_cong:
  assumes "sent t = sent s" "pending t = pending s" "dialogs (notifier t) = dialogs (notifier s)"
    "rt_records t = rt_records s" "poll_timers t = poll_timers s" "route t = route s"
  shows "acts_on R t = acts_on R s"
  using assms by (simp add: acts_on_def)

lemma acts_on_keeps [simp]:
  "acts_on R (toast m s) = acts_on R s" "acts_on R (toast_error e x s) = acts_on R s"
  "acts_on R (s\<lparr>wantedIp := w\<rparr>) = acts_on R s" "acts_on R (s\<lparr>searchTerm := w\<rparr>) = acts_on R s"
  "acts_on R (s\<lparr>loadingHetzner := a\<rparr>) = acts_on R s" "acts_on R (s\<lparr>loadingResolved := a\<rparr>) = acts_on R s"
  "acts_on R (s\<lparr>hetznerIps := h, loadingHetzner := a\<rparr>) = acts_on R s"
  "acts_on R (s\<lparr>resolvedIps := h, loadingResolved := a\<rparr>) = acts_on R s"
  "acts_on R (s\<lparr>issuing := a\<rparr>) = acts_on R s" "acts_on R (s\<lparr>hetznerIps := h\<rparr>) = acts_on R s"
  "acts_on R (s\<lparr>resolvedIps := h\<rparr>) = acts_on R s"
  by (rule acts_on_cong; simp add: toast_def toast_error_def message_op_def error_op_def addNotification_def Let_def)+

lemma acts_on_request: "acts_on R s \<Longrightarrow> fits R q \<Longrightarrow> acts_on R (request q s)"
  by (simp add: acts_on_def) (simp add: request_def)

lemma acts_on_take: "acts_on R s \<Longrightarrow> acts_on R (take_reply k s)"
  using set_remove_at [of k "pending s"] by (auto simp: acts_on_def take_reply_def list_all_iff)

lemma acts_on_lookups:
  "acts_on R s \<Longrightarrow> set rs \<subseteq> R \<Longrightarrow> acts_on R (fold lookup_ips rs s)"
  by (induction rs arbitrary: s) (auto simp: lookup_ips_def loadHetznerIp_def loadResolvedIp_def acts_on_request)

lemma acts_on_listed:
  assumes "acts_on R s" "set rs \<subseteq> R"
  shows "acts_on R (s\<lparr>rt_records := rs\<rparr>)" "acts_on R (s\<lparr>rt_records := rs, hetznerIps := h, resolvedIps := g\<rparr>)"
  using assms by (simp_all add: acts_on_def)

lemma acts_on_poll:
  "acts_on R s \<Longrightarrow> fits R (ReqPoll i a) \<Longrightarrow> acts_on R (pollCertificate i b s)"
  by (simp add: acts_on_def pollCertificate_def)

lemma acts_on_poll_due: "acts_on R s \<Longrightarrow> acts_on R (poll_due k s)"
proof (cases "k < length (poll_timers s)")
  case True
  assume s: "acts_on R s"
  obtain i a where t: "poll_timers s ! k = (i, a)" by force
  from s True have "(\<lambda>(i, a). fits R (ReqPoll i a)) (poll_timers s ! k)"
    unfolding acts_on_def by (simp only: list_all_length)
  with t have "fits R (ReqPoll i a)" by simp
  moreover have "acts_on R (s\<lparr>poll_timers := remove_at k (poll_timers s)\<rparr>)"
    using s set_remove_at [of k "poll_timers s"] by (auto simp: acts_on_def list_all_iff)
  ultimately show ?thesis using True t by (simp add: poll_due_def acts_on_request del: fits.simps)
qed (simp add: poll_due_def)

lemma acts_on_polled:
  assumes "acts_on R s" "set (nullish res []) \<subseteq> R" "fits R (ReqPoll i a)"
  shows "acts_on R (on_polled i a res s)"
  using assms(3) acts_on_listed(1) [OF assms(1,2)] by (simp add: on_polled_def Let_def acts_on_poll del: fits.simps)

lemma acts_on_issue: "acts_on R s \<Longrightarrow> fits R (ReqIssue r) \<Longrightarrow> acts_on R (doIssueCertificate r s)"
  by (simp add: doIssueCertificate_def acts_on_request Let_def)

lemma acts_on_ask: "acts_on R s \<Longrightarrow> fits_dialog R (WarningDialog w) \<Longrightarrow> acts_on R (ask w s)"
  by (simp add: acts_on_def) (simp add: ask_def)

lemma acts_on_close: "acts_on R s \<Longrightarrow> acts_on R (close_dialog d s)"
proof -
  assume s: "acts_on R s"
  then have "list_all (fits_dialog R) (remove_at d (dialogs (notifier s)))"
    using set_remove_at [of d "dialogs (notifier s)"] by (auto simp: acts_on_def list_all_iff)
  with s show ?thesis by (simp add: acts_on_def) (simp add: close_dialog_def)
qed

lemma acts_on_loads:
  "acts_on R s \<Longrightarrow> acts_on R (load_records x s)" "acts_on R s \<Longrightarrow> acts_on R (loadWantedIp s)"
  by (simp_all add: load_records_def loadWantedIp_def acts_on_request)

lemma acts_on_handle:
  assumes "acts_on R s" "fits R q" "rt_handle q r = Some f" "set (told_records (RtReply k r)) \<subseteq> R"
  shows "acts_on R (f (take_reply k s))"
proof -
  have t: "acts_on R (take_reply k s)" using assms(1) by (rule acts_on_take)
  show ?thesis
  proof (cases r)
    case (RepRecords res)
    then have rs: "set (nullish res []) \<subseteq> R" using assms(4) by (cases res) auto
    from RepRecords assms(2,3) t rs show ?thesis
      by (cases q) (auto simp: on_records_def Let_def acts_on_lookups acts_on_listed acts_on_polled simp del: fits.simps)
  next
    case RepOk
    show ?thesis
    proof (cases q)
      case (ReqIssue x)
      then have "fits R (ReqPoll (rec_id x) 0)" using assms(2) by auto
      with assms(3) t RepOk ReqIssue show ?thesis
        by (auto simp: on_issued_def acts_on_loads acts_on_poll simp del: fits.simps)
    qed (use assms(3) t RepOk in \<open>auto simp: on_refreshed_def on_deleted_def acts_on_loads\<close>)
  next
    case (RepErr e)
    with assms(2,3) t show ?thesis by (cases q) (auto simp: acts_on_poll simp del: fits.simps)
  next
    case (RepAddress a)
    with assms(3) t show ?thesis by (cases q) (auto simp: on_hetzner_def)
  next
    case (RepResolutions res)
    with assms(3) t show ?thesis by (cases q) (auto simp: on_resolved_def)
  qed
qed

definition told_fits :: "record_msg set \<Rightarrow> rt_event \<Rightarrow> bool" where
  "told_fits R e \<longleftrightarrow> set (told_records e) \<subseteq> R"

lemma acts_on_click:
  assumes "acts_on R s" "TableAct e \<in> set (table_actions (table_view_of date s))"
  shows "acts_on R (rt_step s e)"
proof -
  have R: "r \<in> set (rt_records s) \<Longrightarrow> r \<in> R" for r using assms(1) by (auto simp: acts_on_def)
  show ?thesis
  proof (cases e)
    case (RtOpen r)
    with assms R show ?thesis by (auto simp: offered_iff openOverview_def acts_on_def)
  next
    case (RtIssue r)
    with assms R show ?thesis
      by (auto simp: offered_iff issueCertificate_def acts_on_issue acts_on_ask split: option.split)
  qed (use assms R in \<open>auto simp: offered_iff acts_on_loads refreshRecord_def acts_on_request delete_op_def acts_on_ask\<close>)
qed

lemma acts_on_button:
  assumes "acts_on R s"
  shows "acts_on R (press_button rt_run_handler d i s)"
proof (rule press_button_cases)
  fix w h assume d: "d < length (dialogs (notifier s))" "dialogs (notifier s) ! d = WarningDialog w"
    "i < length (warn_buttons w)" "btn_handler (warn_buttons w ! i) = Some h"
  then have "fits_dialog R (WarningDialog w)" using assms unfolding acts_on_def by (metis list_all_length)
  with d have "fits_handler R (Some h)" by (auto simp: list_all_length)
  with assms have "acts_on R (rt_run_handler h b s)" for b
    by (cases h) (auto simp: rt_run_handler_def deleteRecord_def acts_on_issue acts_on_request)
  then show "acts_on R (close_dialog d (rt_run_handler h (checkbox_value w) s))" by (rule acts_on_close)
qed (use assms acts_on_close in auto)

lemma acts_on_checkbox:
  assumes "acts_on R s"
  shows "acts_on R (set_checkbox d b s)"
proof (cases "d < length (dialogs (notifier s))")
  case True
  then have "fits_dialog R (dialogs (notifier s) ! d)" using assms by (simp add: acts_on_def list_all_length)
  with True assms show ?thesis
    by (auto simp: acts_on_def set_checkbox_def Let_def list_all_length nth_list_update split: dialog.split)
qed (use assms in \<open>simp add: set_checkbox_def Let_def\<close>)

lemma acts_on_step:
  assumes "acts_on R s" "told_fits R e"
  shows "acts_on R (table_page_step date s e)"
proof (cases "is_table_click e")
  case True
  with assms(1) acts_on_click show ?thesis by (simp add: table_page_step_def)
next
  case False
  have "acts_on R (rt_step s e)"
  proof (cases e)
    case (RtReply k r)
    have "acts_on R (on_reply rt_handle k r s)"
    proof (rule on_reply_cases)
      fix q f assume q: "k < length (pending s)" "pending s ! k = q" "rt_handle q r = Some f"
      then have "fits R q" using assms(1) by (auto simp: acts_on_def list_all_length)
      from acts_on_handle [OF assms(1) this q(3)] assms(2) RtReply
      show "acts_on R (f (take_reply k s))" by (simp add: told_fits_def)
    qed (rule assms(1))
    then show ?thesis using RtReply by simp
  qed (use False assms(1) in \<open>simp_all add: rt_ngOnInit_def acts_on_loads acts_on_button acts_on_checkbox
      acts_on_close acts_on_poll_due\<close>)
  with False show ?thesis by (simp add: table_page_step_def)
qed

interpretation table_page: guarded_system "table_page_step date" "acts_on R" "told_fits R" for date R
  by unfold_locales (rule acts_on_step)

lemma acts_on_init: "acts_on R init_rt"
  by (simp add: acts_on_def init_rt_def init_ui_def init_notify_def ui.defs)

subsection \<open>One issuance at a time\<close>

text \<open>How many issuances for the record \<open>i\<close> are in flight.\<close>

definition issues_of :: "int \<Rightarrow> rt_req list \<Rightarrow> nat" where
  "issues_of i qs = sum_list (map (\<lambda>q. if rt_mark_of q = Some (MIssuing i) then 1 else 0) qs)"

lemma issues_of_simps [simp]:
  "issues_of i [] = 0" "issues_of i (qs @ ps) = issues_of i qs + issues_of i ps"
  "issues_of i (q # qs) = (if rt_mark_of q = Some (MIssuing i) then 1 else 0) + issues_of i qs"
  by (simp_all add: issues_of_def)

lemma issues_of_lookups [simp]: "issues_of i (lookups rs) = 0"
  by (induction rs) (simp_all add: lookups_def)

definition issues_once :: "records_table \<Rightarrow> bool" where
  "issues_once s \<longleftrightarrow> (\<forall>i. issues_of i (pending s) \<le> Suc 0 \<and> (i \<notin> issuing s \<longrightarrow> issues_of i (pending s) = 0))"

lemma issues_once_cong:
  "pending t = pending s \<Longrightarrow> issuing t = issuing s \<Longrightarrow> issues_once t = issues_once s"
  by (simp add: issues_once_def)

lemma issues_once_request:
  "issues_once s \<Longrightarrow> (\<And>i. rt_mark_of q \<noteq> Some (MIssuing i)) \<Longrightarrow> issues_once (request q s)"
  by (simp add: issues_once_def) (simp add: request_def)

lemma issues_once_ui [simp]:
  "issues_once (toast m s) = issues_once s" "issues_once (toast_error e x s) = issues_once s"
  "issues_once (ask w s) = issues_once s" "issues_once (close_dialog d s) = issues_once s"
  "issues_once (set_checkbox d b s) = issues_once s"
  by (rule issues_once_cong; auto simp: ui_defs Let_def split: dialog.split)+

lemma issues_once_fields [simp]:
  "issues_once (s\<lparr>wantedIp := w\<rparr>) = issues_once s" "issues_once (s\<lparr>searchTerm := w\<rparr>) = issues_once s"
  "issues_once (s\<lparr>rt_records := rs\<rparr>) = issues_once s" "issues_once (s\<lparr>route := y\<rparr>) = issues_once s"
  "issues_once (s\<lparr>poll_timers := ts\<rparr>) = issues_once s" "issues_once (s\<lparr>loadingHetzner := a\<rparr>) = issues_once s"
  "issues_once (s\<lparr>loadingResolved := a\<rparr>) = issues_once s" "issues_once (s\<lparr>hetznerIps := h\<rparr>) = issues_once s"
  "issues_once (s\<lparr>resolvedIps := h\<rparr>) = issues_once s"
  "issues_once (s\<lparr>rt_records := rs, hetznerIps := h, resolvedIps := g\<rparr>) = issues_once s"
  "issues_once (s\<lparr>hetznerIps := h, loadingHetzner := a\<rparr>) = issues_once s"
  "issues_once (s\<lparr>resolvedIps := h, loadingResolved := a\<rparr>) = issues_once s"
  by (rule issues_once_cong; simp)+

lemma issues_once_loads:
  "issues_once s \<Longrightarrow> issues_once (load_records x s)" "issues_once s \<Longrightarrow> issues_once (loadWantedIp s)"
  "issues_once s \<Longrightarrow> issues_once (refreshRecord r s)" "issues_once s \<Longrightarrow> issues_once (poll_due k s)"
  "issues_once s \<Longrightarrow> issues_once (pollCertificate i a s)"
  by (auto simp: load_records_def loadWantedIp_def refreshRecord_def poll_due_def pollCertificate_def
      intro!: issues_once_request split: prod.split)

lemma issues_once_lookups: "issues_once s \<Longrightarrow> issues_once (fold lookup_ips rs s)"
proof (induction rs arbitrary: s)
  case (Cons r rs)
  have "issues_once (loadHetznerIp r s)"
    using Cons.prems by (auto simp: loadHetznerIp_def intro!: issues_once_request)
  then have "issues_once (lookup_ips r s)"
    using Cons.prems by (auto simp: lookup_ips_def loadResolvedIp_def intro!: issues_once_request)
  with Cons.IH show ?case by simp
qed simp

lemma issues_once_issue:
  assumes "issues_once s" "rec_id r \<notin> issuing s"
  shows "issues_once (issueCertificate r s)"
proof -
  have "issues_of (rec_id r) (pending s) = 0" using assms by (simp add: issues_once_def)
  with assms(1) have "issues_once (doIssueCertificate r s)"
    by (simp add: issues_once_def doIssueCertificate_def Let_def) (simp add: request_def toast_def)
  with assms(1) show ?thesis by (simp add: issueCertificate_def split: option.split)
qed

lemma issues_once_take:
  assumes "issues_once s" "k < length (pending s)" "pending s ! k = q"
  shows "case q of ReqIssue r \<Rightarrow> issues_once ((take_reply k s)\<lparr>issuing := clearLoading (issuing s) (rec_id r)\<rparr>)
    | _ \<Rightarrow> issues_once (take_reply k s)"
proof -
  have "issues_of i (pending s) = (if rt_mark_of q = Some (MIssuing i) then 1 else 0) + issues_of i (remove_at k (pending s))"
    for i
    unfolding issues_of_def using sum_list_remove_at [OF assms(2)] assms(3) by blast
  then have le: "(if rt_mark_of q = Some (MIssuing i) then 1 else 0) + issues_of i (remove_at k (pending s)) \<le> Suc 0"
    "i \<notin> issuing s \<Longrightarrow> issues_of i (remove_at k (pending s)) = 0" for i
    using assms(1) by (metis issues_once_def, metis issues_once_def add_is_0)
  show ?thesis
  proof (cases q)
    case (ReqIssue r)
    have "issues_of i (remove_at k (pending s)) \<le> Suc 0 \<and>
        (i \<notin> clearLoading (issuing s) (rec_id r) \<longrightarrow> issues_of i (remove_at k (pending s)) = 0)" for i
      using le [of i] ReqIssue by (cases "i = rec_id r") (auto simp: clearLoading_def)
    then show ?thesis using ReqIssue by (simp add: issues_once_def take_reply_def)
  qed (use le in \<open>simp_all add: issues_once_def take_reply_def\<close>)
qed

lemma issues_once_handle:
  assumes "issues_once s" "k < length (pending s)" "pending s ! k = q" "rt_handle q r = Some f"
  shows "issues_once (f (take_reply k s))"
proof -
  show ?thesis
  proof (cases "\<exists>x. q = ReqIssue x")
    case True
    then obtain x where x: "q = ReqIssue x" ..
    with issues_once_take [OF assms(1-3)]
    have "issues_once ((take_reply k s)\<lparr>issuing := clearLoading (issuing s) (rec_id x)\<rparr>)" by simp
    moreover have "issuing (take_reply k s) = issuing s" by (simp add: take_reply_def)
    ultimately show ?thesis using assms(4) x
      by (cases r) (auto simp: on_issued_def Let_def issues_once_loads)
  next
    case False
    with issues_once_take [OF assms(1-3)] have t: "issues_once (take_reply k s)" by (cases q) simp_all
    show ?thesis
    proof (cases r)
      case (RepAddress a)
      with assms(4) t show ?thesis by (cases q) (auto simp: on_hetzner_def)
    next
      case (RepRecords res)
      with assms(4) t show ?thesis
        by (cases q) (auto simp: on_records_def on_polled_def Let_def issues_once_lookups issues_once_loads)
    next
      case (RepResolutions res)
      with assms(4) t show ?thesis by (cases q) (auto simp: on_resolved_def)
    next
      case RepOk
      with False assms(4) t show ?thesis
        by (cases q) (auto simp: on_refreshed_def on_deleted_def issues_once_loads)
    next
      case (RepErr e)
      with False assms(4) t show ?thesis by (cases q) (auto simp: issues_once_loads)
    qed
  qed
qed

definition is_button :: "rt_event \<Rightarrow> bool" where
  "is_button e \<longleftrightarrow> (case e of RtButton d i \<Rightarrow> True | _ \<Rightarrow> False)"

lemma issues_once_step:
  assumes "issues_once s" "\<not> is_button e"
  shows "issues_once (table_page_step date s e)"
proof (cases "is_table_click e \<and> TableAct e \<notin> set (table_actions (table_view_of date s))")
  case False
  have "issues_once (rt_step s e)"
  proof (cases e)
    case (RtReply k r)
    have "issues_once (on_reply rt_handle k r s)"
      by (rule on_reply_cases) (use assms(1) issues_once_handle in auto)
    then show ?thesis using RtReply by simp
  next
    case (RtIssue r)
    with False assms(1) show ?thesis by (auto simp: offered_iff intro!: issues_once_issue)
  qed (use assms in \<open>simp_all add: rt_ngOnInit_def issues_once_loads delete_op_def openOverview_def is_button_def\<close>)
  with assms(1) show ?thesis by (simp add: table_page_step_def)
qed (use assms(1) in \<open>simp add: table_page_step_def\<close>)

interpretation issues: guarded_system "table_page_step date" issues_once "\<lambda>e. \<not> is_button e" for date
  by unfold_locales (rule issues_once_step)

lemma issues_once_init: "issues_once init_rt"
  by (simp add: issues_once_def init_rt_def init_ui_def ui.defs)

subsection \<open>Properties\<close>


text \<open>A click on an issuance that is under way, and one on a record without a certificate.\<close>

definition sample_clicks :: "rt_event list" where
  "sample_clicks =
     [RtInit, RtReply 1 (RepRecords (Some [sample_record\<lparr>rec_purpose := Some 2\<rparr>, sample_record\<lparr>rec_id := 8\<rparr>])),
      RtIssue (sample_record\<lparr>rec_purpose := Some 2\<rparr>), RtIssue (sample_record\<lparr>rec_purpose := Some 2\<rparr>),
      RtIssue (sample_record\<lparr>rec_id := 8\<rparr>)]"


end
