(* ===== verification/Logger.thy ===== *)
theory Logger
  imports JsString
begin

text \<open>
  The loggers (\<^verbatim>\<open>global/services/logger/logger.service.ts\<close> and
  \<^verbatim>\<open>console-logger.service.ts\<close>). A getter such as \<open>error\<close> returns a method of the
  browser's console or a function that does nothing, so it is the method's name or \<open>None\<close>; what
  the console was given is a list of method and text. \<open>production\<close> is the flag of the environment
  file, \<open>has\<close> says which methods the console has.
\<close>

subsection \<open>Levels\<close>

datatype LogLevel = ERROR | WARN | NOTICE | INFO | DEBUG

fun level_number :: "LogLevel \<Rightarrow> nat" where
  "level_number ERROR = 0"
| "level_number WARN = 1"
| "level_number NOTICE = 2"
| "level_number INFO = 3"
| "level_number DEBUG = 4"

text \<open>The code compares levels as the numbers of their enumeration.\<close>

lemma level_number_inj: "level_number a = level_number b \<Longrightarrow> a = b"
  by (cases a; cases b) simp_all

instantiation LogLevel :: linorder
begin

definition less_eq_LogLevel :: "LogLevel \<Rightarrow> LogLevel \<Rightarrow> bool" where
  "less_eq_LogLevel a b \<longleftrightarrow> level_number a \<le> level_number b"

definition less_LogLevel :: "LogLevel \<Rightarrow> LogLevel \<Rightarrow> bool" where
  "less_LogLevel a b \<longleftrightarrow> level_number a < level_number b"

instance
  by standard (auto simp: less_eq_LogLevel_def less_LogLevel_def intro: level_number_inj)

end

subsection \<open>The service\<close>

record console_logger =
  logLevel :: LogLevel
  console :: "(string \<times> string) list"

definition init_logger :: console_logger where
  "init_logger = \<lparr>logLevel = DEBUG, console = []\<rparr>"

definition isLoggingEnabled :: "bool \<Rightarrow> bool" where
  "isLoggingEnabled production = (if production then False else True)"

definition get_error :: "bool \<Rightarrow> console_logger \<Rightarrow> string option" where
  "get_error production s =
     (if \<not> isLoggingEnabled production \<or> logLevel s < ERROR then None else Some ''error'')"

definition get_warn :: "bool \<Rightarrow> console_logger \<Rightarrow> string option" where
  "get_warn production s =
     (if \<not> isLoggingEnabled production \<or> logLevel s < WARN then None else Some ''warn'')"

definition get_notice :: "bool \<Rightarrow> console_logger \<Rightarrow> string option" where
  "get_notice production s =
     (if \<not> isLoggingEnabled production \<or> logLevel s < INFO then None else Some ''log'')"

definition get_info :: "bool \<Rightarrow> console_logger \<Rightarrow> string option" where
  "get_info production s =
     (if \<not> isLoggingEnabled production \<or> logLevel s < INFO then None else Some ''log'')"

definition get_debug :: "bool \<Rightarrow> console_logger \<Rightarrow> string option" where
  "get_debug production s =
     (if \<not> isLoggingEnabled production \<or> logLevel s < DEBUG then None else Some ''log'')"

text \<open>A call of what a getter returned.\<close>

definition write_console :: "string option \<Rightarrow> string \<Rightarrow> console_logger \<Rightarrow> console_logger" where
  "write_console fn txt s =
     (case fn of None \<Rightarrow> s | Some m \<Rightarrow> s\<lparr>console := console s @ [(m, txt)]\<rparr>)"

definition setLogLevel :: "LogLevel \<Rightarrow> console_logger \<Rightarrow> console_logger" where
  "setLogLevel l s =
     (write_console (Some ''warn'')
        (''Change logLevel from '' @ show_nat (level_number (logLevel s)) @ '' to '' @ show_nat (level_number l)) s)
       \<lparr>logLevel := l\<rparr>"

definition invokeConsoleMethod :: "(string \<Rightarrow> bool) \<Rightarrow> string \<Rightarrow> string \<Rightarrow> console_logger \<Rightarrow> console_logger" where
  "invokeConsoleMethod has m args s =
     write_console (if has m then Some m else if has ''log'' then Some ''log'' else None) args s"

text \<open>The base class, whose methods do nothing.\<close>

definition base_invokeConsoleMethod :: "string \<Rightarrow> string \<Rightarrow> console_logger \<Rightarrow> console_logger" where
  "base_invokeConsoleMethod m args s = s"

definition base_setLogLevel :: "LogLevel \<Rightarrow> console_logger \<Rightarrow> console_logger" where
  "base_setLogLevel l s = s"

datatype logger_event =
    LogError string
  | LogWarn string
  | LogNotice string
  | LogInfo string
  | LogDebug string
  | SetLevel LogLevel
  | Invoke string string

fun logger_step :: "bool \<Rightarrow> (string \<Rightarrow> bool) \<Rightarrow> console_logger \<Rightarrow> logger_event \<Rightarrow> console_logger" where
  "logger_step p has s (LogError x) = write_console (get_error p s) x s"
| "logger_step p has s (LogWarn x) = write_console (get_warn p s) x s"
| "logger_step p has s (LogNotice x) = write_console (get_notice p s) x s"
| "logger_step p has s (LogInfo x) = write_console (get_info p s) x s"
| "logger_step p has s (LogDebug x) = write_console (get_debug p s) x s"
| "logger_step p has s (SetLevel l) = setLogLevel l s"
| "logger_step p has s (Invoke m x) = invokeConsoleMethod has m x s"

subsection \<open>What is written\<close>

text \<open>The level a call needs, the console's method and the text; \<open>None\<close> for the other events.\<close>

fun log_line :: "logger_event \<Rightarrow> (LogLevel \<times> string \<times> string) option" where
  "log_line (LogError x) = Some (ERROR, ''error'', x)"
| "log_line (LogWarn x) = Some (WARN, ''warn'', x)"
| "log_line (LogNotice x) = Some (INFO, ''log'', x)"
| "log_line (LogInfo x) = Some (INFO, ''log'', x)"
| "log_line (LogDebug x) = Some (DEBUG, ''log'', x)"
| "log_line _ = None"

definition written :: "bool \<Rightarrow> LogLevel \<Rightarrow> logger_event \<Rightarrow> (string \<times> string) list" where
  "written p l e =
     (case log_line e of None \<Rightarrow> [] | Some (needs, m, x) \<Rightarrow> if \<not> p \<and> needs \<le> l then [(m, x)] else [])"

lemma logger_step_written:
  assumes "log_line e \<noteq> None"
  shows "logger_step p has s e = s\<lparr>console := console s @ written p (logLevel s) e\<rparr>"
  using assms
  by (cases e)
    (auto simp: written_def write_console_def get_error_def get_warn_def get_notice_def get_info_def get_debug_def
      isLoggingEnabled_def not_less)

text \<open>At its own level a notice is not written.\<close>

lemma notice_needs_info:
  "get_notice False (s\<lparr>logLevel := NOTICE\<rparr>) = None" "get_notice False (s\<lparr>logLevel := INFO\<rparr>) = Some ''log''"
  by (simp_all add: get_notice_def isLoggingEnabled_def less_LogLevel_def)

text \<open>A change of the level is written in production too.\<close>

lemma level_change_always_written:
  "console (logger_step True has s (SetLevel l)) \<noteq> console s"
  by (simp add: setLogLevel_def write_console_def)

lemma more_verbose_writes_more: "l \<le> l' \<Longrightarrow> set (written p l e) \<subseteq> set (written p l' e)"
  by (cases "log_line e") (auto simp: written_def intro: order_trans)

text \<open>
  The console holds what the level lets through: as long as the level is not changed, the calls of the
  five methods add to the console, in their order, the texts of those whose level is at most the
  service's, and in production nothing.
\<close>

theorem console_holds_level:
  assumes "list_all (\<lambda>e. log_line e \<noteq> None) es"
  shows "run (logger_step p has) s es =
    s\<lparr>console := console s @ concat (map (written p (logLevel s)) es)\<rparr>"
  using assms
proof (induction es arbitrary: s)
  case (Cons e es)
  then show ?case using logger_step_written [of e p has s] by simp
qed simp

theorem console_holds_level_witness:
  "console (run (logger_step False (\<lambda>_. True)) (init_logger\<lparr>logLevel := WARN\<rparr>)
     [LogError ''a'', LogNotice ''b'', LogWarn ''c'']) = [(''error'', ''a''), (''warn'', ''c'')]"
  using console_holds_level [of "[LogError ''a'', LogNotice ''b'', LogWarn ''c'']" False "\<lambda>_. True"
      "init_logger\<lparr>logLevel := WARN\<rparr>"]
  by (simp add: written_def init_logger_def less_eq_LogLevel_def)

end
