(* ===== verification/Calls.thy ===== *)
theory Calls
  imports Logger NotifyView RecordsTable Overview TaskForm RecordForm ConfigForm
begin

text \<open>
  One exchange with the server (\<open>rpc\<close>, \<open>post\<close> and \<open>get\<close> of
  \<^verbatim>\<open>global/services/api/api.service.ts\<close>): what is posted, what the logger is told (the
  first argument of each call, the text) and what the subscriber gets, for an answer of the
  server. \<open>HttpClient\<close> is the argument \<open>result\<close>: the answer, or the error it raises.
\<close>

subsection \<open>The methods\<close>

datatype verb = POST | GET

text \<open>\<open>'b\<close> is the type of the bodies, \<open>'p\<close> that of \<open>HttpParams\<close>.\<close>

record ('b, 'p) http_call =
  hc_verb :: verb
  hc_url :: string
  hc_body :: "'b option"
  hc_params :: "'p option"

text \<open>A call, the logger's events and the result.\<close>

type_synonym ('b, 'p, 'r) exchange = "('b, 'p) http_call \<times> logger_event list \<times> (http_error + 'r)"

definition log_prefix :: string where
  "log_prefix = ''[Service] [Api]''"

text \<open>The \<open>tap\<close> and the \<open>catchError\<close> of both methods.\<close>

definition piped :: "string \<Rightarrow> http_error + 'r \<Rightarrow> logger_event \<times> (http_error + 'r)" where
  "piped path result =
     (case result of
        Inr res \<Rightarrow> (LogInfo (log_prefix @ '' '' @ path @ '' response''), Inr res)
      | Inl err \<Rightarrow> (LogError (log_prefix @ '' '' @ path @ '' error''), Inl (map_error err)))"

definition post :: "string \<Rightarrow> string \<Rightarrow> 'b \<Rightarrow> http_error + 'r \<Rightarrow> ('b, 'p, 'r) exchange" where
  "post baseURL path body result =
     (let url = baseURL @ path; (line, outcome) = piped path result
      in (\<lparr>hc_verb = POST, hc_url = url, hc_body = Some body, hc_params = None\<rparr>,
          [LogInfo (log_prefix @ '' POST '' @ url), line], outcome))"

definition get_op :: "string \<Rightarrow> string \<Rightarrow> 'p option \<Rightarrow> http_error + 'r \<Rightarrow> ('b, 'p, 'r) exchange" where
  "get_op baseURL path params result =
     (let url = baseURL @ path; (line, outcome) = piped path result
      in (\<lparr>hc_verb = GET, hc_url = url, hc_body = None, hc_params = params\<rparr>,
          [LogInfo (log_prefix @ '' GET '' @ url), line], outcome))"

text \<open>\<open>None\<close> is a key the table lacks, which the type of the argument excludes.\<close>

definition rpc :: "string \<Rightarrow> 'c call \<Rightarrow> http_error + 'r \<Rightarrow> ('c body, 'p, 'r) exchange option" where
  "rpc baseURL c result =
     (case map_of HDNSDefinition_methods (call_key c) of
        None \<Rightarrow> None
      | Some method \<Rightarrow> Some (post baseURL (method_path method) (call_body c) result))"

subsection \<open>Facts\<close>

lemma rpc_posts_to: "rpc baseURL c result = Some (q, es, r) \<Longrightarrow> rpc_url baseURL c = Some (hc_url q)"
  by (auto simp: rpc_def rpc_url_def post_def Let_def split: option.splits prod.splits)

lemma rpc_result: "rpc baseURL c result = Some (q, es, r) \<Longrightarrow> r = map_sum map_error id result"
  by (cases result) (auto simp: rpc_def post_def piped_def Let_def split: option.splits)

text \<open>An exchange writes two lines, and in production none.\<close>

lemma exchange_logged:
  assumes "rpc baseURL c result = Some (q, es, r)"
  shows "map fst (concat (map (written p INFO) es)) =
    (if p then [] else [''log'', if isl result then ''error'' else ''log''])"
  using assms
  by (auto simp: rpc_def post_def piped_def written_def less_eq_LogLevel_def Let_def split: option.splits sum.splits)

text \<open>An answer goes to the subscriber as it is, and so does an error that has a status: no
  interceptor looks at one.\<close>

lemma answer_passed_on: "rpc baseURL c (Inr res) = Some (q, es, r) \<Longrightarrow> r = Inr res"
  using rpc_result by fastforce

lemma unauthorized_passed_on:
  "rpc baseURL c (Inl e) = Some (q, es, r) \<Longrightarrow> err_status e = Some 401 \<Longrightarrow> r = Inl e"
  using rpc_result by (fastforce simp: map_error_def)

subsection \<open>What the user reads\<close>

lemma unreachable_text_plain: "extractErrorMessage (EStr unreachable_text) = unreachable_text"
  by code_simp

lemma last_toast:
  "notifications (notifier (toast_error e t s)) \<noteq> [] \<and>
   last (notifications (notifier (toast_error e t s))) =
     \<lparr>item_id = show_nat (uuid_count s), item_kind = ErrorKind, item_message = extractErrorMessage e,
      item_title = Some t, item_rawError = e\<rparr>"
  by (simp add: toast_error_def error_op_def addNotification_def slice_last_def Let_def)

text \<open>
  A toast that shows an error text under a title, and whose detail button opens a dialog with
  the same title and text, whatever is on the screen by then.
\<close>

definition shows_error :: "string \<Rightarrow> string \<Rightarrow> ('h, 'q, 'z) ui_scheme \<Rightarrow> bool" where
  "shows_error title txt s \<longleftrightarrow>
     notifications (notifier s) \<noteq> [] \<and>
     (let shown = toast_view_of (last (notifications (notifier s)))
      in tv_error shown \<and> tv_title shown = Some title \<and> tv_message shown = txt \<and>
         (\<exists>ev. tv_detail shown = Some ev \<and>
            (\<forall>y :: 'h notify_sys. \<exists>d. dialogs (svc (notify_step y ev)) = dialogs (svc y) @ [d] \<and>
                    dialog_error d = Some (title, txt))))"

lemma unreachable_shown:
  fixes s :: "('a, 'q, 'z) ui_scheme"
  assumes "title \<noteq> ''''"
  shows "shows_error title unreachable_text (toast_error (EStr unreachable_text) title s)"
proof -
  let ?item = "last (notifications (notifier (toast_error (EStr unreachable_text) title s)))"
  have item: "item_kind ?item = ErrorKind" "item_message ?item = unreachable_text"
    "item_title ?item = Some title" "item_rawError ?item = EStr unreachable_text"
    using last_toast [of "EStr unreachable_text" title s] by (simp_all add: unreachable_text_plain)
  then have ev: "tv_detail (toast_view_of ?item :: 'a toast_view) = Some (Detail ?item)"
    by (simp add: toast_view_of_def falsy_error_def, simp add: unreachable_text_def)
  have opens: "\<forall>y :: 'a notify_sys. \<exists>d. dialogs (svc (notify_step y (Detail ?item))) = dialogs (svc y) @ [d] \<and>
      dialog_error d = Some (title, unreachable_text)"
    by (rule allI, rule toast_detail(2) [OF ev, unfolded item nullish_simps error_text_def errval.case])
  with item ev opens assms last_toast [of "EStr unreachable_text" title s] show ?thesis
    by (simp add: shows_error_def Let_def, simp add: toast_view_of_def)
qed

text \<open>What the subscriber of a call finds in \<open>err?.error\<close> when \<open>HttpClient\<close> raises \<open>e\<close>.\<close>

definition failed_body :: "string \<Rightarrow> 'c call \<Rightarrow> http_error \<Rightarrow> errval option" where
  "failed_body baseURL c e =
     (case rpc baseURL c (Inl e :: http_error + unit) of
        Some (q :: ('c body, unit) http_call, es, Inl err) \<Rightarrow> Some (err_body err)
      | _ \<Rightarrow> None)"

text \<open>
  A component reports an error: for each request it has in flight, in any state, the call is one
  the service has, and its failure shows the toast of the title \<open>told\<close> gives; where \<open>told\<close>
  gives none, the failure is silent and leaves all toasts and dialogs as they are.
\<close>

definition reports ::
  "string \<Rightarrow> http_error \<Rightarrow> string \<Rightarrow> (('h, 'q, 'z) ui_scheme \<Rightarrow> 'e \<Rightarrow> ('h, 'q, 'z) ui_scheme) \<Rightarrow>
   (nat \<Rightarrow> errval \<Rightarrow> 'e) \<Rightarrow> ('q \<Rightarrow> 'c call) \<Rightarrow> ('q \<Rightarrow> string option) \<Rightarrow> bool" where
  "reports baseURL e txt step fail call told \<longleftrightarrow>
     (\<forall>s k. k < length (pending s) \<longrightarrow>
        (\<exists>b. failed_body baseURL (call (pending s ! k)) e = Some b \<and>
             (case told (pending s ! k) of
                None \<Rightarrow> notifier (step s (fail k b)) = notifier s
              | Some title \<Rightarrow> shows_error title txt (step s (fail k b)))))"

text \<open>The requests of the components whose failure is told, with their titles.\<close>

fun rt_told :: "rt_req \<Rightarrow> string option" where
  "rt_told (ReqRecords _) = Some ''Failed to load records''"
| "rt_told (ReqRefresh _) = Some ''Refresh failed''"
| "rt_told (ReqIssue _) = Some ''Certificate issuance failed''"
| "rt_told (ReqDelete _ _) = Some ''Delete failed''"
| "rt_told _ = None"

fun ov_told :: "ov_req \<Rightarrow> string option" where
  "ov_told OvAddress = None"
| "ov_told (OvRecords _) = Some ''Failed to load record''"
| "ov_told (OvTasks _) = Some ''Failed to load tasks''"
| "ov_told (OvDetails _) = Some ''Failed to load certificate details''"
| "ov_told (OvRun _) = Some ''Run failed''"
| "ov_told (OvDeleteTask _) = Some ''Delete failed''"

fun rf_told :: "rf_req \<Rightarrow> string option" where
  "rf_told (RfZones _ _) = Some ''Failed to load zones''"
| "rf_told (RfUpsert _) = Some ''Save failed''"

fun cf_told :: "cf_req \<Rightarrow> string option" where
  "cf_told CfGet = Some ''Failed to load config''"
| "cf_told (CfUpdate _) = Some ''Save failed''"

lemma failed_body_unreachable:
  assumes "err_status e = Some st" "st \<le> 0" "map_of HDNSDefinition_methods (call_key c) \<noteq> None"
  shows "failed_body baseURL c e = Some (EStr unreachable_text)"
  using assms by (auto simp: failed_body_def rpc_def post_def piped_def map_error_def Let_def)

lemma reports_unreachable:
  fixes step :: "('h, 'q, 'z) ui_scheme \<Rightarrow> 'e \<Rightarrow> ('h, 'q, 'z) ui_scheme"
  assumes "err_status e = Some st" "st \<le> 0"
    and "\<And>q. map_of HDNSDefinition_methods (call_key (call q)) \<noteq> None"
    and "\<And>s k. k < length (pending (s :: ('h, 'q, 'z) ui_scheme)) \<Longrightarrow>
      (case told (pending s ! k) of
         None \<Rightarrow> notifier (step s (fail k (EStr unreachable_text))) = notifier s
       | Some title \<Rightarrow> title \<noteq> '''' \<and>
           (\<exists>t. notifier (step s (fail k (EStr unreachable_text))) =
                notifier (toast_error (EStr unreachable_text) title (t :: ('h, 'q, 'z) ui_scheme))))"
  shows "reports baseURL e unreachable_text step fail call told"
  unfolding reports_def
proof (intro allI impI)
  fix s :: "('h, 'q, 'z) ui_scheme" and k
  assume k: "k < length (pending s)"
  have "shows_error title unreachable_text x"
    if "notifier x = notifier (toast_error (EStr unreachable_text) title t)" "title \<noteq> ''''" for title and x t :: "('h, 'q, 'z) ui_scheme"
    using unreachable_shown [OF that(2), of t] that(1) by (simp add: shows_error_def)
  with assms(4) [OF k] failed_body_unreachable [OF assms(1,2) assms(3)]
  show "\<exists>b. failed_body baseURL (call (pending s ! k)) e = Some b \<and>
      (case told (pending s ! k) of None \<Rightarrow> notifier (step s (fail k b)) = notifier s
       | Some title \<Rightarrow> shows_error title unreachable_text (step s (fail k b)))"
    by (auto split: option.splits)
qed

lemma calls_have_methods:
  "map_of HDNSDefinition_methods (call_key (rt_call q)) \<noteq> None"
  "map_of HDNSDefinition_methods (call_key (ov_call p)) \<noteq> None"
  "map_of HDNSDefinition_methods (call_key (rf_call f)) \<noteq> None"
  "map_of HDNSDefinition_methods (call_key (cf_call c)) \<noteq> None"
  by (simp_all add: rt_call_def ov_call_def rf_call_def cf_call_def api_calls methods_table
      split: rt_req.split ov_req.split rf_req.split cf_req.split)

text \<open>The requests of the forms and cards that have but one.\<close>

fun tf_call :: "tf_req \<Rightarrow> 'c call" where
  "tf_call (TfUpsert t) = upsertTask t"

fun ac_call :: "ac_req \<Rightarrow> 'c call" where
  "ac_call AcRefresh = refreshAddress"

fun ah_call :: "ah_req \<Rightarrow> 'c call" where
  "ah_call AhHistory = getAddressHistory"

lemma single_calls_have_methods:
  "map_of HDNSDefinition_methods (call_key (tf_call t)) \<noteq> None"
  "map_of HDNSDefinition_methods (call_key (ac_call a)) \<noteq> None"
  "map_of HDNSDefinition_methods (call_key (ah_call h)) \<noteq> None"
  by (cases t; cases a; cases h; simp add: api_calls methods_table)+

lemma rt_failure:
  assumes "k < length (pending s)"
  shows "case rt_told (pending s ! k) of
      None \<Rightarrow> notifier (rt_step s (RtReply k (RepErr b))) = notifier s
    | Some title \<Rightarrow> title \<noteq> '''' \<and> (\<exists>t. notifier (rt_step s (RtReply k (RepErr b))) = notifier (toast_error b title (t :: records_table)))"
  using assms
  by (cases "pending s ! k") (auto simp: on_reply_def pollCertificate_def)

lemma ov_failure:
  assumes "k < length (pending s)"
  shows "case ov_told (pending s ! k) of
      None \<Rightarrow> notifier (ov_step s (OvReply k (OvRepErr b))) = notifier s
    | Some title \<Rightarrow> title \<noteq> '''' \<and> (\<exists>t. notifier (ov_step s (OvReply k (OvRepErr b))) = notifier (toast_error b title (t :: overview)))"
  using assms by (cases "pending s ! k") (auto simp: on_reply_def)

lemma rf_failure:
  assumes "k < length (pending s)"
  shows "case rf_told (pending s ! k) of
      None \<Rightarrow> notifier (rf_step V nx s (RfReply k (RfRepErr b))) = notifier s
    | Some title \<Rightarrow> title \<noteq> '''' \<and> (\<exists>t. notifier (rf_step V nx s (RfReply k (RfRepErr b))) = notifier (toast_error b title (t :: record_form)))"
  using assms by (cases "pending s ! k") (auto simp: on_reply_def on_zones_failed_def on_record_save_failed_def)

lemma cf_failure:
  assumes "k < length (pending s)"
  shows "case cf_told (pending s ! k) of
      None \<Rightarrow> notifier (cf_step V mv s (CfReply k (CfRepErr b))) = notifier s
    | Some title \<Rightarrow> title \<noteq> '''' \<and> (\<exists>t. notifier (cf_step V mv s (CfReply k (CfRepErr b))) = notifier (toast_error b title (t :: config_form)))"
  using assms by (cases "pending s ! k") (auto simp: on_reply_def on_config_failed_def on_config_save_failed_def)

lemma tf_failure:
  "k < length (pending s) \<Longrightarrow>
   \<exists>t. notifier (tf_step V s (TfReply k (TfErr b))) = notifier (toast_error b ''Save failed'' (t :: task_form))"
  by (cases "pending s ! k") (auto simp: on_reply_def on_task_save_failed_def)

lemma ac_failure:
  "k < length (pending s) \<Longrightarrow>
   \<exists>t. notifier (ac_step s (AcReply k (AcErr b))) = notifier (toast_error b ''Refresh failed'' (t :: address_card))"
  by (cases "pending s ! k") (auto simp: on_reply_def on_ac_refresh_failed_def)

lemma ah_failure:
  "k < length (pending s) \<Longrightarrow>
   \<exists>t. notifier (ah_step s (AhReply k (AhErr b))) =
       notifier (toast_error b ''Failed to load history'' (t :: address_history))"
  by (cases "pending s ! k") (auto simp: on_reply_def on_history_failed_def)

lemma rt_reports:
  assumes "err_status e = Some st" "st \<le> 0"
  shows "reports baseURL e unreachable_text rt_step (\<lambda>k b. RtReply k (RepErr b)) rt_call rt_told"
proof (rule reports_unreachable [OF assms calls_have_methods(1)], goal_cases)
  case (1 s k)
  from rt_failure [OF this] show ?case by simp
qed

lemma ov_reports:
  assumes "err_status e = Some st" "st \<le> 0"
  shows "reports baseURL e unreachable_text ov_step (\<lambda>k b. OvReply k (OvRepErr b)) ov_call ov_told"
proof (rule reports_unreachable [OF assms calls_have_methods(2)], goal_cases)
  case (1 s k)
  from ov_failure [OF this] show ?case by simp
qed

lemma rf_reports:
  assumes "err_status e = Some st" "st \<le> 0"
  shows "reports baseURL e unreachable_text (rf_step V nx) (\<lambda>k b. RfReply k (RfRepErr b)) rf_call rf_told"
proof (rule reports_unreachable [OF assms calls_have_methods(3)], goal_cases)
  case (1 s k)
  from rf_failure [OF this] show ?case by simp
qed

lemma cf_reports:
  assumes "err_status e = Some st" "st \<le> 0"
  shows "reports baseURL e unreachable_text (cf_step V mv) (\<lambda>k b. CfReply k (CfRepErr b)) cf_call cf_told"
proof (rule reports_unreachable [OF assms calls_have_methods(4)], goal_cases)
  case (1 s k)
  from cf_failure [OF this] show ?case by simp
qed

lemma tf_reports:
  assumes "err_status e = Some st" "st \<le> 0"
  shows "reports baseURL e unreachable_text (tf_step V) (\<lambda>k b. TfReply k (TfErr b)) tf_call (\<lambda>_. Some ''Save failed'')"
proof (rule reports_unreachable [OF assms single_calls_have_methods(1)], goal_cases)
  case (1 s k)
  from tf_failure [OF this] show ?case by simp
qed

lemma ac_reports:
  assumes "err_status e = Some st" "st \<le> 0"
  shows "reports baseURL e unreachable_text ac_step (\<lambda>k b. AcReply k (AcErr b)) ac_call (\<lambda>_. Some ''Refresh failed'')"
proof (rule reports_unreachable [OF assms single_calls_have_methods(2)], goal_cases)
  case (1 s k)
  from ac_failure [OF this] show ?case by simp
qed

lemma ah_reports:
  assumes "err_status e = Some st" "st \<le> 0"
  shows "reports baseURL e unreachable_text ah_step (\<lambda>k b. AhReply k (AhErr b)) ah_call (\<lambda>_. Some ''Failed to load history'')"
proof (rule reports_unreachable [OF assms single_calls_have_methods(3)], goal_cases)
  case (1 s k)
  from ah_failure [OF this] show ?case by simp
qed

text \<open>
  C28. A server that cannot be reached is reported. When a call fails with the status that
  \<open>HttpClient\<close> gives to a request without an answer, then, in every state of every component and
  for every request it has in flight, the failure puts up a toast under the title of that
  request with the sentence of the service, whose detail button opens a dialog with the same
  title and sentence. The exceptions are the two lookups of the own address, the table's lookups
  in Hetzner and in the resolvers, and the polling of a certificate: their failures leave the
  toasts and the dialogs as they are.
\<close>

theorem unreachable_reported:
  assumes "err_status e = Some st" "st \<le> 0"
  shows "reports baseURL e unreachable_text rt_step (\<lambda>k b. RtReply k (RepErr b)) rt_call rt_told \<and>
    reports baseURL e unreachable_text ov_step (\<lambda>k b. OvReply k (OvRepErr b)) ov_call ov_told \<and>
    reports baseURL e unreachable_text (rf_step V nx) (\<lambda>k b. RfReply k (RfRepErr b)) rf_call rf_told \<and>
    reports baseURL e unreachable_text (cf_step V mv) (\<lambda>k b. CfReply k (CfRepErr b)) cf_call cf_told \<and>
    reports baseURL e unreachable_text (tf_step V) (\<lambda>k b. TfReply k (TfErr b)) tf_call
           (\<lambda>_. Some ''Save failed'') \<and>
    reports baseURL e unreachable_text ac_step (\<lambda>k b. AcReply k (AcErr b)) ac_call
           (\<lambda>_. Some ''Refresh failed'') \<and>
    reports baseURL e unreachable_text ah_step (\<lambda>k b. AhReply k (AhErr b)) ah_call
           (\<lambda>_. Some ''Failed to load history'')"
  by (intro conjI rt_reports [OF assms] ov_reports [OF assms] rf_reports [OF assms] cf_reports [OF assms]
      tf_reports [OF assms] ac_reports [OF assms] ah_reports [OF assms])

text \<open>A search is sent, the server is down, and the user is told.\<close>

theorem unreachable_reported_witness:
  "shows_error ''Failed to load records'' unreachable_text
     (rt_step (rt_step init_rt (RtSearch ''home'')) (RtReply 0 (RepErr (EStr unreachable_text))))"
proof -
  let ?e = "\<lparr>err_status = Some 0, err_body = EObject\<rparr>"
  let ?s = "rt_step init_rt (RtSearch ''home'')"
  have p: "pending ?s = [ReqRecords (Some ''home'')]"
    by (simp add: load_records_def init_rt_def ui.defs init_ui_def)
  have r: "reports ''https://h'' ?e unreachable_text rt_step (\<lambda>k b. RtReply k (RepErr b))
      (rt_call :: rt_req \<Rightarrow> unit call) rt_told"
    by (rule unreachable_reported [where st = 0, THEN conjunct1]) simp_all
  obtain b where "failed_body ''https://h'' (rt_call (ReqRecords (Some ''home'')) :: unit call) ?e = Some b"
    "shows_error ''Failed to load records'' unreachable_text (rt_step ?s (RtReply 0 (RepErr b)))"
    using r [unfolded reports_def, rule_format, of 0 ?s] unfolding p by auto
  moreover from this(1) have "b = EStr unreachable_text"
    by (simp add: failed_body_unreachable [where st = 0, OF _ _ calls_have_methods(1)])
  ultimately show ?thesis by simp
qed

end
