(* ===== verification/Router.thy ===== *)
theory Router
  imports JsNumber
begin

text \<open>
  The routes (\<^verbatim>\<open>app.routes.ts\<close>) and what the application asks of the router, which is
  Angular's and so an argument: \<open>recognize\<close> finds the page of an address, \<open>lands\<close> the address that
  is shown in the end, which a redirection changes, and \<open>reuse\<close> says whether a navigation keeps the
  page's instance. Their documented behaviour is the locale \<open>angular_router\<close>. An address is the
  text behind the hash as the router is given it, without the slashes at its ends, which the
  framework strips, and without escapes and queries.
\<close>

datatype page_component = HomeComponent | RecordOverviewComponent

datatype route_entry =
    RoutePage string page_component
  | RouteRedirect string string

definition routes :: "route_entry list" where
  "routes =
     [RoutePage '''' HomeComponent,
      RoutePage ''overview/:recordId'' RecordOverviewComponent,
      RouteRedirect ''**'' '''']"

text \<open>The segments of a path; a segment \<open>:x\<close> of a route takes any segment, as the parameter \<open>x\<close>.\<close>

definition segments :: "string \<Rightarrow> string list" where
  "segments s = (if s = [] then [] else split_on (CHR ''/'') s)"

fun match_segments :: "string list \<Rightarrow> string list \<Rightarrow> (string \<times> string) list option" where
  "match_segments [] [] = Some []"
| "match_segments (p # ps) (u # us) =
     (if p \<noteq> [] \<and> hd p = CHR '':'' then map_option (Cons (tl p, u)) (match_segments ps us)
      else if p = u then match_segments ps us else None)"
| "match_segments _ _ = None"

fun route_params :: "route_entry \<Rightarrow> string \<Rightarrow> (string \<times> string) list option" where
  "route_params (RoutePage path c) url = match_segments (segments path) (segments url)"
| "route_params (RouteRedirect path to_path) url =
     (if path = ''**'' then Some [] else match_segments (segments path) (segments url))"

definition first_route :: "route_entry list \<Rightarrow> string \<Rightarrow> route_entry option" where
  "first_route rs url = List.find (\<lambda>r. route_params r url \<noteq> None) rs"

record router =
  lands :: "route_entry list \<Rightarrow> string \<Rightarrow> string"
  recognize :: "route_entry list \<Rightarrow> string \<Rightarrow> (page_component \<times> (string \<times> string) list) option"
  reuse :: "page_component \<Rightarrow> page_component \<Rightarrow> bool"

locale angular_router =
  fixes R :: router
  assumes first_page:
      "first_route rs url = Some (RoutePage path c) \<Longrightarrow>
       recognize R rs url = Some (c, the (route_params (RoutePage path c) url))"
    and redirected:
      "first_route rs url = Some (RouteRedirect path to_path) \<Longrightarrow>
       first_route rs to_path = Some (RoutePage path' c) \<Longrightarrow>
       recognize R rs url = Some (c, the (route_params (RoutePage path' c) to_path))"
    and page_lands: "first_route rs url = Some (RoutePage path c) \<Longrightarrow> lands R rs url = url"
    and redirect_lands: "first_route rs url = Some (RouteRedirect path to_path) \<Longrightarrow> lands R rs url = to_path"
    and reuse_same: "reuse R c c' \<longleftrightarrow> c = c'"
begin

text \<open>Every address shows a page, and only the addresses of an overview show one.\<close>

lemma home_url: "recognize R routes '''' = Some (HomeComponent, [])" "lands R routes '''' = ''''"
  using first_page [of routes "[]" "[]" HomeComponent] page_lands [of routes "[]" "[]" HomeComponent]
  by (simp_all add: routes_def first_route_def segments_def)

lemma overview_url:
  assumes "CHR ''/'' \<notin> set x"
  shows "recognize R routes (''overview/'' @ x) = Some (RecordOverviewComponent, [(''recordId'', x)])"
    and "lands R routes (''overview/'' @ x) = ''overview/'' @ x"
proof -
  have "split_on (CHR ''/'') x = [x]" using assms by (induction x) auto
  then have p: "route_params (RoutePage ''overview/:recordId'' RecordOverviewComponent) (''overview/'' @ x) =
      Some [(''recordId'', x)]"
    by (simp add: segments_def)
  then have f: "first_route routes (''overview/'' @ x) =
      Some (RoutePage ''overview/:recordId'' RecordOverviewComponent)"
    by (simp add: routes_def first_route_def del: route_params.simps) (simp add: segments_def)
  from first_page [OF f] p show "recognize R routes (''overview/'' @ x) = Some (RecordOverviewComponent, [(''recordId'', x)])"
    by (simp only: option.sel)
  from f show "lands R routes (''overview/'' @ x) = ''overview/'' @ x" by (rule page_lands)
qed

lemma other_url:
  assumes "\<nexists>x. segments url = [''overview'', x]"
  shows "recognize R routes url = Some (HomeComponent, []) \<and> lands R routes url = ''''"
proof (cases "segments url = []")
  case True
  then have "url = ''''" by (auto simp: segments_def split: if_splits)
  then show ?thesis by (simp add: home_url)
next
  case False
  have "match_segments [''overview'', '':recordId''] (segments url) = None"
    using assms False
    by (cases "segments url"; cases "tl (segments url)"; cases "tl (tl (segments url))") auto
  with False have "first_route routes url = Some (RouteRedirect ''**'' '''')"
    by (cases "segments url") (auto simp: first_route_def routes_def segments_def)
  then show ?thesis
    using redirected [of routes url _ "[]" "[]" HomeComponent] redirect_lands [of routes url] by (simp add: first_route_def routes_def segments_def)
qed

lemma every_url:
  obtains "recognize R routes url = Some (HomeComponent, [])" "lands R routes url = ''''"
  | x where "CHR ''/'' \<notin> set x" "url = ''overview/'' @ x" "lands R routes url = url"
      "recognize R routes url = Some (RecordOverviewComponent, [(''recordId'', x)])"
proof (cases "\<exists>x. segments url = [''overview'', x]")
  case True
  then obtain x where x: "split_on (CHR ''/'') url = [''overview'', x]" by (auto simp: segments_def split: if_splits)
  then have "CHR ''/'' \<notin> set x" "url = ''overview/'' @ x"
    using split_on_no_sep [of "CHR ''/''" url] join_split_on [of "CHR ''/''" url] by simp_all
  with overview_url [of x] that(2) show ?thesis by simp
next
  case False
  with other_url that(1) show ?thesis by blast
qed

end

text \<open>A router with this behaviour.\<close>

definition plain_router :: router where
  "plain_router =
     \<lparr>lands = (\<lambda>rs url. case first_route rs url of Some (RouteRedirect path to_path) \<Rightarrow> to_path | _ \<Rightarrow> url),
      recognize = (\<lambda>rs url.
        case first_route rs url of
          Some (RoutePage path c) \<Rightarrow> Some (c, the (route_params (RoutePage path c) url))
        | Some (RouteRedirect path to_path) \<Rightarrow>
            (case first_route rs to_path of
               Some (RoutePage path' c) \<Rightarrow> Some (c, the (route_params (RoutePage path' c) to_path))
             | _ \<Rightarrow> None)
        | None \<Rightarrow> None),
      reuse = (\<lambda>c c'. c = c')\<rparr>"

interpretation plain_router: angular_router plain_router
  by unfold_locales (simp_all add: plain_router_def)

text \<open>The commands of \<open>router.navigate(['/overview', id])\<close>, as an address.\<close>

definition overview_address :: "int \<Rightarrow> string" where
  "overview_address i = ''overview/'' @ show_int i"

lemma show_int_segment: "CHR ''/'' \<notin> set (show_int i)" "show_int i \<noteq> []"
  using show_nat_digits [of "nat i"] show_nat_digits [of "nat (- i)"]
  by (auto simp: show_int_def is_digit_def)

end
