(* ===== verification/Site.thy ===== *)
theory Site
  imports Router OverviewView TaskForm RecordForm ConfigForm LogDrawer Address
begin

text \<open>
  The application as a whole: the two pages with the drawers in their templates, the shell
  (\<^verbatim>\<open>app.ts\<close>, \<^verbatim>\<open>app.html\<close>) with the settings and the log, the router's outlet, and the one
  notification service under all of them. A page that is left stays in the list: its timers fire
  and its requests are answered, since nothing cancels a subscription.

  What the components take from outside the repository is one record of arguments, \<open>libs\<close>.
\<close>

record libs =
  lib_validators :: validators
  lib_stepper_next :: "nat \<Rightarrow> nat"
  lib_moveItemInArray :: "string list \<Rightarrow> nat \<Rightarrow> nat \<Rightarrow> string list"
  lib_clock :: "string \<Rightarrow> string option"
  lib_localeCompare :: "string \<Rightarrow> string \<Rightarrow> int"
  lib_date :: "string \<Rightarrow> int \<Rightarrow> string"
  lib_baseURL :: string
  lib_router :: router

subsection \<open>The pages\<close>

text \<open>\<^verbatim>\<open>home.component.ts\<close>: the address card with its history, and the table with its form.\<close>

record home_page =
  hp_card :: address_card
  hp_history :: address_history
  hp_table :: records_table
  hp_form :: record_form

text \<open>\<^verbatim>\<open>record-overview.component.ts\<close>: the page with the two forms of its template.\<close>

record overview_page =
  op_param :: "string option"
  op_page :: overview
  op_record_form :: record_form
  op_task_form :: task_form

datatype page = Home home_page | Over overview_page

datatype home_event =
    CardEvent ac_event
  | HistoryEvent ah_event
  | TableEvent rt_event
  | HomeForm rf_event

text \<open>The window's width at the event of the page, which a form that opens reads.\<close>

datatype over_event =
    PageEvent int ov_event
  | OverRecordForm rf_event
  | OverTaskForm tf_event

abbreviation form_step :: "libs \<Rightarrow> record_form \<Rightarrow> rf_event \<Rightarrow> record_form" where
  "form_step L \<equiv> rf_step (lib_validators L) (lib_stepper_next L)"

abbreviation over_step :: "libs \<Rightarrow> overview \<Rightarrow> ov_event \<Rightarrow> overview" where
  "over_step L \<equiv> open_page_step (lib_date L) (lib_baseURL L)"

text \<open>
  \<open><app-record-form-drawer (onSave)="load()" />\<close>: while the page is shown, a save of the form
  reloads the table.
\<close>

definition home_form_step ::
  "libs \<Rightarrow> bool \<Rightarrow> rf_event \<Rightarrow> service \<Rightarrow> home_page \<Rightarrow> service \<times> home_page" where
  "home_form_step L shown e v h =
     (let (v1, f) = hosted (form_step L) e v (hp_form h);
          h1 = h\<lparr>hp_form := f\<rparr>
      in if shown \<and> rf_onSave f \<noteq> rf_onSave (hp_form h)
         then (let (v2, t) = hosted rt_step RtFormSaved v1 (hp_table h1) in (v2, h1\<lparr>hp_table := t\<rparr>))
         else (v1, h1))"

fun home_step :: "libs \<Rightarrow> bool \<Rightarrow> home_event \<Rightarrow> service \<Rightarrow> home_page \<Rightarrow> service \<times> home_page" where
  "home_step L shown (CardEvent e) v h =
     (let (v1, c) = hosted ac_step e v (hp_card h) in (v1, h\<lparr>hp_card := c\<rparr>))"
| "home_step L shown (HistoryEvent e) v h =
     (let (v1, a) = hosted ah_step e v (hp_history h) in (v1, h\<lparr>hp_history := a\<rparr>))"
| "home_step L shown (TableEvent e) v h =
     (let (v1, t) = hosted rt_step e v (hp_table h) in (v1, h\<lparr>hp_table := t\<rparr>))"
| "home_step L shown (HomeForm e) v h = home_form_step L shown e v h"

text \<open>The overview calls \<open>recordDrawer.open(record)\<close> and \<open>taskForm.openForRecord(\<dots>)\<close>.\<close>

fun open_form :: "libs \<Rightarrow> int \<Rightarrow> ov_form \<Rightarrow> service \<times> overview_page \<Rightarrow> service \<times> overview_page" where
  "open_form L w (EditRecord r) (v, p) =
     (let (v1, f) = hosted (form_step L) (RfOpen w (Some r)) v (op_record_form p) in (v1, p\<lparr>op_record_form := f\<rparr>))"
| "open_form L w (TaskForm i purpose t) (v, p) =
     (let (v1, f) = hosted (tf_step (lib_validators L)) (TfOpen w i purpose t) v (op_task_form p)
      in (v1, p\<lparr>op_task_form := f\<rparr>))"

text \<open>\<open>(onSave)="reloadRecord()"\<close> and \<open>(onSave)="loadTasksAndCertificate()"\<close>.\<close>

definition over_page_step :: "libs \<Rightarrow> ov_event \<Rightarrow> service \<Rightarrow> overview_page \<Rightarrow> service \<times> overview_page" where
  "over_page_step L e v p =
     (let (v1, o1) = hosted (over_step L) e v (op_page p) in (v1, p\<lparr>op_page := o1\<rparr>))"

fun over_event_step :: "libs \<Rightarrow> bool \<Rightarrow> over_event \<Rightarrow> service \<Rightarrow> overview_page \<Rightarrow> service \<times> overview_page" where
  "over_event_step L shown (PageEvent w e) v p =
     (let (v1, p1) = over_page_step L e v p
      in fold (open_form L w) (drop (length (forms (op_page p))) (forms (op_page p1))) (v1, p1))"
| "over_event_step L shown (OverRecordForm e) v p =
     (let (v1, f) = hosted (form_step L) e v (op_record_form p);
          p1 = p\<lparr>op_record_form := f\<rparr>
      in if shown \<and> rf_onSave f \<noteq> rf_onSave (op_record_form p) then over_page_step L OvRecordSaved v1 p1
         else (v1, p1))"
| "over_event_step L shown (OverTaskForm e) v p =
     (let (v1, f) = hosted (tf_step (lib_validators L)) e v (op_task_form p);
          p1 = p\<lparr>op_task_form := f\<rparr>
      in if shown \<and> tf_onSave f \<noteq> tf_onSave (op_task_form p) then over_page_step L OvTaskSaved v1 p1
         else (v1, p1))"

subsection \<open>The site\<close>

record site =
  service :: service
  pages :: "page list"
  outlet :: "nat option"
  address :: string
  settings :: config_form
  log_view :: log_drawer
  shell :: app

text \<open>A page is made by the router's outlet, and runs the \<open>ngOnInit\<close> of its parts.\<close>

definition enter_home :: "service \<Rightarrow> service \<times> page" where
  "enter_home v =
     (let (v1, c) = hosted ac_step AcInit v init_ac;
          (v2, t) = hosted rt_step RtInit v1 init_rt
      in (v2, Home \<lparr>hp_card = c, hp_history = init_ah, hp_table = t, hp_form = init_rf\<rparr>))"

definition enter_overview :: "string option \<Rightarrow> service \<Rightarrow> service \<times> page" where
  "enter_overview param v =
     (let (v1, p) = hosted ov_step (OvInit param) v init_ov
      in (v1, Over \<lparr>op_param = param, op_page = p, op_record_form = init_rf, op_task_form = init_tf\<rparr>))"

definition enter :: "page_component \<Rightarrow> (string \<times> string) list \<Rightarrow> service \<Rightarrow> service \<times> page" where
  "enter c params v =
     (case c of HomeComponent \<Rightarrow> enter_home v
      | RecordOverviewComponent \<Rightarrow> enter_overview (map_of params ''recordId'') v)"

text \<open>The page that is left: the \<open>ngOnDestroy\<close> of its parts and of their drawers.\<close>

definition destroy_form :: "libs \<Rightarrow> service \<Rightarrow> record_form \<Rightarrow> service \<times> record_form" where
  "destroy_form L v f =
     (let (v1, f1) = hosted (form_step L) RfDestroy v f in (v1, f1\<lparr>rf_drawer := ngOnDestroy_drawer (rf_drawer f1)\<rparr>))"

fun leave :: "libs \<Rightarrow> service \<Rightarrow> page \<Rightarrow> service \<times> page" where
  "leave L v (Home h) =
     (let (v1, c) = hosted ac_step AcDestroy v (hp_card h);
          (v2, f) = destroy_form L v1 (hp_form h);
          a = (hp_history h)\<lparr>ah_drawer := ngOnDestroy_drawer (ah_drawer (hp_history h))\<rparr>
      in (v2, Home (h\<lparr>hp_card := c, hp_form := f, hp_history := a\<rparr>)))"
| "leave L v (Over p) =
     (let (v1, p1) = over_page_step L OvDestroy v p;
          (v2, f) = destroy_form L v1 (op_record_form p1);
          t = (op_task_form p1)\<lparr>tf_drawer := ngOnDestroy_drawer (tf_drawer (op_task_form p1))\<rparr>
      in (v2, Over (p1\<lparr>op_record_form := f, op_task_form := t\<rparr>)))"

fun component_of :: "page \<Rightarrow> page_component" where
  "component_of (Home h) = HomeComponent"
| "component_of (Over p) = RecordOverviewComponent"

definition shown_component :: "site \<Rightarrow> page_component option" where
  "shown_component s = map_option (\<lambda>i. component_of (pages s ! i)) (outlet s)"

definition leave_outlet :: "libs \<Rightarrow> site \<Rightarrow> site" where
  "leave_outlet L s =
     (case outlet s of
        None \<Rightarrow> s
      | Some i \<Rightarrow>
          (let (v, pg) = leave L (service s) (pages s ! i)
           in s\<lparr>service := v, pages := (pages s)[i := pg], outlet := None\<rparr>))"

definition enter_outlet :: "page_component \<Rightarrow> (string \<times> string) list \<Rightarrow> site \<Rightarrow> site" where
  "enter_outlet c params s =
     (let (v, pg) = enter c params (service s)
      in s\<lparr>service := v, pages := pages s @ [pg], outlet := Some (length (pages s))\<rparr>)"

text \<open>A navigation keeps the page when the router reuses its component; otherwise the new one is
  made after the old one is gone. An address that no route takes changes nothing.\<close>

definition visit :: "libs \<Rightarrow> string \<Rightarrow> site \<Rightarrow> site" where
  "visit L url s =
     (case recognize (lib_router L) routes url of
        None \<Rightarrow> s
      | Some (c, params) \<Rightarrow>
          (let s1 = s\<lparr>address := lands (lib_router L) routes url\<rparr>
           in if (case shown_component s1 of None \<Rightarrow> False | Some c0 \<Rightarrow> reuse (lib_router L) c0 c) then s1
              else enter_outlet c params (leave_outlet L s1)))"

text \<open>\<open>openOverview\<close> leaves the record's identifier in \<open>route\<close>; the router takes it from there.\<close>

definition table_route :: "page \<Rightarrow> int option" where
  "table_route pg = (case pg of Home h \<Rightarrow> route (hp_table h) | Over _ \<Rightarrow> None)"

definition clear_route :: "page \<Rightarrow> page" where
  "clear_route pg =
     (case pg of Home h \<Rightarrow> Home (h\<lparr>hp_table := (hp_table h)\<lparr>route := None\<rparr>\<rparr>) | Over p \<Rightarrow> Over p)"

definition follow_route :: "libs \<Rightarrow> nat \<Rightarrow> site \<Rightarrow> site" where
  "follow_route L i s =
     (case table_route (pages s ! i) of
        None \<Rightarrow> s
      | Some r \<Rightarrow> visit L (overview_address r) (s\<lparr>pages := (pages s)[i := clear_route (pages s ! i)]\<rparr>))"

subsection \<open>What may happen\<close>

text \<open>
  The browser goes to another entry of its history: the drawers' overlays are disposed, the
  dialogs are closed (the default of \<open>closeOnNavigation\<close>), then the page changes.
\<close>

definition close_dialogs :: "('h, 'q, 'z) ui_scheme \<Rightarrow> ('h, 'q, 'z) ui_scheme" where
  "close_dialogs c = c\<lparr>notifier := (notifier c)\<lparr>dialogs := []\<rparr>\<rparr>"

fun page_history :: "int \<Rightarrow> page \<Rightarrow> page" where
  "page_history w (Home h) =
     Home (h\<lparr>hp_history := (hp_history h)\<lparr>ah_drawer := history_moved w (ah_drawer (hp_history h))\<rparr>,
             hp_form := (hp_form h)\<lparr>rf_drawer := history_moved w (rf_drawer (hp_form h))\<rparr>,
             hp_table := close_dialogs (hp_table h)\<rparr>)"
| "page_history w (Over p) =
     Over (p\<lparr>op_record_form := (op_record_form p)\<lparr>rf_drawer := history_moved w (rf_drawer (op_record_form p))\<rparr>,
             op_task_form := (op_task_form p)\<lparr>tf_drawer := history_moved w (tf_drawer (op_task_form p))\<rparr>,
             op_page := close_dialogs (op_page p)\<rparr>)"

definition history_to :: "libs \<Rightarrow> int \<Rightarrow> string \<Rightarrow> site \<Rightarrow> site" where
  "history_to L w url s =
     visit L url (s\<lparr>pages := map (page_history w) (pages s),
                    settings := (settings s)\<lparr>cf_drawer := history_moved w (cf_drawer (settings s))\<rparr>,
                    log_view := (log_view s)\<lparr>ld_drawer := history_moved w (ld_drawer (log_view s))\<rparr>\<rparr>)"

datatype site_event =
    BackLink
  | HistoryTo int string
  | HomeEvent nat home_event
  | OverEvent nat over_event
  | SettingsEvent cf_event
  | LogEvent ld_event
  | ShellEvent app_event
  | ToastDue nat
  | ToastDismissed string

definition home_do :: "libs \<Rightarrow> nat \<Rightarrow> home_event \<Rightarrow> site \<Rightarrow> site" where
  "home_do L i e s =
     (case pages s ! i of
        Home h \<Rightarrow>
          (let (v, h1) = home_step L (outlet s = Some i) e (service s) h;
               s1 = s\<lparr>service := v, pages := (pages s)[i := Home h1]\<rparr>
           in case e of TableEvent (RtOpen r) \<Rightarrow> follow_route L i s1 | _ \<Rightarrow> s1)
      | Over p \<Rightarrow> s)"

definition over_do :: "libs \<Rightarrow> nat \<Rightarrow> over_event \<Rightarrow> site \<Rightarrow> site" where
  "over_do L i e s =
     (case pages s ! i of
        Home h \<Rightarrow> s
      | Over p \<Rightarrow>
          (let (v, p1) = over_event_step L (outlet s = Some i) e (service s) p
           in s\<lparr>service := v, pages := (pages s)[i := Over p1]\<rparr>))"

fun site_step :: "libs \<Rightarrow> site \<Rightarrow> site_event \<Rightarrow> site" where
  "site_step L s BackLink = visit L '''' s"
| "site_step L s (HistoryTo w url) = history_to L w url s"
| "site_step L s (HomeEvent i e) = home_do L i e s"
| "site_step L s (OverEvent i e) = over_do L i e s"
| "site_step L s (SettingsEvent e) =
     (let (v, c) = hosted (cf_step (lib_validators L) (lib_moveItemInArray L)) e (service s) (settings s)
      in s\<lparr>service := v, settings := c\<rparr>)"
| "site_step L s (LogEvent e) =
     (let (v, c) = hosted (ld_step (lib_clock L) (lib_localeCompare L)) e (service s) (log_view s)
      in s\<lparr>service := v, log_view := c\<rparr>)"
| "site_step L s (ShellEvent e) = s\<lparr>shell := app_step (shell s) e\<rparr>"
| "site_step L s (ToastDue k) =
     s\<lparr>service := (service s)\<lparr>svc_state := fire_timer k (svc_state (service s))\<rparr>\<rparr>"
| "site_step L s (ToastDismissed x) =
     s\<lparr>service := (service s)\<lparr>svc_state := dismissNotification x (svc_state (service s))\<rparr>\<rparr>"

definition boot :: "libs \<Rightarrow> string \<Rightarrow> site" where
  "boot L url =
     visit L url
       \<lparr>service = init_service, pages = [], outlet = None, address = url, settings = init_cf, log_view = init_ld,
        shell = app_step init_app AppInit\<rparr>"

text \<open>
  Which events come when. Answers, timers, streams and the buttons of dialogs come to any page
  ever made; the user's actions only to the page that is shown, for the rows it shows, and to a
  form only while its drawer is on the page. The events that stand for \<open>ngOnInit\<close>,
  \<open>ngOnDestroy\<close> and \<open>onSave\<close> are not the user's: they come with the steps above.
\<close>

definition on_page :: "drawer \<Rightarrow> bool" where
  "on_page d \<longleftrightarrow> drawer.live d \<noteq> []"

fun ac_comes :: "bool \<Rightarrow> ac_event \<Rightarrow> bool" where
  "ac_comes shown AcClick = shown"
| "ac_comes shown AcInit = False"
| "ac_comes shown AcDestroy = False"
| "ac_comes shown _ = True"

fun ah_comes :: "bool \<Rightarrow> address_history \<Rightarrow> ah_event \<Rightarrow> bool" where
  "ah_comes shown a (AhOpen w) = shown"
| "ah_comes shown a AhCancel = (shown \<and> on_page (ah_drawer a))"
| "ah_comes shown a _ = True"

fun rt_comes :: "bool \<Rightarrow> records_table \<Rightarrow> rt_event \<Rightarrow> bool" where
  "rt_comes shown t (RtReply k r) = True"
| "rt_comes shown t (RtPollDue k) = True"
| "rt_comes shown t (RtCheckbox d b) = True"
| "rt_comes shown t (RtButton d i) = True"
| "rt_comes shown t (RtDismissDialog d) = True"
| "rt_comes shown t (RtSearch x) = shown"
| "rt_comes shown t RtClearSearch = shown"
| "rt_comes shown t (RtRefresh r) = (shown \<and> r \<in> set (rt_records t))"
| "rt_comes shown t (RtIssue r) = (shown \<and> r \<in> set (rt_records t))"
| "rt_comes shown t (RtDelete r) = (shown \<and> r \<in> set (rt_records t))"
| "rt_comes shown t (RtOpen r) = (shown \<and> r \<in> set (rt_records t))"
| "rt_comes shown t RtInit = False"
| "rt_comes shown t RtFormSaved = False"

text \<open>\<open>rs\<close>: the records the page offers to edit; \<open>adds\<close>: whether it offers a new one.\<close>

fun rf_comes :: "bool \<Rightarrow> record_msg list \<Rightarrow> bool \<Rightarrow> record_form \<Rightarrow> rf_event \<Rightarrow> bool" where
  "rf_comes shown rs adds f (RfOpen w None) = (shown \<and> adds)"
| "rf_comes shown rs adds f (RfOpen w (Some r)) = (shown \<and> r \<in> set rs)"
| "rf_comes shown rs adds f RfDestroy = False"
| "rf_comes shown rs adds f (RfReply k r) = True"
| "rf_comes shown rs adds f (RfTimerDue h) = True"
| "rf_comes shown rs adds f RfDebounceDue = True"
| "rf_comes shown rs adds f RfCloseDue = True"
| "rf_comes shown rs adds f _ = (shown \<and> on_page (rf_drawer f))"

fun tf_comes :: "bool \<Rightarrow> task_form \<Rightarrow> tf_event \<Rightarrow> bool" where
  "tf_comes shown f (TfOpen w i p t) = False"
| "tf_comes shown f (TfReply k r) = True"
| "tf_comes shown f TfCloseDue = True"
| "tf_comes shown f _ = (shown \<and> on_page (tf_drawer f))"

fun ov_comes :: "bool \<Rightarrow> ov_event \<Rightarrow> bool" where
  "ov_comes shown (OvInit p) = False"
| "ov_comes shown OvDestroy = False"
| "ov_comes shown OvRecordSaved = False"
| "ov_comes shown OvTaskSaved = False"
| "ov_comes shown e = (is_click e \<longrightarrow> shown)"

fun home_comes :: "bool \<Rightarrow> home_page \<Rightarrow> home_event \<Rightarrow> bool" where
  "home_comes shown h (CardEvent e) = ac_comes shown e"
| "home_comes shown h (HistoryEvent e) = ah_comes shown (hp_history h) e"
| "home_comes shown h (TableEvent e) = rt_comes shown (hp_table h) e"
| "home_comes shown h (HomeForm e) = rf_comes shown (rt_records (hp_table h)) True (hp_form h) e"

fun over_comes :: "bool \<Rightarrow> overview_page \<Rightarrow> over_event \<Rightarrow> bool" where
  "over_comes shown p (PageEvent w e) = ov_comes shown e"
| "over_comes shown p (OverRecordForm e) = rf_comes shown [] False (op_record_form p) e"
| "over_comes shown p (OverTaskForm e) = tf_comes shown (op_task_form p) e"

fun cf_comes :: "config_form \<Rightarrow> cf_event \<Rightarrow> bool" where
  "cf_comes c (CfOpen w) = True"
| "cf_comes c (CfReply k r) = True"
| "cf_comes c CfCloseDue = True"
| "cf_comes c _ = on_page (cf_drawer c)"

fun ld_comes :: "log_drawer \<Rightarrow> ld_event \<Rightarrow> bool" where
  "ld_comes c LdClose = on_page (ld_drawer c)"
| "ld_comes c LdGesture = on_page (ld_drawer c)"
| "ld_comes c LdDestroy = False"
| "ld_comes c _ = True"

fun comes :: "site \<Rightarrow> site_event \<Rightarrow> bool" where
  "comes s BackLink = (shown_component s = Some RecordOverviewComponent)"
| "comes s (HistoryTo w url) = True"
| "comes s (HomeEvent i e) =
     (i < length (pages s) \<and> (case pages s ! i of Home h \<Rightarrow> home_comes (outlet s = Some i) h e | Over p \<Rightarrow> False))"
| "comes s (OverEvent i e) =
     (i < length (pages s) \<and> (case pages s ! i of Home h \<Rightarrow> False | Over p \<Rightarrow> over_comes (outlet s = Some i) p e))"
| "comes s (SettingsEvent e) = cf_comes (settings s) e"
| "comes s (LogEvent e) = ld_comes (log_view s) e"
| "comes s (ShellEvent e) = (e \<notin> {AppInit, AppDestroy})"
| "comes s (ToastDue k) = True"
| "comes s (ToastDismissed x) = True"

text \<open>The states the site reaches from the address it was opened at.\<close>

inductive reaches :: "libs \<Rightarrow> site \<Rightarrow> bool" for L where
  booted: "reaches L (boot L url)"
| happened: "reaches L s \<Longrightarrow> comes s e \<Longrightarrow> reaches L (site_step L s e)"

fun all_come :: "libs \<Rightarrow> site \<Rightarrow> site_event list \<Rightarrow> bool" where
  "all_come L s [] = True"
| "all_come L s (e # es) = (comes s e \<and> all_come L (site_step L s e) es)"

lemma reaches_run: "reaches L s \<Longrightarrow> all_come L s es \<Longrightarrow> reaches L (run (site_step L) s es)"
  by (induction es arbitrary: s) (auto intro: reaches.happened)

end
