(* ===== verification/SiteFacts.thy ===== *)
theory SiteFacts
  imports Site
begin

text \<open>
  What holds of the whole application, in every state it reaches: the loading counter is the
  number of requests in flight, every page ever made is in order, and the forms of an overview
  save nothing but what belongs to its record. Both invariants are proved by induction on
  \<open>reaches\<close> from the contracts of the components (\<open>http_client\<close> and \<open>hosted_client\<close>).
\<close>

subsection \<open>Requests in flight\<close>

fun page_pending :: "page \<Rightarrow> nat" where
  "page_pending (Home h) =
     length (pending (hp_card h)) + length (pending (hp_history h)) + length (pending (hp_table h)) +
     length (pending (hp_form h))"
| "page_pending (Over p) =
     length (pending (op_page p)) + length (pending (op_record_form p)) + length (pending (op_task_form p))"

definition in_flight :: "site \<Rightarrow> nat" where
  "in_flight s =
     sum_list (map page_pending (pages s)) + length (pending (settings s)) + length (pending (log_view s))"

text \<open>Changing a drawer, a page's counters or its record of an address sends nothing.\<close>

lemma close_dialogs_keeps [simp]:
  "pending (close_dialogs c) = pending c" "sent (close_dialogs c) = sent c"
  by (simp_all add: close_dialogs_def)

lemma page_pending_history [simp]: "page_pending (page_history w pg) = page_pending pg"
  by (cases pg) simp_all

lemma page_pending_route [simp]: "page_pending (clear_route pg) = page_pending pg"
  by (cases pg) (simp_all add: clear_route_def)

lemma home_form_counted:
  assumes "home_form_step L shown e v h = (v', h')" "service_ok (n + page_pending (Home h)) v"
  shows "service_ok (n + page_pending (Home h')) v'"
proof -
  let ?o = "n + length (pending (hp_card h)) + length (pending (hp_history h))"
  obtain v1 f where 1: "hosted (form_step L) e v (hp_form h) = (v1, f)" by force
  obtain v2 t where 2: "hosted rt_step RtFormSaved v1 (hp_table h) = (v2, t)" by force
  have v1: "service_ok (?o + length (pending (hp_table h)) + length (pending f)) v1"
    using rf_http.hosted_ok [OF 1 assms(2)] by (simp add: ac_simps)
  from rt_http.hosted_ok [OF 2 v1, of "?o + length (pending f)"]
  have "service_ok (?o + length (pending t) + length (pending f)) v2" by (simp add: ac_simps)
  with v1 show ?thesis
    using assms(1) 1 2 by (auto simp: home_form_step_def Let_def ac_simps split: if_splits)
qed

lemma home_counted:
  assumes "home_step L shown e v h = (v', h')" "service_ok (n + page_pending (Home h)) v"
  shows "service_ok (n + page_pending (Home h')) v'"
proof (cases e)
  case (CardEvent x)
  obtain v1 c where 1: "hosted ac_step x v (hp_card h) = (v1, c)" by force
  from ac_http.hosted_ok [OF 1 assms(2)] show ?thesis
    using assms(1) 1 CardEvent by (force simp: ac_simps)
next
  case (HistoryEvent x)
  obtain v1 c where 1: "hosted ah_step x v (hp_history h) = (v1, c)" by force
  from ah_http.hosted_ok [OF 1 assms(2)] show ?thesis
    using assms(1) 1 HistoryEvent by (force simp: ac_simps)
next
  case (TableEvent x)
  obtain v1 c where 1: "hosted rt_step x v (hp_table h) = (v1, c)" by force
  from rt_http.hosted_ok [OF 1 assms(2)] show ?thesis
    using assms(1) 1 TableEvent by (force simp: ac_simps)
next
  case (HomeForm x)
  then show ?thesis using home_form_counted [OF _ assms(2)] assms(1) by simp
qed

lemma over_page_counted:
  assumes "over_page_step L e v p = (v', p')" "service_ok (n + page_pending (Over p)) v"
  shows "service_ok (n + page_pending (Over p')) v'"
proof -
  obtain v1 o1 where 1: "hosted (over_step L) e v (op_page p) = (v1, o1)" by force
  from open_page.hosted_ok [OF 1 assms(2)] show ?thesis
    using assms(1) 1 by (force simp: over_page_step_def ac_simps)
qed

lemma open_form_counted:
  assumes "open_form L w x (v, p) = (v', p')" "service_ok (n + page_pending (Over p)) v"
  shows "service_ok (n + page_pending (Over p')) v'"
proof (cases x)
  case (EditRecord r)
  obtain v1 f where 1: "hosted (form_step L) (RfOpen w (Some r)) v (op_record_form p) = (v1, f)" by force
  from rf_http.hosted_ok [OF 1 assms(2)] show ?thesis
    using assms(1) 1 EditRecord by (force simp: ac_simps)
next
  case (TaskForm i u t)
  obtain v1 f where 1: "hosted (tf_step (lib_validators L)) (TfOpen w i u t) v (op_task_form p) = (v1, f)" by force
  from tf_http.hosted_ok [OF 1 assms(2)] show ?thesis
    using assms(1) 1 TaskForm by (force simp: ac_simps)
qed

lemma open_forms_counted:
  "fold (open_form L w) xs (v, p) = (v', p') \<Longrightarrow> service_ok (n + page_pending (Over p)) v \<Longrightarrow>
   service_ok (n + page_pending (Over p')) v'"
proof (induction xs arbitrary: v p)
  case (Cons x xs)
  obtain v1 p1 where 1: "open_form L w x (v, p) = (v1, p1)" by force
  with Cons.prems(1) have "fold (open_form L w) xs (v1, p1) = (v', p')" by simp
  from Cons.IH [OF this open_form_counted [OF 1 Cons.prems(2)]] show ?case .
qed simp

lemma over_counted:
  assumes "over_event_step L shown e v p = (v', p')" "service_ok (n + page_pending (Over p)) v"
  shows "service_ok (n + page_pending (Over p')) v'"
proof (cases e)
  case (PageEvent w x)
  obtain v1 p1 where 1: "over_page_step L x v p = (v1, p1)" by force
  then show ?thesis
    using open_forms_counted [OF _ over_page_counted [OF 1 assms(2)]] assms(1) PageEvent by simp
next
  case (OverRecordForm x)
  obtain v1 f where 1: "hosted (form_step L) x v (op_record_form p) = (v1, f)" by force
  have v1: "service_ok (n + page_pending (Over (p\<lparr>op_record_form := f\<rparr>))) v1"
    using rf_http.hosted_ok [OF 1 assms(2)] by (force simp: ac_simps)
  then show ?thesis
    using over_page_counted [OF _ v1] assms(1) 1 OverRecordForm by (auto simp: Let_def split: if_splits)
next
  case (OverTaskForm x)
  obtain v1 f where 1: "hosted (tf_step (lib_validators L)) x v (op_task_form p) = (v1, f)" by force
  have v1: "service_ok (n + page_pending (Over (p\<lparr>op_task_form := f\<rparr>))) v1"
    using tf_http.hosted_ok [OF 1 assms(2)] by (force simp: ac_simps)
  then show ?thesis
    using over_page_counted [OF _ v1] assms(1) 1 OverTaskForm by (auto simp: Let_def split: if_splits)
qed

lemma destroy_form_counted:
  assumes "destroy_form L v f = (v', f')" "service_ok m v" "m = n + length (pending f)"
  shows "service_ok (n + length (pending f')) v'"
proof -
  obtain v1 f1 where 1: "hosted (form_step L) RfDestroy v f = (v1, f1)" by force
  from rf_http.hosted_ok [OF 1 assms(2,3)] show ?thesis
    using assms(1) 1 by (force simp: destroy_form_def)
qed

lemma leave_counted:
  assumes "leave L v pg = (v', pg')" "service_ok (n + page_pending pg) v"
  shows "service_ok (n + page_pending pg') v'"
proof (cases pg)
  case (Home h)
  obtain v1 c where 1: "hosted ac_step AcDestroy v (hp_card h) = (v1, c)" by force
  obtain v2 f where 2: "destroy_form L v1 (hp_form h) = (v2, f)" by force
  have v1: "service_ok (n + length (pending c) + length (pending (hp_history h)) + length (pending (hp_table h)) +
      length (pending (hp_form h))) v1"
    using ac_http.hosted_ok [OF 1 assms(2)] Home by (force simp: ac_simps)
  from destroy_form_counted [OF 2 this] show ?thesis
    using assms(1) 1 2 Home by (force simp: ac_simps Let_def)
next
  case (Over p)
  obtain v1 p1 where 1: "over_page_step L OvDestroy v p = (v1, p1)" by force
  obtain v2 f where 2: "destroy_form L v1 (op_record_form p1) = (v2, f)" by force
  have v1: "service_ok (n + page_pending (page.Over p1)) v1"
    using over_page_counted [OF 1] assms(2) Over by simp
  from destroy_form_counted [OF 2 v1, of "n + length (pending (op_page p1)) + length (pending (op_task_form p1))"]
  show ?thesis
    using assms(1) 1 2 Over by (force simp: ac_simps Let_def)
qed

lemma init_none_pending [simp]:
  "pending init_ac = []" "pending init_rt = []" "pending init_ov = []" "pending init_rf = []" "pending init_tf = []"
  "pending init_ah = []" "pending init_cf = []" "pending init_ld = []"
  by (simp_all add: init_ac_def init_rt_def init_ov_def init_rf_def init_tf_def init_ah_def init_cf_def init_ld_def
      init_ui_def ui.defs)

lemma enter_counted:
  assumes "enter c params v = (v', pg)" "service_ok n v"
  shows "service_ok (n + page_pending pg) v'"
proof (cases c)
  case HomeComponent
  obtain v1 a where 1: "hosted ac_step AcInit v init_ac = (v1, a)" by force
  obtain v2 t where 2: "hosted rt_step RtInit v1 init_rt = (v2, t)" by force
  have v1: "service_ok (n + length (pending a)) v1" using ac_http.hosted_ok [OF 1 assms(2)] by simp
  have "service_ok (n + length (pending a) + length (pending t)) v2"
    using rt_http.hosted_ok [OF 2 v1] by simp
  moreover have "v' = v2" "pg = Home \<lparr>hp_card = a, hp_history = init_ah, hp_table = t, hp_form = init_rf\<rparr>"
    using assms(1) 1 2 HomeComponent by (simp_all add: enter_def enter_home_def)
  ultimately show ?thesis by (simp add: ac_simps)
next
  case RecordOverviewComponent
  obtain v1 p where 1: "hosted ov_step (OvInit (map_of params ''recordId'')) v init_ov = (v1, p)" by force
  from ov_http.hosted_ok [OF 1 assms(2)] show ?thesis
    using assms(1) 1 RecordOverviewComponent by (force simp: enter_def enter_overview_def)
qed

text \<open>The steps of the site.\<close>

definition outlet_ok :: "site \<Rightarrow> bool" where
  "outlet_ok s \<longleftrightarrow> (\<forall>i. outlet s = Some i \<longrightarrow> i < length (pages s))"

definition counted :: "site \<Rightarrow> bool" where
  "counted s \<longleftrightarrow> outlet_ok s \<and> service_ok (in_flight s) (service s)"

lemma sum_list_split:
  fixes f :: "'a \<Rightarrow> nat"
  assumes "i < length xs"
  shows "\<exists>n. sum_list (map f xs) = n + f (xs ! i) \<and> (\<forall>x. sum_list (map f (xs[i := x])) = n + f x)"
proof -
  have xs: "xs = take i xs @ xs ! i # drop (Suc i) xs" using assms by (rule id_take_nth_drop)
  let ?n = "sum_list (map f (take i xs)) + sum_list (map f (drop (Suc i) xs))"
  have "sum_list (map f xs) = ?n + f (xs ! i)" by (subst xs) simp
  moreover have "sum_list (map f (xs[i := x])) = ?n + f x" for x
    using assms by (simp add: upd_conv_take_nth_drop)
  ultimately show ?thesis by blast
qed

text \<open>A page in the list steps under the service.\<close>

lemma counted_page:
  assumes "counted s" "i < length (pages s)"
    and "\<And>n. service_ok (n + page_pending (pages s ! i)) (service s) \<Longrightarrow> service_ok (n + page_pending pg) v"
  shows "counted (s\<lparr>service := v, pages := (pages s)[i := pg]\<rparr>)"
proof -
  obtain n where "sum_list (map page_pending (pages s)) = n + page_pending (pages s ! i)"
    "\<forall>x. sum_list (map page_pending ((pages s)[i := x])) = n + page_pending x"
    using sum_list_split [OF assms(2)] by blast
  moreover from this have "service_ok (n + length (pending (settings s)) + length (pending (log_view s)) + page_pending pg) v"
    using assms(1) by (intro assms(3)) (simp add: counted_def in_flight_def ac_simps)
  ultimately show ?thesis
    using assms(1) by (simp add: counted_def in_flight_def outlet_ok_def ac_simps)
qed

lemma counted_leave: "counted s \<Longrightarrow> counted (leave_outlet L s)"
proof (cases "outlet s")
  case (Some i)
  assume s: "counted s"
  then have i: "i < length (pages s)" using Some by (simp add: counted_def outlet_ok_def)
  obtain v pg where l: "leave L (service s) (pages s ! i) = (v, pg)" by force
  have "counted (s\<lparr>service := v, pages := (pages s)[i := pg]\<rparr>)"
    using s i leave_counted [OF l] by (rule counted_page)
  then show ?thesis
    using Some l by (simp add: leave_outlet_def counted_def outlet_ok_def in_flight_def)
qed (simp add: leave_outlet_def)

lemma counted_enter: "counted s \<Longrightarrow> counted (enter_outlet c params s)"
proof -
  assume s: "counted s"
  obtain v pg where e: "enter c params (service s) = (v, pg)" by force
  then have "service_ok (in_flight s + page_pending pg) v"
    using enter_counted s by (simp add: counted_def)
  then show ?thesis
    using e by (simp add: enter_outlet_def counted_def outlet_ok_def in_flight_def ac_simps)
qed

lemma counted_visit: "counted s \<Longrightarrow> counted (visit L url s)"
proof -
  assume s: "counted s"
  then have "counted (s\<lparr>address := x\<rparr>)" for x by (simp add: counted_def outlet_ok_def in_flight_def)
  then show ?thesis
    using s counted_enter [OF counted_leave] by (auto simp: visit_def Let_def split: option.splits)
qed

lemma counted_route: "counted s \<Longrightarrow> i < length (pages s) \<Longrightarrow> counted (follow_route L i s)"
  using counted_page [of s i "clear_route (pages s ! i)" "service s"]
  by (auto simp: follow_route_def intro!: counted_visit split: option.split)

lemma counted_step:
  assumes "counted s" "comes s e"
  shows "counted (site_step L s e)"
proof (cases e)
  case BackLink
  then show ?thesis using assms by (simp add: counted_visit)
next
  case (HistoryTo w url)
  have "counted (s\<lparr>pages := map (page_history w) (pages s),
      settings := (settings s)\<lparr>cf_drawer := history_moved w (cf_drawer (settings s))\<rparr>,
      log_view := (log_view s)\<lparr>ld_drawer := history_moved w (ld_drawer (log_view s))\<rparr>\<rparr>)"
    using assms(1) by (simp add: o_def counted_def outlet_ok_def in_flight_def)
  then show ?thesis using HistoryTo by (simp add: history_to_def counted_visit)
next
  case (HomeEvent i x)
  then obtain h where h: "i < length (pages s)" "pages s ! i = Home h"
    using assms(2) by (auto split: page.splits)
  obtain v h1 where 1: "home_step L (outlet s = Some i) x (service s) h = (v, h1)" by force
  have "counted (s\<lparr>service := v, pages := (pages s)[i := Home h1]\<rparr>)"
    using home_counted [OF 1] h by (intro counted_page [OF assms(1)]) simp_all
  then show ?thesis using HomeEvent h 1 counted_route
    by (simp add: home_do_def Let_def split: home_event.split rt_event.split)
next
  case (OverEvent i x)
  then obtain p where p: "i < length (pages s)" "pages s ! i = Over p"
    using assms(2) by (auto split: page.splits)
  obtain v p1 where 1: "over_event_step L (outlet s = Some i) x (service s) p = (v, p1)" by force
  have "counted (s\<lparr>service := v, pages := (pages s)[i := Over p1]\<rparr>)"
    using over_counted [OF 1] p by (intro counted_page [OF assms(1)]) simp_all
  then show ?thesis using OverEvent p 1 by (simp add: over_do_def)
next
  case (SettingsEvent x)
  obtain v c where 1: "hosted (cf_step (lib_validators L) (lib_moveItemInArray L)) x (service s) (settings s) = (v, c)"
    by force
  have "service_ok (in_flight s) (service s)" using assms(1) by (simp add: counted_def)
  from cf_http.hosted_ok [OF 1 this, of "sum_list (map page_pending (pages s)) + length (pending (log_view s))"]
  show ?thesis using assms(1) SettingsEvent 1 by (simp add: counted_def outlet_ok_def in_flight_def ac_simps)
next
  case (LogEvent x)
  obtain v c where 1: "hosted (ld_step (lib_clock L) (lib_localeCompare L)) x (service s) (log_view s) = (v, c)"
    by force
  have "service_ok (in_flight s) (service s)" using assms(1) by (simp add: counted_def)
  from ld_http.hosted_ok [OF 1 this, of "sum_list (map page_pending (pages s)) + length (pending (settings s))"]
  show ?thesis using assms(1) LogEvent 1 by (simp add: counted_def outlet_ok_def in_flight_def ac_simps)
qed (use assms in \<open>simp_all add: counted_def outlet_ok_def in_flight_def service_ok_def fire_timer_def dismissNotification_def\<close>)

lemma counted_boot: "counted (boot L url)"
  unfolding boot_def
  by (rule counted_visit) (simp add: counted_def outlet_ok_def in_flight_def service_ok_init)

lemma reaches_counted: "reaches L s \<Longrightarrow> counted s"
  by (induction rule: reaches.induct) (simp_all add: counted_boot counted_step)

subsection \<open>Whose record the forms save\<close>

text \<open>
  A record form that is on the page was opened for a record \<open>n\<close>, and it has saved no other; the
  same of a task form and the tasks of \<open>n\<close>.
\<close>

definition own_record_form :: "number \<Rightarrow> record_form \<Rightarrow> bool" where
  "own_record_form n f \<longleftrightarrow>
     (case rf_record f of None \<Rightarrow> \<not> on_page (rf_drawer f) | Some r \<Rightarrow> num (rec_id r) = n) \<and>
     (\<forall>r. RfUpsert r \<in> set (sent f) \<longrightarrow> num (rec_id r) = n)"

definition own_task_form :: "number \<Rightarrow> task_form \<Rightarrow> bool" where
  "own_task_form n f \<longleftrightarrow>
     (on_page (tf_drawer f) \<longrightarrow> num (tf_recordId f) = n) \<and>
     (\<forall>t. TfUpsert t \<in> set (sent f) \<longrightarrow> num (task_recordId t) = n)"

lemma on_page_ops [simp]: "on_page (close_op d) = on_page d" "on_page (ngOnDestroy_drawer d) = on_page d"
  by (simp_all add: on_page_def step_defs)

lemma on_page_goes: "on_page (close_due d) \<Longrightarrow> on_page d" "on_page (history_moved w d) \<Longrightarrow> on_page d"
  by (auto simp: on_page_def step_defs split: if_splits option.splits)

text \<open>What of a record form its steps keep, opening it and saving apart.\<close>

definition same_form :: "record_form \<Rightarrow> record_form \<Rightarrow> bool" where
  "same_form f g \<longleftrightarrow>
     rf_record g = rf_record f \<and> (on_page (rf_drawer g) \<longrightarrow> on_page (rf_drawer f)) \<and>
     filter is_upsert (sent g) = filter is_upsert (sent f)"

lemma same_form_refl [simp]: "same_form f f"
  by (simp add: same_form_def)

lemma same_form_ops [simp]:
  "same_form f g \<Longrightarrow> same_form f (clearTimeout h g)" "same_form f g \<Longrightarrow> same_form f (setTimeout t g)"
  "same_form f g \<Longrightarrow> same_form f (take_reply k g)" "same_form f g \<Longrightarrow> same_form f (toast m g)"
  "same_form f g \<Longrightarrow> same_form f (toast_error e txt g)"
  "same_form f g \<Longrightarrow> same_form f (loadZones x g)"
  by (auto simp: same_form_def clearTimeout_def setTimeout_def take_reply_def toast_def toast_error_def loadZones_def
      request_def is_upsert_def)

lemma same_form_fields [simp]:
  "same_form f (g\<lparr>zones := a\<rparr>) = same_form f g" "same_form f (g\<lparr>zonesLoading := b\<rparr>) = same_form f g"
  "same_form f (g\<lparr>rf_saving := b\<rparr>) = same_form f g" "same_form f (g\<lparr>selectedIndex := i\<rparr>) = same_form f g"
  "same_form f (g\<lparr>autoAdvanceSuspended := b\<rparr>) = same_form f g" "same_form f (g\<lparr>debounce := d\<rparr>) = same_form f g"
  "same_form f (g\<lparr>last_token := xo\<rparr>) = same_form f g" "same_form f (g\<lparr>subscribed := b\<rparr>) = same_form f g"
  "same_form f (g\<lparr>rf_onSave := m\<rparr>) = same_form f g" "same_form f (g\<lparr>d_name := x\<rparr>) = same_form f g"
  "same_form f (g\<lparr>d_ttl := y\<rparr>) = same_form f g" "same_form f (g\<lparr>d_purpose := z\<rparr>) = same_form f g"
  "same_form f (g\<lparr>d_includeWildcard := b\<rparr>) = same_form f g" "same_form f (g\<lparr>d_acmeEmail := x\<rparr>) = same_form f g"
  "same_form f (g\<lparr>last_zone_status := l\<rparr>) = same_form f g" "same_form f (g\<lparr>last_token_status := l\<rparr>) = same_form f g"
  "same_form f (g\<lparr>token_groups := tg\<rparr>) = same_form f g" "same_form f (g\<lparr>zone_value := zv\<rparr>) = same_form f g"
  "same_form f (g\<lparr>tokenAdvanceTimer := t\<rparr>) = same_form f g" "same_form f (g\<lparr>zoneAdvanceTimer := t\<rparr>) = same_form f g"
  by (simp_all add: same_form_def)

lemma same_form_advance [simp]:
  "same_form f g \<Longrightarrow> same_form f (clearAdvanceTimer st g)"
  by (simp add: clearAdvanceTimer_def Let_def split: step.split option.split)

lemma same_form_schedule [simp]: "same_form f g \<Longrightarrow> same_form f (scheduleStepAdvance V st g)"
  by (simp add: scheduleStepAdvance_def Let_def split: step.split)

lemma same_form_groups [simp]:
  "same_form f g \<Longrightarrow> same_form f (set_zone V z g)" "same_form f g \<Longrightarrow> same_form f (set_token V x g)"
  by (simp_all add: set_zone_def zone_status_changed_def set_token_def Let_def)

lemma same_form_handle: "rf_handle V q r = Some c \<Longrightarrow> same_form f g \<Longrightarrow> same_form f (c g)"
  by (cases q; cases r)
    (auto simp: on_zones_def on_zones_failed_def on_record_save_failed_def on_record_saved_def Let_def,
     auto simp: same_form_def toast_def)

lemma same_form_step:
  assumes "\<And>w r. e \<noteq> RfOpen w r" "e \<noteq> RfSave"
  shows "same_form f (rf_step V nx f e)"
proof (cases e)
  case (RfReply k r)
  then show ?thesis by (auto intro!: on_reply_cases [where P = "same_form f"] simp: same_form_handle)
next
  case (RfTimerDue h)
  have "same_form f (timer_callback V nx t g)" if "same_form f g" for t g
    using that by (cases t) (auto simp: timer_callback_def advance_due_def Let_def)
  then show ?thesis using RfTimerDue by (simp add: timer_due_def split: option.split)
next
  case RfCloseDue
  then show ?thesis by (auto simp: same_form_def dest: on_page_goes)
next
  case RfCancel
  then show ?thesis by (simp add: same_form_def)
qed (use assms in \<open>auto simp: debounce_due_def ngOnDestroy_rf_def clearAdvanceTimers_def Let_def split: option.split\<close>)

lemma upserts_filter: "RfUpsert r \<in> set (sent f) \<longleftrightarrow> RfUpsert r \<in> set (filter is_upsert (sent f))"
  by (simp add: is_upsert_def)

lemma own_record_same: "same_form f g \<Longrightarrow> own_record_form n f \<Longrightarrow> own_record_form n g"
  unfolding own_record_form_def same_form_def upserts_filter by (auto split: option.splits)

lemma own_record_step:
  assumes "own_record_form n f" "rf_comes shown rs adds f e" "\<And>w r. e \<noteq> RfOpen w r"
  shows "own_record_form n (rf_step V nx f e)"
proof (cases "e = RfSave")
  case True
  with assms(1,2) obtain r where r: "rf_record f = Some r" "num (rec_id r) = n"
    by (auto simp: own_record_form_def split: option.splits)
  then have "num (rec_id (record_payload f)) = n" by (simp add: record_payload_def Let_def)
  with assms(1) r True show ?thesis
    by (auto simp: own_record_form_def save_record_def request_def toast_error_def)
next
  case False
  with assms(3) own_record_same [OF same_form_step assms(1)] show ?thesis by blast
qed

lemma prepareForm_record [simp]:
  "rf_record (prepareForm V r s) = rf_record s" "rf_drawer (prepareForm V r s) = rf_drawer s"
proof -
  have k: "rf_record (clearAdvanceTimers t) = rf_record t" "rf_drawer (clearAdvanceTimers t) = rf_drawer t"
    "rf_record (set_zone V z t) = rf_record t" "rf_drawer (set_zone V z t) = rf_drawer t"
    "rf_record (set_token V x t) = rf_record t" "rf_drawer (set_token V x t) = rf_drawer t" for t z x
    by (simp_all add: clearAdvanceTimers_def clearAdvanceTimer_def clearTimeout_def set_zone_def
        zone_status_changed_def scheduleStepAdvance_def setTimeout_def set_token_def Let_def
        split: step.split option.split)
  show "rf_record (prepareForm V r s) = rf_record s" "rf_drawer (prepareForm V r s) = rf_drawer s"
    by (simp_all add: prepareForm_def setTimeout_def k Let_def split: option.split)
qed

lemma own_record_open:
  "own_record_form n f \<Longrightarrow> num (rec_id r) = n \<Longrightarrow> own_record_form n (rf_step V nx f (RfOpen w (Some r)))"
  by (simp add: own_record_form_def open_record_def Let_def)

lemma own_task_open:
  "own_task_form n f \<Longrightarrow> num i = n \<Longrightarrow> own_task_form n (tf_step V f (TfOpen w i u t))"
  by (cases t)
    (simp_all add: own_task_form_def openForRecord_def resetHeaderRows_def addHeaderRow_def applyTriggerConstraints_def Let_def)

lemma own_task_step:
  assumes "own_task_form n f" "tf_comes shown f e"
  shows "own_task_form n (tf_step V f e)"
proof (cases e)
  case TfSave
  with assms show ?thesis
    by (auto simp: own_task_form_def save_task_def buildPayload_def request_def Let_def)
next
  case (TfReply k r)
  have "own_task_form n (c (take_reply k f))" if "tf_handle q r = Some c" for q c
    using assms(1) that
    by (cases q; cases r)
      (auto simp: own_task_form_def on_task_saved_def on_task_save_failed_def ui_defs Let_def)
  with assms(1) TfReply show ?thesis by (auto intro: on_reply_cases)
next
  case TfCloseDue
  with assms(1) show ?thesis by (auto simp: own_task_form_def dest: on_page_goes)
qed (use assms in \<open>auto simp: own_task_form_def addHeaderRow_def removeHeaderRow_def Let_def\<close>)

lemma own_forms_lend [simp]:
  "own_record_form n (lend v f) = own_record_form n f" "own_task_form n (lend v t) = own_task_form n t"
  by (simp_all add: own_record_form_def own_task_form_def lend_def split: option.split)

lemma rf_comes_lend [simp]: "rf_comes shown rs adds (lend v f) e = rf_comes shown rs adds f e"
proof (cases e)
  case (RfOpen w r)
  then show ?thesis by (cases r) simp_all
qed (simp_all add: lend_def)

lemma tf_comes_lend [simp]: "tf_comes shown (lend v f) e = tf_comes shown f e"
  by (cases e) (simp_all add: lend_def)

subsection \<open>The record an overview waits for\<close>

definition waited :: "overview \<Rightarrow> bool" where
  "waited s \<longleftrightarrow> (loadingRecord s \<longrightarrow> (\<exists>n. OvRecords n \<in> set (pending s)))"

lemma loading_kept [simp]:
  "loadingRecord (toast m s) = loadingRecord s" "loadingRecord (toast_error e txt s) = loadingRecord s"
  "loadingRecord (ask w s) = loadingRecord s" "loadingRecord (request q s) = loadingRecord s"
  "loadingRecord (take_reply k s) = loadingRecord s" "loadingRecord (close_dialog d s) = loadingRecord s"
  "loadingRecord (stopResolve s) = loadingRecord s" "loadingRecord (startResolve s) = loadingRecord s"
  "loadingRecord (loadTasksAndCertificate s) = loadingRecord s"
  "loadingRecord (lend v s) = loadingRecord s"
  by (simp_all add: ui_defs lend_def stopResolve_def startResolve_def loadTasksAndCertificate_def Let_def split: option.split)

lemma waited_asks: "waited s \<Longrightarrow> asks s t \<Longrightarrow> loadingRecord t = loadingRecord s \<Longrightarrow> waited t"
  by (auto simp: waited_def asks_def)

lemma waited_handle:
  assumes "waited s" "k < length (pending s)" "ov_handle (pending s ! k) r = Some f"
  shows "waited (f (take_reply k s))"
proof (cases "\<exists>n. pending s ! k = OvRecords n")
  case True
  then obtain n where "ov_handle (OvRecords n) r = Some f" using assms(3) by auto
  then have "\<not> loadingRecord (f (take_reply k s))"
    by (cases r) (auto simp: on_record_list_def Let_def split: option.splits if_splits)
  then show ?thesis by (simp add: waited_def)
next
  case False
  then have "waited (take_reply k s)"
    using assms(1) in_set_remove_at [of "OvRecords n" "pending s" k for n] unfolding waited_def
    by (metis loading_kept(5) take_reply_keeps(1))
  moreover have "loadingRecord (f t) = loadingRecord t" for t
    using assms(3) False
    by (cases "pending s ! k"; cases r) (auto simp: on_tasks_def on_run_def on_task_deleted_def split: if_splits)
  ultimately show ?thesis using waited_asks ov_asks_handle [OF assms(3)] by blast
qed

lemma waited_step: "waited s \<Longrightarrow> waited (ov_step s e)"
proof (cases e)
  case (OvReply k r)
  assume "waited s"
  then show ?thesis using OvReply waited_handle by (auto simp: on_reply_def split: option.split)
next
  case (OvButton d i)
  assume w: "waited s"
  have h: "waited (ov_run_handler h b t)" if "waited t" for h b t
    using that by (cases h) (auto simp: ov_run_handler_def deleteTask_def waited_def)
  have c: "waited (close_dialog d t)" if "waited t" for t using that by (simp add: waited_def)
  from w show ?thesis using OvButton by (auto intro!: press_button_cases [where P = waited] h c)
qed (auto simp: waited_def while_alive_def ov_ngOnInit_def ov_ngOnDestroy_def loadCurrentIp_def loadRecord_def
    openEditDrawer_def reloadRecord_def addTask_def editTask_def runTask_def removeTask_def download_def
    loadTasksAndCertificate_def resolve_opened_def resolve_message_def resolve_error_def resolve_closed_def
    resolve_reconnect_def on_stream_def Let_def split: option.split)

lemma waited_open_step: "waited s \<Longrightarrow> waited (over_step L s e)"
  by (simp add: open_page_step_def page_step_def waited_step)

lemma waited_lend [simp]: "waited (lend v s) = waited s" "waited (close_dialogs s) = waited s"
  by (simp_all add: waited_def) (simp add: close_dialogs_def)

lemma waited_init: "\<not> ov_destroyed s \<Longrightarrow> waited (ov_step s (OvInit x))"
  by (auto simp: waited_def while_alive_def ov_ngOnInit_def loadCurrentIp_def loadRecord_def Let_def)

subsection \<open>Every page is in order\<close>

definition param_number :: "string option \<Rightarrow> number" where
  "param_number param = (case param of None \<Rightarrow> num 0 | Some x \<Rightarrow> toNumber x)"

definition home_ok :: "home_page \<Rightarrow> bool" where
  "home_ok h \<longleftrightarrow> ac_inv (hp_card h) \<and> rt_inv (hp_table h) \<and> rf_inv (hp_form h)"

definition over_ok :: "libs \<Rightarrow> overview_page \<Rightarrow> bool" where
  "over_ok L p \<longleftrightarrow>
     own_open (lib_baseURL L) (param_number (op_param p)) (op_page p) \<and> waited (op_page p) \<and>
     rf_inv (op_record_form p) \<and> own_record_form (param_number (op_param p)) (op_record_form p) \<and>
     tf_inv (op_task_form p) \<and> own_task_form (param_number (op_param p)) (op_task_form p)"

definition page_ok :: "libs \<Rightarrow> page \<Rightarrow> bool" where
  "page_ok L pg \<longleftrightarrow> (case pg of Home h \<Rightarrow> home_ok h | Over p \<Rightarrow> over_ok L p)"

lemma page_ok_simps [simp]:
  "page_ok L (Home h) = home_ok h" "page_ok L (Over p) = over_ok L p"
  by (simp_all add: page_ok_def)

lemma hostedD: "hosted step e v c = (v', c') \<Longrightarrow> c' = step (lend v c) e"
  by (auto simp: hosted_def Let_def)

lemma home_keeps:
  assumes "home_step L shown e v h = (v', h')" "home_ok h"
  shows "home_ok h'"
  using assms
  by (cases e)
    (auto simp: home_ok_def home_form_step_def Let_def split: prod.splits if_splits
      dest: ac_hosted.hosted_inv rt_hosted.hosted_inv rf_hosted.hosted_inv)

lemma own_forms_listed: "own_open base n s \<Longrightarrow> list_all (own_form n UNIV) (forms s)"
  by (simp add: own_open_def own_page_def)

lemma over_page_keeps:
  assumes "over_page_step L e v p = (v', p')" "over_ok L p"
  shows "over_ok L p' \<and> op_param p' = op_param p"
proof -
  obtain v1 o1 where 1: "hosted (over_step L) e v (op_page p) = (v1, o1)" by force
  from assms(2) have "own_open (lib_baseURL L) (param_number (op_param p)) o1" "waited o1"
    using open_page.hosted_inv [OF 1] waited_open_step hostedD [OF 1] by (simp_all add: over_ok_def)
  with assms 1 show ?thesis by (auto simp: over_ok_def over_page_step_def)
qed

lemma open_form_keeps:
  assumes "open_form L w x (v, p) = (v', p')" "over_ok L p" "own_form (param_number (op_param p)) UNIV x"
  shows "over_ok L p' \<and> op_param p' = op_param p"
proof (cases x)
  case (EditRecord r)
  obtain v1 f where 1: "hosted (form_step L) (RfOpen w (Some r)) v (op_record_form p) = (v1, f)" by force
  have "num (rec_id r) = param_number (op_param p)" using assms(3) EditRecord by simp
  with assms(2) hostedD [OF 1] rf_hosted.hosted_inv [OF 1] own_record_open
  have "rf_inv f" "own_record_form (param_number (op_param p)) f"
    by (simp_all add: over_ok_def del: rf_step.simps)
  then show ?thesis using assms(1,2) 1 EditRecord by (auto simp: over_ok_def)
next
  case (TaskForm i u t)
  obtain v1 f where 1: "hosted (tf_step (lib_validators L)) (TfOpen w i u t) v (op_task_form p) = (v1, f)" by force
  have "num i = param_number (op_param p)" using assms(3) TaskForm by (cases t) simp_all
  with assms(2) hostedD [OF 1] tf_hosted.hosted_inv [OF 1] own_task_open
  have "tf_inv f" "own_task_form (param_number (op_param p)) f"
    by (simp_all add: over_ok_def del: tf_step.simps)
  then show ?thesis using assms(1,2) 1 TaskForm by (auto simp: over_ok_def)
qed

lemma open_forms_keep:
  "fold (open_form L w) xs (v, p) = (v', p') \<Longrightarrow> over_ok L p \<Longrightarrow>
   list_all (own_form (param_number (op_param p)) UNIV) xs \<Longrightarrow> over_ok L p'"
proof (induction xs arbitrary: v p)
  case (Cons x xs)
  obtain v1 p1 where 1: "open_form L w x (v, p) = (v1, p1)" by force
  with Cons.prems(1) have "fold (open_form L w) xs (v1, p1) = (v', p')" by simp
  then show ?case using Cons.IH Cons.prems open_form_keeps [OF 1] by simp
qed simp

lemma over_keeps:
  assumes "over_event_step L shown e v p = (v', p')" "over_ok L p" "over_comes shown p e"
  shows "over_ok L p'"
proof (cases e)
  case (PageEvent w x)
  obtain v1 p1 where 1: "over_page_step L x v p = (v1, p1)" by force
  note k = over_page_keeps [OF 1 assms(2)]
  then have "list_all (own_form (param_number (op_param p1)) UNIV) (drop (length (forms (op_page p))) (forms (op_page p1)))"
    using own_forms_listed [of "lib_baseURL L" "param_number (op_param p1)" "op_page p1"]
    by (auto simp: over_ok_def list_all_iff dest: in_set_dropD)
  then show ?thesis using open_forms_keep [of L w _ v1 p1] k assms(1) 1 PageEvent by simp
next
  case (OverRecordForm x)
  obtain v1 f where 1: "hosted (form_step L) x v (op_record_form p) = (v1, f)" by force
  have "\<And>w r. x \<noteq> RfOpen w r"
  proof
    fix w r assume "x = RfOpen w r"
    then show False using assms(3) OverRecordForm by (cases r) simp_all
  qed
  then have "over_ok L (p\<lparr>op_record_form := f\<rparr>)"
    using assms(2,3) OverRecordForm hostedD [OF 1] rf_hosted.hosted_inv [OF 1]
      own_record_step [of _ "lend v (op_record_form p)" shown "[]" False x]
    by (simp add: over_ok_def)
  then show ?thesis
    using over_page_keeps assms(1) 1 OverRecordForm by (auto simp: Let_def split: if_splits)
next
  case (OverTaskForm x)
  obtain v1 f where 1: "hosted (tf_step (lib_validators L)) x v (op_task_form p) = (v1, f)" by force
  have "over_ok L (p\<lparr>op_task_form := f\<rparr>)"
    using assms(2,3) OverTaskForm hostedD [OF 1] tf_hosted.hosted_inv [OF 1]
      own_task_step [of _ "lend v (op_task_form p)" shown x]
    by (simp add: over_ok_def)
  then show ?thesis
    using over_page_keeps assms(1) 1 OverTaskForm by (auto simp: Let_def split: if_splits)
qed

lemma own_init: "own_page base (param_number x) ids keys s \<Longrightarrow> own_page base (param_number x) ids keys (ov_step s (OvInit x))"
  by (cases x)
    (simp_all add: while_alive_def ov_ngOnInit_def loadCurrentIp_def loadRecord_def own_request_more param_number_def
      Let_def)

lemma own_page_empty: "own_page base n ids keys init_ov"
  by (simp add: own_page_def init_ov_def init_ui_def init_notify_def ui.defs)

lemma enter_ok:
  assumes "enter c params v = (v', pg)"
  shows "page_ok L pg"
proof (cases c)
  case HomeComponent
  have "ac_inv init_ac" by (simp add: ac_inv_def init_ac_def init_ui_def ui.defs)
  then show ?thesis
    using assms HomeComponent rt_inv_init rf_inv_init
    by (auto simp: enter_def enter_home_def home_ok_def split: prod.splits
        dest: ac_hosted.hosted_inv rt_hosted.hosted_inv)
next
  case RecordOverviewComponent
  let ?x = "map_of params ''recordId''"
  obtain v1 p where 1: "hosted ov_step (OvInit ?x) v init_ov = (v1, p)" by force
  have "own_page (lib_baseURL L) (param_number ?x) UNIV UNIV (lend v init_ov)"
    by (simp add: own_lend own_page_empty)
  from own_init [OF this] have "own_page (lib_baseURL L) (param_number ?x) UNIV UNIV p"
    using hostedD [OF 1] by simp
  moreover have "ov_inv p" using ov_hosted.hosted_inv [OF 1] ov_inv_init by simp
  moreover have "waited p"
    unfolding hostedD [OF 1] by (rule waited_init) (simp add: lend_def init_ov_def ui.defs)
  moreover have "own_record_form n init_rf" "own_task_form n init_tf" for n
    by (simp_all add: own_record_form_def own_task_form_def on_page_def init_rf_def init_tf_def init_ui_def ui.defs
        form_drawer_def init_drawer_def)
  ultimately show ?thesis
    using assms 1 RecordOverviewComponent rf_inv_init tf_inv_init
    by (auto simp: enter_def enter_overview_def over_ok_def own_open_def)
qed

lemma destroy_form_keeps:
  assumes "destroy_form L v f = (v', f')"
  shows "rf_inv f \<Longrightarrow> rf_inv f'" "own_record_form n f \<Longrightarrow> own_record_form n f'"
proof -
  obtain v1 f1 where 1: "hosted (form_step L) RfDestroy v f = (v1, f1)" by force
  then have f': "f' = f1\<lparr>rf_drawer := ngOnDestroy_drawer (rf_drawer f1)\<rparr>"
    using assms by (simp add: destroy_form_def)
  show "rf_inv f'" if "rf_inv f" using rf_hosted.hosted_inv [OF 1 that] f' by (simp add: rf_inv_def)
  show "own_record_form n f'" if "own_record_form n f"
  proof -
    have "own_record_form n f1"
      using own_record_same [OF same_form_step, of RfDestroy] that hostedD [OF 1] by simp
    then show ?thesis using f' by (simp add: own_record_form_def split: option.splits)
  qed
qed

lemma leave_keeps:
  assumes "leave L v pg = (v', pg')" "page_ok L pg"
  shows "page_ok L pg'"
proof (cases pg)
  case (Home h)
  then show ?thesis
    using assms by (auto simp: home_ok_def Let_def split: prod.splits
        dest: ac_hosted.hosted_inv destroy_form_keeps(1))
next
  case (Over p)
  obtain v1 p1 where 1: "over_page_step L OvDestroy v p = (v1, p1)" by force
  obtain v2 f where 2: "destroy_form L v1 (op_record_form p1) = (v2, f)" by force
  have "over_ok L p1" using over_page_keeps [OF 1] assms(2) Over by simp
  then show ?thesis
    using assms(1) 1 2 Over destroy_form_keeps [OF 2]
    by (auto simp: over_ok_def tf_inv_def own_task_form_def Let_def)
qed

lemma invs_close [simp]:
  "rt_inv t \<Longrightarrow> rt_inv (close_dialogs t)" "own_open base n p \<Longrightarrow> own_open base n (close_dialogs p)"
  by (simp_all add: close_dialogs_def rt_inv_x_def rt_marks_def own_open_def ov_inv_def own_page_def)

lemma page_history_keeps: "page_ok L pg \<Longrightarrow> page_ok L (page_history w pg)"
  by (cases pg)
    (auto simp: home_ok_def over_ok_def rf_inv_def tf_inv_def own_record_form_def own_task_form_def
      dest: on_page_goes split: option.splits)

lemma clear_route_keeps: "page_ok L pg \<Longrightarrow> page_ok L (clear_route pg)"
  by (cases pg) (simp_all add: clear_route_def home_ok_def)

text \<open>The site: its pages, its two drawers, and the counter of the service.\<close>

definition site_ok :: "libs \<Rightarrow> site \<Rightarrow> bool" where
  "site_ok L s \<longleftrightarrow>
     outlet_ok s \<and> list_all (page_ok L) (pages s) \<and> cf_inv (settings s) \<and> ld_inv (log_view s)"

lemma site_ok_page:
  "site_ok L s \<Longrightarrow> page_ok L pg \<Longrightarrow> site_ok L (s\<lparr>service := v, pages := (pages s)[i := pg]\<rparr>)"
  using set_update_subset_insert [of "pages s" i pg] by (auto simp: site_ok_def outlet_ok_def list_all_iff)

lemma site_ok_nth: "site_ok L s \<Longrightarrow> i < length (pages s) \<Longrightarrow> page_ok L (pages s ! i)"
  by (simp add: site_ok_def list_all_length)

lemma site_ok_leave: "site_ok L s \<Longrightarrow> site_ok L (leave_outlet L s)"
proof (cases "outlet s")
  case (Some i)
  assume s: "site_ok L s"
  then have i: "i < length (pages s)" using Some by (simp add: site_ok_def outlet_ok_def)
  obtain v pg where l: "leave L (service s) (pages s ! i) = (v, pg)" by force
  have "site_ok L (s\<lparr>service := v, pages := (pages s)[i := pg]\<rparr>)"
    by (rule site_ok_page [OF s leave_keeps [OF l site_ok_nth [OF s i]]])
  then show ?thesis using Some l by (simp add: leave_outlet_def site_ok_def outlet_ok_def)
qed (simp add: leave_outlet_def)

lemma site_ok_visit: "site_ok L s \<Longrightarrow> site_ok L (visit L url s)"
proof -
  assume s: "site_ok L s"
  then have a: "site_ok L (s\<lparr>address := x\<rparr>)" for x by (simp add: site_ok_def outlet_ok_def)
  have "site_ok L (enter_outlet c params t)" if "site_ok L t" for c params t
    using that enter_ok [of c params "service t" _ _ L]
    by (auto simp: enter_outlet_def site_ok_def outlet_ok_def split: prod.split)
  then show ?thesis
    using s a site_ok_leave [OF a] by (auto simp: visit_def Let_def split: option.splits)
qed

lemma site_ok_step:
  assumes "site_ok L s" "comes s e"
  shows "site_ok L (site_step L s e)"
proof (cases e)
  case (HistoryTo w url)
  have "site_ok L (s\<lparr>pages := map (page_history w) (pages s),
      settings := (settings s)\<lparr>cf_drawer := history_moved w (cf_drawer (settings s))\<rparr>,
      log_view := (log_view s)\<lparr>ld_drawer := history_moved w (ld_drawer (log_view s))\<rparr>\<rparr>)"
    using assms(1) by (auto simp: site_ok_def outlet_ok_def list_all_iff page_history_keeps cf_inv_def ld_inv_def)
  then show ?thesis using HistoryTo by (simp add: history_to_def site_ok_visit)
next
  case (HomeEvent i x)
  then obtain h where h: "i < length (pages s)" "pages s ! i = Home h"
    using assms(2) by (auto split: page.splits)
  obtain v h1 where 1: "home_step L (outlet s = Some i) x (service s) h = (v, h1)" by force
  have "home_ok h" using site_ok_nth [OF assms(1) h(1)] h(2) by simp
  then have "site_ok L (s\<lparr>service := v, pages := (pages s)[i := Home h1]\<rparr>)" (is "site_ok L ?s")
    using home_keeps [OF 1] by (intro site_ok_page [OF assms(1)]) simp
  moreover from this h(1) have "site_ok L (?s\<lparr>pages := (pages ?s)[i := clear_route (pages ?s ! i)]\<rparr>)"
    using site_ok_page [of L ?s "clear_route (pages ?s ! i)" i "service ?s"] clear_route_keeps [OF site_ok_nth, of L ?s i]
    by simp
  ultimately show ?thesis
    using HomeEvent h 1
    by (auto simp: home_do_def follow_route_def Let_def intro!: site_ok_visit
        split: option.split home_event.split rt_event.split)
next
  case (OverEvent i x)
  then obtain p where p: "i < length (pages s)" "pages s ! i = Over p" "over_comes (outlet s = Some i) p x"
    using assms(2) by (auto split: page.splits)
  obtain v p1 where 1: "over_event_step L (outlet s = Some i) x (service s) p = (v, p1)" by force
  have "over_ok L p" using site_ok_nth [OF assms(1) p(1)] p(2) by simp
  then have "site_ok L (s\<lparr>service := v, pages := (pages s)[i := Over p1]\<rparr>)"
    using over_keeps [OF 1] p(3) by (intro site_ok_page [OF assms(1)]) simp
  then show ?thesis using OverEvent p 1 by (simp add: over_do_def)
next
  case BackLink
  then show ?thesis using assms(1) by (simp add: site_ok_visit)
qed (use assms(1) in \<open>auto simp: site_ok_def outlet_ok_def split: prod.split
      dest: cf_hosted.hosted_inv ld_hosted.hosted_inv\<close>)

lemma site_ok_boot: "site_ok L (boot L url)"
  unfolding boot_def
  by (rule site_ok_visit) (simp add: site_ok_def outlet_ok_def ld_inv_init cf_inv_def init_cf_def ui.defs)

lemma reaches_ok: "reaches L s \<Longrightarrow> site_ok L s"
  by (induction rule: reaches.induct) (simp_all add: site_ok_boot site_ok_step)

end
