(* ===== verification/Journeys.thy ===== *)
theory Journeys
  imports SiteFacts
begin

text \<open>
  The properties of the application as a whole, which span its components: what a navigation
  makes, which page it keeps, what is loaded again after a save, and when the progress bar is
  shown. \<open>sample_site\<close> is a site with concrete arguments, on which the witnesses are evaluated.
\<close>

subsection \<open>Navigation\<close>

lemma length_leave [simp]: "length (pages (leave_outlet L s)) = length (pages s)"
  by (simp add: leave_outlet_def split: option.split prod.split)

lemma visit_other:
  assumes "angular_router (lib_router L)" "outlet s = Some i" "component_of (pages s ! i) \<noteq> c"
    and "recognize (lib_router L) routes url = Some (c, params)"
  shows "visit L url s = enter_outlet c params (leave_outlet L (s\<lparr>address := lands (lib_router L) routes url\<rparr>))"
  using assms by (simp add: visit_def Let_def shown_component_def angular_router.reuse_same)

lemma visit_same:
  assumes "angular_router (lib_router L)" "outlet s = Some i" "component_of (pages s ! i) = c"
    and "recognize (lib_router L) routes url = Some (c, params)"
  shows "visit L url s = s\<lparr>address := lands (lib_router L) routes url\<rparr>"
  using assms by (simp add: visit_def Let_def shown_component_def angular_router.reuse_same)

text \<open>A page that was just made.\<close>

lemma entered_overview:
  assumes "s' = enter_outlet RecordOverviewComponent [(''recordId'', x)] s"
  shows "\<exists>p. outlet s' = Some (length (pages s)) \<and> pages s' = pages s @ [Over p] \<and> op_param p = Some x \<and>
    op_page p = ov_step (lend (service s) init_ov) (OvInit (Some x))"
proof -
  obtain v1 p where h: "hosted ov_step (OvInit (Some x)) (service s) init_ov = (v1, p)" by force
  show ?thesis using assms hostedD [OF h] h by (simp add: enter_outlet_def enter_def enter_overview_def)
qed

lemma opened_requests:
  assumes "0 < i"
  shows "pending (ov_step (lend v init_ov) (OvInit (Some (show_int i)))) = [OvAddress, OvRecords (num i)] \<and>
    forms (ov_step (lend v init_ov) (OvInit (Some (show_int i)))) = []"
proof -
  have "\<not> ov_destroyed (lend v init_ov)" "forms (lend v init_ov) = []"
    by (simp_all add: lend_def init_ov_def ui.defs init_ui_def)
  moreover have "valid_record_id (num i)" using assms by (simp add: valid_record_id_def)
  ultimately show ?thesis
    using assms toNumber_show_int [of i]
    by (simp add: while_alive_def ov_ngOnInit_def loadCurrentIp_def loadRecord_def request_def Let_def)
qed

lemma over_do_page:
  assumes "i < length (pages s)" "pages s ! i = Over p"
    and "forms (over_step L (lend (service s) (op_page p)) e) = forms (op_page p)"
  shows "\<exists>p'. pages (over_do L i (PageEvent w e) s) ! i = Over p' \<and>
    op_page p' = over_step L (lend (service s) (op_page p)) e"
proof -
  obtain v1 o1 where h: "hosted (over_step L) e (service s) (op_page p) = (v1, o1)" by force
  then have "forms o1 = forms (op_page p)" using assms(3) hostedD [OF h] by simp
  then show ?thesis using assms h hostedD [OF h] by (simp add: over_do_def over_page_step_def)
qed

lemma start_shows [simp]: "forms (startResolve s) = forms s" "ov_record (startResolve s) = ov_record s"
  using same_start [of s] by (simp_all add: same_page_def)

lemma saved_reply:
  assumes "k < length (pending f)" "pending f ! k = RfUpsert r"
  shows "rf_onSave (form_step L f (RfReply k RfRepOk)) = Suc (rf_onSave f)"
  using assms by (simp add: on_reply_def on_record_saved_def toast_def take_reply_def Let_def)

lemma task_saved_reply:
  assumes "k < length (pending f)"
  shows "tf_onSave (tf_step V f (TfReply k TfOk)) = Suc (tf_onSave f)"
  using assms by (cases "pending f ! k") (simp add: on_reply_def on_task_saved_def toast_def take_reply_def Let_def)

subsection \<open>The page on the outlet lives\<close>

lemma destroyed_open_step: "e \<noteq> OvDestroy \<Longrightarrow> ov_destroyed (over_step L s e) = ov_destroyed s"
  by (simp add: open_page_step_def page_step_def destroyed_step)

lemma over_page_alive:
  "over_page_step L e v p = (v', p') \<Longrightarrow> e \<noteq> OvDestroy \<Longrightarrow> ov_destroyed (op_page p') = ov_destroyed (op_page p)"
  by (auto simp: over_page_step_def lend_def destroyed_open_step split: prod.splits dest!: hostedD)

lemma open_forms_page: "fold (open_form L w) xs (v, p) = (v', p') \<Longrightarrow> op_page p' = op_page p"
proof (induction xs arbitrary: v p)
  case (Cons x xs)
  obtain v1 p1 where 1: "open_form L w x (v, p) = (v1, p1)" by force
  then have "op_page p1 = op_page p" by (cases x) (auto split: prod.splits)
  with 1 Cons show ?case by simp
qed simp

lemma over_alive:
  assumes "over_event_step L shown e v p = (v', p')" "over_comes shown p e"
  shows "ov_destroyed (op_page p') = ov_destroyed (op_page p)"
proof (cases e)
  case (PageEvent w x)
  obtain v1 p1 where 1: "over_page_step L x v p = (v1, p1)" by force
  moreover have "x \<noteq> OvDestroy" using assms(2) PageEvent by auto
  ultimately show ?thesis
    using over_page_alive [OF 1] open_forms_page [of L w _ v1 p1] assms(1) PageEvent by simp
qed (use assms(1) in \<open>auto simp: Let_def split: prod.splits if_splits dest!: over_page_alive\<close>)

definition outlet_alive :: "site \<Rightarrow> bool" where
  "outlet_alive s \<longleftrightarrow> (\<forall>i p. outlet s = Some i \<and> pages s ! i = Over p \<longrightarrow> \<not> ov_destroyed (op_page p))"

lemma alive_visit: "outlet_alive s \<Longrightarrow> outlet_alive (visit L url s)"
proof -
  assume s: "outlet_alive s"
  have "outlet_alive (enter_outlet c params t)" for c params t
  proof -
    have "\<not> ov_destroyed (ov_step (lend v init_ov) (OvInit x))" for v x
    proof -
      have "ov_destroyed (ov_step (lend v init_ov) (OvInit x)) = ov_destroyed (lend v init_ov)"
        by (rule destroyed_step) simp
      then show ?thesis by (simp add: lend_def init_ov_def ui.defs)
    qed
    then show ?thesis
      by (auto simp: enter_outlet_def outlet_alive_def enter_def enter_home_def enter_overview_def
          split: prod.splits page_component.splits dest!: hostedD)
  qed
  with s show ?thesis by (auto simp: visit_def Let_def outlet_alive_def split: option.split)
qed

lemma alive_route:
  "outlet_alive s \<Longrightarrow> i < length (pages s) \<Longrightarrow> pages s ! i = Home h \<Longrightarrow> outlet_alive (follow_route L i s)"
proof -
  assume s: "outlet_alive s" "i < length (pages s)" "pages s ! i = Home h"
  then have "outlet_alive (s\<lparr>pages := (pages s)[i := clear_route (pages s ! i)]\<rparr>)"
    by (auto simp: outlet_alive_def clear_route_def nth_list_update)
  with s(1) show ?thesis by (simp add: follow_route_def alive_visit split: option.split)
qed

lemma alive_step:
  assumes "outlet_alive s" "comes s e" "outlet_ok s"
  shows "outlet_alive (site_step L s e)"
proof (cases e)
  case (HistoryTo w url)
  have "outlet_alive (s\<lparr>pages := map (page_history w) (pages s),
      settings := (settings s)\<lparr>cf_drawer := history_moved w (cf_drawer (settings s))\<rparr>,
      log_view := (log_view s)\<lparr>ld_drawer := history_moved w (ld_drawer (log_view s))\<rparr>\<rparr>)"
    (is "outlet_alive ?s")
    unfolding outlet_alive_def
  proof (intro allI impI, elim conjE)
    fix i p assume o: "outlet ?s = Some i" and p: "pages ?s ! i = Over p"
    then have i: "i < length (pages s)" using assms(3) by (simp add: outlet_ok_def)
    with p obtain p0 where "pages s ! i = Over p0" "op_page p = close_dialogs (op_page p0)"
      by (cases "pages s ! i") auto
    with assms(1) o show "\<not> ov_destroyed (op_page p)" by (simp add: outlet_alive_def close_dialogs_def)
  qed
  then show ?thesis using HistoryTo by (simp add: history_to_def alive_visit)
next
  case (HomeEvent i x)
  then obtain h where h: "i < length (pages s)" "pages s ! i = Home h"
    using assms(2) by (auto split: page.splits)
  obtain v h1 where 1: "home_step L (outlet s = Some i) x (service s) h = (v, h1)" by force
  have "outlet_alive (s\<lparr>service := v, pages := (pages s)[i := Home h1]\<rparr>)"
    using assms(1) h by (auto simp: outlet_alive_def nth_list_update)
  then show ?thesis using HomeEvent h 1 alive_route
    by (simp add: home_do_def Let_def split: home_event.split rt_event.split)
next
  case (OverEvent i x)
  then obtain p where p: "i < length (pages s)" "pages s ! i = Over p" "over_comes (outlet s = Some i) p x"
    using assms(2) by (auto split: page.splits)
  obtain v p1 where 1: "over_event_step L (outlet s = Some i) x (service s) p = (v, p1)" by force
  have "outlet_alive (s\<lparr>service := v, pages := (pages s)[i := Over p1]\<rparr>)"
    using assms(1) p over_alive [OF 1 p(3)] by (auto simp: outlet_alive_def nth_list_update)
  then show ?thesis using OverEvent p 1 by (simp add: over_do_def)
next
  case BackLink
  then show ?thesis using assms(1) by (simp add: alive_visit)
qed (use assms(1) in \<open>auto simp: outlet_alive_def split: prod.split\<close>)

lemma reaches_alive: "reaches L s \<Longrightarrow> outlet_alive s"
proof (induction rule: reaches.induct)
  case (booted url)
  show ?case unfolding boot_def by (rule alive_visit) (simp add: outlet_alive_def)
next
  case (happened s e)
  then show ?case using reaches_ok [of L s] by (simp add: alive_step site_ok_def)
qed

subsection \<open>A site to look at\<close>

definition sample_libs :: libs where
  "sample_libs =
     \<lparr>lib_validators = plain_validators, lib_stepper_next = Suc, lib_moveItemInArray = move_item,
      lib_clock = (\<lambda>_. None), lib_localeCompare = by_length, lib_date = (\<lambda>_ _. ''''), lib_baseURL = ''https://h'',
      lib_router = plain_router\<rparr>"

text \<open>From the table to a record, which is edited and saved.\<close>

definition sample_journey :: "site_event list" where
  "sample_journey =
     [HomeEvent 0 (TableEvent (RtReply 1 (RepRecords (Some [sample_record])))),
      HomeEvent 0 (TableEvent (RtOpen sample_record)),
      OverEvent 1 (PageEvent 1000 (OvReply 1 (OvRepRecords (Some [sample_record])))),
      OverEvent 1 (PageEvent 1000 OvEdit),
      OverEvent 1 (OverRecordForm RfSave)]"

text \<open>The home page with both its answers, and with a record saved under a search.\<close>

definition sample_home :: "site_event list" where
  "sample_home =
     [HomeEvent 0 (TableEvent (RtReply 0 (RepAddress None))), HomeEvent 0 (TableEvent (RtReply 0 (RepRecords None)))]"

definition sample_search :: "site_event list" where
  "sample_search =
     [HomeEvent 0 (TableEvent (RtReply 1 (RepRecords (Some [sample_record])))), HomeEvent 0 (TableEvent (RtSearch ''x'')),
      HomeEvent 0 (HomeForm (RfOpen 1000 (Some sample_record))), HomeEvent 0 (HomeForm RfSave)]"

definition sample_site :: "site_event list \<Rightarrow> site" where
  "sample_site es = run (site_step sample_libs) (boot sample_libs '''') es"

lemma sample_reaches: "all_come sample_libs (boot sample_libs '''') es \<Longrightarrow> reaches sample_libs (sample_site es)"
  unfolding sample_site_def by (rule reaches_run [OF reaches.booted])

lemma sample_router: "angular_router (lib_router sample_libs)"
  using plain_router.angular_router_axioms by (simp add: sample_libs_def)

fun overview_of :: "page \<Rightarrow> overview_page option" where
  "overview_of (Over p) = Some p"
| "overview_of (Home h) = None"

fun home_of :: "page \<Rightarrow> home_page option" where
  "home_of (Home h) = Some h"
| "home_of (Over p) = None"

lemma page_of: "overview_of pg = Some p \<longleftrightarrow> pg = Over p" "home_of pg = Some h \<longleftrightarrow> pg = Home h"
  by (cases pg; auto)+

subsection \<open>Properties\<close>

text \<open>
  C1. The progress bar tells the truth: in every state the application reaches, it is shown
  exactly while a request is in flight, of whatever component and whatever page, those that were left
  included; the counter behind it is the number of those requests; and at most five toasts are
  shown.
\<close>

theorem progress_bar_exact:
  assumes "reaches L s"
  shows "isLoading (svc_state (service s)) = (0 < in_flight s) \<and>
    loadingCount (svc_state (service s)) = int (in_flight s) \<and>
    length (notifications (svc_state (service s))) \<le> 5"
  using reaches_counted [OF assms] by (simp add: counted_def service_ok_def)

theorem progress_bar_exact_witness:
  "loadingCount (svc_state (service (sample_site (take 2 sample_journey)))) = 5"
proof -
  have "all_come sample_libs (boot sample_libs '''') (take 2 sample_journey)" by code_simp
  moreover have "in_flight (sample_site (take 2 sample_journey)) = 5" by code_simp
  ultimately show ?thesis using progress_bar_exact [OF sample_reaches] by fastforce
qed

text \<open>
  C2. An overview saves nothing but its own: whatever happens on the site, the record form of an
  overview page saves only the record of the address the page was opened at, and its task form only
  tasks of that record.
\<close>

theorem forms_save_own_record:
  assumes "reaches L s" "i < length (pages s)" "pages s ! i = Over p" "op_param p = Some x"
  shows "(\<forall>r. RfUpsert r \<in> set (sent (op_record_form p)) \<longrightarrow> num (rec_id r) = toNumber x) \<and>
    (\<forall>t. TfUpsert t \<in> set (sent (op_task_form p)) \<longrightarrow> num (task_recordId t) = toNumber x)"
  using site_ok_nth [OF reaches_ok [OF assms(1)] assms(2)] assms(3,4)
  by (simp add: over_ok_def own_record_form_def own_task_form_def param_number_def)

theorem forms_save_own_record_witness:
  "\<exists>p. pages (sample_site sample_journey) ! 1 = Over p \<and> length (sent (op_record_form p)) = 1 \<and>
     (\<forall>r. RfUpsert r \<in> set (sent (op_record_form p)) \<longrightarrow> num (rec_id r) = toNumber ''7'')"
proof -
  let ?s = "sample_site sample_journey"
  have "all_come sample_libs (boot sample_libs '''') sample_journey" by code_simp
  then have r: "reaches sample_libs ?s" by (rule sample_reaches)
  have "map_option (\<lambda>p. (op_param p, length (sent (op_record_form p)))) (overview_of (pages ?s ! 1)) = Some (Some ''7'', 1)"
    by code_simp
  then obtain p where "overview_of (pages ?s ! 1) = Some p" "op_param p = Some ''7''" "length (sent (op_record_form p)) = 1"
    by (cases "overview_of (pages ?s ! 1)") simp_all
  moreover have "1 < length (pages ?s)" by code_simp
  ultimately show ?thesis
    using forms_save_own_record [OF r, of 1 p "''7''"] by (simp add: page_of)
qed

definition home_busy :: "home_page \<Rightarrow> bool" where
  "home_busy h \<longleftrightarrow> refreshing (hp_card h) \<or> rt_marks (hp_table h) \<noteq> {} \<or> rf_marks (hp_form h) \<noteq> {}"

definition over_busy :: "overview_page \<Rightarrow> bool" where
  "over_busy p \<longleftrightarrow> loadingRecord (op_page p) \<or> rf_marks (op_record_form p) \<noteq> {} \<or> tf_saving (op_task_form p)"

fun page_busy :: "page \<Rightarrow> bool" where
  "page_busy (Home h) = home_busy h"
| "page_busy (Over p) = over_busy p"

lemma idle_page:
  assumes "page_ok L pg" "page_pending pg = 0"
  shows "\<not> page_busy pg"
  using assms
  by (cases pg)
    (auto simp: home_ok_def over_ok_def waited_def home_busy_def over_busy_def ac_inv_def tf_inv_def split: if_splits
      dest: rt.marks_pending rf.marks_pending)

text \<open>
  C7. When the bar is off, nothing is busy: no table, form, card or drawer of any page shows a spinner or
  is saving, no overview is loading its record, and the settings are not being saved.
\<close>

theorem bar_off_nothing_busy:
  assumes "reaches L s" "\<not> isLoading (svc_state (service s))"
  shows "list_all (\<lambda>pg. \<not> page_busy pg) (pages s) \<and> \<not> cf_saving (settings s)"
proof -
  have "in_flight s = 0" using reaches_counted [OF assms(1)] assms(2) by (simp add: counted_def service_ok_def)
  moreover have "site_ok L s" by (rule reaches_ok [OF assms(1)])
  ultimately show ?thesis
    using idle_page by (auto simp: in_flight_def site_ok_def list_all_iff cf_inv_def)
qed

theorem bar_off_nothing_busy_witness:
  "list_all (\<lambda>pg. \<not> page_busy pg) (pages (sample_site sample_home)) \<and> length (pages (sample_site sample_home)) = 1"
proof -
  have "all_come sample_libs (boot sample_libs '''') sample_home" by code_simp
  then have "reaches sample_libs (sample_site sample_home)" by (rule sample_reaches)
  moreover have "\<not> isLoading (svc_state (service (sample_site sample_home)))"
    "length (pages (sample_site sample_home)) = 1" by code_simp+
  ultimately show ?thesis using bar_off_nothing_busy by blast
qed

text \<open>
  C8. A click on a row of the table leads to that record: the overview that opens asks for the records, and
  once they arrive it shows the one with the identifier of the row.
\<close>

theorem row_opens_its_record:
  assumes "angular_router (lib_router L)" "outlet s = Some i" "i < length (pages s)" "pages s ! i = Home h"
    and "0 < rec_id r" "List.find (\<lambda>q. rec_id q = rec_id r) rs = Some q"
  shows "let s1 = site_step L s (HomeEvent i (TableEvent (RtOpen r)));
             j = length (pages s);
             s2 = site_step L s1 (OverEvent j (PageEvent w (OvReply 1 (OvRepRecords (Some rs)))))
         in address s1 = overview_address (rec_id r) \<and> outlet s1 = Some j \<and>
            (\<exists>p. pages s1 ! j = Over p \<and> pending (op_page p) = [OvAddress, OvRecords (num (rec_id r))]) \<and>
            (\<exists>p. pages s2 ! j = Over p \<and> ov_record (op_page p) = Some q)"
proof -
  let ?s1 = "site_step L s (HomeEvent i (TableEvent (RtOpen r)))"
  let ?x = "show_int (rec_id r)"
  obtain v t where h: "hosted rt_step (RtOpen r) (service s) (hp_table h) = (v, t)" by force
  then have t: "route t = Some (rec_id r)" using hostedD [OF h] by (simp add: openOverview_def)
  define s0 where "s0 = s\<lparr>service := v, pages := (pages s)[i := clear_route (Home (h\<lparr>hp_table := t\<rparr>))],
    address := overview_address (rec_id r)\<rparr>"
  have "recognize (lib_router L) routes (overview_address (rec_id r)) =
      Some (RecordOverviewComponent, [(''recordId'', ?x)])"
    "lands (lib_router L) routes (overview_address (rec_id r)) = overview_address (rec_id r)"
    unfolding overview_address_def
    by (rule angular_router.overview_url [OF assms(1)]; simp add: show_int_segment)+
  then have s1: "?s1 = enter_outlet RecordOverviewComponent [(''recordId'', ?x)] (leave_outlet L s0)"
    using assms(2-4) h t
    by (simp add: home_do_def follow_route_def table_route_def clear_route_def s0_def
        visit_other [OF assms(1), where i = i and c = RecordOverviewComponent])
  have l: "length (pages (leave_outlet L s0)) = length (pages s)" by (simp add: s0_def)
  have a: "address ?s1 = overview_address (rec_id r)"
    unfolding s1 by (simp add: enter_outlet_def leave_outlet_def s0_def split: prod.split option.split)
  from entered_overview [OF s1] l obtain p where p: "outlet ?s1 = Some (length (pages s))"
    "pages ?s1 = pages (leave_outlet L s0) @ [Over p]"
    "op_page p = ov_step (lend (service (leave_outlet L s0)) init_ov) (OvInit (Some ?x))"
    by auto
  then have nth: "pages ?s1 ! length (pages s) = Over p" "length (pages s) < length (pages ?s1)"
    using l by (simp_all add: nth_append)
  have q: "pending (op_page p) = [OvAddress, OvRecords (num (rec_id r))]" "forms (op_page p) = []"
    unfolding p(3) using opened_requests [OF assms(5)] by blast+
  let ?o = "over_step L (lend (service ?s1) (op_page p)) (OvReply 1 (OvRepRecords (Some rs)))"
  have "?o = on_record_list (num (rec_id r)) (Some rs) (take_reply 1 (lend (service ?s1) (op_page p)))"
    using q by (simp add: open_page_step_def page_step_def on_reply_def)
  then have o: "ov_record ?o = Some q" "forms ?o = forms (op_page p)"
    using assms(6) q(2)
    by (simp_all add: on_record_list_def loadTasksAndCertificate_def Let_def)
      (simp_all add: request_def take_reply_def lend_def)
  from over_do_page [OF nth(2,1) o(2)] o(1) show ?thesis
    unfolding Let_def using a p(1) nth(1) q(1) by fastforce
qed

theorem row_opens_its_record_witness:
  "outlet (site_step sample_libs (sample_site (take 1 sample_journey))
     (HomeEvent 0 (TableEvent (RtOpen sample_record)))) = Some 1"
proof -
  let ?s = "sample_site (take 1 sample_journey)"
  have "outlet ?s = Some 0" "length (pages ?s) = 1" "home_of (pages ?s ! 0) \<noteq> None" by code_simp+
  then obtain h where "outlet ?s = Some 0" "length (pages ?s) = 1" "pages ?s ! 0 = Home h" by (auto simp: page_of)
  moreover have "0 < rec_id sample_record"
    "List.find (\<lambda>q. rec_id q = rec_id sample_record) [sample_record] = Some sample_record"
    by (simp_all add: sample_record_def)
  ultimately show ?thesis using row_opens_its_record [OF sample_router, of ?s 0 h sample_record "[sample_record]"]
    unfolding Let_def by (metis zero_less_one)
qed

text \<open>
  C23. An overview does not follow its address: when the address changes to that of another record, typed
  in or by the browser's history, the router keeps the page, and the page keeps the record it
  shows and asks for nothing, because it reads its parameter once, in \<open>ngOnInit\<close>.
\<close>

theorem address_change_ignored:
  assumes "angular_router (lib_router L)" "outlet s = Some i" "i < length (pages s)" "pages s ! i = Over p"
    and "CHR ''/'' \<notin> set x" "x \<noteq> []"
  shows "let s' = site_step L s (HistoryTo w (''overview/'' @ x))
         in address s' = ''overview/'' @ x \<and> outlet s' = Some i \<and> in_flight s' = in_flight s \<and>
            (\<exists>p'. pages s' ! i = Over p' \<and> op_param p' = op_param p \<and>
               sent (op_page p') = sent (op_page p) \<and> ov_record (op_page p') = ov_record (op_page p))"
proof -
  let ?s = "s\<lparr>pages := map (page_history w) (pages s),
      settings := (settings s)\<lparr>cf_drawer := history_moved w (cf_drawer (settings s))\<rparr>,
      log_view := (log_view s)\<lparr>ld_drawer := history_moved w (ld_drawer (log_view s))\<rparr>\<rparr>"
  have "component_of (pages ?s ! i) = RecordOverviewComponent" using assms(3,4) by simp
  then have "visit L (''overview/'' @ x) ?s = ?s\<lparr>address := ''overview/'' @ x\<rparr>"
    by (intro visit_same [OF assms(1) _ _ angular_router.overview_url(1) [OF assms(1,5)], unfolded angular_router.overview_url(2) [OF assms(1,5)]])
      (simp_all add: assms(2))
  then show ?thesis
    using assms(2-4)
    by (simp add: history_to_def Let_def in_flight_def o_def) (simp add: close_dialogs_def)
qed

theorem address_change_ignored_witness:
  "\<exists>p. pages (site_step sample_libs (sample_site (take 3 sample_journey)) (HistoryTo 1000 ''overview/8'')) ! 1 = Over p \<and>
     ov_record (op_page p) = Some sample_record"
proof -
  let ?s = "sample_site (take 3 sample_journey)"
  have o: "outlet ?s = Some 1" "1 < length (pages ?s)" by code_simp+
  have "Option.bind (overview_of (pages ?s ! 1)) (\<lambda>p. ov_record (op_page p)) = Some sample_record" by code_simp
  then obtain p where "pages ?s ! 1 = Over p" "ov_record (op_page p) = Some sample_record"
    by (auto simp: bind_eq_Some_conv page_of)
  with address_change_ignored [OF sample_router o, of p "''8''" 1000] show ?thesis
    unfolding Let_def by auto
qed

text \<open>
  C27. A saved record is asked for again, but not under the search that is shown: when the save of the home
  page's form is confirmed, the table asks for all records, and shows them all when they
  arrive, while the search field keeps its term.
\<close>

theorem save_forgets_search:
  assumes "outlet s = Some i" "i < length (pages s)" "pages s ! i = Home h"
    and "k < length (pending (hp_form h))" "pending (hp_form h) ! k = RfUpsert r"
  shows "let s1 = site_step L s (HomeEvent i (HomeForm (RfReply k RfRepOk)));
             s2 = site_step L s1 (HomeEvent i (TableEvent (RtReply (length (pending (hp_table h))) (RepRecords (Some rs)))))
         in (\<exists>h1. pages s1 ! i = Home h1 \<and> sent (hp_table h1) = sent (hp_table h) @ [ReqRecords None]) \<and>
            (\<exists>h2. pages s2 ! i = Home h2 \<and> rt_records (hp_table h2) = rs \<and>
               searchTerm (hp_table h2) = searchTerm (hp_table h))"
proof -
  let ?s1 = "site_step L s (HomeEvent i (HomeForm (RfReply k RfRepOk)))"
  obtain v1 f where f: "hosted (form_step L) (RfReply k RfRepOk) (service s) (hp_form h) = (v1, f)" by force
  then have "rf_onSave f = Suc (rf_onSave (hp_form h))"
    using hostedD [OF f] assms(4,5) saved_reply [of k "lend (service s) (hp_form h)" r L] by (simp add: lend_def)
  moreover obtain v2 t where t: "hosted rt_step RtFormSaved v1 (hp_table h) = (v2, t)" by force
  ultimately have p1: "pages ?s1 ! i = Home (h\<lparr>hp_form := f, hp_table := t\<rparr>)" "i < length (pages ?s1)"
    using assms(1-3) f by (simp_all add: home_do_def home_form_step_def Let_def)
  have t': "sent t = sent (hp_table h) @ [ReqRecords None]" "pending t = pending (hp_table h) @ [ReqRecords None]"
    "searchTerm t = searchTerm (hp_table h)"
    using hostedD [OF t] by (simp_all add: load_records_def request_def lend_def)
  let ?e = "RtReply (length (pending (hp_table h))) (RepRecords (Some rs))"
  obtain v3 u where u: "hosted rt_step ?e (service ?s1) t = (v3, u)" by force
  have "u = on_records (Some rs) (take_reply (length (pending (hp_table h))) (lend (service ?s1) t))"
    using hostedD [OF u] t'(2) by (simp add: on_reply_def)
  then have "rt_records u = rs" "searchTerm u = searchTerm (hp_table h)"
    using t'(3) by (simp_all add: on_records_def take_reply_def lend_def)
  then show ?thesis unfolding Let_def using p1 t'(1) u by (simp add: home_do_def)
qed

theorem save_forgets_search_witness:
  "\<exists>h. pages (site_step sample_libs (sample_site sample_search) (HomeEvent 0 (HomeForm (RfReply 0 RfRepOk)))) ! 0 = Home h \<and>
     last (sent (hp_table h)) = ReqRecords None"
proof -
  let ?s = "sample_site sample_search"
  have o: "outlet ?s = Some 0" "0 < length (pages ?s)" by code_simp+
  have "map_option (\<lambda>h. map is_upsert (pending (hp_form h))) (home_of (pages ?s ! 0)) = Some [True]" by code_simp
  then obtain h where h: "pages ?s ! 0 = Home h" "map is_upsert (pending (hp_form h)) = [True]" by (auto simp: page_of)
  then obtain q where q: "pending (hp_form h) = [q]" "is_upsert q" by (auto simp: map_eq_Cons_conv)
  then obtain r where "pending (hp_form h) ! 0 = RfUpsert r" "0 < length (pending (hp_form h))"
    by (cases q) (auto simp: is_upsert_def)
  with save_forgets_search [OF o h(1), of 0 r sample_libs "[]"] show ?thesis unfolding Let_def by fastforce
qed

text \<open>
  C16. An overview reloads what was saved: when the save of its record form is confirmed, it asks for its record
  again; when that of its task form is, for the tasks and the certificate of its record.
\<close>

theorem overview_reloads_saved:
  assumes "reaches L s" "outlet s = Some i" "pages s ! i = Over p" "ov_record (op_page p) = Some q"
    and "e = OverRecordForm (RfReply k RfRepOk) \<and> k < length (pending (op_record_form p)) \<and>
           pending (op_record_form p) ! k = RfUpsert r \<and> qs = [OvRecords (num (rec_id q))] \<or>
         e = OverTaskForm (TfReply k TfOk) \<and> k < length (pending (op_task_form p)) \<and> qs = [OvTasks q, OvDetails q]"
  shows "\<exists>p'. pages (site_step L s (OverEvent i e)) ! i = Over p' \<and> sent (op_page p') = sent (op_page p) @ qs"
proof -
  have i: "i < length (pages s)" using reaches_ok [OF assms(1)] assms(2) by (simp add: site_ok_def outlet_ok_def)
  have alive: "\<not> ov_destroyed (op_page p)"
    using reaches_alive [OF assms(1)] assms(2,3) by (simp add: outlet_alive_def)
  have saved: "sent (over_step L (lend v (op_page p)) OvRecordSaved) = sent (op_page p) @ [OvRecords (num (rec_id q))]"
    "sent (over_step L (lend v (op_page p)) OvTaskSaved) = sent (op_page p) @ [OvTasks q, OvDetails q]" for v
    using alive assms(4)
    by (simp_all add: open_page_step_def page_step_def while_alive_def reloadRecord_def loadRecord_def
        loadTasksAndCertificate_def lend_def request_def)
  obtain v p1 where 1: "over_event_step L (outlet s = Some i) e (service s) p = (v, p1)" by force
  have "sent (op_page p1) = sent (op_page p) @ qs"
    using assms(5)
  proof (elim disjE conjE)
    assume e: "e = OverRecordForm (RfReply k RfRepOk)" "k < length (pending (op_record_form p))"
      "pending (op_record_form p) ! k = RfUpsert r" "qs = [OvRecords (num (rec_id q))]"
    obtain v1 f where f: "hosted (form_step L) (RfReply k RfRepOk) (service s) (op_record_form p) = (v1, f)" by force
    then have "rf_onSave f = Suc (rf_onSave (op_record_form p))"
      using hostedD [OF f] e(2,3) saved_reply [of k "lend (service s) (op_record_form p)" r L] by (simp add: lend_def)
    with 1 e(1) f assms(2) have "op_page p1 = over_step L (lend v1 (op_page p)) OvRecordSaved"
      by (auto simp: over_page_step_def Let_def split: prod.splits dest!: hostedD)
    with saved(1) e(4) show ?thesis by simp
  next
    assume e: "e = OverTaskForm (TfReply k TfOk)" "k < length (pending (op_task_form p))" "qs = [OvTasks q, OvDetails q]"
    obtain v1 f where f: "hosted (tf_step (lib_validators L)) (TfReply k TfOk) (service s) (op_task_form p) = (v1, f)" by force
    then have "tf_onSave f = Suc (tf_onSave (op_task_form p))"
      using hostedD [OF f] e(2) task_saved_reply [of k "lend (service s) (op_task_form p)" "lib_validators L"]
      by (simp add: lend_def)
    with 1 e(1) f assms(2) have "op_page p1 = over_step L (lend v1 (op_page p)) OvTaskSaved"
      by (auto simp: over_page_step_def Let_def split: prod.splits dest!: hostedD)
    with saved(2) e(3) show ?thesis by simp
  qed
  with 1 i assms(3) show ?thesis by (simp add: over_do_def)
qed

theorem overview_reloads_saved_witness:
  "\<exists>p. pages (site_step sample_libs (sample_site sample_journey) (OverEvent 1 (OverRecordForm (RfReply 0 RfRepOk)))) ! 1 = Over p \<and>
     last (sent (op_page p)) = OvRecords (num 7)"
proof -
  let ?s = "sample_site sample_journey"
  have "all_come sample_libs (boot sample_libs '''') sample_journey" by code_simp
  then have r: "reaches sample_libs ?s" by (rule sample_reaches)
  have o: "outlet ?s = Some 1" by code_simp
  have "map_option (\<lambda>p. (map is_upsert (pending (op_record_form p)), map_option rec_id (ov_record (op_page p))))
      (overview_of (pages ?s ! 1)) = Some ([True], Some 7)" by code_simp
  then obtain p q where p: "pages ?s ! 1 = Over p" "ov_record (op_page p) = Some q" "rec_id q = 7"
    "map is_upsert (pending (op_record_form p)) = [True]" by (auto simp: page_of)
  then obtain u where u: "pending (op_record_form p) = [u]" "is_upsert u" by (auto simp: map_eq_Cons_conv)
  then obtain rc where "0 < length (pending (op_record_form p))" "pending (op_record_form p) ! 0 = RfUpsert rc"
    by (cases u) (auto simp: is_upsert_def)
  with overview_reloads_saved [OF r o p(1,2), of "OverRecordForm (RfReply 0 RfRepOk)" 0 rc "[OvRecords (num 7)]"] p(3)
  show ?thesis by auto
qed

end
