(* ===== verification/PageDrawers.thy ===== *)
theory PageDrawers
  imports Site
begin

text \<open>
  The drawers inside the components: whatever happens to the address history, the record form and
  the task form, their drawer keeps its invariant, and it is destroyed exactly when its page is
  left. A form's save closes the drawer it finds when it is answered.
\<close>

subsection \<open>The drawers of a page\<close>

definition ok_drawer :: "bool \<Rightarrow> drawer \<Rightarrow> bool" where
  "ok_drawer shown d \<longleftrightarrow> drawer_inv d \<and> (destroyed d \<longleftrightarrow> \<not> shown)"

lemma ok_drawer_ops [simp]:
  "ok_drawer b d \<Longrightarrow> ok_drawer b (close_op d)" "ok_drawer b d \<Longrightarrow> ok_drawer b (close_due d)"
  "ok_drawer b d \<Longrightarrow> ok_drawer b (history_moved w d)" "ok_drawer True d \<Longrightarrow> ok_drawer True (open_op w d)"
  "ok_drawer True d \<Longrightarrow> ok_drawer False (ngOnDestroy_drawer d)"
  by (auto simp: ok_drawer_def drawer_inv_def step_defs split: option.splits)

lemma ok_drawer_init [simp]: "ok_drawer True init_drawer" "ok_drawer True form_drawer"
  by (simp_all add: ok_drawer_def drawer_inv_def init_drawer_def form_drawer_def)

lemma ah_drawer_step:
  assumes "ok_drawer b (ah_drawer a)" "\<And>w. e = AhOpen w \<Longrightarrow> b"
  shows "ok_drawer b (ah_drawer (ah_step a e))"
proof (cases e)
  case (AhReply k r)
  have "ok_drawer b (ah_drawer (on_reply ah_handle k r a))"
    by (rule on_reply_cases) (use assms(1) in \<open>auto simp: on_history_def on_history_failed_def toast_error_def take_reply_def elim!: ah_handle.elims\<close>)
  then show ?thesis using AhReply by simp
qed (use assms in \<open>auto simp: open_history_def request_def\<close>)

lemma rf_drawer_timers [simp]:
  "rf_drawer (setTimeout t s) = rf_drawer s" "rf_drawer (clearTimeout h s) = rf_drawer s"
  "rf_drawer (toast m s) = rf_drawer s" "rf_drawer (toast_error e x s) = rf_drawer s"
  "rf_drawer (take_reply k s) = rf_drawer s" "rf_drawer (request q s) = rf_drawer s"
  by (simp_all add: setTimeout_def clearTimeout_def toast_def toast_error_def take_reply_def request_def)

lemma rf_drawer_advance [simp]:
  "rf_drawer (clearAdvanceTimer st s) = rf_drawer s" "rf_drawer (scheduleStepAdvance V st s) = rf_drawer s"
proof -
  show c: "rf_drawer (clearAdvanceTimer st s) = rf_drawer s" for st s
    by (simp add: clearAdvanceTimer_def Let_def split: step.split option.split)
  show "rf_drawer (scheduleStepAdvance V st s) = rf_drawer s"
    by (simp add: scheduleStepAdvance_def Let_def c split: step.split)
qed

lemma rf_drawer_groups [simp]:
  "rf_drawer (set_zone V z s) = rf_drawer s" "rf_drawer (set_token V x s) = rf_drawer s"
  "rf_drawer (clearAdvanceTimers s) = rf_drawer s" "rf_drawer (loadZones x s) = rf_drawer s"
  by (simp_all add: set_zone_def zone_status_changed_def set_token_def clearAdvanceTimers_def loadZones_def Let_def)

lemma rf_drawer_ops [simp]:
  "rf_drawer (prepareForm V r s) = rf_drawer s" "rf_drawer (debounce_due V s) = rf_drawer s"
  "rf_drawer (timer_due V nx h s) = rf_drawer s" "rf_drawer (ngOnDestroy_rf s) = rf_drawer s"
  "rf_drawer (save_record V s) = rf_drawer s"
  by (auto simp: prepareForm_def debounce_due_def timer_due_def timer_callback_def advance_due_def ngOnDestroy_rf_def
      save_record_def Let_def split: option.split rf_timer.split)

lemma rf_drawer_handle: "rf_handle V q r = Some c \<Longrightarrow> rf_drawer (c s) \<in> {rf_drawer s, close_op (rf_drawer s)}"
  by (cases q; cases r)
    (auto simp: on_zones_def on_zones_failed_def on_record_save_failed_def on_record_saved_def Let_def)

lemma rf_drawer_step:
  assumes "ok_drawer b (rf_drawer f)" "\<And>w r. e = RfOpen w r \<Longrightarrow> b"
  shows "ok_drawer b (rf_drawer (rf_step V nx f e))"
proof (cases e)
  case (RfReply k r)
  have "ok_drawer b (rf_drawer (on_reply (rf_handle V) k r f))"
  proof (rule on_reply_cases)
    fix q c assume "rf_handle V q r = Some c"
    from rf_drawer_handle [OF this, of "take_reply k f"] assms(1)
    show "ok_drawer b (rf_drawer (c (take_reply k f)))" by auto
  qed (rule assms(1))
  then show ?thesis using RfReply by simp
next
  case (RfOpen w r)
  with assms(2) have b by simp
  with assms(1) RfOpen show ?thesis by (simp add: open_record_def Let_def)
qed (use assms(1) in simp_all)

lemma tf_drawer_ui [simp]:
  "tf_drawer (toast m s) = tf_drawer s" "tf_drawer (toast_error e x s) = tf_drawer s"
  "tf_drawer (take_reply k s) = tf_drawer s" "tf_drawer (request q s) = tf_drawer s"
  by (simp_all add: toast_def toast_error_def take_reply_def request_def)

lemma tf_drawer_rows [simp]:
  "tf_drawer (applyTriggerConstraints s) = tf_drawer s" "tf_drawer (resetHeaderRows s) = tf_drawer s"
  by (auto simp: applyTriggerConstraints_def resetHeaderRows_def addHeaderRow_def Let_def)

lemma tf_drawer_handle: "tf_handle q r = Some c \<Longrightarrow> tf_drawer (c s) \<in> {tf_drawer s, close_op (tf_drawer s)}"
  by (cases q; cases r) (auto simp: on_task_saved_def on_task_save_failed_def Let_def)

lemma tf_drawer_step:
  assumes "ok_drawer b (tf_drawer f)" "\<And>w i p t. e = TfOpen w i p t \<Longrightarrow> b"
  shows "ok_drawer b (tf_drawer (tf_step V f e))"
proof (cases e)
  case (TfReply k r)
  have "ok_drawer b (tf_drawer (on_reply tf_handle k r f))"
  proof (rule on_reply_cases)
    fix q c assume "tf_handle q r = Some c"
    from tf_drawer_handle [OF this, of "take_reply k f"] assms(1)
    show "ok_drawer b (tf_drawer (c (take_reply k f)))" by auto
  qed (rule assms(1))
  then show ?thesis using TfReply by simp
next
  case (TfOpen w i u t)
  have "tf_drawer (openForRecord w i u t f) = open_op w (tf_drawer f)"
    by (simp add: openForRecord_def Let_def split: option.split)
  moreover from assms(2) TfOpen have b by simp
  ultimately show ?thesis using TfOpen assms(1) by simp
qed (use assms(1) in \<open>simp_all add: addHeaderRow_def removeHeaderRow_def save_task_def Let_def\<close>)

subsection \<open>Runs of a form\<close>

interpretation rf_drawer: event_system "rf_step V nx" "\<lambda>s. ok_drawer True (rf_drawer s)" for V nx
  by unfold_locales (rule rf_drawer_step, simp_all)

interpretation tf_drawer: event_system "tf_step V" "\<lambda>s. ok_drawer True (tf_drawer s)" for V
  by unfold_locales (rule tf_drawer_step, simp_all)

lemma rf_drawer_init: "ok_drawer True (rf_drawer init_rf)"
  by (simp add: init_rf_def ui.defs)

lemma tf_drawer_init: "ok_drawer True (tf_drawer init_tf)"
  by (simp add: init_tf_def ui.defs)

text \<open>A drawer that is closed and opened again before an answer closes it.\<close>

lemma reopened_then_closed:
  assumes "ok_drawer True d" "isOpen d" "close_timers d = 0"
  shows "isOpen (open_op w (close_due (close_op d)))" "\<not> isOpen (close_due (close_op (open_op w (close_due (close_op d)))))"
  using assms by (auto simp: ok_drawer_def drawer_inv_def isOpen_def step_defs)

lemma rf_record_timers [simp]:
  "rf_record (setTimeout t s) = rf_record s" "rf_record (clearAdvanceTimer st s) = rf_record s"
  "rf_record (clearAdvanceTimers s) = rf_record s" "rf_record (scheduleStepAdvance V st s) = rf_record s"
  "rf_record (set_zone V z s) = rf_record s" "rf_record (set_token V x s) = rf_record s"
proof -
  show c: "rf_record (clearAdvanceTimer st s) = rf_record s" for st s
    by (simp add: clearAdvanceTimer_def clearTimeout_def Let_def split: step.split option.split)
  show t: "rf_record (setTimeout t s) = rf_record s" for t s by (simp add: setTimeout_def)
  show "rf_record (clearAdvanceTimers s) = rf_record s" by (simp add: clearAdvanceTimers_def c)
  show a: "rf_record (scheduleStepAdvance V st s) = rf_record s" for st s
    by (simp add: scheduleStepAdvance_def c t Let_def split: step.split)
  show "rf_record (set_zone V z s) = rf_record s" by (simp add: set_zone_def zone_status_changed_def a)
  show "rf_record (set_token V x s) = rf_record s" by (simp add: set_token_def a Let_def)
qed

lemma opened_record:
  "rf_record (open_record V w x s) = x" "rf_drawer (open_record V w x s) = open_op w (rf_drawer s)"
  "pending (open_record V w x s) = pending s" "sent (open_record V w x s) = sent s"
  by (simp_all add: open_record_def prepareForm_def clearAdvanceTimers_def Let_def split: option.split)

text \<open>
  C26. A late answer closes another form: a save is under way, the user dismisses the drawer and opens the
  form for another record; when the save is confirmed, the form of that other record is closed,
  over what was typed into it and without a save of it.
\<close>

theorem late_save_closes_other_form:
  assumes "s = run (rf_step V nx) init_rf es" "isOpen (rf_drawer s)" "close_timers (rf_drawer s) = 0"
    and "k < length (pending s)" "pending s ! k = RfUpsert r"
  shows "let s1 = run (rf_step V nx) s [RfCancel, RfCloseDue, RfOpen w (Some r'), RfName x];
             s2 = run (rf_step V nx) s1 [RfReply k RfRepOk, RfCloseDue]
         in isOpen (rf_drawer s1) \<and> rf_record s1 = Some r' \<and> d_name s1 = x \<and>
            \<not> isOpen (rf_drawer s2) \<and> sent s2 = sent s"
proof -
  have "ok_drawer True (rf_drawer s)" unfolding assms(1) by (rule rf_drawer.inv_run [OF rf_drawer_init])
  note d = reopened_then_closed [OF this assms(2,3), of w]
  define s1 where "s1 = run (rf_step V nx) s [RfCancel, RfCloseDue, RfOpen w (Some r'), RfName x]"
  have 1: "rf_drawer s1 = open_op w (close_due (close_op (rf_drawer s)))" "rf_record s1 = Some r'" "d_name s1 = x"
    "pending s1 = pending s" "sent s1 = sent s"
    by (simp_all add: s1_def opened_record)
  then have "rf_step V nx s1 (RfReply k RfRepOk) = on_record_saved (take_reply k s1)"
    using assms(4,5) by (simp add: on_reply_def)
  then have "rf_drawer (rf_step V nx s1 (RfReply k RfRepOk)) = close_op (rf_drawer s1)"
    "sent (rf_step V nx s1 (RfReply k RfRepOk)) = sent s1"
    by (simp_all add: on_record_saved_def toast_def take_reply_def Let_def)
  with 1 d show ?thesis unfolding Let_def s1_def [symmetric] by simp
qed

theorem late_save_closes_other_form_witness:
  "\<not> isOpen (rf_drawer (run (rf_step plain_validators Suc) init_rf
     [RfOpen 1000 (Some sample_record), RfSave, RfCancel, RfCloseDue,
      RfOpen 1000 (Some (sample_record\<lparr>rec_id := 8\<rparr>)), RfName ''www'', RfReply 0 RfRepOk, RfCloseDue]))"
proof -
  let ?s = "run (rf_step plain_validators Suc) init_rf [RfOpen 1000 (Some sample_record), RfSave]"
  have "isOpen (rf_drawer ?s)" "close_timers (rf_drawer ?s) = 0" "map is_upsert (pending ?s) = [True]" by code_simp+
  moreover from this(3) obtain q where q: "pending ?s = [q]" "is_upsert q" by (auto simp: map_eq_Cons_conv simp del: rf_step.simps run_simps)
  moreover from q obtain r where "q = RfUpsert r" by (cases q) (auto simp: is_upsert_def)
  then have "0 < length (pending ?s)" "pending ?s ! 0 = RfUpsert r" unfolding q(1) by simp_all
  ultimately show ?thesis
    using late_save_closes_other_form [OF refl, of plain_validators Suc "[RfOpen 1000 (Some sample_record), RfSave]" 0 r
        1000 "sample_record\<lparr>rec_id := 8\<rparr>" "''www''"]
    by (simp add: Let_def del: rf_step.simps)
qed

text \<open>The task form does the same.\<close>

lemma late_task_save_closes_other_form:
  assumes "s = run (tf_step V) init_tf es" "isOpen (tf_drawer s)" "close_timers (tf_drawer s) = 0" "k < length (pending s)"
  shows "let s1 = run (tf_step V) s [TfCancel, TfCloseDue, TfOpen w i p (Some t), TfName x];
             s2 = run (tf_step V) s1 [TfReply k TfOk, TfCloseDue]
         in isOpen (tf_drawer s1) \<and> tf_task s1 = Some t \<and> f_name s1 = x \<and> \<not> isOpen (tf_drawer s2)"
proof -
  have "ok_drawer True (tf_drawer s)" unfolding assms(1) by (rule tf_drawer.inv_run [OF tf_drawer_init])
  note d = reopened_then_closed [OF this assms(2,3), of w]
  define s1 where "s1 = run (tf_step V) s [TfCancel, TfCloseDue, TfOpen w i p (Some t), TfName x]"
  have 1: "tf_drawer s1 = open_op w (close_due (close_op (tf_drawer s)))" "tf_task s1 = Some t" "f_name s1 = x"
    "pending s1 = pending s"
    by (simp_all add: s1_def openForRecord_def Let_def)
      (simp_all add: applyTriggerConstraints_def resetHeaderRows_def addHeaderRow_def Let_def)
  then have "tf_step V s1 (TfReply k TfOk) = on_task_saved (take_reply k s1)"
    using assms(4) by (cases "pending s ! k") (simp add: on_reply_def)
  then have "tf_drawer (tf_step V s1 (TfReply k TfOk)) = close_op (tf_drawer s1)"
    by (simp add: on_task_saved_def Let_def)
  with 1 d show ?thesis unfolding Let_def s1_def [symmetric] by simp
qed

end
