(* ===== verification/Navigation.thy ===== *)
theory Navigation
  imports Journeys PageDrawers
begin

text \<open>
  Where the user is: in every state the application reaches, the outlet shows a page, and it is the
  one of the address; and a page the router left is shut down, with its stream, its drawers and
  its timers to come, whatever answers still arrive for it. \<open>page_sound\<close> says what holds of a page
  that is shown and of one that is left, and \<open>places_ok\<close> of all pages.
\<close>

subsection \<open>A card that is gone\<close>

definition card_gone :: "address_card \<Rightarrow> bool" where
  "card_gone c \<longleftrightarrow> ac_ended c \<and> \<not> ac_subscribed c \<and> completed (outgoing (ac_stream c))"

lemma card_gone_destroy: "card_gone (ac_step c AcDestroy)"
  by (simp add: card_gone_def ac_ngOnDestroy_def close_stream_def Let_def)

lemma card_gone_steps:
  "card_gone c \<Longrightarrow> card_gone (ac_opened c)" "card_gone c \<Longrightarrow> card_gone (ac_closed c)"
  "card_gone c \<Longrightarrow> card_gone (ac_message a c)" "card_gone c \<Longrightarrow> card_gone (ac_error x c)"
  "card_gone c \<Longrightarrow> card_gone (ac_reconnect c)" "card_gone c \<Longrightarrow> card_gone (ac_refresh c)"
  by (simp_all add: card_gone_def ac_opened_def ac_closed_def ac_message_def ac_error_def ac_reconnect_def ac_refresh_def
      on_open_def on_close_def request_def Let_def)

lemma card_gone_handle: "ac_handle q r = Some f \<Longrightarrow> card_gone c \<Longrightarrow> card_gone (f (take_reply k c))"
  by (cases q; cases r) (auto simp: card_gone_def on_ac_refreshed_def on_ac_refresh_failed_def ui_defs)

lemma card_gone_step:
  assumes "card_gone c" "e \<noteq> AcInit"
  shows "card_gone (ac_step c e)"
proof (cases e)
  case (AcReply k r)
  have "card_gone (on_reply ac_handle k r c)"
    by (rule on_reply_cases) (use assms(1) card_gone_handle in auto)
  then show ?thesis using AcReply by simp
next
  case AcDestroy
  show ?thesis unfolding AcDestroy by (rule card_gone_destroy)
qed (use assms in \<open>simp_all add: card_gone_steps\<close>)

subsection \<open>The pages\<close>

fun page_sound :: "bool \<Rightarrow> page \<Rightarrow> bool" where
  "page_sound shown (Home h) =
     (ok_drawer shown (ah_drawer (hp_history h)) \<and> ok_drawer shown (rf_drawer (hp_form h)) \<and>
      (\<not> shown \<longrightarrow> card_gone (hp_card h)))"
| "page_sound shown (Over p) =
     (ok_drawer shown (rf_drawer (op_record_form p)) \<and> ok_drawer shown (tf_drawer (op_task_form p)) \<and>
      (\<not> shown \<longrightarrow> ov_destroyed (op_page p)))"

lemma lend_drawers [simp]:
  "rf_drawer (lend v f) = rf_drawer f" "tf_drawer (lend v t) = tf_drawer t" "ah_drawer (lend v a) = ah_drawer a"
  "card_gone (lend v c) = card_gone c"
  by (simp_all add: lend_def card_gone_def)

lemma home_sound:
  assumes "home_step L shown e v h = (v', h')" "home_comes shown h e" "page_sound shown (Home h)"
  shows "page_sound shown (Home h')"
proof (cases e)
  case (CardEvent x)
  obtain v1 c where 1: "hosted ac_step x v (hp_card h) = (v1, c)" by force
  have "x \<noteq> AcInit" using assms(2) CardEvent by auto
  then have "\<not> shown \<longrightarrow> card_gone c" using card_gone_step [of "lend v (hp_card h)" x] hostedD [OF 1] assms(3) by simp
  with assms 1 CardEvent show ?thesis by auto
next
  case (HistoryEvent x)
  obtain v1 a where 1: "hosted ah_step x v (hp_history h) = (v1, a)" by force
  have "ok_drawer shown (ah_drawer a)"
    unfolding hostedD [OF 1] by (rule ah_drawer_step) (use assms(2,3) HistoryEvent in auto)
  with assms 1 HistoryEvent show ?thesis by auto
next
  case (TableEvent x)
  with assms show ?thesis by (auto split: prod.splits)
next
  case (HomeForm x)
  obtain v1 f where 1: "hosted (form_step L) x v (hp_form h) = (v1, f)" by force
  have "shown" if "x = RfOpen w r" for w r using assms(2) HomeForm that by (cases r) auto
  then have "ok_drawer shown (rf_drawer f)"
    unfolding hostedD [OF 1] by (intro rf_drawer_step) (use assms(3) in auto)
  with assms 1 HomeForm show ?thesis by (auto simp: home_form_step_def Let_def split: prod.splits if_splits)
qed

lemma over_page_sound:
  assumes "over_page_step L e v p = (v', p')" "page_sound shown (Over p)" "e \<noteq> OvDestroy"
  shows "page_sound shown (Over p')"
  using assms over_page_alive [OF assms(1,3)] by (auto simp: over_page_step_def split: prod.splits)

lemma open_form_sound:
  assumes "open_form L w x (v, p) = (v', p')" "page_sound True (Over p)"
  shows "page_sound True (Over p')"
proof (cases x)
  case (EditRecord r)
  obtain v1 f where 1: "hosted (form_step L) (RfOpen w (Some r)) v (op_record_form p) = (v1, f)" by force
  have "ok_drawer True (rf_drawer f)"
    unfolding hostedD [OF 1] by (rule rf_drawer_step) (use assms(2) in auto)
  with assms 1 EditRecord show ?thesis by auto
next
  case (TaskForm i u t)
  obtain v1 f where 1: "hosted (tf_step (lib_validators L)) (TfOpen w i u t) v (op_task_form p) = (v1, f)" by force
  have "ok_drawer True (tf_drawer f)"
    unfolding hostedD [OF 1] by (rule tf_drawer_step) (use assms(2) in auto)
  with assms 1 TaskForm show ?thesis by auto
qed

lemma open_forms_sound:
  "fold (open_form L w) xs (v, p) = (v', p') \<Longrightarrow> page_sound True (Over p) \<Longrightarrow> page_sound True (Over p')"
proof (induction xs arbitrary: v p)
  case (Cons x xs)
  obtain v1 p1 where 1: "open_form L w x (v, p) = (v1, p1)" by force
  then show ?case using Cons open_form_sound [OF 1] by simp
qed simp

text \<open>A page that is left opens no form: only clicks do.\<close>

lemma forms_kept [simp]:
  "forms (toast m s) = forms s" "forms (toast_error e x s) = forms s" "forms (request q s) = forms s"
  "forms (take_reply k s) = forms s" "forms (close_dialog d s) = forms s" "forms (set_checkbox d b s) = forms s"
  by (auto simp: toast_def toast_error_def request_def take_reply_def close_dialog_def set_checkbox_def Let_def
      split: dialog.split)

lemma forms_tasks [simp]: "forms (loadTasksAndCertificate s) = forms s"
  by (simp add: loadTasksAndCertificate_def split: option.split)

lemma forms_stop [simp]: "forms (stopResolve s) = forms s"
  using same_stop [of s] by (simp add: same_page_def)

lemma forms_handle: "ov_handle q r = Some f \<Longrightarrow> forms (f s) = forms s"
  by (erule ov_handle.elims; hypsubst?)
    (simp_all add: on_record_list_def on_tasks_def on_run_def on_task_deleted_def Let_def split: option.split)

lemma forms_step: "\<not> is_click e \<Longrightarrow> forms (ov_step s e) = forms s"
proof (cases e)
  case (OvReply k r)
  have "forms (on_reply ov_handle k r s) = forms s"
    by (rule on_reply_cases) (simp_all add: forms_handle)
  then show ?thesis using OvReply by simp
next
  case (OvButton d i)
  have h: "forms (ov_run_handler h b t) = forms t" for h b t
    by (cases h) (simp add: ov_run_handler_def deleteTask_def)
  have "forms (press_button ov_run_handler d i s) = forms s"
    by (rule press_button_cases) (simp_all add: h)
  then show ?thesis using OvButton by simp
qed (use same_stream_events in \<open>auto simp: while_alive_def ov_ngOnDestroy_def ov_ngOnInit_def reloadRecord_def loadCurrentIp_def loadRecord_def
      resolve_error_def same_page_def Let_def split: option.split\<close>)

lemma over_sound:
  assumes "over_event_step L shown e v p = (v', p')" "over_comes shown p e" "page_sound shown (Over p)"
  shows "page_sound shown (Over p')"
proof (cases e)
  case (PageEvent w x)
  obtain v1 p1 where 1: "over_page_step L x v p = (v1, p1)" by force
  have x: "x \<noteq> OvDestroy" "\<not> shown \<longrightarrow> \<not> is_click x" using assms(2) PageEvent by (cases x; auto)+
  note p1 = over_page_sound [OF 1 assms(3) x(1)]
  show ?thesis
  proof (cases shown)
    case True
    with open_forms_sound [of L w _ v1 p1] p1 assms(1) 1 PageEvent show ?thesis by simp
  next
    case False
    with x have "forms (op_page p1) = forms (op_page p)"
      using 1 forms_step [of x "lend v (op_page p)"]
      by (auto simp: over_page_step_def open_page_step_def page_step_def lend_def split: prod.splits dest!: hostedD)
    with p1 assms(1) 1 PageEvent show ?thesis by simp
  qed
next
  case (OverRecordForm x)
  obtain v1 f where 1: "hosted (form_step L) x v (op_record_form p) = (v1, f)" by force
  have "shown" if "x = RfOpen w r" for w r using assms(2) OverRecordForm that by (cases r) auto
  then have "ok_drawer shown (rf_drawer f)"
    unfolding hostedD [OF 1] by (intro rf_drawer_step) (use assms(3) in auto)
  then have "page_sound shown (Over (p\<lparr>op_record_form := f\<rparr>))" using assms(3) by simp
  with over_page_sound [where e = OvRecordSaved] assms(1) 1 OverRecordForm show ?thesis
    by (auto simp: Let_def split: if_splits)
next
  case (OverTaskForm x)
  obtain v1 f where 1: "hosted (tf_step (lib_validators L)) x v (op_task_form p) = (v1, f)" by force
  have "ok_drawer shown (tf_drawer f)"
    unfolding hostedD [OF 1] by (rule tf_drawer_step) (use assms(2,3) OverTaskForm in auto)
  then have "page_sound shown (Over (p\<lparr>op_task_form := f\<rparr>))" using assms(3) by simp
  with over_page_sound [where e = OvTaskSaved] assms(1) 1 OverTaskForm show ?thesis
    by (auto simp: Let_def split: if_splits)
qed

lemma destroy_form_sound:
  "destroy_form L v f = (v', f') \<Longrightarrow> ok_drawer True (rf_drawer f) \<Longrightarrow> ok_drawer False (rf_drawer f')"
  by (auto simp: destroy_form_def split: prod.splits dest!: hostedD)

lemma leave_sound:
  assumes "leave L v pg = (v', pg')" "page_sound True pg"
  shows "page_sound False pg'"
proof (cases pg)
  case (Home h)
  with assms card_gone_destroy show ?thesis
    by (auto simp: Let_def split: prod.splits dest: destroy_form_sound dest!: hostedD simp del: ac_step.simps)
next
  case (Over p)
  obtain v1 p1 where 1: "over_page_step L OvDestroy v p = (v1, p1)" by force
  then have "ov_destroyed (op_page p1)" "op_record_form p1 = op_record_form p" "op_task_form p1 = op_task_form p"
    by (auto simp: over_page_step_def open_page_step_def page_step_def while_alive_def ov_ngOnDestroy_def split: prod.splits dest!: hostedD)
  with assms 1 Over show ?thesis by (auto simp: Let_def split: prod.splits dest: destroy_form_sound)
qed

lemma enter_sound: "enter c params v = (v', pg) \<Longrightarrow> page_sound True pg"
  by (auto simp: enter_def enter_home_def enter_overview_def init_ah_def init_rf_def init_tf_def ui.defs
      ok_drawer_def drawer_inv_def init_drawer_def form_drawer_def split: prod.splits page_component.splits)

lemma history_sound: "page_sound b pg \<Longrightarrow> page_sound b (page_history w pg)"
  by (cases pg) (simp_all add: close_dialogs_def)

lemma clear_route_sound: "page_sound b pg \<Longrightarrow> page_sound b (clear_route pg)"
  by (cases pg) (simp_all add: clear_route_def)


subsection \<open>The site\<close>

definition places_ok :: "site \<Rightarrow> bool" where
  "places_ok s \<longleftrightarrow> outlet_ok s \<and> (\<forall>i < length (pages s). page_sound (outlet s = Some i) (pages s ! i))"

lemma places_update:
  "places_ok s \<Longrightarrow> page_sound (outlet s = Some i) pg \<Longrightarrow> places_ok (s\<lparr>service := v, pages := (pages s)[i := pg]\<rparr>)"
proof -
  assume s: "places_ok s" "page_sound (outlet s = Some i) pg"
  have "page_sound (outlet s = Some j) ((pages s)[i := pg] ! j)" if "j < length (pages s)" for j
    using s that by (cases "j = i") (simp_all add: places_ok_def)
  with s(1) show ?thesis by (simp add: places_ok_def outlet_ok_def)
qed

lemma places_shown: "places_ok s \<Longrightarrow> outlet s = Some i \<Longrightarrow> i < length (pages s) \<and> page_sound True (pages s ! i)"
proof -
  assume s: "places_ok s" "outlet s = Some i"
  then have "i < length (pages s)" by (simp add: places_ok_def outlet_ok_def)
  moreover from this s(1) have "page_sound (outlet s = Some i) (pages s ! i)" unfolding places_ok_def by blast
  ultimately show ?thesis using s(2) by simp
qed

lemma placed_history:
  "places_ok s \<Longrightarrow> places_ok (s\<lparr>pages := map (page_history w) (pages s), settings := c, log_view := l\<rparr>)"
  by (auto simp: places_ok_def outlet_ok_def history_sound)

lemma placed_leave:
  assumes "places_ok s"
  shows "places_ok (leave_outlet L s)" "outlet (leave_outlet L s) = None"
proof -
  show "outlet (leave_outlet L s) = None" by (auto simp: leave_outlet_def split: option.split prod.split)
  show "places_ok (leave_outlet L s)"
  proof (cases "outlet s")
    case None
    with assms show ?thesis by (simp add: leave_outlet_def)
  next
    case (Some i)
    obtain v pg where 1: "leave L (service s) (pages s ! i) = (v, pg)" by force
    note g = leave_sound [OF 1 conjunct2 [OF places_shown [OF assms Some]]]
    show ?thesis unfolding places_ok_def
    proof (intro conjI allI impI)
      show "outlet_ok (leave_outlet L s)" using Some 1 by (simp add: leave_outlet_def outlet_ok_def)
      fix j assume j: "j < length (pages (leave_outlet L s))"
      show "page_sound (outlet (leave_outlet L s) = Some j) (pages (leave_outlet L s) ! j)"
      proof (cases "j = i")
        case True
        with g j Some 1 show ?thesis by (simp add: leave_outlet_def)
      next
        case False
        moreover have "page_sound False (pages s ! j)"
          using assms False Some j by (auto simp: places_ok_def)
        ultimately show ?thesis using Some 1 by (simp add: leave_outlet_def)
      qed
    qed
  qed
qed

lemma placed_enter:
  assumes "places_ok s" "outlet s = None"
  shows "places_ok (enter_outlet c params s)"
proof -
  obtain v pg where 1: "enter c params (service s) = (v, pg)" by force
  with assms enter_sound [OF 1] show ?thesis
    by (auto simp: enter_outlet_def places_ok_def outlet_ok_def nth_append less_Suc_eq)
qed

lemma placed_visit: "places_ok s \<Longrightarrow> places_ok (visit L url s)"
proof -
  assume s: "places_ok s"
  then have a: "places_ok (s\<lparr>address := u\<rparr>)" for u by (simp add: places_ok_def outlet_ok_def)
  with placed_enter [OF placed_leave [OF a]] show ?thesis
    using s by (auto simp: visit_def Let_def split: option.split)
qed

lemma placed_route: "places_ok s \<Longrightarrow> i < length (pages s) \<Longrightarrow> places_ok (follow_route L i s)"
proof -
  assume s: "places_ok s" "i < length (pages s)"
  then have "places_ok (s\<lparr>pages := (pages s)[i := clear_route (pages s ! i)]\<rparr>)"
    by (auto simp: places_ok_def outlet_ok_def nth_list_update clear_route_sound)
  with s(1) show ?thesis by (simp add: follow_route_def placed_visit split: option.split)
qed

lemma placed_step:
  assumes "places_ok s" "comes s e"
  shows "places_ok (site_step L s e)"
proof (cases e)
  case (HistoryTo w url)
  with assms(1) show ?thesis by (simp add: history_to_def placed_visit placed_history)
next
  case (HomeEvent i x)
  then obtain h where h: "i < length (pages s)" "pages s ! i = Home h" "home_comes (outlet s = Some i) h x"
    using assms(2) by (auto split: page.splits)
  obtain v h1 where 1: "home_step L (outlet s = Some i) x (service s) h = (v, h1)" by force
  have "page_sound (outlet s = Some i) (Home h)" using assms(1) h by (metis places_ok_def)
  from places_update [OF assms(1) home_sound [OF 1 h(3) this]]
  have "places_ok (s\<lparr>service := v, pages := (pages s)[i := Home h1]\<rparr>)" .
  then show ?thesis using HomeEvent h 1 placed_route
    by (simp add: home_do_def Let_def split: home_event.split rt_event.split)
next
  case (OverEvent i x)
  then obtain p where p: "i < length (pages s)" "pages s ! i = Over p" "over_comes (outlet s = Some i) p x"
    using assms(2) by (auto split: page.splits)
  obtain v p1 where 1: "over_event_step L (outlet s = Some i) x (service s) p = (v, p1)" by force
  have "page_sound (outlet s = Some i) (Over p)" using assms(1) p by (metis places_ok_def)
  from places_update [OF assms(1) over_sound [OF 1 p(3) this]]
  show ?thesis using OverEvent p 1 by (simp add: over_do_def)
next
  case BackLink
  then show ?thesis using assms(1) by (simp add: placed_visit)
qed (use assms(1) in \<open>auto simp: places_ok_def outlet_ok_def split: prod.split\<close>)

lemma reaches_placed: "reaches L s \<Longrightarrow> places_ok s"
proof (induction rule: reaches.induct)
  case (booted url)
  show ?case unfolding boot_def by (rule placed_visit) (simp add: places_ok_def outlet_ok_def)
next
  case (happened s e)
  then show ?case by (simp add: placed_step)
qed


subsection \<open>The page of the address\<close>

definition addressed :: "site \<Rightarrow> bool" where
  "addressed s \<longleftrightarrow>
     (\<exists>i < length (pages s). outlet s = Some i \<and>
        (address s = '''' \<and> component_of (pages s ! i) = HomeComponent \<or>
         (\<exists>x. CHR ''/'' \<notin> set x \<and> address s = ''overview/'' @ x) \<and>
           component_of (pages s ! i) = RecordOverviewComponent))"

lemma enter_component: "enter c params v = (v', pg) \<Longrightarrow> component_of pg = c"
  by (auto simp: enter_def enter_home_def enter_overview_def split: prod.splits page_component.splits)

lemma leave_address [simp]: "address (leave_outlet L s) = address s"
  by (simp add: leave_outlet_def split: option.split prod.split)

lemma entered_page:
  "\<exists>pg. component_of pg = c \<and> pages (enter_outlet c params s) = pages s @ [pg] \<and>
     outlet (enter_outlet c params s) = Some (length (pages s)) \<and> address (enter_outlet c params s) = address s"
proof -
  obtain v pg where "enter c params (service s) = (v, pg)" by force
  with enter_component [OF this] show ?thesis by (simp add: enter_outlet_def)
qed

lemma visited_page:
  assumes "angular_router (lib_router L)" "outlet_ok s" "recognize (lib_router L) routes url = Some (c, params)"
  shows "\<exists>i < length (pages (visit L url s)). outlet (visit L url s) = Some i \<and>
    component_of (pages (visit L url s) ! i) = c \<and> address (visit L url s) = lands (lib_router L) routes url"
proof -
  let ?s = "s\<lparr>address := lands (lib_router L) routes url\<rparr>"
  show ?thesis
  proof (cases "shown_component ?s = Some c")
    case True
    then obtain i where i: "outlet s = Some i" "component_of (pages s ! i) = c" by (auto simp: shown_component_def)
    with visit_same [OF assms(1) i assms(3)] assms(2) show ?thesis by (simp add: outlet_ok_def)
  next
    case False
    then have "visit L url s = enter_outlet c params (leave_outlet L ?s)"
      using assms(3) angular_router.reuse_same [OF assms(1)]
      by (auto simp: visit_def Let_def split: option.split)
    with entered_page [of c params "leave_outlet L ?s"] show ?thesis by (auto simp: nth_append)
  qed
qed

lemma addressed_visit:
  assumes "angular_router (lib_router L)" "outlet_ok s"
  shows "addressed (visit L url s)"
proof (rule angular_router.every_url [OF assms(1), of url])
  assume "recognize (lib_router L) routes url = Some (HomeComponent, [])" "lands (lib_router L) routes url = ''''"
  with visited_page [OF assms this(1)] show ?thesis by (auto simp: addressed_def)
next
  fix x assume "CHR ''/'' \<notin> set x" "url = ''overview/'' @ x" "lands (lib_router L) routes url = url"
    "recognize (lib_router L) routes url = Some (RecordOverviewComponent, [(''recordId'', x)])"
  with visited_page [OF assms this(4)] show ?thesis by (auto simp: addressed_def)
qed

lemma addressed_update:
  "addressed s \<Longrightarrow> component_of pg = component_of (pages s ! i) \<Longrightarrow>
     addressed (s\<lparr>service := v, pages := (pages s)[i := pg]\<rparr>)"
proof -
  assume s: "addressed s" "component_of pg = component_of (pages s ! i)"
  have "component_of ((pages s)[i := pg] ! j) = component_of (pages s ! j)" for j
    using s(2) by (cases "i < length (pages s)"; cases "j = i") (auto simp: list_update_beyond)
  with s(1) show ?thesis by (simp add: addressed_def)
qed

lemma addressed_route:
  assumes "angular_router (lib_router L)" "addressed s"
  shows "addressed (follow_route L i s)"
proof -
  have "outlet_ok (s\<lparr>pages := (pages s)[i := clear_route (pages s ! i)]\<rparr>)"
    using assms(2) by (auto simp: addressed_def outlet_ok_def)
  with addressed_visit [OF assms(1)] assms(2) show ?thesis by (simp add: follow_route_def split: option.split)
qed

lemma addressed_step:
  assumes "angular_router (lib_router L)" "addressed s"
  shows "addressed (site_step L s e)"
proof (cases e)
  case (HistoryTo w url)
  have "outlet_ok (s\<lparr>pages := map (page_history w) (pages s), settings := c, log_view := l\<rparr>)" for c l
    using assms(2) by (auto simp: addressed_def outlet_ok_def)
  then show ?thesis using HistoryTo by (simp add: history_to_def addressed_visit [OF assms(1)])
next
  case (HomeEvent i x)
  then show ?thesis using assms(2) addressed_update [OF assms(2), of _ i] addressed_route [OF assms(1)]
    by (auto simp: home_do_def Let_def split: page.split prod.split home_event.split rt_event.split)
next
  case (OverEvent i x)
  then show ?thesis using assms(2) addressed_update [OF assms(2), of _ i]
    by (auto simp: over_do_def split: page.split prod.split)
next
  case BackLink
  have "outlet_ok s" using assms(2) by (auto simp: addressed_def outlet_ok_def)
  then show ?thesis using BackLink addressed_visit [OF assms(1)] by simp
qed (use assms(2) in \<open>auto simp: addressed_def split: prod.split\<close>)

lemma reaches_addressed:
  assumes "angular_router (lib_router L)"
  shows "reaches L s \<Longrightarrow> addressed s"
proof (induction rule: reaches.induct)
  case (booted url)
  show ?case unfolding boot_def by (rule addressed_visit [OF assms]) (simp add: outlet_ok_def)
next
  case (happened s e)
  then show ?case by (simp add: addressed_step [OF assms])
qed

subsection \<open>Properties\<close>

text \<open>
  C25. The page fits the address: in every state the application reaches there is a page on the outlet; it is the
  home page exactly when the address is the root, and an overview exactly when the address names one record of the
  overview.
\<close>

theorem address_shows_page:
  assumes "angular_router (lib_router L)" "reaches L s"
  shows "\<exists>i < length (pages s). outlet s = Some i \<and>
    (case pages s ! i of
       Home h \<Rightarrow> address s = ''''
     | Over p \<Rightarrow> \<exists>x. CHR ''/'' \<notin> set x \<and> address s = ''overview/'' @ x)"
proof -
  from reaches_addressed [OF assms] obtain i where i: "i < length (pages s)" "outlet s = Some i"
    "address s = '''' \<and> component_of (pages s ! i) = HomeComponent \<or>
     (\<exists>x. CHR ''/'' \<notin> set x \<and> address s = ''overview/'' @ x) \<and> component_of (pages s ! i) = RecordOverviewComponent"
    by (auto simp: addressed_def)
  then show ?thesis by (cases "pages s ! i") auto
qed

theorem address_shows_page_witness:
  "\<exists>x. address (sample_site sample_journey) = ''overview/'' @ x"
proof -
  have "all_come sample_libs (boot sample_libs '''') sample_journey" by code_simp
  from address_shows_page [OF sample_router sample_reaches [OF this]]
  obtain i where i: "outlet (sample_site sample_journey) = Some i"
    "case pages (sample_site sample_journey) ! i of Home h \<Rightarrow> address (sample_site sample_journey) = ''''
     | Over p \<Rightarrow> \<exists>x. CHR ''/'' \<notin> set x \<and> address (sample_site sample_journey) = ''overview/'' @ x" by blast
  have "outlet (sample_site sample_journey) = Some 1" "home_of (pages (sample_site sample_journey) ! 1) = None"
    by code_simp+
  with i show ?thesis by (cases "pages (sample_site sample_journey) ! 1") auto
qed

text \<open>
  C24. A page that was left is shut down and stays so, whatever is answered and falls due afterwards: the address
  card has unsubscribed from its stream and completed the sending side, the overview is destroyed, and each of its drawers is
  destroyed, so that none of their overlays is on the page once the close callback has fired.
\<close>

theorem left_pages_gone:
  assumes "reaches L s" "i < length (pages s)" "outlet s \<noteq> Some i"
    and "d \<in> (case pages s ! i of Home h \<Rightarrow> {ah_drawer (hp_history h), rf_drawer (hp_form h)}
              | Over p \<Rightarrow> {rf_drawer (op_record_form p), tf_drawer (op_task_form p)})"
  shows "destroyed d \<and> (close_timers d = 0 \<longrightarrow> drawer.live d = [] \<and> \<not> isOpen d) \<and>
    (case pages s ! i of
       Home h \<Rightarrow> \<not> ac_subscribed (hp_card h) \<and> ac_ended (hp_card h) \<and> completed (outgoing (ac_stream (hp_card h)))
     | Over p \<Rightarrow> ov_destroyed (op_page p))"
proof -
  have "page_sound (outlet s = Some i) (pages s ! i)"
    using reaches_placed [OF assms(1)] assms(2) unfolding places_ok_def by blast
  with assms(3) have p: "page_sound False (pages s ! i)" by simp
  with assms(4) have "ok_drawer False d" by (cases "pages s ! i") auto
  then have "destroyed d \<and> (close_timers d = 0 \<longrightarrow> drawer.live d = [] \<and> \<not> isOpen d)"
    by (auto simp: ok_drawer_def drawer_inv_def isOpen_def)
  with p show ?thesis by (cases "pages s ! i") (simp_all add: card_gone_def)
qed

theorem left_pages_gone_witness:
  "\<exists>h. pages (sample_site sample_journey) ! 0 = Home h \<and> \<not> ac_subscribed (hp_card h) \<and> destroyed (rf_drawer (hp_form h))"
proof -
  have "all_come sample_libs (boot sample_libs '''') sample_journey" by code_simp
  note r = sample_reaches [OF this]
  have o: "0 < length (pages (sample_site sample_journey))" "outlet (sample_site sample_journey) \<noteq> Some 0"
    "home_of (pages (sample_site sample_journey) ! 0) \<noteq> None" by code_simp+
  then obtain h where h: "pages (sample_site sample_journey) ! 0 = Home h" by (auto simp: page_of)
  from left_pages_gone [OF r o(1,2), of "rf_drawer (hp_form h)"] h show ?thesis by simp
qed

end
