(* ===== verification/Spec2Isabelle.thy ===== *)
theory Spec2Isabelle
  imports Codec Notify Drawer Api Streams RecordsTable Overview OverviewView TaskForm RecordForm ConfigForm ConfigView LogDrawer Address NotifyView LogView TableView RequestJson Logger Calls Journeys PageDrawers Navigation
begin

text \<open>
  Verification of the hdns web client, the TypeScript application under
  \<^verbatim>\<open>frontend/src/app\<close> that manages DNS records, their certificates and the webhooks that
  run when an address or a certificate changes. Paths below are relative to that directory.

  \<^bold>\<open>The program.\<close> Pages and drawers (\<^verbatim>\<open>pages/\<close>) keep their state in fields and signals.
  They call the server through \<^verbatim>\<open>global/services/api/api.service.ts\<close>, which posts JSON and
  opens WebSocket streams that reconnect on their own; they report through
  \<^verbatim>\<open>global/services/notify\<close> (toasts, dialogs, the loading counter the interceptor feeds),
  and they slide in through \<^verbatim>\<open>components/drawer\<close>, whose instances
  \<^verbatim>\<open>global/services/drawer\<close> registers. The messages, with a binary and a JSON codec, are
  generated from \<^verbatim>\<open>proto/api.proto\<close> into \<^verbatim>\<open>global/model/api.ts\<close>.

  \<^bold>\<open>The theories.\<close>
  \<^item> \<open>Prelude\<close>: the error sum, sorting by a comparison function, runs of a step function, and
    the locales \<open>event_system\<close> (a step keeps an invariant), \<open>guarded_system\<close> (for events that
    keep a condition) and \<open>quiescent_system\<close> (nothing in flight, no busy mark).
  \<^item> \<open>JsString\<close>, \<open>JsRegex\<close>, \<open>JsNumber\<close>, \<open>JsValue\<close>: what the source uses of the
    language. A string is its UTF-8 text as a list of bytes, a number a normalised decimal, NaN or an infinity,
    an object the list of its properties in enumeration order; \<open>JSON.stringify\<close> and
    \<open>JSON.parse\<close> are functions with a round trip.
  \<^item> \<open>Notify\<close>, \<open>Drawer\<close>, \<open>Api\<close>: the services. A service is a record of its fields,
    one definition per method; timers, sockets and subjects are data. \<open>Streams\<close>: the streams the
    service offers, and which socket is handed what is sent.
  \<^item> \<open>Model\<close>, \<open>Ui\<close>: the messages as the components read them (a field that may be missing is
    an option), and what every component shares: the notifier it calls, its pending requests in
    the order they were sent, and what it has sent. An answer is an event that names a pending request, so
    answers arrive in any order.
  \<^item> \<open>RecordsTable\<close>, \<open>Overview\<close>, \<open>Forms\<close>, \<open>TaskForm\<close>, \<open>RecordForm\<close>, \<open>ConfigForm\<close>,
    \<open>LogDrawer\<close>, \<open>Address\<close> (the address card, the history drawer, the application shell and
    the loading overlay): one record and one step function per component, whose events are
    the user's actions, the answers, stream events and timers; callbacks are definitions of
    their own (\<open>on_...\<close>).
  \<^item> \<open>Client\<close>: the contract of a component towards the notification service and the loading interceptor (locales
    \<open>http_client\<close>, \<open>hosted_client\<close>), interpreted for every component, and a component's step under the
    shared service (\<open>hosted\<close>). \<open>Logger\<close>: the console logger. \<open>Calls\<close>: one exchange with the
    server, from the call to what is logged and to what the subscriber gets, and what the user is told when it fails.
  \<^item> \<open>OverviewView\<close>, \<open>ConfigView\<close>, \<open>NotifyView\<close>, \<open>TableView\<close>, \<open>LogView\<close>: what the templates of the
    overview, of the settings, of the toasts, dialogs, addresses and toolbar, of the records table and of the log show, as
    values that hold the texts, the rows and, for each enabled button, the event it raises.
  \<^item> \<open>Router\<close>: the routes, and the router as a parameter. \<open>Site\<close>: the application as a whole, every page the
    outlet ever made with the drawers of its template, the settings, the log and the shell, one service
    under all of them; its step passes an event to its component, runs what the component's outputs are bound to
    (\<open>onSave\<close>, \<open>open\<close>, \<open>navigate\<close>), and makes and destroys pages; \<open>reaches\<close> are its
    reachable states. \<open>SiteFacts\<close>: the invariant of the reachable states. \<open>Journeys\<close>: the
    properties that span components. \<open>PageDrawers\<close>: the drawer inside each component. \<open>Navigation\<close>: the page
    on the outlet is the one of the address, and the pages that were left are shut down.
  \<^item> \<open>Wire\<close>, \<open>JsonFields\<close>: what the generated codec is made of. \<open>RecordMessages\<close>,
    \<open>TaskMessages\<close>, \<open>ConfigMessages\<close>: for each of the 24 messages its record,
    \<open>createBase\<close>, \<open>encode\<close>, the cases of \<open>decode\<close>, \<open>fromJSON\<close> and \<open>toJSON\<close>, field by
    field in the order of the code. \<open>PartialFields\<close>, \<open>PartialMessages\<close>: their \<open>create\<close> and \<open>fromPartial\<close>. \<open>RequestJson\<close>: the one message whose JSON form
    reads a property that strings have too. \<open>Varint\<close>: the wire format of protocol buffers. \<open>Codec\<close>:
    the properties of the codec.

  \<^bold>\<open>What is shown.\<close> For every component a state invariant of all its runs: bounded toasts and
  an exact loading counter, no leaked overlay, closed streams stay silent, at most one resolve
  stream, one save in flight, spinners that end, a certificate poll that ends. For the
  operations their effect, error paths included: what is sent and when, what a confirmation
  does, how a log line is split. For data: tasks, settings and messages
  survive printing and parsing, encoding and decoding, and so do the headers of a task but for one
  key, \<open>__proto__\<close>, which is lost. The log drawer refines a specification that keeps
  every line until the stream fails. For each of the 24 messages what \<open>create\<close> and \<open>fromPartial\<close>
  make of an object is what \<open>fromJSON\<close> reads in it, but for the unlisted numbers of the enums;
  protocol names agree with JSON names, the constraints of the settings' inputs with the form's validators. Who clicks
  only what the overview shows acts on its record, its tasks and its available artifacts, and who clicks only
  what the table shows acts on listed records, looks up only dynamic ones and,
  short of a confirmed renewal, issues no certificate twice at a time.
  For the application as a whole, in every reachable state, across navigation and with answers that come after their
  page is gone: the progress bar is on exactly while a request is in flight, nothing is busy when it is off, a
  row opens its own record, the page shown is the one of the address, a page that was left keeps no
  overlay and the home page no address stream, an overview's forms save its own record and its tasks and the page asks for
  what was saved. In every component a failed call to a server that cannot be reached puts up a toast
  that says so, but for five silent lookups. Some theorems prove defects: a
  record answer that arrives after an overview was left opens a resolve stream that nothing closes, a record
  that is no longer dynamic keeps its resolve stream, settings saved before they are loaded overwrite the server's, a
  stale close callback disposes a reopened drawer, a log that reconnects asks its new socket nothing, a
  hidden field locks the record form, the browser's back button strands an open drawer, an overview ignores a change of
  its address, a save forgets the search, a header named \<open>__proto__\<close> is dropped, a save that is confirmed late closes the form of another record.

  \<^bold>\<open>Parameters.\<close> Code that is not in the repository is an argument: Angular's validators
  (locale \<open>angular_validators\<close>), \<open>moveItemInArray\<close> (locale \<open>array_move\<close>), the comparison
  and the clock of the log, UUIDs, window widths, the router (locale \<open>angular_router\<close>), and the \<open>BinaryWriter\<close> and \<open>BinaryReader\<close> of
  the protobuf package (locales \<open>wire_reader\<close> and \<open>wire_format\<close>). Their laws are documented
  behaviour, and each locale is interpreted on a concrete implementation, on which the witnesses
  rest. Where the laws of the writer and the reader are stated per value, they say that what one method writes the
  corresponding method reads, that a message is written behind its length, and that integers out of range are refused.

  \<^bold>\<open>Bounds and fuel.\<close> The JSON reader takes fuel, twice the length of the text and one, which the
  lemma \<open>fuel_enough\<close> shows sufficient. The decoders' loop is a partial function whose
  termination is proved for every reader that moves forward. Strings on the wire are assumed
  shorter than a mebibyte, so that the length of an embedded message fits in 32 bits, and a
  resolution has at most a thousand addresses. Integers are unbounded where the language computes with
  numbers; the codec checks the safe integers (\<open>2 ^ 53\<close>) and the ranges of the wire types.

  \<^bold>\<open>Not modelled.\<close> Styles, and the markup but for the view theories; the frameworks (Angular, RxJS operators, the CDK overlay, the browser's sockets and
  dates); rounding of decimals longer than fifteen digits; what the logger is given
  besides the text; the Go server and worker; the bootstrap and the environment files, which only declare.
\<close>

subsection \<open>Settings as they arrive\<close>

text \<open>What the settings drawer finds under a name in the parsed answer.\<close>

definition int_field :: "jsval \<Rightarrow> string \<Rightarrow> int option" where
  "int_field obj k = (case get obj k of JNum n \<Rightarrow> int_of n | _ \<Rightarrow> None)"

definition num_field :: "jsval \<Rightarrow> string \<Rightarrow> number option" where
  "num_field obj k = (case get obj k of JNum n \<Rightarrow> Some n | _ \<Rightarrow> None)"

definition str_field :: "jsval \<Rightarrow> string \<Rightarrow> string option" where
  "str_field obj k = (case get obj k of JStr s \<Rightarrow> Some s | _ \<Rightarrow> None)"

definition bool_field :: "jsval \<Rightarrow> string \<Rightarrow> bool option" where
  "bool_field obj k = (case get obj k of JBool b \<Rightarrow> Some b | _ \<Rightarrow> None)"

definition strs_field :: "jsval \<Rightarrow> string \<Rightarrow> string list option" where
  "strs_field obj k =
     (case get obj k of
        JArr vs \<Rightarrow> Some (concat (map (\<lambda>v. case v of JStr s \<Rightarrow> [s] | _ \<Rightarrow> []) vs))
      | _ \<Rightarrow> None)"

definition received_config :: "jsval \<Rightarrow> configuration" where
  "received_config cfg =
     \<lparr>cfg_logLevel = int_field cfg ''logLevel'',
      cfg_refreshCron = str_field cfg ''refreshCron'',
      cfg_dnsServers = strs_field cfg ''dnsServers'',
      cfg_ipv4Resolvers = strs_field cfg ''ipv4Resolvers'',
      cfg_ipv6Resolvers = strs_field cfg ''ipv6Resolvers'',
      cfg_ipv4ResolverAgreementThreshold = num_field cfg ''ipv4ResolverAgreementThreshold'',
      cfg_ipv6ResolverAgreementThreshold = num_field cfg ''ipv6ResolverAgreementThreshold'',
      cfg_ipv4ResolverMinResponses = int_field cfg ''ipv4ResolverMinResponses'',
      cfg_ipv6ResolverMinResponses = int_field cfg ''ipv6ResolverMinResponses'',
      cfg_notificationsEnabled = bool_field cfg ''notificationsEnabled'',
      cfg_notificationsOnSuccess = bool_field cfg ''notificationsOnSuccess'',
      cfg_notificationsCooldownMinutes = int_field cfg ''notificationsCooldownMinutes'',
      cfg_notificationsSubjectPrefix = str_field cfg ''notificationsSubjectPrefix'',
      cfg_notificationsRecipients = strs_field cfg ''notificationsRecipients'',
      cfg_acmeEnabled = bool_field cfg ''acmeEnabled'',
      cfg_acmeEmail = str_field cfg ''acmeEmail'',
      cfg_acmeStaging = bool_field cfg ''acmeStaging'',
      cfg_acmeRenewBeforeDays = int_field cfg ''acmeRenewBeforeDays''\<rparr>"

lemma config_field:
  "get (Configuration_toJSON m) k = (case map_of (Configuration_fields m) k of Some (Some v) \<Rightarrow> v | _ \<Rightarrow> JUndef)"
  unfolding Configuration_toJSON_def by (rule get_to_obj [OF Configuration_plain])

lemma sent_staging:
  "bool_field (Configuration_toJSON m) ''acmeStaging'' = (if Configuration_acmeStaging m then Some True else None)"
  by (simp add: bool_field_def config_field Configuration_fields_def to_defs)

lemma sent_cooldown:
  "int_field (Configuration_toJSON m) ''notificationsCooldownMinutes'' =
     (let n = Configuration_notificationsCooldownMinutes m in if n = num 0 then None else int_of (math_round n))"
  by (simp add: int_field_def config_field Configuration_fields_def to_defs Let_def)

text \<open>
  C21. A configuration in the JSON of \<open>toJSON\<close>, which leaves out false and zero, cannot switch
  the staging directory off: the drawer shows it as on and saves it as on, and shows a cooldown of
  zero as sixty minutes, although \<open>fromJSON\<close> reads both back as they were.
\<close>

theorem omitted_defaults_flip:
  assumes "Configuration_whole m" "Configuration_notificationsCooldownMinutes m = num n"
  shows "let shown = patch_config (received_config (Configuration_toJSON m)) in
    cfg_acmeStaging shown = Some True \<and> cfg_acmeStaging (config_payload shown) = Some True \<and>
    cfg_notificationsCooldownMinutes shown = Some (if n = 0 then 60 else n) \<and>
    Configuration_fromJSON (Configuration_toJSON m) = Inr m"
  using assms(2) Configuration_json [OF assms(1)]
  by (simp add: Let_def patch_config_def received_config_def config_payload_def sent_staging sent_cooldown)

lemma omitted_defaults_flip_witness:
  "cfg_acmeStaging (patch_config (received_config (Configuration_toJSON
     (sample_configuration\<lparr>Configuration_acmeStaging := False\<rparr>)))) = Some True"
proof -
  have "Configuration_whole (sample_configuration\<lparr>Configuration_acmeStaging := False\<rparr>)"
    by (simp add: Configuration_whole_def sample_configuration_def createBaseConfiguration_def whole_def finite_dec)
  from omitted_defaults_flip [OF this, of 0] show ?thesis
    by (simp add: Let_def sample_configuration_def createBaseConfiguration_def)
qed

end
